(* ===== verification/Forte_Prelude.thy ===== *)
theory Forte_Prelude
  imports Main "HOL-Library.Word"
begin

text \<open>
  Shared vocabulary of the development: the machine types of \<^verbatim>\<open>src/src/arch/datatype.h\<close>, the
  management commands and responses of \<^verbatim>\<open>src/src/core/mgmcmd.h\<close>, the lemma collections the
  component theories fill, and the generic list facts they share.
\<close>

type_synonym u8 = "8 word"
type_synonym u16 = "16 word"
type_synonym u32 = "32 word"
type_synonym u64 = "64 word"

text \<open>Collections: \<open>ring_simps\<close> for the event ring buffers, \<open>frame_simps\<close> for
  "this operation leaves that part of the state alone" facts.\<close>

named_theorems ring_simps
named_theorems frame_simps

text \<open>\<open>cg_unInvalidPortId\<close>, \<open>cg_nInvalidEventID\<close> and \<open>cg_nExternalEventID\<close>.\<close>

definition cg_unInvalidPortId :: nat where
  "cg_unInvalidPortId = 255"

definition cg_nInvalidEventID :: nat where
  "cg_nInvalidEventID = cg_unInvalidPortId"

definition cg_nExternalEventID :: nat where
  "cg_nExternalEventID = 254"

text \<open>The management commands and their responses.\<close>

datatype EMGMCommandType =
    cg_nMGM_CMD_Create_Group | cg_nMGM_CMD_Create_DataType
  | cg_nMGM_CMD_Create_FBType | cg_nMGM_CMD_Create_AdapterType
  | cg_nMGM_CMD_Create_FBInstance | cg_nMGM_CMD_Create_Connection
  | cg_nMGM_CMD_Delete_Group | cg_nMGM_CMD_Delete_DataType
  | cg_nMGM_CMD_Delete_FBType | cg_nMGM_CMD_Delete_FBInstance
  | cg_nMGM_CMD_Delete_Connection | cg_nMGM_CMD_Delete_AllFBInstances
  | cg_nMGM_CMD_Start | cg_nMGM_CMD_Stop
  | cg_nMGM_CMD_Read | cg_nMGM_CMD_Write
  | cg_nMGM_CMD_Kill | cg_nMGM_CMD_Query_Group
  | cg_nMGM_CMD_QUERY_FB | cg_nMGM_CMD_QUERY_Connection
  | cg_nMGM_CMD_QUERY_FBTypes | cg_nMGM_CMD_QUERY_DTTypes
  | cg_nMGM_CMD_QUERY_AdapterTypes | cg_nMGM_CMD_QUERY_TypeVers
  | cg_nMGM_CMD_Reset | cg_nMGM_CMD_Monitoring_Group
  | cg_nMGM_CMD_Monitoring_Add_Watch | cg_nMGM_CMD_Monitoring_Remove_Watch
  | cg_nMGM_CMD_Monitoring_Read_Watches | cg_nMGM_CMD_Monitoring_Get_Watches
  | cg_nMGM_CMD_Monitoring_Force | cg_nMGM_CMD_Monitoring_ClearForce
  | cg_nMGM_CMD_Monitoring_Trigger_Event | cg_nMGM_CMD_Monitoring_Reset_Event_Count
  | cg_nMGM_CMD_INVALID

datatype EMGMResponse =
    e_RDY | e_BAD_PARAMS | e_LOCAL_TERMINATION | e_SYSTEM_TERMINATION | e_NOT_READY
  | e_UNSUPPORTED_CMD | e_UNSUPPORTED_TYPE | e_NO_SUCH_OBJECT | e_INVALID_OBJECT
  | e_INVALID_OPERATION | e_INVALID_STATE | e_OVERFLOW | e_INVALID_DST

text \<open>Lists.\<close>

lemma map_nth_upt_id: "map ((!) xs) [0..<length xs] = xs"
  by (rule map_nth)

lemma nth_list_update_if:
  "i < length xs \<Longrightarrow> xs[i := x] ! j = (if j = i then x else xs ! j)"
  by simp

lemma list_eqI_nth:
  "length xs = length ys \<Longrightarrow> (\<And>i. i < length xs \<Longrightarrow> xs ! i = ys ! i) \<Longrightarrow> xs = ys"
  by (rule nth_equalityI)

text \<open>Words, bit by bit: equality of short words becomes a finite conjunction.\<close>

lemma all_less_numeral:
  "(\<forall>n < numeral k. P n) \<longleftrightarrow> P (pred_numeral k) \<and> (\<forall>n < pred_numeral k. P n)"
  by (auto simp: numeral_eq_Suc less_Suc_eq)

lemma u8_eqI: "(\<forall>n < 8. bit (a :: u8) n = bit b n) \<Longrightarrow> a = b"
  by (rule bit_word_eqI) auto

lemma u32_eqI: "(\<forall>n < 32. bit (a :: u32) n = bit b n) \<Longrightarrow> a = b"
  by (rule bit_word_eqI) auto

lemma u16_eqI: "(\<forall>n < 16. bit (a :: u16) n = bit b n) \<Longrightarrow> a = b"
  by (rule bit_word_eqI) auto

end
