(* ===== verification/Event_Chain.thy ===== *)
theory Event_Chain
  imports Forte_Prelude
begin

text \<open>
  The event chain execution thread, \<^verbatim>\<open>src/src/core/ecet.cpp\<close> (\<open>CEventChainExecutionThread\<close>).

  Both event lists (\<open>mEventList\<close> and \<open>mExternalEventList\<close>) are arrays of pointers used as ring
  buffers that run from the highest index down to 0; a null pointer is an empty slot. A ring is
  modelled by its slots and the indices that the \<open>Start\<close> and \<open>End\<close> pointers point to. The list
  sizes \<open>cg_nEventChainEventListSize\<close> and \<open>cg_nEventChainExternalEventListSize\<close> are build-time
  constants and stay parameters. The thread object is an extensible record, so that the state of
  the resource it runs in extends it.
\<close>

section \<open>The ring buffer\<close>

record 'e ring =
  slots :: "'e option list"
  rstart :: nat
  rend :: nat

text \<open>\<open>memset\<close> to null and both pointers on the last element.\<close>

definition ring_clear :: "nat \<Rightarrow> 'e ring" where
  "ring_clear n = \<lparr>slots = replicate n None, rstart = n - 1, rend = n - 1\<rparr>"

text \<open>"wrap the ringbuffer": the element before index 0 is the last one.\<close>

definition ring_prev :: "'e ring \<Rightarrow> nat \<Rightarrow> nat" where
  "ring_prev r i = (if i = 0 then length (slots r) - 1 else i - 1)"

text \<open>The body of \<open>addEventEntry\<close>, which \<open>startEventChain\<close> repeats on the external list.\<close>

definition ring_push :: "'e \<Rightarrow> 'e ring \<Rightarrow> 'e ring" where
  "ring_push x r =
     (if slots r ! rend r = None then
        let r' = r\<lparr>slots := (slots r)[rend r := Some x]\<rparr>;
            nextElem = ring_prev r (rend r)
        in if rstart r \<noteq> nextElem then r'\<lparr>rend := nextElem\<rparr> else r'
      else r)"

text \<open>Clearing the slot at \<open>Start\<close> and stepping on, as \<open>run\<close> and \<open>transferExternalEvents\<close> do.\<close>

definition ring_drop :: "'e ring \<Rightarrow> 'e ring" where
  "ring_drop r = r\<lparr>slots := (slots r)[rstart r := None], rstart := ring_prev r (rstart r)\<rparr>"

definition ring_first :: "'e ring \<Rightarrow> 'e option" where
  "ring_first r = slots r ! rstart r"

definition ring_nonempty :: "'e ring \<Rightarrow> bool" where
  "ring_nonempty r \<longleftrightarrow> rstart r \<noteq> rend r"

section \<open>The thread\<close>

record 'e ecet =
  mEventList :: "'e ring"
  mExternalEventList :: "'e ring"
  mProcessingEvents :: bool
  mSuspendSemaphore :: nat
  mAlive :: bool

definition ecet_clear :: "('e, 'z) ecet_scheme \<Rightarrow> ('e, 'z) ecet_scheme" where
  "ecet_clear s = s\<lparr>mEventList := ring_clear (length (slots (mEventList s))),
     mExternalEventList := ring_clear (length (slots (mExternalEventList s)))\<rparr>"

definition addEventEntry :: "'e \<Rightarrow> ('e, 'z) ecet_scheme \<Rightarrow> ('e, 'z) ecet_scheme" where
  "addEventEntry x s = s\<lparr>mEventList := ring_push x (mEventList s)\<rparr>"

definition resumeSelfSuspend :: "('e, 'z) ecet_scheme \<Rightarrow> ('e, 'z) ecet_scheme" where
  "resumeSelfSuspend s = s\<lparr>mSuspendSemaphore := Suc (mSuspendSemaphore s)\<rparr>"

definition startEventChain :: "'e \<Rightarrow> ('e, 'z) ecet_scheme \<Rightarrow> ('e, 'z) ecet_scheme" where
  "startEventChain x s =
     resumeSelfSuspend (s\<lparr>mExternalEventList := ring_push x (mExternalEventList s),
       mProcessingEvents := True\<rparr>)"

definition externalEventOccured :: "('e, 'z) ecet_scheme \<Rightarrow> bool" where
  "externalEventOccured s \<longleftrightarrow> ring_nonempty (mExternalEventList s)"

text \<open>
  How many slots are filled: what one round of the transfer loop makes smaller.
\<close>

definition ring_load :: "'e ring \<Rightarrow> nat" where
  "ring_load r = length (filter (\<lambda>x. x \<noteq> None) (slots r))"

text \<open>
  The loop of \<open>transferExternalEvents\<close> steps on only when the slot at \<open>Start\<close> is filled. On an
  empty slot its body does nothing, inside the critical section that every writer of the list
  needs, so the loop never ends: the value \<open>None\<close>. (\<open>Start\<close> always points into the array;
  the first conjunct of the guard says so.)
\<close>

function transferExternalEvents :: "('e, 'z) ecet_scheme \<Rightarrow> ('e, 'z) ecet_scheme option" where
  "transferExternalEvents s =
     (if rstart (mExternalEventList s) < length (slots (mExternalEventList s))
         \<and> ring_nonempty (mExternalEventList s)
      then case ring_first (mExternalEventList s) of
          None \<Rightarrow> None
        | Some x \<Rightarrow> transferExternalEvents
            ((addEventEntry x s)\<lparr>mExternalEventList := ring_drop (mExternalEventList s)\<rparr>)
      else Some s)"
  by pat_completeness auto

lemma ring_load_drop:
  assumes "rstart r < length (slots r)" and "slots r ! rstart r = Some x"
  shows "ring_load (ring_drop r) < ring_load r"
proof -
  let ?xs = "slots r" and ?i = "rstart r"
  have split: "?xs = take ?i ?xs @ Some x # drop (Suc ?i) ?xs"
    using assms id_take_nth_drop by fastforce
  have upd: "?xs[?i := None] = take ?i ?xs @ None # drop (Suc ?i) ?xs"
    using assms(1) by (simp add: upd_conv_take_nth_drop)
  have "length (filter (\<lambda>x. x \<noteq> None) ?xs)
      = length (filter (\<lambda>x. x \<noteq> None) (take ?i ?xs @ Some x # drop (Suc ?i) ?xs))"
    using split by simp
  then show ?thesis
    by (simp add: ring_load_def ring_drop_def upd)
qed

termination transferExternalEvents
  by (relation "measure (\<lambda>s. ring_load (mExternalEventList s))")
     (auto simp: ring_first_def intro: ring_load_drop)

declare transferExternalEvents.simps [simp del]

text \<open>
  One round of the loop in \<open>run\<close>. The delivery of an event, \<open>receiveInputEvent\<close> of the entry's
  function block, is the parameter \<open>deliver\<close>: it may change everything, the event list included,
  and it is \<open>None\<close> when the block never returns. The result is \<open>None\<close> where the thread gets no
  further: then, in the endless transfer, and when it suspends itself on a semaphore that nobody
  has increased.
\<close>

definition selfSuspend :: "('e, 'z) ecet_scheme \<Rightarrow> ('e, 'z) ecet_scheme option" where
  "selfSuspend s =
     (case mSuspendSemaphore s of 0 \<Rightarrow> None | Suc c \<Rightarrow> Some (s\<lparr>mSuspendSemaphore := c\<rparr>))"

definition run_iteration ::
  "('e \<Rightarrow> ('e, 'z) ecet_scheme \<Rightarrow> ('e, 'z) ecet_scheme option) \<Rightarrow> ('e, 'z) ecet_scheme \<Rightarrow> ('e, 'z) ecet_scheme option"
  where
  "run_iteration deliver s =
     (case (if externalEventOccured s then transferExternalEvents s else Some s) of
        None \<Rightarrow> None
      | Some s1 \<Rightarrow>
          if \<not> ring_nonempty (mEventList s1) then
            map_option (\<lambda>s2. s2\<lparr>mProcessingEvents := True\<rparr>)
              (selfSuspend (s1\<lparr>mProcessingEvents := False\<rparr>))
          else
            map_option (\<lambda>s2. s2\<lparr>mEventList := ring_drop (mEventList s2)\<rparr>)
              (case ring_first (mEventList s1) of None \<Rightarrow> Some s1 | Some x \<Rightarrow> deliver x s1))"

text \<open>\<open>while(isAlive())\<close>, for at most \<open>n\<close> rounds.\<close>

fun run_thread ::
  "('e \<Rightarrow> ('e, 'z) ecet_scheme \<Rightarrow> ('e, 'z) ecet_scheme option) \<Rightarrow> nat \<Rightarrow> ('e, 'z) ecet_scheme \<Rightarrow> ('e, 'z) ecet_scheme option"
  where
  "run_thread deliver 0 s = Some s"
| "run_thread deliver (Suc n) s =
     (if mAlive s then
        (case run_iteration deliver s of None \<Rightarrow> None | Some s' \<Rightarrow> run_thread deliver n s')
      else Some s)"

text \<open>\<open>n\<close> rounds in any case.\<close>

fun run_rounds ::
  "('e \<Rightarrow> ('e, 'z) ecet_scheme \<Rightarrow> ('e, 'z) ecet_scheme option) \<Rightarrow> nat \<Rightarrow> ('e, 'z) ecet_scheme \<Rightarrow> ('e, 'z) ecet_scheme option"
  where
  "run_rounds deliver 0 s = Some s"
| "run_rounds deliver (Suc n) s =
     (case run_iteration deliver s of None \<Rightarrow> None | Some s' \<Rightarrow> run_rounds deliver n s')"

text \<open>
  \<open>changeExecutionState\<close>: the Kill case falls through into Stop. (Starting makes the thread alive
  and begins \<open>run\<close>.)
\<close>

definition ecet_changeExecutionState ::
  "EMGMCommandType \<Rightarrow> ('e, 'z) ecet_scheme \<Rightarrow> ('e, 'z) ecet_scheme" where
  "ecet_changeExecutionState cmd s =
     (case cmd of
        cg_nMGM_CMD_Start \<Rightarrow> (if \<not> mAlive s then s\<lparr>mAlive := True\<rparr> else s)
      | cg_nMGM_CMD_Kill \<Rightarrow> resumeSelfSuspend ((ecet_clear s)\<lparr>mAlive := False\<rparr>)
      | cg_nMGM_CMD_Stop \<Rightarrow> resumeSelfSuspend (s\<lparr>mAlive := False\<rparr>)
      | _ \<Rightarrow> s)"

section \<open>What the ring holds\<close>

text \<open>
  The slot \<open>k\<close> steps behind \<open>Start\<close>, the number of slots between \<open>Start\<close> and \<open>End\<close>, the events in
  them in the order they will be delivered, and the slot \<open>End\<close> points to. That slot is free unless
  the list has once been filled up: then it holds one more event, which \<open>Start = End\<close> hides.
\<close>

definition ring_pos :: "'e ring \<Rightarrow> nat \<Rightarrow> nat" where
  "ring_pos r k = (if k \<le> rstart r then rstart r - k else rstart r + length (slots r) - k)"

definition ring_count :: "'e ring \<Rightarrow> nat" where
  "ring_count r =
     (if rend r \<le> rstart r then rstart r - rend r else rstart r + length (slots r) - rend r)"

definition ring_queue :: "'e ring \<Rightarrow> 'e list" where
  "ring_queue r = map (\<lambda>k. the (slots r ! ring_pos r k)) [0..<ring_count r]"

definition ring_latch :: "'e ring \<Rightarrow> 'e option" where
  "ring_latch r = slots r ! rend r"

definition ring_wf :: "'e ring \<Rightarrow> bool" where
  "ring_wf r \<longleftrightarrow> rstart r < length (slots r) \<and> rend r < length (slots r)
     \<and> (\<forall>k < length (slots r). (k < ring_count r \<longrightarrow> slots r ! ring_pos r k \<noteq> None)
          \<and> (ring_count r < k \<longrightarrow> slots r ! ring_pos r k = None))"

text \<open>The abstract ring: a queue and the latch; \<open>n\<close> is the number of slots.\<close>

fun aring_push :: "nat \<Rightarrow> 'e \<Rightarrow> 'e list \<times> 'e option \<Rightarrow> 'e list \<times> 'e option" where
  "aring_push n x (q, Some y) = (q, Some y)"
| "aring_push n x (q, None) = (if length q + 1 < n then (q @ [x], None) else (q, Some x))"

lemma ring_pos_less: "rstart r < length (slots r) \<Longrightarrow> k < length (slots r) \<Longrightarrow> ring_pos r k < length (slots r)"
  by (auto simp: ring_pos_def)

lemma ring_pos_inj:
  "rstart r < length (slots r) \<Longrightarrow> k < length (slots r) \<Longrightarrow> l < length (slots r) \<Longrightarrow>
    ring_pos r k = ring_pos r l \<longleftrightarrow> k = l"
  by (auto simp: ring_pos_def split: if_splits)

lemma ring_pos_count:
  "rstart r < length (slots r) \<Longrightarrow> rend r < length (slots r) \<Longrightarrow> ring_pos r (ring_count r) = rend r"
  by (auto simp: ring_pos_def ring_count_def)

lemma ring_count_less:
  "rstart r < length (slots r) \<Longrightarrow> rend r < length (slots r) \<Longrightarrow> ring_count r < length (slots r)"
  by (auto simp: ring_count_def)

lemma ring_prev_pos:
  "rstart r < length (slots r) \<Longrightarrow> Suc k < length (slots r) \<Longrightarrow>
    ring_prev r (ring_pos r k) = ring_pos r (Suc k)"
  by (auto simp: ring_pos_def ring_prev_def)

lemma ring_prev_full:
  "rstart r < length (slots r) \<Longrightarrow> Suc k = length (slots r) \<Longrightarrow>
    ring_prev r (ring_pos r k) = rstart r"
  by (auto simp: ring_pos_def ring_prev_def)

lemma ring_wfD:
  assumes "ring_wf r"
  shows "rstart r < length (slots r)" and "rend r < length (slots r)"
    and "\<And>k. k < ring_count r \<Longrightarrow> slots r ! ring_pos r k \<noteq> None"
    and "\<And>k. ring_count r < k \<Longrightarrow> k < length (slots r) \<Longrightarrow> slots r ! ring_pos r k = None"
  using assms ring_count_less [of r] by (auto simp: ring_wf_def)

lemma ring_nonempty_count:
  "rstart r < length (slots r) \<Longrightarrow> rend r < length (slots r) \<Longrightarrow> ring_nonempty r \<longleftrightarrow> 0 < ring_count r"
  by (auto simp: ring_nonempty_def ring_count_def)

lemma ring_nonempty_queue: "ring_wf r \<Longrightarrow> ring_nonempty r \<longleftrightarrow> ring_queue r \<noteq> []"
  by (auto simp: ring_nonempty_count ring_wfD ring_queue_def)

lemma ring_clear_wf: "0 < n \<Longrightarrow> ring_wf (ring_clear n)"
  by (auto simp: ring_wf_def ring_clear_def ring_count_def ring_pos_def)

lemma ring_clear_abs: "0 < n \<Longrightarrow> ring_queue (ring_clear n) = [] \<and> ring_latch (ring_clear n) = None"
  by (simp add: ring_queue_def ring_latch_def ring_clear_def ring_count_def)

section \<open>The ring refines the queue with a latch\<close>

lemma ring_push_slots_length [simp]: "length (slots (ring_push x r)) = length (slots r)"
  by (simp add: ring_push_def Let_def)

lemma ring_push_start [simp]: "rstart (ring_push x r) = rstart r"
  by (simp add: ring_push_def Let_def)

lemma ring_drop_length [simp]: "length (slots (ring_drop r)) = length (slots r)"
  by (simp add: ring_drop_def)

text \<open>The three cases of a push.\<close>

lemma ring_push_dropped: "ring_latch r \<noteq> None \<Longrightarrow> ring_push x r = r"
  by (auto simp: ring_push_def ring_latch_def)

lemma ring_push_free:
  assumes "ring_wf r" "ring_latch r = None" "Suc (ring_count r) < length (slots r)"
  shows "ring_push x r = r\<lparr>slots := (slots r)[rend r := Some x], rend := ring_pos r (Suc (ring_count r))\<rparr>"
proof -
  note b = ring_wfD [OF assms(1)]
  have "ring_prev r (rend r) = ring_pos r (Suc (ring_count r))"
    using ring_prev_pos [OF b(1) assms(3)] ring_pos_count [OF b(1,2)] by simp
  moreover have "ring_pos r (Suc (ring_count r)) \<noteq> rstart r"
    using b(1) assms(3) by (auto simp: ring_pos_def split: if_splits)
  ultimately show ?thesis
    using assms(2) by (auto simp: ring_push_def ring_latch_def Let_def)
qed

lemma ring_push_latching:
  assumes "ring_wf r" "ring_latch r = None" "Suc (ring_count r) = length (slots r)"
  shows "ring_push x r = r\<lparr>slots := (slots r)[rend r := Some x]\<rparr>"
proof -
  note b = ring_wfD [OF assms(1)]
  have "ring_prev r (rend r) = rstart r"
    using ring_prev_full [OF b(1) assms(3)] ring_pos_count [OF b(1,2)] by simp
  then show ?thesis
    using assms(2) by (auto simp: ring_push_def ring_latch_def Let_def)
qed

text \<open>A write to the slot \<open>End\<close> points to, seen from \<open>Start\<close>.\<close>

lemma ring_slot_upd_end:
  assumes "ring_wf r" "k < length (slots r)"
  shows "(slots r)[rend r := y] ! ring_pos r k = (if k = ring_count r then y else slots r ! ring_pos r k)"
proof -
  note b = ring_wfD [OF assms(1)]
  have "ring_pos r k = rend r \<longleftrightarrow> k = ring_count r"
    using ring_pos_inj [OF b(1) assms(2) ring_count_less [OF b(1,2)]] ring_pos_count [OF b(1,2)] by simp
  then show ?thesis
    using b(2) by (auto simp: nth_list_update)
qed

lemma ring_count_eqI:
  "rstart r < length (slots r) \<Longrightarrow> k < length (slots r) \<Longrightarrow> rend r = ring_pos r k \<Longrightarrow> ring_count r = k"
  by (auto simp: ring_count_def ring_pos_def split: if_splits)

lemma ring_push_free_refines:
  assumes "ring_wf r" "ring_latch r = None" "Suc (ring_count r) < length (slots r)"
  shows "ring_wf (ring_push x r)" and "ring_queue (ring_push x r) = ring_queue r @ [x]"
    and "ring_latch (ring_push x r) = None"
proof -
  let ?c = "ring_count r" and ?r = "ring_push x r"
  note b = ring_wfD [OF assms(1)]
  note eq = ring_push_free [OF assms, of x]
  have pos: "ring_pos ?r k = ring_pos r k" for k
    by (simp add: ring_pos_def)
  have cnt: "ring_count ?r = Suc ?c"
    using b(1) assms(3) by (intro ring_count_eqI) (simp_all add: pos, simp add: eq)
  have slot: "slots ?r ! ring_pos r k = (if k = ?c then Some x else slots r ! ring_pos r k)"
    if "k < length (slots r)" for k
    using ring_slot_upd_end [OF assms(1) that] by (simp add: eq)
  show "ring_wf ?r"
    using b assms(3) ring_pos_less [OF b(1) assms(3)]
    by (auto simp: ring_wf_def cnt pos slot) (simp add: eq)
  show "ring_queue ?r = ring_queue r @ [x]"
    using assms(3) by (auto simp: ring_queue_def cnt pos slot)
  show "ring_latch ?r = None"
    using b(4) [of "Suc ?c"] assms(3) slot [of "Suc ?c"] by (simp add: ring_latch_def eq)
qed

lemma ring_push_latching_refines:
  assumes "ring_wf r" "ring_latch r = None" "Suc (ring_count r) = length (slots r)"
  shows "ring_wf (ring_push x r)" and "ring_queue (ring_push x r) = ring_queue r"
    and "ring_latch (ring_push x r) = Some x"
proof -
  let ?c = "ring_count r" and ?r = "ring_push x r"
  note b = ring_wfD [OF assms(1)]
  note eq = ring_push_latching [OF assms, of x]
  have pos: "ring_pos ?r k = ring_pos r k" for k
    by (simp add: ring_pos_def)
  have cnt: "ring_count ?r = ?c"
    by (simp add: ring_count_def eq)
  have slot: "slots ?r ! ring_pos r k = (if k = ?c then Some x else slots r ! ring_pos r k)"
    if "k < length (slots r)" for k
    using ring_slot_upd_end [OF assms(1) that] by (simp add: eq)
  show "ring_wf ?r"
    using b assms(3) by (auto simp: ring_wf_def cnt pos slot) (simp add: eq)
  show "ring_queue ?r = ring_queue r"
    using assms(3) by (auto simp: ring_queue_def cnt pos slot)
  show "ring_latch ?r = Some x"
    using b(2) by (simp add: ring_latch_def eq)
qed

lemma length_ring_queue [simp]: "length (ring_queue r) = ring_count r"
  by (simp add: ring_queue_def)

text \<open>The refinement: a push of the array is a push of the abstract ring.\<close>

lemma ring_push_refines:
  assumes "ring_wf r"
  shows "ring_wf (ring_push x r)"
    and "(ring_queue (ring_push x r), ring_latch (ring_push x r))
      = aring_push (length (slots r)) x (ring_queue r, ring_latch r)"
proof -
  note b = ring_wfD [OF assms]
  have c: "ring_count r < length (slots r)"
    using ring_count_less [OF b(1,2)] .
  consider "ring_latch r \<noteq> None" | "ring_latch r = None" "Suc (ring_count r) < length (slots r)"
    | "ring_latch r = None" "Suc (ring_count r) = length (slots r)"
    using c by (cases "Suc (ring_count r) < length (slots r)") auto
  then have "ring_wf (ring_push x r) \<and> (ring_queue (ring_push x r), ring_latch (ring_push x r))
      = aring_push (length (slots r)) x (ring_queue r, ring_latch r)"
    by cases (auto simp: assms ring_push_dropped ring_push_free_refines ring_push_latching_refines)
  then show "ring_wf (ring_push x r)" and "(ring_queue (ring_push x r), ring_latch (ring_push x r))
      = aring_push (length (slots r)) x (ring_queue r, ring_latch r)"
    by simp_all
qed

lemma ring_drop_refines:
  assumes "ring_wf r" "ring_nonempty r"
  shows "ring_wf (ring_drop r)" and "ring_queue (ring_drop r) = tl (ring_queue r)"
    and "ring_latch (ring_drop r) = ring_latch r"
proof -
  let ?r = "ring_drop r" and ?n = "length (slots r)"
  note b = ring_wfD [OF assms(1)]
  have c: "0 < ring_count r" "ring_count r < ?n"
    using assms(2) ring_nonempty_count [OF b(1,2)] ring_count_less [OF b(1,2)] by auto
  have start: "rstart ?r = ring_pos r 1"
    using b(1) c by (auto simp: ring_drop_def ring_prev_def ring_pos_def)
  have pos: "ring_pos ?r k = ring_pos r (Suc k)" if "Suc k < ?n" for k
    using b(1) c that by (auto simp: ring_pos_def start)
  have pos_last: "ring_pos ?r (?n - 1) = rstart r"
    using b(1) c by (auto simp: ring_pos_def start)
  have cnt: "ring_count ?r = ring_count r - 1"
  proof (rule ring_count_eqI)
    show "rend ?r = ring_pos ?r (ring_count r - 1)"
      using pos [of "ring_count r - 1"] c ring_pos_count [OF b(1,2)] by (simp add: ring_drop_def)
  qed (use c b(1) ring_pos_less [OF b(1), of 1] in \<open>auto simp: start\<close>)
  have slot: "slots ?r ! ring_pos ?r k = slots r ! ring_pos r (Suc k)" if "Suc k < ?n" for k
  proof -
    have "ring_pos r (Suc k) \<noteq> rstart r"
      using that b(1) by (auto simp: ring_pos_def split: if_splits)
    then show ?thesis
      by (simp only: pos [OF that]) (simp add: ring_drop_def)
  qed
  have slot_last: "slots ?r ! ring_pos ?r (?n - 1) = None"
    using b(1) by (simp only: pos_last) (simp add: ring_drop_def)
  have wf: "(k < ring_count ?r \<longrightarrow> slots ?r ! ring_pos ?r k \<noteq> None)
      \<and> (ring_count ?r < k \<longrightarrow> slots ?r ! ring_pos ?r k = None)" if "k < ?n" for k
  proof (cases "Suc k < ?n")
    case True
    then show ?thesis
      using b(3) [of "Suc k"] b(4) [of "Suc k"] c by (auto simp: cnt slot)
  next
    case False
    with that have "k = ?n - 1" by simp
    then show ?thesis
      using slot_last c by (auto simp: cnt)
  qed
  show "ring_wf ?r"
    using wf b(1,2) ring_pos_less [OF b(1), of 1] c by (simp add: ring_wf_def start) (simp add: ring_drop_def)
  show "ring_queue ?r = tl (ring_queue r)"
    using c by (intro list_eqI_nth) (auto simp: ring_queue_def cnt slot nth_tl nth_upt simp del: upt_Suc)
  show "ring_latch ?r = ring_latch r"
    using assms(2) b(1,2) by (auto simp: ring_latch_def ring_drop_def ring_nonempty_def)
qed

lemma ring_first_queue:
  assumes "ring_wf r" "ring_nonempty r"
  shows "ring_first r = Some (hd (ring_queue r))"
proof -
  note b = ring_wfD [OF assms(1)]
  have c: "0 < ring_count r"
    using assms(2) ring_nonempty_count [OF b(1,2)] by auto
  have "slots r ! ring_pos r 0 \<noteq> None"
    using b(3) c by blast
  with c show ?thesis
    by (auto simp: ring_first_def ring_queue_def ring_pos_def hd_map upt_conv_Cons)
qed

section \<open>Posting a batch of events\<close>

lemma fold_push_length [simp]: "length (slots (fold ring_push ps r)) = length (slots r)"
  by (induction ps arbitrary: r) simp_all

lemma fold_push_refines:
  "ring_wf r \<Longrightarrow> ring_wf (fold ring_push ps r)
    \<and> (ring_queue (fold ring_push ps r), ring_latch (fold ring_push ps r))
      = fold (aring_push (length (slots r))) ps (ring_queue r, ring_latch r)"
proof (induction ps arbitrary: r)
  case (Cons x ps)
  then show ?case
    using ring_push_refines [OF Cons.prems, of x] by (simp flip: ring_push_refines(2) [OF Cons.prems])
qed simp

lemma fold_push_wf: "ring_wf r \<Longrightarrow> ring_wf (fold ring_push ps r)"
  using fold_push_refines by blast

lemma fold_aring_latched: "fold (aring_push n) ps (q, Some y) = (q, Some y)"
  by (induction ps) simp_all

lemma fold_aring_fits:
  "length q + length ps < n \<Longrightarrow> fold (aring_push n) ps (q, None) = (q @ ps, None)"
  by (induction ps arbitrary: q) simp_all

lemma fold_aring_prefix:
  "\<exists>ps'. fst (fold (aring_push n) ps (q, l)) = q @ ps'"
proof (induction ps arbitrary: q l)
  case (Cons x ps)
  show ?case
  proof (cases l)
    case None
    then show ?thesis
      using Cons.IH [of "q @ [x]" None] Cons.IH [of q "Some x"] by auto
  qed (simp add: fold_aring_latched)
qed simp

lemma fold_push_start [simp]: "rstart (fold ring_push ps r) = rstart r"
  by (induction ps arbitrary: r) simp_all

lemma fold_push_prefix:
  assumes "ring_wf r"
  obtains ps' where "ring_queue (fold ring_push ps r) = ring_queue r @ ps'"
proof -
  obtain ps' where "fst (fold (aring_push (length (slots r))) ps (ring_queue r, ring_latch r)) = ring_queue r @ ps'"
    using fold_aring_prefix by blast
  with fold_push_refines [OF assms, of ps] have "ring_queue (fold ring_push ps r) = ring_queue r @ ps'"
    by (metis fst_conv)
  then show thesis by (rule that)
qed

lemma fold_push_nonempty:
  assumes "ring_wf r" "ring_nonempty r"
  shows "ring_nonempty (fold ring_push ps r)"
proof -
  obtain ps' where "ring_queue (fold ring_push ps r) = ring_queue r @ ps'"
    using fold_push_prefix [OF assms(1)] .
  then show ?thesis
    using assms fold_push_refines [OF assms(1), of ps] by (auto simp: ring_nonempty_queue)
qed

lemma fold_push_latched:
  assumes "ring_wf r" "ring_latch r = Some y"
  shows "ring_queue (fold ring_push ps r) = ring_queue r" and "ring_latch (fold ring_push ps r) = Some y"
  using fold_push_refines [OF assms(1), of ps] assms(2) by (simp_all add: fold_aring_latched)

lemma fold_push_fits:
  assumes "ring_wf r" "ring_latch r = None" "length (ring_queue r) + length ps < length (slots r)"
  shows "ring_queue (fold ring_push ps r) = ring_queue r @ ps" and "ring_latch (fold ring_push ps r) = None"
  using fold_push_refines [OF assms(1), of ps] assms(2,3) by (simp_all add: fold_aring_fits)

section \<open>The thread over its two rings\<close>

definition ecet_wf :: "('e, 'z) ecet_scheme \<Rightarrow> bool" where
  "ecet_wf s \<longleftrightarrow> ring_wf (mEventList s) \<and> ring_wf (mExternalEventList s)"

text \<open>What the event list holds, seen as the abstract ring.\<close>

definition ecet_abs :: "('e, 'z) ecet_scheme \<Rightarrow> 'e list \<times> 'e option" where
  "ecet_abs s = (ring_queue (mEventList s), ring_latch (mEventList s))"

definition ecet_size :: "('e, 'z) ecet_scheme \<Rightarrow> nat" where
  "ecet_size s = length (slots (mEventList s))"

lemma addEventEntry_wf: "ecet_wf s \<Longrightarrow> ecet_wf (addEventEntry x s)"
  by (simp add: ecet_wf_def addEventEntry_def ring_push_refines)

lemma addEventEntry_abs: "ecet_wf s \<Longrightarrow> ecet_abs (addEventEntry x s) = aring_push (ecet_size s) x (ecet_abs s)"
  by (simp add: ecet_wf_def ecet_abs_def ecet_size_def addEventEntry_def ring_push_refines)

lemma ecet_clear_wf:
  "ecet_size s \<noteq> 0 \<Longrightarrow> slots (mExternalEventList s) \<noteq> [] \<Longrightarrow> ecet_wf (ecet_clear s)"
  by (simp add: ecet_wf_def ecet_clear_def ecet_size_def ring_clear_wf)

lemma startEventChain_wf: "ecet_wf s \<Longrightarrow> ecet_wf (startEventChain x s)"
  by (simp add: ecet_wf_def startEventChain_def resumeSelfSuspend_def ring_push_refines)

text \<open>The transfer loop always ends, and moves the external events over in their order.\<close>

lemma transfer_spec:
  assumes "ecet_wf s"
  shows "\<exists>r e. transferExternalEvents s = Some (s\<lparr>mEventList := r, mExternalEventList := e\<rparr>)
    \<and> r = fold ring_push (ring_queue (mExternalEventList s)) (mEventList s)
    \<and> ring_wf e \<and> \<not> ring_nonempty e \<and> ring_latch e = ring_latch (mExternalEventList s)
    \<and> length (slots e) = length (slots (mExternalEventList s))"
  using assms
proof (induction s rule: transferExternalEvents.induct)
  case (1 s)
  let ?e = "mExternalEventList s"
  have wf: "ring_wf ?e" and b: "rstart ?e < length (slots ?e)"
    using "1.prems" ring_wfD(1) by (auto simp: ecet_wf_def)
  show ?case
  proof (cases "ring_nonempty ?e")
    case False
    then have "ring_queue ?e = []"
      using ring_nonempty_queue [OF wf] by simp
    with False wf show ?thesis
      by (intro exI [of _ "mEventList s"] exI [of _ ?e]) (simp add: transferExternalEvents.simps)
  next
    case True
    let ?x = "hd (ring_queue ?e)"
    let ?s = "(addEventEntry ?x s)\<lparr>mExternalEventList := ring_drop ?e\<rparr>"
    note first = ring_first_queue [OF wf True] and dr = ring_drop_refines [OF wf True]
    have q: "ring_queue ?e = ?x # ring_queue (ring_drop ?e)"
      using dr(2) True ring_nonempty_queue [OF wf] by simp
    have step: "transferExternalEvents s = transferExternalEvents ?s"
      using True b first by (subst transferExternalEvents.simps) simp
    have "ecet_wf ?s"
      using "1.prems" dr(1) addEventEntry_wf [OF "1.prems"] by (simp add: ecet_wf_def)
    from "1.IH" [OF conjI [OF b True] first this] show ?thesis
      unfolding step by (subst q) (auto simp: addEventEntry_def dr(3))
  qed
qed

lemma transfer_cases:
  assumes "ecet_wf s"
  obtains s1 where
    "(if externalEventOccured s then transferExternalEvents s else Some s) = Some s1"
    "ecet_wf s1" "\<not> externalEventOccured s1"
    "mEventList s1 = fold ring_push (ring_queue (mExternalEventList s)) (mEventList s)"
    "mSuspendSemaphore s1 = mSuspendSemaphore s" "mAlive s1 = mAlive s" "ecet_size s1 = ecet_size s"
proof (cases "externalEventOccured s")
  case True
  obtain r e where t: "transferExternalEvents s = Some (s\<lparr>mEventList := r, mExternalEventList := e\<rparr>)"
    "r = fold ring_push (ring_queue (mExternalEventList s)) (mEventList s)" "ring_wf e" "\<not> ring_nonempty e"
    using transfer_spec [OF assms] by blast
  have "ring_wf r"
    using t(2) assms fold_push_refines by (auto simp: ecet_wf_def)
  with t True show ?thesis
    by (intro that [of "s\<lparr>mEventList := r, mExternalEventList := e\<rparr>"])
       (simp_all add: ecet_wf_def externalEventOccured_def ecet_size_def)
next
  case False
  have "ring_queue (mExternalEventList s) = []"
    using False assms ring_nonempty_queue by (auto simp: externalEventOccured_def ecet_wf_def)
  with False assms show ?thesis
    by (intro that [of s]) simp_all
qed

section \<open>The contract of the event receiver\<close>

text \<open>
  What the thread relies on when it delivers an event: the function block may post events, to the
  event list of the chain or to the external list, but it reaches the two rings in no other way.
\<close>

definition only_posts :: "('e, 'z) ecet_scheme \<Rightarrow> ('e, 'z) ecet_scheme \<Rightarrow> bool" where
  "only_posts s s' \<longleftrightarrow> (\<exists>ps. mEventList s' = fold ring_push ps (mEventList s))
     \<and> (\<exists>ps. mExternalEventList s' = fold ring_push ps (mExternalEventList s))"

lemma only_posts_refl [simp, intro]: "only_posts s s"
proof -
  have "\<exists>ps. r = fold ring_push ps r" for r :: "'a ring"
    by (rule exI [of _ "[]"]) simp
  then show ?thesis by (simp add: only_posts_def)
qed

lemma only_posts_trans:
  assumes "only_posts s t" "only_posts t u"
  shows "only_posts s u"
proof -
  obtain a b c d where "mEventList t = fold ring_push a (mEventList s)"
    "mEventList u = fold ring_push b (mEventList t)"
    "mExternalEventList t = fold ring_push c (mExternalEventList s)"
    "mExternalEventList u = fold ring_push d (mExternalEventList t)"
    using assms by (auto simp: only_posts_def)
  then have "mEventList u = fold ring_push (a @ b) (mEventList s)"
    "mExternalEventList u = fold ring_push (c @ d) (mExternalEventList s)"
    by simp_all
  then show ?thesis by (auto simp only: only_posts_def)
qed

lemma only_posts_frame:
  "mEventList s' = mEventList s \<Longrightarrow> mExternalEventList s' = mExternalEventList s \<Longrightarrow> only_posts s s'"
  unfolding only_posts_def by (intro conjI exI [of _ "[]"]) simp_all

lemma only_posts_add: "only_posts s (addEventEntry x s)"
proof -
  have "mEventList (addEventEntry x s) = fold ring_push [x] (mEventList s)"
    "mExternalEventList (addEventEntry x s) = fold ring_push [] (mExternalEventList s)"
    by (simp_all add: addEventEntry_def)
  then show ?thesis by (auto simp only: only_posts_def)
qed

lemma only_posts_start: "only_posts s (startEventChain x s)"
proof -
  have "mEventList (startEventChain x s) = fold ring_push [] (mEventList s)"
    "mExternalEventList (startEventChain x s) = fold ring_push [x] (mExternalEventList s)"
    by (simp_all add: startEventChain_def resumeSelfSuspend_def)
  then show ?thesis by (auto simp only: only_posts_def)
qed

lemma only_posts_wf: "only_posts s s' \<Longrightarrow> ecet_wf s \<Longrightarrow> ecet_wf s'"
  by (auto simp: only_posts_def ecet_wf_def fold_push_wf)

text \<open>What a round does after the transfer, in terms of the queue.\<close>

definition deliver_or_suspend ::
  "('e \<Rightarrow> ('e, 'z) ecet_scheme \<Rightarrow> ('e, 'z) ecet_scheme option) \<Rightarrow> ('e, 'z) ecet_scheme \<Rightarrow> ('e, 'z) ecet_scheme option"
  where
  "deliver_or_suspend deliver s1 =
     (if ring_queue (mEventList s1) = [] then
        map_option (\<lambda>t. t\<lparr>mProcessingEvents := True\<rparr>) (selfSuspend (s1\<lparr>mProcessingEvents := False\<rparr>))
      else map_option (\<lambda>s2. s2\<lparr>mEventList := ring_drop (mEventList s2)\<rparr>)
        (deliver (hd (ring_queue (mEventList s1))) s1))"

locale event_receiver =
  fixes deliver :: "'e \<Rightarrow> ('e, 'z) ecet_scheme \<Rightarrow> ('e, 'z) ecet_scheme option"
  assumes deliver_only_posts: "deliver x s = Some s' \<Longrightarrow> only_posts s s'"
begin

text \<open>One delivery, from a state that the transfer has left: \<open>ps\<close> are the events it posts.\<close>

lemma step_after_transfer:
  assumes "ecet_wf s1" "ring_nonempty (mEventList s1)" "deliver (hd (ring_queue (mEventList s1))) s1 = Some s2"
  obtains ps where "mEventList s2 = fold ring_push ps (mEventList s1)"
    "ecet_wf (s2\<lparr>mEventList := ring_drop (mEventList s2)\<rparr>)"
    "ring_queue (ring_drop (mEventList s2)) = tl (ring_queue (mEventList s2))"
    "ring_latch (ring_drop (mEventList s2)) = ring_latch (mEventList s2)"
    "ecet_size (s2\<lparr>mEventList := ring_drop (mEventList s2)\<rparr>) = ecet_size s1"
proof -
  have po: "only_posts s1 s2"
    using deliver_only_posts [OF assms(3)] .
  then obtain ps where ps: "mEventList s2 = fold ring_push ps (mEventList s1)"
    by (auto simp: only_posts_def)
  have wf2: "ecet_wf s2"
    using only_posts_wf [OF po assms(1)] .
  have ne: "ring_nonempty (mEventList s2)"
    using assms ps fold_push_nonempty by (auto simp: ecet_wf_def)
  have wfe: "ring_wf (mEventList s2)" "ring_wf (mExternalEventList s2)"
    using wf2 by (simp_all add: ecet_wf_def)
  show thesis
    using ring_drop_refines [OF wfe(1) ne] wfe ps
    by (intro that [of ps]) (simp_all add: ecet_wf_def ecet_size_def)
qed

text \<open>
  What a round does: it delivers the oldest pending event, or suspends when there is none. \<open>s1\<close> is
  the state after the transfer.
\<close>

lemma run_iteration_cases:
  assumes "ecet_wf s"
  obtains s1 where "ecet_wf s1"
      "mEventList s1 = fold ring_push (ring_queue (mExternalEventList s)) (mEventList s)"
      "mSuspendSemaphore s1 = mSuspendSemaphore s" "ecet_size s1 = ecet_size s"
      "run_iteration deliver s = deliver_or_suspend deliver s1"
proof -
  obtain s1 where t: "(if externalEventOccured s then transferExternalEvents s else Some s) = Some s1"
    "ecet_wf s1"
    "mEventList s1 = fold ring_push (ring_queue (mExternalEventList s)) (mEventList s)"
    "mSuspendSemaphore s1 = mSuspendSemaphore s" "ecet_size s1 = ecet_size s"
    using transfer_cases [OF assms] by metis
  have wf1: "ring_wf (mEventList s1)"
    using t(2) by (simp add: ecet_wf_def)
  have "run_iteration deliver s = deliver_or_suspend deliver s1"
    unfolding run_iteration_def deliver_or_suspend_def t(1)
    using ring_nonempty_queue [OF wf1] ring_first_queue [OF wf1] by simp
  with t(2-5) show thesis
    by (intro that)
qed

text \<open>Whatever a round does, the rings stay well formed.\<close>

lemma run_iteration_wf:
  assumes "ecet_wf s" "run_iteration deliver s = Some s'"
  shows "ecet_wf s' \<and> ecet_size s' = ecet_size s"
proof -
  obtain s1 where t: "ecet_wf s1"
      "mEventList s1 = fold ring_push (ring_queue (mExternalEventList s)) (mEventList s)"
      "mSuspendSemaphore s1 = mSuspendSemaphore s" "ecet_size s1 = ecet_size s"
      "run_iteration deliver s = deliver_or_suspend deliver s1"
    using run_iteration_cases [OF assms(1)] .
  show ?thesis
  proof (cases "ring_queue (mEventList s1) = []")
    case True
    then show ?thesis
      using assms(2) t(1,4,5) by (auto simp: deliver_or_suspend_def selfSuspend_def ecet_wf_def ecet_size_def split: nat.splits)
  next
    case False
    then obtain s2 where s2: "deliver (hd (ring_queue (mEventList s1))) s1 = Some s2"
      "s' = s2\<lparr>mEventList := ring_drop (mEventList s2)\<rparr>"
      using assms(2) t(5) by (auto simp: deliver_or_suspend_def)
    have "ring_nonempty (mEventList s1)"
      using False t(1) ring_nonempty_queue by (auto simp: ecet_wf_def)
    from step_after_transfer [OF t(1) this s2(1)] show ?thesis
      using s2(2) t(4) by (metis (no_types))
  qed
qed

lemma run_thread_wf:
  "ecet_wf s \<Longrightarrow> run_thread deliver n s = Some s' \<Longrightarrow> ecet_wf s' \<and> ecet_size s' = ecet_size s"
proof (induction n arbitrary: s)
  case (Suc n)
  show ?case
  proof (cases "mAlive s")
    case True
    then obtain s1 where "run_iteration deliver s = Some s1" "run_thread deliver n s1 = Some s'"
      using Suc.prems(2) by (auto split: option.splits)
    then show ?thesis
      using Suc.IH [of s1] run_iteration_wf [OF Suc.prems(1)] by simp
  qed (use Suc.prems in simp)
qed simp

text \<open>Once the list has been filled up, the event in the last slot stays there for ever, and no event
  that is posted later gets in: the queue can only shrink.\<close>

lemma run_iteration_latched:
  assumes "ecet_wf s" "ring_latch (mEventList s) = Some y" "run_iteration deliver s = Some s'"
  shows "ring_latch (mEventList s') = Some y \<and> ring_queue (mEventList s') = tl (ring_queue (mEventList s))"
proof -
  obtain s1 where t: "ecet_wf s1"
      "mEventList s1 = fold ring_push (ring_queue (mExternalEventList s)) (mEventList s)"
      "mSuspendSemaphore s1 = mSuspendSemaphore s" "ecet_size s1 = ecet_size s"
      "run_iteration deliver s = deliver_or_suspend deliver s1"
    using run_iteration_cases [OF assms(1)] .
  have wf: "ring_wf (mEventList s)" "ring_wf (mEventList s1)"
    using assms(1) t(1) by (simp_all add: ecet_wf_def)
  have q: "ring_queue (mEventList s1) = ring_queue (mEventList s)" "ring_latch (mEventList s1) = Some y"
    using fold_push_latched [OF wf(1) assms(2)] t(2) by simp_all
  show ?thesis
  proof (cases "ring_queue (mEventList s1) = []")
    case True
    then show ?thesis
      using assms(3) t(5) q by (auto simp: deliver_or_suspend_def selfSuspend_def split: nat.splits)
  next
    case False
    then obtain s2 where s2: "deliver (hd (ring_queue (mEventList s1))) s1 = Some s2"
      "s' = s2\<lparr>mEventList := ring_drop (mEventList s2)\<rparr>"
      using assms(3) t(5) by (auto simp: deliver_or_suspend_def)
    have "ring_nonempty (mEventList s1)"
      using False ring_nonempty_queue [OF wf(2)] by simp
    from step_after_transfer [OF t(1) this s2(1)] obtain ps where
      "mEventList s2 = fold ring_push ps (mEventList s1)"
      "ecet_wf (s2\<lparr>mEventList := ring_drop (mEventList s2)\<rparr>)"
      "ring_queue (ring_drop (mEventList s2)) = tl (ring_queue (mEventList s2))"
      "ring_latch (ring_drop (mEventList s2)) = ring_latch (mEventList s2)"
      "ecet_size (s2\<lparr>mEventList := ring_drop (mEventList s2)\<rparr>) = ecet_size s1" .
    then show ?thesis
      using s2(2) q fold_push_latched [OF wf(2) q(2), of ps] by simp
  qed
qed

lemma run_thread_latched:
  "ecet_wf s \<Longrightarrow> ring_latch (mEventList s) = Some y \<Longrightarrow> run_thread deliver n s = Some s' \<Longrightarrow>
    ring_latch (mEventList s') = Some y
    \<and> (\<exists>k \<le> n. ring_queue (mEventList s') = drop k (ring_queue (mEventList s)))"
proof (induction n arbitrary: s)
  case (Suc n)
  show ?case
  proof (cases "mAlive s")
    case True
    then obtain s1 where s1: "run_iteration deliver s = Some s1" "run_thread deliver n s1 = Some s'"
      using Suc.prems(3) by (auto split: option.splits)
    have l: "ring_latch (mEventList s1) = Some y" "ring_queue (mEventList s1) = tl (ring_queue (mEventList s))"
      using run_iteration_latched [OF Suc.prems(1,2) s1(1)] by auto
    have "ecet_wf s1"
      using run_iteration_wf [OF Suc.prems(1) s1(1)] by simp
    from Suc.IH [OF this l(1) s1(2)] l(2) obtain k where
      "ring_latch (mEventList s') = Some y" "k \<le> n"
      "ring_queue (mEventList s') = drop (Suc k) (ring_queue (mEventList s))"
      by (auto simp: drop_Suc)
    then show ?thesis
      using Suc_le_mono by blast
  next
    case False
    with Suc.prems show ?thesis by auto
  qed
qed auto

text \<open>While nothing overflows, events are delivered first in, first out: after \<open>n\<close> rounds that return,
  the queue has lost its first \<open>n\<close> events and gained what was posted.\<close>

lemma run_iteration_fifo:
  assumes "ecet_wf s" "run_iteration deliver s = Some s'" "ring_queue (mEventList s) = x # q"
  shows "\<exists>ps s1. s' = (the (deliver x s1))\<lparr>mEventList := mEventList s'\<rparr> \<and> deliver x s1 \<noteq> None
    \<and> ring_queue (mEventList s') = q @ ps"
proof -
  obtain s1 where t: "ecet_wf s1"
      "mEventList s1 = fold ring_push (ring_queue (mExternalEventList s)) (mEventList s)"
      "mSuspendSemaphore s1 = mSuspendSemaphore s" "ecet_size s1 = ecet_size s"
      "run_iteration deliver s = deliver_or_suspend deliver s1"
    using run_iteration_cases [OF assms(1)] .
  have wf: "ring_wf (mEventList s)" "ring_wf (mEventList s1)"
    using assms(1) t(1) by (simp_all add: ecet_wf_def)
  obtain as where q1: "ring_queue (mEventList s1) = x # q @ as"
    using fold_push_prefix [OF wf(1)] t(2) assms(3) by (metis append_Cons)
  then obtain s2 where s2: "deliver x s1 = Some s2" "s' = s2\<lparr>mEventList := ring_drop (mEventList s2)\<rparr>"
    using assms(2) t(5) by (auto simp: deliver_or_suspend_def)
  have "ring_nonempty (mEventList s1)"
    using q1 ring_nonempty_queue [OF wf(2)] by simp
  moreover have "deliver (hd (ring_queue (mEventList s1))) s1 = Some s2"
    using q1 s2(1) by simp
  ultimately obtain ps where
    ps: "mEventList s2 = fold ring_push ps (mEventList s1)"
      "ring_queue (ring_drop (mEventList s2)) = tl (ring_queue (mEventList s2))"
    using step_after_transfer [OF t(1)] by blast
  obtain bs where "ring_queue (mEventList s2) = ring_queue (mEventList s1) @ bs"
    using fold_push_prefix [OF wf(2)] ps(1) by metis
  then have "ring_queue (mEventList s') = q @ as @ bs"
    using s2(2) ps(2) q1 by simp
  then show ?thesis
    using s2 by (intro exI [of _ "as @ bs"] exI [of _ s1]) simp
qed

text \<open>A round delivers the first pending event to the world as it is, with only the two lists changed.\<close>

lemma run_iteration_delivers:
  assumes "ecet_wf s" "ring_queue (mEventList s) = x # q"
    and "\<And>r e. \<exists>s2. deliver x (s\<lparr>mEventList := r, mExternalEventList := e\<rparr>) = Some s2"
  shows "\<exists>r e s2 ps. deliver x (s\<lparr>mEventList := r, mExternalEventList := e\<rparr>) = Some s2 \<and>
    run_iteration deliver s = Some (s2\<lparr>mEventList := ring_drop (mEventList s2)\<rparr>) \<and>
    ring_queue (ring_drop (mEventList s2)) = q @ ps \<and> ecet_wf (s2\<lparr>mEventList := ring_drop (mEventList s2)\<rparr>)"
proof -
  obtain r e where t: "(if externalEventOccured s then transferExternalEvents s else Some s)
      = Some (s\<lparr>mEventList := r, mExternalEventList := e\<rparr>)"
  proof (cases "externalEventOccured s")
    case True
    then show thesis using transfer_spec [OF assms(1)] that by auto
  next
    case False
    have "s = s\<lparr>mEventList := mEventList s, mExternalEventList := mExternalEventList s\<rparr>" by simp
    then show thesis using False that by metis
  qed
  let ?s1 = "s\<lparr>mEventList := r, mExternalEventList := e\<rparr>"
  obtain s2 where s2: "deliver x ?s1 = Some s2"
    using assms(3) by blast
  obtain s0 where s0: "(if externalEventOccured s then transferExternalEvents s else Some s) = Some s0" "ecet_wf s0"
      "mEventList s0 = fold ring_push (ring_queue (mExternalEventList s)) (mEventList s)"
    using transfer_cases [OF assms(1)] by metis
  then have wf1: "ecet_wf ?s1" and r: "r = fold ring_push (ring_queue (mExternalEventList s)) (mEventList s)"
    using t by auto
  have wf: "ring_wf (mEventList s)" "ring_wf r"
    using assms(1) wf1 by (simp_all add: ecet_wf_def)
  obtain as where q1: "ring_queue r = x # q @ as"
    using fold_push_prefix [OF wf(1)] r assms(2) by (metis append_Cons)
  have ne: "ring_nonempty (mEventList ?s1)"
    using q1 ring_nonempty_queue [OF wf(2)] by simp
  have first: "ring_first r = Some x"
    using ring_first_queue [OF wf(2)] ne q1 by simp
  have "deliver (hd (ring_queue (mEventList ?s1))) ?s1 = Some s2"
    using q1 s2 by simp
  then obtain ps where ps: "mEventList s2 = fold ring_push ps (mEventList ?s1)"
      "ecet_wf (s2\<lparr>mEventList := ring_drop (mEventList s2)\<rparr>)"
      "ring_queue (ring_drop (mEventList s2)) = tl (ring_queue (mEventList s2))"
    using step_after_transfer [OF wf1 ne] by blast
  obtain bs where "ring_queue (mEventList s2) = ring_queue r @ bs"
    using fold_push_prefix [OF wf(2), of ps] ps(1) by auto
  then have "ring_queue (ring_drop (mEventList s2)) = q @ as @ bs"
    using ps(3) q1 by simp
  moreover have "run_iteration deliver s = Some (s2\<lparr>mEventList := ring_drop (mEventList s2)\<rparr>)"
    using ne first s2 by (simp add: run_iteration_def t)
  ultimately show ?thesis
    using s2 ps(2) by blast
qed

text \<open>A pending event is delivered after the events before it, when no delivery hangs: \<open>ok\<close> describes states of
  which this is known.\<close>

lemma pending_delivered:
  assumes "\<And>y v r e. ok v \<Longrightarrow> \<exists>v2. deliver y (v\<lparr>mEventList := r, mExternalEventList := e\<rparr>) = Some v2"
    and "\<And>y v r e v2 r2. ok v \<Longrightarrow> deliver y (v\<lparr>mEventList := r, mExternalEventList := e\<rparr>) = Some v2 \<Longrightarrow> ok (v2\<lparr>mEventList := r2\<rparr>)"
    and "ok s" "ecet_wf s" "ring_queue (mEventList s) = xs @ x # ys"
  shows "\<exists>v r e v2. run_rounds deliver (length xs) s = Some v \<and> ok v \<and>
    deliver x (v\<lparr>mEventList := r, mExternalEventList := e\<rparr>) = Some v2 \<and>
    run_rounds deliver (Suc (length xs)) s = Some (v2\<lparr>mEventList := ring_drop (mEventList v2)\<rparr>)"
  using assms(3-5)
proof (induction xs arbitrary: s ys)
  case Nil
  then show ?case
    using run_iteration_delivers [OF Nil(2), of x ys] assms(1) by fastforce
next
  case (Cons y xs)
  obtain r e s2 ps where d: "deliver y (s\<lparr>mEventList := r, mExternalEventList := e\<rparr>) = Some s2"
      "run_iteration deliver s = Some (s2\<lparr>mEventList := ring_drop (mEventList s2)\<rparr>)"
      "ring_queue (ring_drop (mEventList s2)) = (xs @ x # ys) @ ps" "ecet_wf (s2\<lparr>mEventList := ring_drop (mEventList s2)\<rparr>)"
    using run_iteration_delivers [OF Cons.prems(2), of y "xs @ x # ys"] assms(1) [OF Cons.prems(1)] Cons.prems(3) by auto
  let ?s = "s2\<lparr>mEventList := ring_drop (mEventList s2)\<rparr>"
  have "ok ?s"
    using assms(2) [OF Cons.prems(1) d(1)] .
  then show ?case
    using Cons.IH [of ?s "ys @ ps"] d by simp
qed

text \<open>With room for the events, a round is exactly first in, first out: the external events queue up
  behind the pending ones, the oldest event is delivered, and what its delivery posts comes last.\<close>

lemma run_iteration_exact:
  assumes "ecet_wf s" "run_iteration deliver s = Some s'" "ring_latch (mEventList s) = None"
    and "ring_queue (mEventList s) @ ring_queue (mExternalEventList s) = x # q" "length (x # q) < ecet_size s"
  shows "\<exists>s1 s2 ps. ring_queue (mEventList s1) = x # q \<and> deliver x s1 = Some s2
    \<and> mEventList s2 = fold ring_push ps (mEventList s1) \<and> s' = s2\<lparr>mEventList := mEventList s'\<rparr>
    \<and> (length (x # q) + length ps < ecet_size s \<longrightarrow>
         ring_queue (mEventList s') = q @ ps \<and> ring_latch (mEventList s') = None)"
proof -
  obtain s1 where t: "ecet_wf s1"
      "mEventList s1 = fold ring_push (ring_queue (mExternalEventList s)) (mEventList s)"
      "mSuspendSemaphore s1 = mSuspendSemaphore s" "ecet_size s1 = ecet_size s"
      "run_iteration deliver s = deliver_or_suspend deliver s1"
    using run_iteration_cases [OF assms(1)] .
  have wf: "ring_wf (mEventList s)" "ring_wf (mEventList s1)"
    using assms(1) t(1) by (simp_all add: ecet_wf_def)
  have "length (ring_queue (mEventList s)) + length (ring_queue (mExternalEventList s)) < length (slots (mEventList s))"
    using assms(4,5) by (metis ecet_size_def length_append)
  then have q1: "ring_queue (mEventList s1) = x # q" "ring_latch (mEventList s1) = None"
    using fold_push_fits [OF wf(1) assms(3)] t(2) assms(4) by simp_all
  then obtain s2 where s2: "deliver x s1 = Some s2" "s' = s2\<lparr>mEventList := ring_drop (mEventList s2)\<rparr>"
    using assms(2) t(5) by (auto simp: deliver_or_suspend_def)
  have "ring_nonempty (mEventList s1)"
    using q1 ring_nonempty_queue [OF wf(2)] by simp
  moreover have "deliver (hd (ring_queue (mEventList s1))) s1 = Some s2"
    using q1 s2(1) by simp
  ultimately obtain ps where ps: "mEventList s2 = fold ring_push ps (mEventList s1)"
      "ring_queue (ring_drop (mEventList s2)) = tl (ring_queue (mEventList s2))"
      "ring_latch (ring_drop (mEventList s2)) = ring_latch (mEventList s2)"
    using step_after_transfer [OF t(1)] by blast
  have "ring_queue (mEventList s') = q @ ps \<and> ring_latch (mEventList s') = None"
    if "length (x # q) + length ps < ecet_size s"
    using fold_push_fits [OF wf(2) q1(2), of ps] that t(4) s2(2) ps q1(1) by (simp add: ecet_size_def)
  then show ?thesis
    using q1(1) s2 ps(1) by (intro exI [of _ s1] exI [of _ s2] exI [of _ ps]) simp
qed

end

section \<open>The event lists\<close>

text \<open>
  \<open>addEventEntry\<close> refines the bounded queue with a latch: on well-formed rings it appends the
  event while two slots are free, hides it in the last free slot, and drops it once that is taken.
\<close>

theorem addEventEntry_refines:
  assumes "ecet_wf s"
  shows "ecet_wf (addEventEntry x s) \<and> ecet_abs (addEventEntry x s) = aring_push (ecet_size s) x (ecet_abs s)"
  using assms by (simp add: addEventEntry_wf addEventEntry_abs)

text \<open>A thread with three slots in each list, one pending and two external events.\<close>

definition small_thread :: "nat ecet" where
  "small_thread =
     \<lparr>mEventList = \<lparr>slots = [None, None, Some 1], rstart = 2, rend = 1\<rparr>,
      mExternalEventList = \<lparr>slots = [None, Some 2, Some 3], rstart = 2, rend = 0\<rparr>,
      mProcessingEvents = True, mSuspendSemaphore = 1, mAlive = True\<rparr>"

lemma small_thread_wf: "ecet_wf small_thread"
  by (auto simp: ecet_wf_def ring_wf_def small_thread_def ring_count_def ring_pos_def less_Suc_eq numeral_eq_Suc)

theorem addEventEntry_refines_witness:
  "ecet_wf (addEventEntry 7 small_thread)
    \<and> ecet_abs (addEventEntry 7 small_thread) = aring_push 3 7 ([1], None)"
  using addEventEntry_refines [OF small_thread_wf, of 7]
  by (simp add: ecet_abs_def ecet_size_def ring_queue_def ring_latch_def small_thread_def ring_count_def ring_pos_def)

text \<open>
  The transfer of the external events always ends, although its loop spins on an empty slot: it
  leaves no external event behind and, when the event list has room, appends all of them in the order
  in which they occurred.
\<close>

theorem transferExternalEvents_total:
  assumes "ecet_wf s"
  shows "\<exists>s'. transferExternalEvents s = Some s' \<and> ecet_wf s' \<and> \<not> externalEventOccured s'
    \<and> (ring_latch (mEventList s) = None
        \<and> length (ring_queue (mEventList s)) + length (ring_queue (mExternalEventList s)) < ecet_size s \<longrightarrow>
        ring_queue (mEventList s') = ring_queue (mEventList s) @ ring_queue (mExternalEventList s))"
proof -
  obtain r e where t: "transferExternalEvents s = Some (s\<lparr>mEventList := r, mExternalEventList := e\<rparr>)"
    "r = fold ring_push (ring_queue (mExternalEventList s)) (mEventList s)" "ring_wf e" "\<not> ring_nonempty e"
    using transfer_spec [OF assms] by blast
  have wf: "ring_wf (mEventList s)"
    using assms by (simp add: ecet_wf_def)
  have "ring_wf r"
    using t(2) fold_push_wf [OF wf] by simp
  with t show ?thesis
    using fold_push_fits(1) [OF wf] by (auto simp: ecet_wf_def externalEventOccured_def ecet_size_def)
qed

theorem transferExternalEvents_total_witness:
  "\<exists>s'. transferExternalEvents small_thread = Some s' \<and> ecet_wf s' \<and> \<not> externalEventOccured s'"
  using transferExternalEvents_total [OF small_thread_wf] by blast

end
