(* ===== verification/Data_Types.thy ===== *)
theory Data_Types
  imports Forte_Prelude
begin

text \<open>
  The IEC 61131-3 data types, \<^verbatim>\<open>src/src/core/datatypes/forte_any.{h,cpp}\<close> and its subclasses
  (\<^verbatim>\<open>forte_real\<close>, \<^verbatim>\<open>forte_lreal\<close>, \<^verbatim>\<open>forte_array\<close>, \<^verbatim>\<open>forte_struct\<close>, \<^verbatim>\<open>forte_string\<close>, \<^verbatim>\<open>forte_wstring\<close>), built
  with 64-bit and REAL support on a little-endian machine.

  An elementary object is its type and the 64 bits of the union \<open>m_uAnyData\<close>. Strings, arrays and
  structs own a heap block and are modelled by its content; a deep copy (\<open>clone\<close>) is therefore the
  value itself. An elementary value whose type is a string, array or struct stands for such an object
  whose pointer bits are not those of a block of its own (an array that was never set up has 0).
\<close>

text \<open>Interned names. The string dictionary gives equal ids exactly to equal names, so a name
  stands for its id.\<close>

type_synonym TStringId = string

unbundle bit_operations_syntax

section \<open>Type ids\<close>

datatype EDataTypeID =
    e_ANY | e_BOOL | e_SINT | e_INT | e_DINT | e_LINT | e_USINT | e_UINT | e_UDINT | e_ULINT
  | e_BYTE | e_WORD | e_DWORD | e_LWORD | e_DATE | e_TIME_OF_DAY | e_DATE_AND_TIME | e_TIME
  | e_REAL | e_LREAL | e_STRING | e_WSTRING | e_DerivedData | e_DirectlyDerivedData
  | e_EnumeratedData | e_SubrangeData | e_ARRAY | e_STRUCT | e_External | e_Max

fun dt_num :: "EDataTypeID \<Rightarrow> nat" where
  "dt_num e_ANY = 0" | "dt_num e_BOOL = 1" | "dt_num e_SINT = 2" | "dt_num e_INT = 3"
| "dt_num e_DINT = 4" | "dt_num e_LINT = 5" | "dt_num e_USINT = 6" | "dt_num e_UINT = 7"
| "dt_num e_UDINT = 8" | "dt_num e_ULINT = 9" | "dt_num e_BYTE = 10" | "dt_num e_WORD = 11"
| "dt_num e_DWORD = 12" | "dt_num e_LWORD = 13" | "dt_num e_DATE = 14"
| "dt_num e_TIME_OF_DAY = 15" | "dt_num e_DATE_AND_TIME = 16" | "dt_num e_TIME = 17"
| "dt_num e_REAL = 18" | "dt_num e_LREAL = 19" | "dt_num e_STRING = 20" | "dt_num e_WSTRING = 21"
| "dt_num e_DerivedData = 22" | "dt_num e_DirectlyDerivedData = 23"
| "dt_num e_EnumeratedData = 24" | "dt_num e_SubrangeData = 25" | "dt_num e_ARRAY = 26"
| "dt_num e_STRUCT = 27" | "dt_num e_External = 256" | "dt_num e_Max = 65535"

text \<open>The code compares type ids with \<open><\<close> and \<open><=\<close>.\<close>

lemma dt_num_eq [simp]: "dt_num t = dt_num u \<longleftrightarrow> t = u"
  by (cases t; cases u) simp_all

instantiation EDataTypeID :: linorder
begin

definition less_eq_EDataTypeID :: "EDataTypeID \<Rightarrow> EDataTypeID \<Rightarrow> bool" where
  [simp]: "t \<le> u \<longleftrightarrow> dt_num t \<le> dt_num u"

definition less_EDataTypeID :: "EDataTypeID \<Rightarrow> EDataTypeID \<Rightarrow> bool" where
  [simp]: "t < u \<longleftrightarrow> dt_num t < dt_num u"

instance
  by standard (auto simp: antisym_conv)

end

section \<open>Objects\<close>

datatype iec_any =
    Elem EDataTypeID u64
  | Str "u8 list"
  | WStr "u8 list"
  | Arr iec_any "iec_any list"
  | Struct TStringId u8 "TStringId list" "iec_any list"

text \<open>An array carries its reference element (at index -1) and its elements; a struct its type
  name, its ASN.1 type, its member names and its members.\<close>

fun getDataTypeID :: "iec_any \<Rightarrow> EDataTypeID" where
  "getDataTypeID (Elem t w) = t"
| "getDataTypeID (Str s) = e_STRING"
| "getDataTypeID (WStr s) = e_WSTRING"
| "getDataTypeID (Arr r xs) = e_ARRAY"
| "getDataTypeID (Struct n a ns xs) = e_STRUCT"

text \<open>
  What the C++ platform fixes and the code does not: the conversions between integers and IEEE
  floats (C++ leaves them open where the value does not fit), \<open>strtof\<close> and \<open>strtod\<close> (the bits, the
  number of characters taken, and whether \<open>errno\<close> was set), and the address in \<open>m_pGenData\<close>.
\<close>

record platform =
  f32_of_i64 :: "u64 \<Rightarrow> u32"
  f32_of_u64 :: "u64 \<Rightarrow> u32"
  f32_of_f64 :: "u64 \<Rightarrow> u32"
  f64_of_i64 :: "u64 \<Rightarrow> u64"
  f64_of_u64 :: "u64 \<Rightarrow> u64"
  f64_of_f32 :: "u32 \<Rightarrow> u64"
  i64_of_f32 :: "u32 \<Rightarrow> u64"
  u64_of_f32 :: "u32 \<Rightarrow> u64"
  i64_of_f64 :: "u64 \<Rightarrow> u64"
  u64_of_f64 :: "u64 \<Rightarrow> u64"
  c_strtof :: "u8 list \<Rightarrow> u32 \<times> nat"
  c_strtod :: "u8 list \<Rightarrow> u64 \<times> nat \<times> bool"
  gen_ptr :: "iec_any \<Rightarrow> u64"

definition getLargestUInt :: "platform \<Rightarrow> iec_any \<Rightarrow> u64" where
  "getLargestUInt P x = (case x of Elem t w \<Rightarrow> w | _ \<Rightarrow> gen_ptr P x)"

definition setLargestUInt :: "u64 \<Rightarrow> iec_any \<Rightarrow> iec_any" where
  "setLargestUInt w x = Elem (getDataTypeID x) w"

text \<open>\<open>setValueSimple\<close>: the union is copied.\<close>

definition setValueSimple :: "platform \<Rightarrow> iec_any \<Rightarrow> iec_any \<Rightarrow> iec_any" where
  "setValueSimple P x src = setLargestUInt (getLargestUInt P src) x"

text \<open>The setters and getters of the elementary C++ types (little endian).\<close>

definition setTBOOL8 :: "bool \<Rightarrow> iec_any \<Rightarrow> iec_any" where
  "setTBOOL8 b = setLargestUInt (if b then 1 else 0)"

definition setTUINT8 :: "u8 \<Rightarrow> iec_any \<Rightarrow> iec_any" where
  "setTUINT8 v = setLargestUInt (ucast v)"

definition setTUINT16 :: "u16 \<Rightarrow> iec_any \<Rightarrow> iec_any" where
  "setTUINT16 v = setLargestUInt (ucast v)"

definition setTUINT32 :: "u32 \<Rightarrow> iec_any \<Rightarrow> iec_any" where
  "setTUINT32 v = setLargestUInt (ucast v)"

definition setTINT8 :: "u8 \<Rightarrow> iec_any \<Rightarrow> iec_any" where
  "setTINT8 v = setLargestUInt (scast v)"

definition setTINT16 :: "u16 \<Rightarrow> iec_any \<Rightarrow> iec_any" where
  "setTINT16 v = setLargestUInt (scast v)"

definition setTINT32 :: "u32 \<Rightarrow> iec_any \<Rightarrow> iec_any" where
  "setTINT32 v = setLargestUInt (scast v)"

definition setTUINT64 :: "u64 \<Rightarrow> iec_any \<Rightarrow> iec_any" where
  "setTUINT64 v = setLargestUInt v"

text \<open>A \<open>float\<close> only fills the low half of the union.\<close>

definition setTFLOAT :: "platform \<Rightarrow> u32 \<Rightarrow> iec_any \<Rightarrow> iec_any" where
  "setTFLOAT P v x =
     setLargestUInt ((getLargestUInt P x AND 0xFFFFFFFF00000000) OR ucast v) x"

definition setTDFLOAT :: "u64 \<Rightarrow> iec_any \<Rightarrow> iec_any" where
  "setTDFLOAT v = setLargestUInt v"

definition getTBOOL8 :: "u64 \<Rightarrow> bool" where
  "getTBOOL8 w \<longleftrightarrow> (ucast w :: u8) \<noteq> 0"

definition getTFLOAT :: "platform \<Rightarrow> iec_any \<Rightarrow> u32" where
  "getTFLOAT P x = ucast (getLargestUInt P x)"

text \<open>The number that the conversion operator of an integer, bit string or time object returns.\<close>

fun elem_int :: "EDataTypeID \<Rightarrow> u64 \<Rightarrow> int" where
  "elem_int e_SINT w = sint (ucast w :: u8)"
| "elem_int e_INT w = sint (ucast w :: u16)"
| "elem_int e_DINT w = sint (ucast w :: u32)"
| "elem_int e_LINT w = sint w"
| "elem_int e_USINT w = uint (ucast w :: u8)"
| "elem_int e_UINT w = uint (ucast w :: u16)"
| "elem_int e_UDINT w = uint (ucast w :: u32)"
| "elem_int e_BYTE w = uint (ucast w :: u8)"
| "elem_int e_WORD w = uint (ucast w :: u16)"
| "elem_int e_DWORD w = uint (ucast w :: u32)"
| "elem_int e_TIME w = sint w"
| "elem_int e_BOOL w = (if w \<noteq> 0 then 1 else 0)"
| "elem_int _ w = uint w"

text \<open>The values the assignment operators store for such a type: what the type can hold.\<close>

fun elem_store :: "EDataTypeID \<Rightarrow> int \<Rightarrow> u64" where
  "elem_store e_SINT i = scast (word_of_int i :: u8)"
| "elem_store e_INT i = scast (word_of_int i :: u16)"
| "elem_store e_DINT i = scast (word_of_int i :: u32)"
| "elem_store e_USINT i = ucast (word_of_int i :: u8)"
| "elem_store e_UINT i = ucast (word_of_int i :: u16)"
| "elem_store e_UDINT i = ucast (word_of_int i :: u32)"
| "elem_store e_BYTE i = ucast (word_of_int i :: u8)"
| "elem_store e_WORD i = ucast (word_of_int i :: u16)"
| "elem_store e_DWORD i = ucast (word_of_int i :: u32)"
| "elem_store e_BOOL i = (if i \<noteq> 0 then 1 else 0)"
| "elem_store _ i = word_of_int i"

text \<open>\<open>CIEC_ANY_INT::isSigned\<close>.\<close>

definition isSigned :: "iec_any \<Rightarrow> bool" where
  "isSigned x \<longleftrightarrow> e_LINT \<le> getDataTypeID x"

section \<open>Castability\<close>

definition UpCast :: "u8 list list" where
  "UpCast =
    [[0xFF, 0xF8, 0x60], [0x78, 0x78, 0x60], [0x38, 0x38, 0x60], [0x18, 0x18, 0x20],
     [0x08, 0x08, 0x80], [0x3F, 0xF8, 0x60], [0x1B, 0xB8, 0x60], [0x09, 0x98, 0x20],
     [0x00, 0x88, 0x00], [0x7F, 0xF8, 0x00], [0x3B, 0xB8, 0x00], [0x19, 0x98, 0x40],
     [0x08, 0x88, 0x60], [0x00, 0x04, 0x00], [0x00, 0x02, 0x00], [0x00, 0x01, 0x00],
     [0x08, 0x08, 0x80], [0x00, 0x18, 0x60], [0x00, 0x08, 0x20], [0x00, 0x00, 0x10],
     [0x00, 0x00, 0x08]]"

definition DownCast :: "u8 list list" where
  "DownCast =
    [[0x00, 0x00, 0x00], [0x87, 0x80, 0x00], [0xC7, 0xC0, 0x00], [0xE7, 0xE0, 0x40],
     [0xF7, 0xF0, 0x60], [0xC0, 0x00, 0x00], [0xE4, 0x40, 0x00], [0xF6, 0x60, 0x40],
     [0xFF, 0x70, 0x60], [0x80, 0x00, 0x60], [0xC4, 0x40, 0x60], [0xE6, 0x60, 0x20],
     [0xF7, 0x70, 0x00], [0x00, 0x00, 0x00], [0x00, 0x00, 0x00], [0x00, 0x00, 0x00],
     [0xF7, 0xF0, 0x60], [0xFF, 0xE0, 0x00], [0xFF, 0xF0, 0x40], [0x00, 0x00, 0x00],
     [0x00, 0x00, 0x00]]"

text \<open>\<open>Table[src][d >> 3] & (0x80 >> (d & 7))\<close>.\<close>

definition cast_bit :: "u8 list list \<Rightarrow> nat \<Rightarrow> nat \<Rightarrow> bool" where
  "cast_bit T s d \<longleftrightarrow> (T ! s ! (d div 8)) AND (drop_bit (d mod 8) 0x80) \<noteq> 0"

text \<open>The three results: castable, up, down.\<close>

definition isCastable3 :: "EDataTypeID \<Rightarrow> EDataTypeID \<Rightarrow> bool \<times> bool \<times> bool" where
  "isCastable3 src dst =
     (let s = dt_num src; d = dt_num dst; lo = dt_num e_BOOL; hi = dt_num e_WSTRING
      in if s < lo \<or> hi < s \<or> d < lo \<or> hi < d then (False, False, False)
         else let up = cast_bit UpCast (s - lo) (d - lo); down = cast_bit DownCast (s - lo) (d - lo)
           in (up \<or> down, up, down))"

definition isCastable :: "EDataTypeID \<Rightarrow> EDataTypeID \<Rightarrow> bool" where
  "isCastable src dst = fst (isCastable3 src dst)"

definition upCastable :: "EDataTypeID \<Rightarrow> EDataTypeID \<Rightarrow> bool" where
  "upCastable src dst = fst (snd (isCastable3 src dst))"

section \<open>Assignment\<close>

text \<open>A C string ends at its first 0.\<close>

definition c_str :: "u8 list \<Rightarrow> u8 list" where
  "c_str s = takeWhile (\<lambda>c. c \<noteq> 0) s"

definition bytes_of :: "string \<Rightarrow> u8 list" where
  "bytes_of s = map of_char s"

text \<open>\<open>0 == strncmp(s, p, strlen(p))\<close>.\<close>

definition starts_with :: "string \<Rightarrow> u8 list \<Rightarrow> bool" where
  "starts_with p s \<longleftrightarrow> take (length p) s = bytes_of p"

text \<open>
  \<open>CIEC_REAL::fromString\<close>: the new low half and the characters taken. The magnitude comparisons
  with 3.4e-38f and 3.4e38f are those of the IEEE bit patterns, and false for a NaN.
\<close>

definition f32_out_of_range :: "u32 \<Rightarrow> bool" where
  "f32_out_of_range v \<longleftrightarrow>
     (let m = v AND 0x7FFFFFFF in m \<noteq> 0 \<and> m \<le> 0x7F800000 \<and> (m < 0x01391D15 \<or> 0x7F7FC99E < m))"

definition real_fromString :: "platform \<Rightarrow> u8 list \<Rightarrow> (u32 \<times> nat) option" where
  "real_fromString P s =
     (let k = (if starts_with ''REAL#'' s then 5 else 0);
          (v, n) = c_strtof P (drop k s)
      in if f32_out_of_range v \<or> n = 0 then None else Some (v, k + n))"

definition lreal_fromString :: "platform \<Rightarrow> u8 list \<Rightarrow> (u64 \<times> nat) option" where
  "lreal_fromString P s =
     (let k = (if starts_with ''LREAL#'' s then 6 else 0);
          (v, n, err) = c_strtod P (drop k s)
      in if err \<or> n = 0 then None else Some (v, k + n))"

definition is_signed_dt :: "EDataTypeID \<Rightarrow> bool" where
  "is_signed_dt t \<longleftrightarrow> t = e_SINT \<or> t = e_INT \<or> t = e_DINT \<or> t = e_LINT"

definition real_setValue :: "platform \<Rightarrow> iec_any \<Rightarrow> iec_any \<Rightarrow> iec_any" where
  "real_setValue P x src =
     (case src of
        Str s \<Rightarrow> (case real_fromString P (c_str s) of Some (v, _) \<Rightarrow> setTFLOAT P v x | None \<Rightarrow> x)
      | WStr s \<Rightarrow> (case real_fromString P (c_str s) of Some (v, _) \<Rightarrow> setTFLOAT P v x | None \<Rightarrow> x)
      | _ \<Rightarrow>
         if getDataTypeID src = e_REAL then setValueSimple P x src
         else if getDataTypeID src = e_LREAL then setTFLOAT P (f32_of_f64 P (getLargestUInt P src)) x
         else if is_signed_dt (getDataTypeID src) then setTFLOAT P (f32_of_i64 P (getLargestUInt P src)) x
         else setTFLOAT P (f32_of_u64 P (getLargestUInt P src)) x)"

definition lreal_setValue :: "platform \<Rightarrow> iec_any \<Rightarrow> iec_any \<Rightarrow> iec_any" where
  "lreal_setValue P x src =
     (case src of
        Str s \<Rightarrow> (case lreal_fromString P (c_str s) of Some (v, _) \<Rightarrow> setTDFLOAT v x | None \<Rightarrow> x)
      | WStr s \<Rightarrow> (case lreal_fromString P (c_str s) of Some (v, _) \<Rightarrow> setTDFLOAT v x | None \<Rightarrow> x)
      | _ \<Rightarrow>
         if getDataTypeID src = e_LREAL then setValueSimple P x src
         else if getDataTypeID src = e_REAL then setTDFLOAT (f64_of_f32 P (getTFLOAT P src)) x
         else if is_signed_dt (getDataTypeID src) then setTDFLOAT (f64_of_i64 P (getLargestUInt P src)) x
         else setTDFLOAT (f64_of_u64 P (getLargestUInt P src)) x)"

text \<open>
  The virtual \<open>setValue\<close>. An array takes the elements both arrays have; a struct takes the members
  of a struct of the same type. Strings copy strings of their own kind only.
\<close>

fun setValue :: "platform \<Rightarrow> iec_any \<Rightarrow> iec_any \<Rightarrow> iec_any"
  and setValues :: "platform \<Rightarrow> iec_any list \<Rightarrow> iec_any list \<Rightarrow> iec_any list" where
  "setValue P (Elem t w) src =
     (if t = e_REAL then real_setValue P (Elem t w) src
      else if t = e_LREAL then lreal_setValue P (Elem t w) src
      else if t \<in> {e_STRING, e_WSTRING, e_ARRAY, e_STRUCT} then Elem t w
      else setValueSimple P (Elem t w) src)"
| "setValue P (Str s) src = (case src of Str s' \<Rightarrow> Str s' | _ \<Rightarrow> Str s)"
| "setValue P (WStr s) src = (case src of WStr s' \<Rightarrow> WStr s' | _ \<Rightarrow> WStr s)"
| "setValue P (Arr r xs) src =
     (case src of Arr r' ys \<Rightarrow> Arr r (setValues P xs ys) | _ \<Rightarrow> Arr r xs)"
| "setValue P (Struct n a ns xs) src =
     (case src of
        Struct n' a' ns' ys \<Rightarrow> (if n = n' then Struct n a ns (setValues P xs ys) else Struct n a ns xs)
      | _ \<Rightarrow> Struct n a ns xs)"
| "setValues P (x # xs) (y # ys) = setValue P x y # setValues P xs ys"
| "setValues P xs ys = xs"

text \<open>\<open>castRealData\<close>, \<open>castLRealData\<close> and \<open>specialCast\<close>.\<close>

definition castRealData :: "platform \<Rightarrow> iec_any \<Rightarrow> iec_any \<Rightarrow> iec_any" where
  "castRealData P src dst =
     (let t = getDataTypeID dst in
      if t = e_REAL then setValueSimple P dst src
      else if t = e_LREAL then setTDFLOAT (f64_of_f32 P (getTFLOAT P src)) dst
      else if t \<in> {e_BYTE, e_WORD, e_DWORD, e_LWORD} then setValue P dst src
      else if t = e_BOOL \<or> is_signed_dt t then setLargestUInt (i64_of_f32 P (getTFLOAT P src)) dst
      else setLargestUInt (u64_of_f32 P (getTFLOAT P src)) dst)"

definition castLRealData :: "platform \<Rightarrow> iec_any \<Rightarrow> iec_any \<Rightarrow> iec_any" where
  "castLRealData P src dst =
     (let t = getDataTypeID dst in
      if t = e_REAL then setTFLOAT P (f32_of_f64 P (getLargestUInt P src)) dst
      else if t = e_LREAL then setValueSimple P dst src
      else if t \<in> {e_BYTE, e_WORD, e_DWORD, e_LWORD} then setValue P dst src
      else if t = e_BOOL \<or> is_signed_dt t then setLargestUInt (i64_of_f64 P (getLargestUInt P src)) dst
      else setLargestUInt (u64_of_f64 P (getLargestUInt P src)) dst)"

definition specialCast :: "platform \<Rightarrow> iec_any \<Rightarrow> iec_any \<Rightarrow> iec_any" where
  "specialCast P src dst =
     (if getDataTypeID src = e_REAL then castRealData P src dst
      else if getDataTypeID src = e_LREAL then castLRealData P src dst
      else dst)"

definition saveAssign :: "platform \<Rightarrow> iec_any \<Rightarrow> iec_any \<Rightarrow> iec_any" where
  "saveAssign P dst src =
     (let s = getDataTypeID src; d = getDataTypeID dst in
      if d = s then setValue P dst src
      else if d = e_ANY then src
      else if isCastable s d then
        (if s = e_LREAL \<or> s = e_REAL then specialCast P src dst else setValue P dst src)
      else dst)"

section \<open>The conversion operators and assignments the function blocks use\<close>

definition op_bool :: "iec_any \<Rightarrow> bool" where
  "op_bool x \<longleftrightarrow> (case x of Elem t w \<Rightarrow> w \<noteq> 0 | _ \<Rightarrow> True)"

definition elem_bits :: "iec_any \<Rightarrow> u64" where
  "elem_bits x = (case x of Elem t w \<Rightarrow> w | _ \<Rightarrow> 0)"

definition op_uint16 :: "iec_any \<Rightarrow> u16" where
  "op_uint16 x = ucast (elem_bits x)"

definition op_int16 :: "iec_any \<Rightarrow> u16" where
  "op_int16 x = ucast (elem_bits x)"

definition op_int64 :: "iec_any \<Rightarrow> u64" where
  "op_int64 x = elem_bits x"

section \<open>Creating objects\<close>

text \<open>The firmware types of \<^verbatim>\<open>DEFINE_FIRMWARE_DATATYPE\<close> and what their constructors build. The abstract
  classes inherit \<open>getDataTypeID\<close> from \<open>CIEC_ANY\<close>.\<close>

definition firmware_datatypes :: "(TStringId \<times> iec_any) list" where
  "firmware_datatypes =
    [(''ANY'', Elem e_ANY 0), (''BOOL'', Elem e_BOOL 0), (''SINT'', Elem e_SINT 0),
     (''INT'', Elem e_INT 0), (''DINT'', Elem e_DINT 0), (''LINT'', Elem e_LINT 0),
     (''USINT'', Elem e_USINT 0), (''UINT'', Elem e_UINT 0), (''UDINT'', Elem e_UDINT 0),
     (''ULINT'', Elem e_ULINT 0), (''BYTE'', Elem e_BYTE 0), (''WORD'', Elem e_WORD 0),
     (''DWORD'', Elem e_DWORD 0), (''LWORD'', Elem e_LWORD 0), (''DATE'', Elem e_DATE 0),
     (''TIME_OF_DAY'', Elem e_TIME_OF_DAY 0), (''DATE_AND_TIME'', Elem e_DATE_AND_TIME 0),
     (''TIME'', Elem e_TIME 0), (''REAL'', Elem e_REAL 0), (''LREAL'', Elem e_LREAL 0),
     (''STRING'', Str []), (''WSTRING'', WStr []), (''ARRAY'', Elem e_ARRAY 0)]"

text \<open>\<open>CTypeLib::findType\<close> walks the list of the entries; \<open>addDataType\<close> appends an entry whose name
  is new.\<close>

fun findType :: "TStringId \<Rightarrow> (TStringId \<times> 'a) list \<Rightarrow> 'a option" where
  "findType n [] = None"
| "findType n ((m, x) # es) = (if n = m then Some x else findType n es)"

definition addType :: "TStringId \<times> 'a \<Rightarrow> (TStringId \<times> 'a) list \<Rightarrow> (TStringId \<times> 'a) list" where
  "addType e es = (if findType (fst e) es = None then es @ [e] else es)"

text \<open>\<open>CIEC_ARRAY::setup\<close>: the reference element and copies of it. (The length is a 16-bit number;
  the element type has to be registered.)\<close>

definition array_setup :: "(TStringId \<times> iec_any) list \<Rightarrow> nat \<Rightarrow> TStringId \<Rightarrow> iec_any option" where
  "array_setup lib n t =
     (if n = 0 then Some (Elem e_ARRAY 0)
      else map_option (\<lambda>r. Arr r (replicate n r)) (findType t lib))"

section \<open>Assignments keep the type of their target\<close>

lemma getDataTypeID_set [simp]:
  "getDataTypeID (setLargestUInt w x) = getDataTypeID x"
  "getDataTypeID (setValueSimple P x src) = getDataTypeID x"
  "getDataTypeID (setTFLOAT P v x) = getDataTypeID x"
  "getDataTypeID (setTDFLOAT u x) = getDataTypeID x"
  "getDataTypeID (setTBOOL8 b x) = getDataTypeID x"
  "getDataTypeID (setTUINT16 n x) = getDataTypeID x"
  by (simp_all add: setLargestUInt_def setValueSimple_def setTFLOAT_def setTDFLOAT_def setTBOOL8_def setTUINT16_def)

lemma real_setValue_type [simp]: "getDataTypeID (real_setValue P x src) = getDataTypeID x"
  by (simp add: real_setValue_def split: iec_any.split option.split)

lemma lreal_setValue_type [simp]: "getDataTypeID (lreal_setValue P x src) = getDataTypeID x"
  by (simp add: lreal_setValue_def split: iec_any.split option.split)

lemma setValue_type [simp]: "getDataTypeID (setValue P x src) = getDataTypeID x"
  by (cases x) (simp_all split: iec_any.split)

lemma specialCast_type [simp]: "getDataTypeID (specialCast P src dst) = getDataTypeID dst"
  by (simp add: specialCast_def castRealData_def castLRealData_def Let_def)

text \<open>
  A checked assignment (\<open>saveAssign\<close>) never changes the type of its target, whatever the two
  objects are, except that a target of type ANY takes on the type of the source.
\<close>

theorem saveAssign_type:
  "getDataTypeID (saveAssign P dst src) =
     (if getDataTypeID dst = e_ANY then getDataTypeID src else getDataTypeID dst)"
  by (simp add: saveAssign_def Let_def)

section \<open>What an upcast preserves\<close>

lemma sint_ucast_scast:
  fixes v :: "'a::len word"
  assumes "LENGTH('a) \<le> LENGTH('b::len)" "LENGTH('b) \<le> LENGTH('c::len)"
  shows "sint (ucast (scast v :: 'c word) :: 'b word) = sint v"
  using assms
  by transfer (auto simp: signed_take_bit_take_bit min_absorb2 signed_take_bit_signed_take_bit min_def)

lemma uint_ucast_ucast:
  fixes v :: "'a::len word"
  assumes "LENGTH('a) \<le> LENGTH('b::len)" "LENGTH('b) \<le> LENGTH('c::len)"
  shows "uint (ucast (ucast v :: 'c word) :: 'b word) = uint v"
  using assms
  by (cases "LENGTH('b) = LENGTH('a)"; transfer) (auto simp: take_bit_take_bit min_def)

lemma sint_ucast_ucast:
  fixes v :: "'a::len word"
  assumes "LENGTH('a) < LENGTH('b::len)" "LENGTH('b) \<le> LENGTH('c::len)"
  shows "sint (ucast (ucast v :: 'c word) :: 'b word) = uint v"
  using assms
  by transfer (auto simp: signed_take_bit_take_bit take_bit_take_bit min_def signed_take_bit_eq_if_positive)

definition any_int :: "EDataTypeID list" where
  "any_int = [e_SINT, e_INT, e_DINT, e_LINT, e_USINT, e_UINT, e_UDINT, e_ULINT]"

lemma sint_scast64: "LENGTH('a) \<le> 64 \<Longrightarrow> sint (scast (v::'a::len word) :: 64 word) = sint v"
  by transfer (cases "LENGTH('a) = 64"; auto simp: signed_take_bit_signed_take_bit min_def)
lemma uint_ucast64: "LENGTH('a) \<le> 64 \<Longrightarrow> uint (ucast (v::'a::len word) :: 64 word) = uint v"
  by transfer (auto simp: take_bit_take_bit min_def)
lemma sint_ucast64: "LENGTH('a) < 64 \<Longrightarrow> sint (ucast (v::'a::len word) :: 64 word) = uint v"
  by transfer (auto simp: signed_take_bit_take_bit min_def signed_take_bit_eq_if_positive take_bit_take_bit)

lemma upcast_pairs:
  assumes "upCastable s d" "s \<in> set (e_BOOL # any_int)" "d \<in> set any_int"
  shows "(s, d) \<in> set ([(e_BOOL, x). x \<leftarrow> any_int] @ [(e_SINT, x). x \<leftarrow> [e_SINT, e_INT, e_DINT, e_LINT]]
     @ [(e_INT, x). x \<leftarrow> [e_INT, e_DINT, e_LINT]] @ [(e_DINT, e_DINT), (e_DINT, e_LINT), (e_LINT, e_LINT)]
     @ [(e_USINT, x). x \<leftarrow> [e_INT, e_DINT, e_LINT, e_USINT, e_UINT, e_UDINT, e_ULINT]]
     @ [(e_UINT, x). x \<leftarrow> [e_DINT, e_LINT, e_UINT, e_UDINT, e_ULINT]]
     @ [(e_UDINT, x). x \<leftarrow> [e_LINT, e_UDINT, e_ULINT]] @ [(e_ULINT, e_ULINT)])"
proof -
  have c: "filter (\<lambda>(s, d). upCastable s d) (List.product (e_BOOL # any_int) any_int) =
    ([(e_BOOL, x). x \<leftarrow> any_int] @ [(e_SINT, x). x \<leftarrow> [e_SINT, e_INT, e_DINT, e_LINT]]
     @ [(e_INT, x). x \<leftarrow> [e_INT, e_DINT, e_LINT]] @ [(e_DINT, e_DINT), (e_DINT, e_LINT), (e_LINT, e_LINT)]
     @ [(e_USINT, x). x \<leftarrow> [e_INT, e_DINT, e_LINT, e_USINT, e_UINT, e_UDINT, e_ULINT]]
     @ [(e_UINT, x). x \<leftarrow> [e_DINT, e_LINT, e_UINT, e_UDINT, e_ULINT]]
     @ [(e_UDINT, x). x \<leftarrow> [e_LINT, e_UDINT, e_ULINT]] @ [(e_ULINT, e_ULINT)])"
    by code_simp
  have "(s, d) \<in> set (filter (\<lambda>(s, d). upCastable s d) (List.product (e_BOOL # any_int) any_int))"
    using assms by (simp only: set_filter set_product mem_Collect_eq mem_Sigma_iff prod.case simp_thms)
  then show ?thesis
    unfolding c .
qed

text \<open>
  An upcast between integer types (or from BOOL) loses nothing: whatever value the source type
  can hold, the target reads the same number after the assignment.
\<close>

theorem upcast_int_lossless:
  assumes "upCastable s d" "s \<in> set (e_BOOL # any_int)" "d \<in> set any_int"
  shows "\<exists>w. setValue P (Elem d w0) (Elem s (elem_store s i)) = Elem d w
           \<and> elem_int d w = elem_int s (elem_store s i)"
proof -
  have "elem_int d (elem_store s i) = elem_int s (elem_store s i)"
    using upcast_pairs [OF assms]
    by (auto simp: any_int_def sint_ucast_scast uint_ucast_ucast sint_ucast_ucast sint_scast64 uint_ucast64 sint_ucast64)
  then show ?thesis
    using assms(3)
    by (auto simp: any_int_def setValueSimple_def setLargestUInt_def getLargestUInt_def)
qed

theorem upcast_int_lossless_witness:
  "\<forall>P. \<exists>w. setValue P (Elem e_DINT 7) (Elem e_INT (elem_store e_INT (-3))) = Elem e_DINT w
     \<and> elem_int e_DINT w = elem_int e_INT (elem_store e_INT (-3))"
proof
  fix P
  have "upCastable e_INT e_DINT" by code_simp
  then show "\<exists>w. setValue P (Elem e_DINT 7) (Elem e_INT (elem_store e_INT (-3))) = Elem e_DINT w
     \<and> elem_int e_DINT w = elem_int e_INT (elem_store e_INT (-3))"
    by (rule upcast_int_lossless) (simp_all add: any_int_def)
qed

text \<open>
  The cast table calls LWORD to REAL an upcast, documented as "always possible without any loss
  of data or precision". The assignment maps 64 bits to 32, so on every platform there are two
  different LWORD values that the REAL cannot tell apart.
\<close>

theorem lword_upcast_lossy:
  "upCastable e_LWORD e_REAL \<and> \<not> inj (\<lambda>w. setValue P (Elem e_REAL 0) (Elem e_LWORD w))"
proof -
  have "\<not> inj (f32_of_u64 P)"
  proof
    assume "inj (f32_of_u64 P)"
    then have "card (range (f32_of_u64 P)) = CARD(u64)" by (simp add: card_image)
    moreover have "card (range (f32_of_u64 P)) \<le> CARD(u32)" by (rule card_mono) auto
    ultimately show False by (simp add: card_word)
  qed
  moreover have "setValue P (Elem e_REAL 0) (Elem e_LWORD w) = Elem e_REAL (ucast (f32_of_u64 P w))" for w
    by (simp add: real_setValue_def is_signed_dt_def setTFLOAT_def setLargestUInt_def getLargestUInt_def)
  moreover have "upCastable e_LWORD e_REAL" by code_simp
  ultimately show ?thesis
    unfolding inj_def by metis
qed

end
