(* ===== verification/Timer_Handler.thy ===== *)
theory Timer_Handler
  imports Forte_Prelude "HOL-Library.Signed_Division"
begin

text \<open>
  The timer handler, \<^verbatim>\<open>src/src/arch/timerha.{h,cpp}\<close>: the tick counter \<open>SForteTime\<close> (two 32-bit
  halves) and the list of the timed function blocks, linked through the entries that the blocks
  own. The links are kept as the code has them, a store of entries with \<open>m_pstNext\<close> pointers,
  because a block that registers twice changes an entry that is already in the list. An entry is
  known by the number of the function block that owns it.
\<close>

section \<open>Ticks\<close>

record SForteTime =
  m_nLowerValue :: u32
  m_nUpperValue :: u32

definition time_zero :: SForteTime where
  "time_zero = \<lparr>m_nLowerValue = 0, m_nUpperValue = 0\<rparr>"

definition time_inc :: "SForteTime \<Rightarrow> SForteTime" where
  "time_inc t =
     (let lo = m_nLowerValue t + 1
      in \<lparr>m_nLowerValue = lo, m_nUpperValue = (if lo = 0 then m_nUpperValue t + 1 else m_nUpperValue t)\<rparr>)"

definition time_add :: "SForteTime \<Rightarrow> u32 \<Rightarrow> SForteTime" where
  "time_add t n =
     (let lo = m_nLowerValue t + n
      in \<lparr>m_nLowerValue = lo,
          m_nUpperValue = (if lo < m_nLowerValue t then m_nUpperValue t + 1 else m_nUpperValue t)\<rparr>)"

definition time_sub :: "SForteTime \<Rightarrow> u32 \<Rightarrow> SForteTime" where
  "time_sub t n =
     (let lo = m_nLowerValue t - n
      in \<lparr>m_nLowerValue = lo,
          m_nUpperValue = (if m_nLowerValue t < lo then m_nUpperValue t - 1 else m_nUpperValue t)\<rparr>)"

text \<open>\<open>operator-=(const SForteTime&)\<close>, on which the binary \<open>operator-\<close> rests.\<close>

definition time_diff :: "SForteTime \<Rightarrow> SForteTime \<Rightarrow> SForteTime" where
  "time_diff t u =
     (let up = m_nUpperValue t - m_nUpperValue u
      in if m_nLowerValue t < m_nLowerValue u
         then \<lparr>m_nLowerValue = m_nLowerValue t - 1 - m_nLowerValue u, m_nUpperValue = up - 1\<rparr>
         else \<lparr>m_nLowerValue = m_nLowerValue t - m_nLowerValue u, m_nUpperValue = up\<rparr>)"

definition time_gt :: "SForteTime \<Rightarrow> SForteTime \<Rightarrow> bool" where
  "time_gt t u \<longleftrightarrow> m_nUpperValue u < m_nUpperValue t
     \<or> (m_nUpperValue t = m_nUpperValue u \<and> m_nLowerValue u < m_nLowerValue t)"

text \<open>The number of ticks.\<close>

definition ticks :: "SForteTime \<Rightarrow> nat" where
  "ticks t = unat (m_nUpperValue t) * 2 ^ 32 + unat (m_nLowerValue t)"

section \<open>The handler\<close>

datatype ETimerActivationType = e_SingleShot | e_Periodic

record STimedFBListEntry =
  m_stTimeOut :: SForteTime
  m_nInterval :: u32
  m_eType :: ETimerActivationType
  m_pstNext :: "nat option"

record timerha =
  m_stForteTime :: SForteTime
  m_pstTimedFBList :: "nat option"
  m_entries :: "nat \<Rightarrow> STimedFBListEntry"

text \<open>The build-time constants of \<^verbatim>\<open>forte_config.h\<close>, with their defaults.\<close>

definition cg_nForteTicksPerSecond :: u32 where
  "cg_nForteTicksPerSecond = 1000"

definition FORTE_TIME_BASE_UNITS_PER_SECOND :: int where
  "FORTE_TIME_BASE_UNITS_PER_SECOND = 1000000000"

definition set_next :: "nat \<Rightarrow> nat option \<Rightarrow> (nat \<Rightarrow> STimedFBListEntry) \<Rightarrow> nat \<Rightarrow> STimedFBListEntry" where
  "set_next x p h = h(x := (h x)\<lparr>m_pstNext := p\<rparr>)"

text \<open>
  The loop of \<open>addTimedFBEntry\<close>, with \<open>runner\<close> on an entry of the list; after it, \<open>runner\<close> is linked
  to the new entry in any case. \<open>None\<close> is a loop that does not end.
\<close>

partial_function (option) add_walk ::
  "nat \<Rightarrow> nat \<Rightarrow> (nat \<Rightarrow> STimedFBListEntry) \<Rightarrow> (nat \<Rightarrow> STimedFBListEntry) option" where
  "add_walk e runner h =
     (case m_pstNext (h runner) of
        None \<Rightarrow> Some (set_next runner (Some e) h)
      | Some n \<Rightarrow>
          if time_gt (m_stTimeOut (h n)) (m_stTimeOut (h e))
          then Some (set_next runner (Some e) (set_next runner (Some e) (set_next e (Some n) h)))
          else add_walk e n h)"

text \<open>The time at which an entry is due, set on registration: a zero interval counts as 10 ms.\<close>

definition due_time :: "SForteTime \<Rightarrow> u32 \<Rightarrow> SForteTime" where
  "due_time now iv =
     (let t = time_add now iv
      in if iv = 0
         then time_add t (if 100 < cg_nForteTicksPerSecond then cg_nForteTicksPerSecond div 100 else 1)
         else t)"

definition addTimedFBEntry :: "nat \<Rightarrow> timerha \<Rightarrow> timerha option" where
  "addTimedFBEntry e th =
     (let ent = m_entries th e;
          h = (m_entries th)(e := ent\<lparr>m_stTimeOut := due_time (m_stForteTime th) (m_nInterval ent),
                m_pstNext := None\<rparr>)
      in case m_pstTimedFBList th of
           None \<Rightarrow> Some (th\<lparr>m_pstTimedFBList := Some e, m_entries := h\<rparr>)
         | Some head \<Rightarrow>
             if time_gt (m_stTimeOut (h head)) (m_stTimeOut (h e))
             then Some (th\<lparr>m_pstTimedFBList := Some e, m_entries := set_next e (Some head) h\<rparr>)
             else map_option (\<lambda>h'. th\<lparr>m_entries := h'\<rparr>) (add_walk e head h))"

text \<open>
  The interval in ticks of a TIME value, 64-bit signed arithmetic truncated to 32 bits (a signed
  overflow of the product is taken to wrap around).
\<close>

definition timer_interval :: "u64 \<Rightarrow> u32" where
  "timer_interval dt =
     word_of_int (sint (dt * ucast cg_nForteTicksPerSecond) sdiv FORTE_TIME_BASE_UNITS_PER_SECOND)"

definition registerTimedFB :: "nat \<Rightarrow> u64 \<Rightarrow> timerha \<Rightarrow> timerha option" where
  "registerTimedFB e dt th =
     addTimedFBEntry e (th\<lparr>m_entries := (m_entries th)
       (e := (m_entries th e)\<lparr>m_nInterval := timer_interval dt\<rparr>)\<rparr>)"

text \<open>Taking an entry out: its link and its time are cleared.\<close>

definition clear_entry :: "nat \<Rightarrow> (nat \<Rightarrow> STimedFBListEntry) \<Rightarrow> nat \<Rightarrow> STimedFBListEntry" where
  "clear_entry x h = h(x := (h x)\<lparr>m_pstNext := None, m_stTimeOut := time_zero\<rparr>)"

partial_function (option) unreg_walk ::
  "nat \<Rightarrow> nat \<Rightarrow> (nat \<Rightarrow> STimedFBListEntry) \<Rightarrow> (nat \<Rightarrow> STimedFBListEntry) option" where
  "unreg_walk fb runner h =
     (case m_pstNext (h runner) of
        None \<Rightarrow> Some h
      | Some n \<Rightarrow>
          if n = fb then Some (clear_entry n (set_next runner (m_pstNext (h n)) h))
          else unreg_walk fb n h)"

definition unregisterTimedFB :: "nat \<Rightarrow> timerha \<Rightarrow> timerha option" where
  "unregisterTimedFB fb th =
     (case m_pstTimedFBList th of
        None \<Rightarrow> Some th
      | Some head \<Rightarrow>
          if head = fb
          then Some (th\<lparr>m_pstTimedFBList := m_pstNext (m_entries th head),
                       m_entries := clear_entry head (m_entries th)\<rparr>)
          else map_option (\<lambda>h'. th\<lparr>m_entries := h'\<rparr>) (unreg_walk fb head (m_entries th)))"

text \<open>
  The loop of \<open>nextTick\<close>. \<open>start\<close> stands for \<open>startNewEventChain\<close>, which posts the event of the
  block to the event chain of its resource; the state it changes is threaded through.
\<close>

partial_function (option) tick_loop ::
  "(nat \<Rightarrow> 's \<Rightarrow> 's) \<Rightarrow> timerha \<Rightarrow> 's \<Rightarrow> (timerha \<times> 's) option" where
  "tick_loop start th s =
     (case m_pstTimedFBList th of
        None \<Rightarrow> Some (th, s)
      | Some x \<Rightarrow>
          if time_gt (m_stTimeOut (m_entries th x)) (m_stForteTime th) then Some (th, s)
          else
            let s' = start x s;
                th' = th\<lparr>m_pstTimedFBList := m_pstNext (m_entries th x)\<rparr>
            in case m_eType (m_entries th x) of
                 e_Periodic \<Rightarrow>
                   (case addTimedFBEntry x th' of
                      None \<Rightarrow> None
                    | Some th'' \<Rightarrow> tick_loop start th'' s')
               | e_SingleShot \<Rightarrow>
                   tick_loop start (th'\<lparr>m_entries := clear_entry x (m_entries th')\<rparr>) s')"

definition nextTick :: "(nat \<Rightarrow> 's \<Rightarrow> 's) \<Rightarrow> timerha \<Rightarrow> 's \<Rightarrow> (timerha \<times> 's) option" where
  "nextTick start th s = tick_loop start (th\<lparr>m_stForteTime := time_inc (m_stForteTime th)\<rparr>) s"

lemma unat_u32_less: "unat (w :: u32) < 2 ^ 32"
  using unsigned_less [of w] by simp

section \<open>Tick arithmetic\<close>

lemma ticks_less: "ticks t < 2 ^ 64"
proof -
  have "unat (m_nUpperValue t) < 2 ^ 32" "unat (m_nLowerValue t) < 2 ^ 32"
    by (rule unat_u32_less)+
  then show ?thesis by (simp add: ticks_def)
qed

lemma time_gt_ticks: "time_gt t u \<longleftrightarrow> ticks u < ticks t"
proof -
  have "unat (m_nLowerValue t) < 2 ^ 32" "unat (m_nLowerValue u) < 2 ^ 32"
    by (rule unat_u32_less)+
  then show ?thesis
    by (auto simp: time_gt_def ticks_def word_less_nat_alt word_unat_eq_iff)
qed

lemma time_add_ticks:
  assumes "ticks t + unat n < 2 ^ 64"
  shows "ticks (time_add t n) = ticks t + unat n"
proof -
  have b: "unat (m_nLowerValue t) < 2 ^ 32" "unat n < 2 ^ 32"  "unat (m_nUpperValue t) < 2 ^ 32"
    by (rule unat_u32_less)+
  have lo: "unat (m_nLowerValue t + n) = (unat (m_nLowerValue t) + unat n) mod 2 ^ 32"
    by (simp add: unat_word_ariths)
  show ?thesis
  proof (cases "unat (m_nLowerValue t) + unat n < 2 ^ 32")
    case True
    then show ?thesis
      using lo by (simp add: time_add_def Let_def ticks_def word_less_nat_alt)
  next
    case False
    then have m: "(unat (m_nLowerValue t) + unat n) mod 2 ^ 32 = unat (m_nLowerValue t) + unat n - 2 ^ 32"
      using b by (simp add: mod_if)
    have "unat (m_nUpperValue t) * 2 ^ 32 + 2 ^ 32 < 2 ^ 64"
      using False assms by (simp add: ticks_def)
    then have "unat (m_nUpperValue t + 1) = unat (m_nUpperValue t) + 1"
      by (simp add: unat_word_ariths)
    with False show ?thesis
      using lo [unfolded m] b by (simp add: time_add_def Let_def ticks_def word_less_nat_alt)
  qed
qed

lemma time_inc_add: "time_inc t = time_add t 1"
proof -
  have "m_nLowerValue t + 1 < m_nLowerValue t \<longleftrightarrow> m_nLowerValue t + 1 = 0"
    using unat_u32_less [of "m_nLowerValue t"]
    by (auto simp: word_less_nat_alt word_unat_eq_iff unat_word_ariths mod_if)
  then show ?thesis by (simp add: time_inc_def time_add_def Let_def)
qed

section \<open>The linked list\<close>

fun tlist :: "(nat \<Rightarrow> STimedFBListEntry) \<Rightarrow> nat option \<Rightarrow> nat list \<Rightarrow> bool" where
  "tlist h p [] \<longleftrightarrow> p = None"
| "tlist h p (x # xs) \<longleftrightarrow> p = Some x \<and> tlist h (m_pstNext (h x)) xs"

lemma tlist_unique: "tlist h p xs \<Longrightarrow> tlist h p ys \<Longrightarrow> xs = ys"
proof (induction xs arbitrary: p ys)
  case Nil
  then show ?case by (cases ys) auto
next
  case (Cons x xs)
  then show ?case by (cases ys) auto
qed

lemma tlist_append: "tlist h p (xs @ y # ys) \<Longrightarrow> tlist h (Some y) (y # ys)"
  by (induction xs arbitrary: p) auto

lemma tlist_distinct: "tlist h p xs \<Longrightarrow> distinct xs"
proof (induction xs arbitrary: p)
  case (Cons x xs)
  have "x \<notin> set xs"
  proof
    assume "x \<in> set xs"
    then obtain as bs where xs: "xs = as @ x # bs"
      by (meson split_list)
    then have "tlist h (Some x) (x # bs)"
      using Cons.prems tlist_append [of h p "x # as" x bs] by auto
    moreover have "tlist h (Some x) (x # xs)"
      using Cons.prems by simp
    ultimately have "bs = xs"
      using tlist_unique by blast
    with xs have "length xs = length as + Suc (length xs)"
      by (metis length_append length_Cons)
    then show False by simp
  qed
  with Cons show ?case by auto
qed simp

lemma tlist_cong:
  "(\<And>x. x \<in> set xs \<Longrightarrow> m_pstNext (h' x) = m_pstNext (h x)) \<Longrightarrow> tlist h' p xs = tlist h p xs"
  by (induction xs arbitrary: p) auto

lemma set_next_simps [simp]:
  "m_pstNext (set_next x p h y) = (if y = x then p else m_pstNext (h y))"
  "m_stTimeOut (set_next x p h y) = m_stTimeOut (h y)"
  "m_nInterval (set_next x p h y) = m_nInterval (h y)"
  "m_eType (set_next x p h y) = m_eType (h y)"
  by (simp_all add: set_next_def)

lemma set_next_other [simp]: "y \<noteq> x \<Longrightarrow> set_next x p h y = h y"
  by (simp add: set_next_def)

lemma clear_entry_other [simp]: "y \<noteq> x \<Longrightarrow> clear_entry x h y = h y"
  by (simp add: clear_entry_def)

lemma clear_entry_simps [simp]:
  "m_pstNext (clear_entry x h y) = (if y = x then None else m_pstNext (h y))"
  "m_stTimeOut (clear_entry x h y) = (if y = x then time_zero else m_stTimeOut (h y))"
  "m_nInterval (clear_entry x h y) = m_nInterval (h y)"
  "m_eType (clear_entry x h y) = m_eType (h y)"
  by (simp_all add: clear_entry_def)

lemma tlist_set_next [simp]: "x \<notin> set xs \<Longrightarrow> tlist (set_next x q h) p xs = tlist h p xs"
  by (rule tlist_cong) auto

lemma tlist_clear_entry [simp]: "x \<notin> set xs \<Longrightarrow> tlist (clear_entry x h) p xs = tlist h p xs"
  by (rule tlist_cong) auto

text \<open>Only links change.\<close>

definition same_data :: "(nat \<Rightarrow> STimedFBListEntry) \<Rightarrow> (nat \<Rightarrow> STimedFBListEntry) \<Rightarrow> bool" where
  "same_data h h' \<longleftrightarrow> (\<forall>x. m_stTimeOut (h' x) = m_stTimeOut (h x) \<and> m_nInterval (h' x) = m_nInterval (h x)
     \<and> m_eType (h' x) = m_eType (h x))"

lemma same_data_set_next [simp]: "same_data h' (set_next x p h) = same_data h' h"
  by (simp add: same_data_def)

lemma same_data_refl [simp]: "same_data h h"
  by (simp add: same_data_def)

definition due :: "(nat \<Rightarrow> STimedFBListEntry) \<Rightarrow> nat \<Rightarrow> nat" where
  "due h x = ticks (m_stTimeOut (h x))"

lemma same_data_due: "same_data h h' \<Longrightarrow> due h' = due h"
  by (auto simp: same_data_def due_def)

text \<open>Stable insertion: behind every entry that is due no later.\<close>

fun insert_due :: "(nat \<Rightarrow> nat) \<Rightarrow> nat \<Rightarrow> nat list \<Rightarrow> nat list" where
  "insert_due k e [] = [e]"
| "insert_due k e (x # xs) = (if k e < k x then e # x # xs else x # insert_due k e xs)"

lemma set_insert_due [simp]: "set (insert_due k e xs) = insert e (set xs)"
  by (induction xs) auto

lemma insert_due_cong: "(\<And>x. x \<in> insert e (set xs) \<Longrightarrow> k x = k' x) \<Longrightarrow> insert_due k e xs = insert_due k' e xs"
  by (induction xs) auto

lemma insert_due_sorted: "sorted (map k xs) \<Longrightarrow> sorted (map k (insert_due k e xs))"
  by (induction xs) (auto simp: not_less intro: order.trans)

lemma insert_due_filter_other: "e \<notin> set xs \<Longrightarrow> filter (\<lambda>x. x \<noteq> e) (insert_due k e xs) = xs"
  by (induction xs) (auto simp: filter_id_conv)

lemma add_walk_spec:
  assumes "tlist h (Some r) (r # xs)" "e \<notin> set (r # xs)" "m_pstNext (h e) = None"
  shows "\<exists>h'. add_walk e r h = Some h' \<and> tlist h' (Some r) (r # insert_due (due h) e xs)
    \<and> same_data h h' \<and> (\<forall>y. y \<notin> set (e # r # xs) \<longrightarrow> h' y = h y)"
  using assms
proof (induction xs arbitrary: r)
  case Nil
  then show ?case
    by (subst add_walk.simps) (auto)
next
  case (Cons n xs)
  have dist: "distinct (r # n # xs)"
    using Cons.prems(1) by (rule tlist_distinct)
  have rn: "m_pstNext (h r) = Some n" "tlist h (Some n) (n # xs)"
    using Cons.prems(1) by auto
  show ?case
  proof (cases "time_gt (m_stTimeOut (h n)) (m_stTimeOut (h e))")
    case True
    then show ?thesis
      using Cons.prems dist rn
      by (subst add_walk.simps) (auto simp: time_gt_ticks due_def)
  next
    case False
    obtain h' where h': "add_walk e n h = Some h'" "tlist h' (Some n) (n # insert_due (due h) e xs)"
      "same_data h h'" "\<forall>y. y \<notin> set (e # n # xs) \<longrightarrow> h' y = h y"
      using Cons.IH [OF rn(2)] Cons.prems by auto
    moreover have "h' r = h r"
      using h'(4) dist Cons.prems by auto
    ultimately show ?thesis
      using False rn by (subst add_walk.simps) (auto simp: time_gt_ticks due_def)
  qed
qed

section \<open>The handler refines a sorted list\<close>

text \<open>The handler holds the timed blocks \<open>xs\<close>, in the order in which they are due.\<close>

definition timer_rep :: "timerha \<Rightarrow> nat list \<Rightarrow> bool" where
  "timer_rep th xs \<longleftrightarrow> tlist (m_entries th) (m_pstTimedFBList th) xs
     \<and> sorted (map (due (m_entries th)) xs)"

abbreviation now :: "timerha \<Rightarrow> nat" where
  "now th \<equiv> ticks (m_stForteTime th)"

lemma due_time_ticks:
  assumes "ticks t + 2 ^ 33 < 2 ^ 64"
  shows "ticks (due_time t iv) = (if iv = 0 then ticks t + 10 else ticks t + unat iv)"
  using assms unat_u32_less [of iv]
  by (simp add: due_time_def Let_def cg_nForteTicksPerSecond_def time_add_ticks)


text \<open>Everything but the links, and the time of one entry, is left alone.\<close>

definition timer_frame :: "nat \<Rightarrow> timerha \<Rightarrow> timerha \<Rightarrow> bool" where
  "timer_frame e th th' \<longleftrightarrow> m_stForteTime th' = m_stForteTime th
     \<and> (\<forall>y. m_nInterval (m_entries th' y) = m_nInterval (m_entries th y)
          \<and> m_eType (m_entries th' y) = m_eType (m_entries th y)
          \<and> (y \<noteq> e \<longrightarrow> m_stTimeOut (m_entries th' y) = m_stTimeOut (m_entries th y)))"

lemma timer_frameD:
  assumes "timer_frame e th th'"
  shows "m_stForteTime th' = m_stForteTime th" "m_nInterval (m_entries th' y) = m_nInterval (m_entries th y)"
    "m_eType (m_entries th' y) = m_eType (m_entries th y)"
    "y \<noteq> e \<Longrightarrow> due (m_entries th') y = due (m_entries th) y"
  using assms by (auto simp: timer_frame_def due_def)

lemma addTimedFBEntry_refines:
  assumes "timer_rep th xs" "e \<notin> set xs"
  obtains th' where "addTimedFBEntry e th = Some th'" "timer_frame e th th'"
    "m_stTimeOut (m_entries th' e) = due_time (m_stForteTime th) (m_nInterval (m_entries th e))"
    "timer_rep th' (insert_due (due (m_entries th')) e xs)"
proof -
  note result = that
  let ?t = "due_time (m_stForteTime th) (m_nInterval (m_entries th e))"
  define h where "h = (m_entries th)(e := (m_entries th e)\<lparr>m_stTimeOut := ?t, m_pstNext := None\<rparr>)"
  have add: "addTimedFBEntry e th = (case m_pstTimedFBList th of
        None \<Rightarrow> Some (th\<lparr>m_pstTimedFBList := Some e, m_entries := h\<rparr>)
      | Some head \<Rightarrow>
          if time_gt (m_stTimeOut (h head)) (m_stTimeOut (h e))
          then Some (th\<lparr>m_pstTimedFBList := Some e, m_entries := set_next e (Some head) h\<rparr>)
          else map_option (\<lambda>h'. th\<lparr>m_entries := h'\<rparr>) (add_walk e head h))"
    unfolding addTimedFBEntry_def Let_def h_def [symmetric] ..
  have he: "m_pstNext (h e) = None" "m_stTimeOut (h e) = ?t"
    "m_nInterval (h e) = m_nInterval (m_entries th e)" "m_eType (h e) = m_eType (m_entries th e)"
    by (simp_all add: h_def)
  have ho: "h y = m_entries th y" if "y \<noteq> e" for y
    using that by (simp add: h_def)
  have list: "tlist h (m_pstTimedFBList th) xs"
    using assms tlist_cong [of xs h "m_entries th"] ho by (fastforce simp: timer_rep_def)
  have srt: "sorted (map (due h) xs)"
    using assms ho by (simp add: timer_rep_def due_def cong: map_cong) (metis (mono_tags, lifting) map_cong)
  \<comment> \<open>any store with these links and this data will do\<close>
  have wrap: thesis if th': "addTimedFBEntry e th = Some th'" "same_data h (m_entries th')"
    "m_stForteTime th' = m_stForteTime th" "tlist (m_entries th') (m_pstTimedFBList th') (insert_due (due h) e xs)" for th'
  proof (rule result [OF th'(1)])
    have d: "due (m_entries th') = due h"
      using same_data_due [OF th'(2)] .
    show "timer_frame e th th'"
      using th'(2,3) he ho unfolding timer_frame_def same_data_def by metis
    show "m_stTimeOut (m_entries th' e) = ?t"
      using th'(2) he by (simp add: same_data_def)
    show "timer_rep th' (insert_due (due (m_entries th')) e xs)"
      using th'(4) insert_due_sorted [OF srt] by (simp add: timer_rep_def d)
  qed
  show thesis
  proof (cases xs)
    case Nil
    then show thesis
      using list add he by (intro wrap [of "th\<lparr>m_pstTimedFBList := Some e, m_entries := h\<rparr>"]) simp_all
  next
    case (Cons head rest)
    then have hd: "m_pstTimedFBList th = Some head"
      using list by simp
    show thesis
    proof (cases "time_gt (m_stTimeOut (h head)) (m_stTimeOut (h e))")
      case True
      then show thesis
        using list add he hd Cons assms(2)
        by (intro wrap [of "th\<lparr>m_pstTimedFBList := Some e, m_entries := set_next e (Some head) h\<rparr>"])
           (simp_all add: time_gt_ticks due_def)
    next
      case False
      obtain h' where "add_walk e head h = Some h'" "tlist h' (Some head) (head # insert_due (due h) e rest)"
        "same_data h h'"
        using add_walk_spec [of h head rest e] list assms(2) he(1) Cons hd by auto
      then show thesis
        using False add hd Cons
        by (intro wrap [of "th\<lparr>m_entries := h'\<rparr>"]) (simp_all add: time_gt_ticks due_def)
    qed
  qed
qed

lemma unreg_walk_spec:
  assumes "tlist h (Some r) (r # xs)" "fb \<noteq> r"
  shows "\<exists>h'. unreg_walk fb r h = Some h' \<and> tlist h' (Some r) (r # remove1 fb xs)
    \<and> (\<forall>y. y \<noteq> fb \<longrightarrow> m_stTimeOut (h' y) = m_stTimeOut (h y))
    \<and> (\<forall>y. m_nInterval (h' y) = m_nInterval (h y) \<and> m_eType (h' y) = m_eType (h y))
    \<and> (\<forall>y. y \<notin> set (r # xs) \<longrightarrow> h' y = h y)"
  using assms
proof (induction xs arbitrary: r)
  case Nil
  then show ?case by (subst unreg_walk.simps) auto
next
  case (Cons n xs)
  have dist: "distinct (r # n # xs)"
    using Cons.prems(1) by (rule tlist_distinct)
  have rn: "m_pstNext (h r) = Some n" "tlist h (Some n) (n # xs)"
    using Cons.prems(1) by auto
  show ?case
  proof (cases "n = fb")
    case True
    then show ?thesis
      using Cons.prems dist rn by (subst unreg_walk.simps) auto
  next
    case False
    obtain h' where h': "unreg_walk fb n h = Some h'" "tlist h' (Some n) (n # remove1 fb xs)"
      "\<forall>y. y \<noteq> fb \<longrightarrow> m_stTimeOut (h' y) = m_stTimeOut (h y)"
      "\<forall>y. m_nInterval (h' y) = m_nInterval (h y) \<and> m_eType (h' y) = m_eType (h y)"
      "\<forall>y. y \<notin> set (n # xs) \<longrightarrow> h' y = h y"
      using Cons.IH [OF rn(2)] False by auto
    moreover have "h' r = h r"
      using h'(5) dist by auto
    ultimately show ?thesis
      using False rn by (subst unreg_walk.simps) auto
  qed
qed

lemma sorted_map_remove1: "sorted (map k xs) \<Longrightarrow> sorted (map k (remove1 x xs))"
  by (induction xs) (auto dest: set_remove1_subset [THEN subsetD])

lemma unregisterTimedFB_refines:
  assumes "timer_rep th xs"
  obtains th' where "unregisterTimedFB fb th = Some th'" "timer_frame fb th th'"
    "timer_rep th' (remove1 fb xs)"
proof (cases xs)
  case Nil
  then show thesis
    using assms by (intro that [of th]) (simp_all add: unregisterTimedFB_def timer_rep_def timer_frame_def)
next
  case (Cons head rest)
  have l: "m_pstTimedFBList th = Some head" "tlist (m_entries th) (Some head) (head # rest)"
    "tlist (m_entries th) (m_pstNext (m_entries th head)) rest" "head \<notin> set rest" "fb \<notin> set (remove1 fb xs)"
    using assms Cons tlist_distinct [of "m_entries th" _ xs] by (auto simp: timer_rep_def)
  have srt: "sorted (map (due (m_entries th)) (remove1 fb xs))"
    using assms sorted_map_remove1 by (auto simp: timer_rep_def)
  show thesis
  proof (cases "head = fb")
    case True
    have d: "map (due (clear_entry fb (m_entries th))) rest = map (due (m_entries th)) rest"
      using l(4) True by (auto simp: due_def)
    have "sorted (map (due (clear_entry fb (m_entries th))) rest)"
      unfolding d using srt True Cons by simp
    then show thesis
      using True l Cons
      by (intro that) (auto simp: unregisterTimedFB_def timer_rep_def timer_frame_def)
  next
    case False
    obtain h' where h': "unreg_walk fb head (m_entries th) = Some h'" "tlist h' (Some head) (head # remove1 fb rest)"
      "\<forall>y. y \<noteq> fb \<longrightarrow> m_stTimeOut (h' y) = m_stTimeOut (m_entries th y)"
      "\<forall>y. m_nInterval (h' y) = m_nInterval (m_entries th y) \<and> m_eType (h' y) = m_eType (m_entries th y)"
      using unreg_walk_spec [OF l(2), of fb] False by auto
    have "map (due h') (remove1 fb xs) = map (due (m_entries th)) (remove1 fb xs)"
      using h'(3) l(5) by (auto simp: due_def)
    then have "sorted (map (due h') (remove1 fb xs))"
      using srt by (simp only:)
    with h' show thesis
      using False l(1) Cons
      by (intro that [of "th\<lparr>m_entries := h'\<rparr>"])
         (simp_all add: unregisterTimedFB_def timer_rep_def timer_frame_def)
  qed
qed

lemma takeWhile_insert_due:
  "\<not> k e \<le> t \<Longrightarrow> takeWhile (\<lambda>x. k x \<le> t) (insert_due k e xs) = takeWhile (\<lambda>x. k x \<le> t) xs"
  by (induction xs) auto

lemma dropWhile_insert_due:
  "\<not> k e \<le> t \<Longrightarrow> set (dropWhile (\<lambda>x. k x \<le> t) (insert_due k e xs)) = insert e (set (dropWhile (\<lambda>x. k x \<le> t) xs))"
  by (induction xs) auto

text \<open>The distance to the next activation that a periodic block gets.\<close>

definition period :: "u32 \<Rightarrow> nat" where
  "period iv = (if iv = 0 then 10 else unat iv)"

lemma period_pos [simp]: "0 < period iv"
  by (simp add: period_def unat_gt_0)

lemma due_time_period: "ticks t + 2 ^ 33 < 2 ^ 64 \<Longrightarrow> ticks (due_time t iv) = ticks t + period iv"
  by (simp add: due_time_ticks period_def)

definition due_now :: "timerha \<Rightarrow> nat list \<Rightarrow> nat list" where
  "due_now th xs = takeWhile (\<lambda>x. due (m_entries th) x \<le> now th) xs"

definition due_later :: "timerha \<Rightarrow> nat list \<Rightarrow> nat list" where
  "due_later th xs = dropWhile (\<lambda>x. due (m_entries th) x \<le> now th) xs"

definition is_periodic :: "timerha \<Rightarrow> nat \<Rightarrow> bool" where
  "is_periodic th x \<longleftrightarrow> m_eType (m_entries th x) = e_Periodic"

text \<open>What one tick leaves behind.\<close>

definition tick_result :: "timerha \<Rightarrow> nat list \<Rightarrow> timerha \<Rightarrow> nat list \<Rightarrow> bool" where
  "tick_result th xs th' ys \<longleftrightarrow> timer_rep th' ys \<and> m_stForteTime th' = m_stForteTime th
     \<and> set ys = {x \<in> set (due_now th xs). is_periodic th x} \<union> set (due_later th xs)
     \<and> (\<forall>x \<in> set (due_later th xs). due (m_entries th') x = due (m_entries th) x)
     \<and> (\<forall>x \<in> set (due_now th xs). is_periodic th x \<longrightarrow>
          due (m_entries th') x = now th + period (m_nInterval (m_entries th x)))
     \<and> (\<forall>x. m_nInterval (m_entries th' x) = m_nInterval (m_entries th x)
          \<and> m_eType (m_entries th' x) = m_eType (m_entries th x))"

lemma sorted_due_later:
  "sorted (map k xs) \<Longrightarrow> x \<in> set (dropWhile (\<lambda>x. k x \<le> t) xs) \<Longrightarrow> (t::nat) < k x"
  by (induction xs) (auto split: if_splits)

lemma tick_loop_spec:
  assumes "timer_rep th xs" "now th + 2 ^ 33 < 2 ^ 64"
  shows "\<exists>th' ys. tick_loop start th s = Some (th', fold start (due_now th xs) s) \<and> tick_result th xs th' ys"
  using assms
proof (induction "length (due_now th xs)" arbitrary: th xs s)
  case 0
  then have ds: "due_now th xs = []" by simp
  then have "due_later th xs = xs"
    using takeWhile_dropWhile_id [of "\<lambda>x. due (m_entries th) x \<le> now th" xs]
    by (simp add: due_now_def due_later_def)
  moreover have "tick_loop start th s = Some (th, s)"
  proof (cases xs)
    case (Cons x rest)
    then have "time_gt (m_stTimeOut (m_entries th x)) (m_stForteTime th)"
      using ds by (simp add: due_now_def due_def time_gt_ticks split: if_splits)
    then show ?thesis
      using Cons "0.prems" by (subst tick_loop.simps) (simp add: timer_rep_def)
  qed (use "0.prems" in \<open>subst tick_loop.simps; simp add: timer_rep_def\<close>)
  ultimately show ?case
    using ds "0.prems"(1) by (auto simp: tick_result_def intro!: exI [of _ th] exI [of _ xs])
next
  case (Suc n)
  note result = "Suc.prems"
  obtain x rest where xs: "xs = x # rest" and x_due: "due (m_entries th) x \<le> now th"
    using "Suc.hyps"(2) by (cases xs) (auto simp: due_now_def split: if_splits)
  have ds: "due_now th xs = x # due_now th rest" and dl: "due_later th xs = due_later th rest"
    using x_due xs by (simp_all add: due_now_def due_later_def)
  define th1 where "th1 = th\<lparr>m_pstTimedFBList := m_pstNext (m_entries th x)\<rparr>"
  have rep1: "timer_rep th1 rest" and x_rest: "x \<notin> set rest" and head: "m_pstTimedFBList th = Some x"
    using "Suc.prems"(1) xs tlist_distinct [of "m_entries th" "m_pstTimedFBList th" xs]
    by (auto simp: timer_rep_def th1_def)
  have not_gt: "\<not> time_gt (m_stTimeOut (m_entries th x)) (m_stForteTime th)"
    using x_due by (simp add: time_gt_ticks due_def)
  \<comment> \<open>the state with which the loop goes on\<close>
  obtain th2 zs where step: "tick_loop start th s = tick_loop start th2 (start x s)"
    and rep2: "timer_rep th2 zs" and fr: "timer_frame x th th2"
    and dn2: "due_now th2 zs = due_now th rest"
    and dl2: "set (due_later th2 zs) = (if is_periodic th x then {x} else {}) \<union> set (due_later th rest)"
    and x2: "is_periodic th x \<Longrightarrow> due (m_entries th2) x = now th + period (m_nInterval (m_entries th x))"
  proof (cases "m_eType (m_entries th x)")
    case e_SingleShot
    define th2 where "th2 = th1\<lparr>m_entries := clear_entry x (m_entries th1)\<rparr>"
    have o: "due (m_entries th2) y = due (m_entries th) y" if "y \<in> set rest" for y
      using that x_rest by (auto simp: th2_def th1_def due_def)
    have m: "map (due (m_entries th2)) rest = map (due (m_entries th)) rest"
      using o by simp
    have "tlist (m_entries th2) (m_pstTimedFBList th2) rest"
      using rep1 x_rest by (simp add: th2_def th1_def timer_rep_def)
    moreover have "sorted (map (due (m_entries th2)) rest)"
      unfolding m using rep1 by (simp add: timer_rep_def th1_def)
    moreover have "due_now th2 rest = due_now th rest" "due_later th2 rest = due_later th rest"
      using o by (auto simp: due_now_def due_later_def th2_def th1_def intro: takeWhile_cong dropWhile_cong)
    ultimately show thesis
      using head not_gt e_SingleShot
      by (intro that [of th2 rest]; (subst tick_loop.simps)?)
         (auto simp: th2_def th1_def timer_rep_def timer_frame_def is_periodic_def Let_def)
  next
    case e_Periodic
    obtain th2 where a: "addTimedFBEntry x th1 = Some th2" "timer_frame x th1 th2"
      "m_stTimeOut (m_entries th2 x) = due_time (m_stForteTime th1) (m_nInterval (m_entries th1 x))"
      "timer_rep th2 (insert_due (due (m_entries th2)) x rest)"
      using addTimedFBEntry_refines [OF rep1 x_rest] .
    have x2: "due (m_entries th2) x = now th + period (m_nInterval (m_entries th x))"
      using a(3) "Suc.prems"(2) by (simp add: due_def due_time_period th1_def)
    have now2: "now th2 = now th"
      using timer_frameD(1) [OF a(2)] by (simp add: th1_def)
    have o: "due (m_entries th2) y = due (m_entries th) y" if "y \<in> set rest" for y
    proof -
      have "y \<noteq> x"
        using that x_rest by blast
      then show ?thesis
        using timer_frameD(4) [OF a(2)] by (simp add: th1_def)
    qed
    have late: "\<not> due (m_entries th2) x \<le> now th2"
      using x2 now2 by simp
    have "due_now th2 (insert_due (due (m_entries th2)) x rest) = due_now th rest"
      using late o by (simp add: due_now_def takeWhile_insert_due now2 cong: takeWhile_cong)
    moreover have "set (due_later th2 (insert_due (due (m_entries th2)) x rest)) = insert x (set (due_later th rest))"
      using late o by (simp add: due_later_def dropWhile_insert_due now2 cong: dropWhile_cong)
    moreover have "timer_frame x th th2"
      using a(2) by (simp add: timer_frame_def th1_def)
    moreover have "tick_loop start th s = tick_loop start th2 (start x s)"
      using head not_gt e_Periodic a(1) by (subst tick_loop.simps) (simp add: Let_def th1_def)
    ultimately show thesis
      using x2 a(4) e_Periodic by (intro that) (auto simp: is_periodic_def)
  qed
  have now2: "now th2 = now th"
    using timer_frameD(1) [OF fr] by simp
  obtain th' ys where ih: "tick_loop start th2 (start x s) = Some (th', fold start (due_now th2 zs) (start x s))"
    "tick_result th2 zs th' ys"
    using "Suc.hyps"(1) [of th2 zs "start x s"] "Suc.hyps"(2) rep2 "Suc.prems"(2) ds dn2 now2 by auto
  have per: "is_periodic th2 y = is_periodic th y" for y
    using timer_frameD(3) [OF fr] by (simp add: is_periodic_def)
  have later: "x \<notin> set (due_later th rest)" "x \<notin> set (due_now th rest)"
    using x_rest by (auto simp: due_later_def due_now_def dest: set_dropWhileD set_takeWhileD)
  have o: "due (m_entries th2) y = due (m_entries th) y" if "y \<noteq> x" for y
    using timer_frameD(4) [OF fr that] .
  have ol: "\<forall>y\<in>set (due_later th rest). due (m_entries th2) y = due (m_entries th) y"
    using o later(1) by metis
  have "tick_result th xs th' ys"
    unfolding tick_result_def ds dl
  proof (intro conjI)
    show "timer_rep th' ys" "m_stForteTime th' = m_stForteTime th"
      using ih(2) timer_frameD(1) [OF fr] by (simp_all add: tick_result_def)
    show "set ys = {xa \<in> set (x # due_now th rest). is_periodic th xa} \<union> set (due_later th rest)"
      using ih(2) by (auto simp: tick_result_def dn2 dl2 per)
    show "\<forall>y\<in>set (due_later th rest). due (m_entries th') y = due (m_entries th) y"
      using ih(2) ol by (auto simp: tick_result_def dl2)
    show "\<forall>y\<in>set (x # due_now th rest). is_periodic th y \<longrightarrow>
        due (m_entries th') y = now th + period (m_nInterval (m_entries th y))"
      using ih(2) x2 timer_frameD(2) [OF fr] now2 by (auto simp: tick_result_def dn2 dl2 per)
    show "\<forall>y. m_nInterval (m_entries th' y) = m_nInterval (m_entries th y)
        \<and> m_eType (m_entries th' y) = m_eType (m_entries th y)"
      using ih(2) timer_frameD(2,3) [OF fr] by (simp add: tick_result_def)
  qed
  with ih(1) step ds dn2 show ?case by auto
qed


section \<open>Properties\<close>

lemma due_now_filter: "timer_rep th xs \<Longrightarrow> due_now th xs = filter (\<lambda>x. due (m_entries th) x \<le> now th) xs"
proof -
  assume "timer_rep th xs"
  then have "sorted (map (due (m_entries th)) xs)"
    by (simp add: timer_rep_def)
  then have "takeWhile (\<lambda>x. due (m_entries th) x \<le> t) xs = filter (\<lambda>x. due (m_entries th) x \<le> t) xs" for t
    by (induction xs) (auto simp: filter_empty_conv, (metis filter_False le_trans)+)
  then show ?thesis by (simp add: due_now_def)
qed

lemma due_later_filter: "timer_rep th xs \<Longrightarrow> set (due_later th xs) = {x \<in> set xs. now th < due (m_entries th) x}"
proof -
  assume "timer_rep th xs"
  then have s: "sorted (map (due (m_entries th)) xs)"
    by (simp add: timer_rep_def)
  have "set xs = set (due_now th xs) \<union> set (due_later th xs)"
    by (metis due_later_def due_now_def set_append takeWhile_dropWhile_id)
  then show ?thesis
    using sorted_due_later [OF s] by (auto simp: due_now_def due_later_def dest: set_takeWhileD)
qed

lemma timer_rep_tick [simp]: "timer_rep (th\<lparr>m_stForteTime := t\<rparr>) xs = timer_rep th xs"
  by (simp add: timer_rep_def)

text \<open>A handler for the examples: at tick 5, block 1 (periodic, 3 ticks) is due at 6 and block 2 (single
  shot) at 9.\<close>

definition two_timers :: timerha where
  "two_timers =
     \<lparr>m_stForteTime = \<lparr>m_nLowerValue = 5, m_nUpperValue = 0\<rparr>, m_pstTimedFBList = Some 1,
      m_entries = (\<lambda>x.
        if x = 1 then \<lparr>m_stTimeOut = \<lparr>m_nLowerValue = 6, m_nUpperValue = 0\<rparr>, m_nInterval = 3,
          m_eType = e_Periodic, m_pstNext = Some 2\<rparr>
        else \<lparr>m_stTimeOut = \<lparr>m_nLowerValue = 9, m_nUpperValue = 0\<rparr>, m_nInterval = 4,
          m_eType = e_SingleShot, m_pstNext = None\<rparr>)\<rparr>"

lemma two_timers_rep: "timer_rep two_timers [1, 2]"
  by (simp add: timer_rep_def two_timers_def due_def ticks_def)

lemma two_timers_now: "now two_timers = 5"
  by (simp add: two_timers_def ticks_def)

lemma registerTimedFB_refines:
  assumes "timer_rep th xs" "e \<notin> set xs" "now th + 2 ^ 33 < 2 ^ 64"
  shows "\<exists>th'. registerTimedFB e dt th = Some th'
     \<and> timer_rep th' (insert_due (due (m_entries th')) e xs)
     \<and> due (m_entries th') e = now th + period (timer_interval dt)
     \<and> (\<forall>y \<in> set xs. due (m_entries th') y = due (m_entries th) y)
     \<and> m_stForteTime th' = m_stForteTime th \<and> m_nInterval (m_entries th' e) = timer_interval dt
     \<and> m_eType (m_entries th' e) = m_eType (m_entries th e)"
proof -
  let ?th = "th\<lparr>m_entries := (m_entries th)(e := (m_entries th e)\<lparr>m_nInterval := timer_interval dt\<rparr>)\<rparr>"
  have d: "due (m_entries ?th) = due (m_entries th)"
    by (auto simp: due_def)
  have "timer_rep ?th xs"
    using assms(1,2) tlist_cong [of xs "m_entries ?th" "m_entries th"] unfolding timer_rep_def d by auto
  from addTimedFBEntry_refines [OF this assms(2)] obtain th' where a: "addTimedFBEntry e ?th = Some th'"
    "timer_frame e ?th th'"
    "m_stTimeOut (m_entries th' e) = due_time (m_stForteTime ?th) (m_nInterval (m_entries ?th e))"
    "timer_rep th' (insert_due (due (m_entries th')) e xs)" .
  moreover have "due (m_entries th') e = now th + period (timer_interval dt)"
    using a(3) assms(3) by (simp add: due_def due_time_period)
  moreover have "\<forall>y \<in> set xs. due (m_entries th') y = due (m_entries th) y"
    using timer_frameD(4) [OF a(2)] assms(2) d by metis
  ultimately show ?thesis
    using timer_frameD(1-3) [OF a(2)] by (simp add: registerTimedFB_def)
qed

text \<open>
  Registering a timed function block always ends and puts the block into the timer list behind
  every block that is due no later: the list stays sorted by due time, nothing else in it changes,
  and the block is due one interval after the current tick (10 ms for a zero interval).
\<close>

theorem registerTimedFB_sorted:
  assumes "timer_rep th xs" "e \<notin> set xs" "now th + 2 ^ 33 < 2 ^ 64"
  shows "\<exists>th'. registerTimedFB e dt th = Some th'
     \<and> timer_rep th' (insert_due (due (m_entries th')) e xs)
     \<and> due (m_entries th') e = now th + period (timer_interval dt)
     \<and> (\<forall>y \<in> set xs. due (m_entries th') y = due (m_entries th) y)"
  using registerTimedFB_refines [OF assms, of dt] by blast

theorem registerTimedFB_sorted_witness:
  "\<exists>th'. registerTimedFB 7 4000000 two_timers = Some th'
     \<and> timer_rep th' (insert_due (due (m_entries th')) 7 [1, 2])
     \<and> due (m_entries th') 7 = now two_timers + period (timer_interval 4000000)
     \<and> (\<forall>y \<in> set [1, 2]. due (m_entries th') y = due (m_entries two_timers) y)"
  by (rule registerTimedFB_sorted [OF two_timers_rep]) (simp_all add: two_timers_now)

text \<open>
  Unregistering a block always ends; it removes the block from the timer list, if it is there,
  and leaves the order and the due times of all others as they are.
\<close>

theorem unregisterTimedFB_removes:
  assumes "timer_rep th xs"
  shows "\<exists>th'. unregisterTimedFB fb th = Some th' \<and> timer_rep th' (remove1 fb xs)
     \<and> (\<forall>y. y \<noteq> fb \<longrightarrow> due (m_entries th') y = due (m_entries th) y)"
  using unregisterTimedFB_refines [OF assms, of fb] timer_frameD(4) by metis

theorem unregisterTimedFB_removes_witness:
  "\<exists>th'. unregisterTimedFB 2 two_timers = Some th' \<and> timer_rep th' (remove1 2 [1, 2])
     \<and> (\<forall>y. y \<noteq> 2 \<longrightarrow> due (m_entries th') y = due (m_entries two_timers) y)"
  by (rule unregisterTimedFB_removes [OF two_timers_rep])

text \<open>
  C5. One tick (with the 64-bit tick counter away from its end) always ends. It starts the event
  chains of exactly the blocks that are due by the new time, in the order in which they are due;
  afterwards the list is sorted again and holds the blocks that are not due yet, unchanged, and the
  periodic ones of the started blocks, due one period after the new time. Every block in it is
  due in the future, so none is missed and none fires twice.
\<close>

theorem nextTick_fires_exactly_due:
  assumes "timer_rep th xs" "now th + 2 ^ 33 + 1 < 2 ^ 64"
  shows "\<exists>th' ys. nextTick start th s =
        Some (th', fold start (filter (\<lambda>x. due (m_entries th) x \<le> now th + 1) xs) s)
     \<and> now th' = now th + 1 \<and> timer_rep th' ys
     \<and> set ys = {x \<in> set xs. now th + 1 < due (m_entries th) x \<or> is_periodic th x}
     \<and> (\<forall>y \<in> set ys. due (m_entries th') y =
          (if now th + 1 < due (m_entries th) y then due (m_entries th) y
           else now th + 1 + period (m_nInterval (m_entries th y))))
     \<and> (\<forall>y \<in> set ys. now th' < due (m_entries th') y)"
proof -
  let ?th = "th\<lparr>m_stForteTime := time_inc (m_stForteTime th)\<rparr>"
  have n: "now ?th = now th + 1"
    using assms(2) by (simp add: time_inc_add time_add_ticks)
  have rep: "timer_rep ?th xs"
    using assms(1) by simp
  obtain th' ys where t: "tick_loop start ?th s = Some (th', fold start (due_now ?th xs) s)"
    "tick_result ?th xs th' ys"
    using tick_loop_spec [OF rep, of start s] assms(2) n by auto
  have dn: "due_now ?th xs = filter (\<lambda>x. due (m_entries th) x \<le> now th + 1) xs"
    using due_now_filter [OF rep] n by simp
  have dl: "set (due_later ?th xs) = {x \<in> set xs. now th + 1 < due (m_entries th) x}"
    using due_later_filter [OF rep] n by simp
  have p: "is_periodic ?th = is_periodic th"
    by (auto simp: is_periodic_def)
  have ys: "set ys = {x \<in> set xs. now th + 1 < due (m_entries th) x \<or> is_periodic th x}"
    using t(2) unfolding tick_result_def dn dl p by auto
  have due: "\<forall>y \<in> set ys. due (m_entries th') y = (if now th + 1 < due (m_entries th) y
      then due (m_entries th) y else now th + 1 + period (m_nInterval (m_entries th y)))"
    using t(2) ys unfolding tick_result_def dn dl p n by auto
  moreover have "now th' = now th + 1"
    using t(2) n by (simp add: tick_result_def)
  ultimately show ?thesis
    using t ys unfolding nextTick_def dn tick_result_def
    by (intro exI [of _ th'] exI [of _ ys]) auto
qed

theorem nextTick_fires_exactly_due_witness:
  "\<exists>th' ys. nextTick (\<lambda>x s. s @ [x]) two_timers [] =
        Some (th', fold (\<lambda>x s. s @ [x]) (filter (\<lambda>x. due (m_entries two_timers) x \<le> now two_timers + 1) [1, 2]) [])
     \<and> now th' = now two_timers + 1 \<and> timer_rep th' ys
     \<and> set ys = {x \<in> set [1, 2]. now two_timers + 1 < due (m_entries two_timers) x \<or> is_periodic two_timers x}
     \<and> (\<forall>y \<in> set ys. due (m_entries th') y =
          (if now two_timers + 1 < due (m_entries two_timers) y then due (m_entries two_timers) y
           else now two_timers + 1 + period (m_nInterval (m_entries two_timers y))))
     \<and> (\<forall>y \<in> set ys. now th' < due (m_entries th') y)"
  by (rule nextTick_fires_exactly_due [OF two_timers_rep]) (simp add: two_timers_now)

text \<open>
  A TIME value that is not negative, whose product with the tick rate fits a signed 64-bit
  number and whose interval fits 32 bits, gives the interval rounded down to whole ticks.
\<close>

theorem timer_interval_exact:
  assumes "0 \<le> sint dt" "sint dt * 1000 < 2 ^ 63" "sint dt * 1000 div 1000000000 < 2 ^ 32"
  shows "uint (timer_interval dt) = sint dt * 1000 div 1000000000"
proof -
  have p: "sint (dt * ucast cg_nForteTicksPerSecond) = sint dt * 1000"
    using assms(1,2)
    by (simp add: cg_nForteTicksPerSecond_def sint_word_ariths signed_take_bit_int_eq_self)
  have "sint dt * 1000 sdiv 1000000000 = sint dt * 1000 div 1000000000"
    using assms(1) by (simp add: signed_divide_int_def sgn_if)
  moreover have "0 \<le> sint dt * 1000 div 1000000000"
    using assms(1) by simp
  ultimately show ?thesis
    unfolding timer_interval_def p FORTE_TIME_BASE_UNITS_PER_SECOND_def
    using assms(3) by (simp add: uint_word_of_int)
qed

theorem timer_interval_exact_witness:
  "uint (timer_interval 2500000) = 2"
  using timer_interval_exact [of 2500000] by simp

lemma add_walk_self_loop:
  "m_pstNext (h r) = Some r \<Longrightarrow> \<not> time_gt (m_stTimeOut (h r)) (m_stTimeOut (h e)) \<Longrightarrow> add_walk e r h = None"
proof (rule ccontr)
  assume l: "m_pstNext (h r) = Some r" "\<not> time_gt (m_stTimeOut (h r)) (m_stTimeOut (h e))"
    and "add_walk e r h \<noteq> None"
  then obtain h' where "add_walk e r h = Some h'" by auto
  then have "\<not> (m_pstNext (h r) = Some r \<and> \<not> time_gt (m_stTimeOut (h r)) (m_stTimeOut (h e)))"
  proof (rule add_walk.raw_induct [where P = "\<lambda>e r h y. \<not> (m_pstNext (h r) = Some r
        \<and> \<not> time_gt (m_stTimeOut (h r)) (m_stTimeOut (h e)))", rotated])
    fix f e r h y
    assume "\<And>e r h y. f e r h = Some y \<Longrightarrow> \<not> (m_pstNext (h r) = Some r
        \<and> \<not> time_gt (m_stTimeOut (h r)) (m_stTimeOut (h e)))"
      and "(case m_pstNext (h r) of None \<Rightarrow> Some (set_next r (Some e) h)
        | Some n \<Rightarrow> if time_gt (m_stTimeOut (h n)) (m_stTimeOut (h e))
            then Some (set_next r (Some e) (set_next r (Some e) (set_next e (Some n) h)))
            else f e n h) = Some y"
    then show "\<not> (m_pstNext (h r) = Some r \<and> \<not> time_gt (m_stTimeOut (h r)) (m_stTimeOut (h e)))"
      by (auto split: if_splits)
  qed
  with l show False by simp
qed

lemma unat_sub_borrow:
  fixes a b :: u32
  assumes "a < b"
  shows "unat (a - 1 - b) = unat a + 2 ^ 32 - 1 - unat b"
proof -
  have b: "unat b < 2 ^ 32" by (rule unat_u32_less)
  have eq: "a - 1 - b = word_of_nat (unat a + 2 ^ 32 - 1 - unat b)"
    using b by (simp add: of_nat_diff)
  show ?thesis
    unfolding eq unat_of_nat using assms b by (simp add: word_less_nat_alt)
qed

lemma unat_sub_sub1:
  fixes a b :: u32
  assumes "unat b < unat a"
  shows "unat (a - b - 1) = unat a - unat b - 1"
proof -
  have b: "unat a < 2 ^ 32" by (rule unat_u32_less)
  have eq: "a - b - 1 = word_of_nat (unat a - unat b - 1)"
    using assms by (simp add: of_nat_diff)
  show ?thesis
    unfolding eq unat_of_nat using assms b by simp
qed

text \<open>
  The difference of two tick counts is one tick too small whenever the lower half has to borrow.
\<close>

theorem time_diff_off_by_one:
  assumes "ticks u \<le> ticks t"
  shows "ticks (time_diff t u) =
    (if m_nLowerValue t < m_nLowerValue u then ticks t - ticks u - 1 else ticks t - ticks u)"
proof -
  have b: "unat (m_nLowerValue t) < 2 ^ 32" "unat (m_nLowerValue u) < 2 ^ 32"
    by (rule unat_u32_less)+
  show ?thesis
  proof (cases "m_nLowerValue t < m_nLowerValue u")
    case True
    then have up: "unat (m_nUpperValue u) < unat (m_nUpperValue t)"
      using assms b by (simp add: ticks_def word_less_nat_alt)
    have lo: "unat (m_nLowerValue t - 1 - m_nLowerValue u) = unat (m_nLowerValue t) + 2 ^ 32 - 1 - unat (m_nLowerValue u)"
      using True by (intro unat_sub_borrow)
    have hi: "unat (m_nUpperValue t - m_nUpperValue u - 1) = unat (m_nUpperValue t) - unat (m_nUpperValue u) - 1"
      using up by (simp add: unat_sub word_le_nat_alt word_less_nat_alt unat_sub_sub1)
    show ?thesis
      using True up b by (simp add: time_diff_def Let_def ticks_def lo hi word_less_nat_alt)
  next
    case False
    then have up: "unat (m_nUpperValue u) \<le> unat (m_nUpperValue t)"
      and lo: "unat (m_nLowerValue u) \<le> unat (m_nLowerValue t)"
      using assms b by (simp_all add: ticks_def word_less_nat_alt)
    then have "unat (m_nUpperValue t - m_nUpperValue u) = unat (m_nUpperValue t) - unat (m_nUpperValue u)"
      "unat (m_nLowerValue t - m_nLowerValue u) = unat (m_nLowerValue t) - unat (m_nLowerValue u)"
      using False by (simp_all add: unat_sub word_le_nat_alt word_less_nat_alt)
    then show ?thesis
      using False up lo by (simp add: time_diff_def Let_def ticks_def diff_mult_distrib)
  qed
qed

theorem time_diff_off_by_one_witness:
  "ticks (time_diff \<lparr>m_nLowerValue = 2, m_nUpperValue = 1\<rparr> \<lparr>m_nLowerValue = 5, m_nUpperValue = 0\<rparr>) = 2 ^ 32 - 4"
  by (subst time_diff_off_by_one) (simp_all add: ticks_def)

text \<open>An entry that is alone in the list and is added again, and what a list that is linked to itself
  does to the next registration.\<close>

lemma add_twice:
  assumes "timer_rep th [e]"
  shows "\<exists>th'. addTimedFBEntry e th = Some th' \<and> m_pstTimedFBList th' = Some e
    \<and> m_pstNext (m_entries th' e) = Some e \<and> m_stForteTime th' = m_stForteTime th
    \<and> m_stTimeOut (m_entries th' e) = due_time (m_stForteTime th) (m_nInterval (m_entries th e))"
proof -
  let ?t = "due_time (m_stForteTime th) (m_nInterval (m_entries th e))"
  define h where "h = (m_entries th)(e := (m_entries th e)\<lparr>m_stTimeOut := ?t, m_pstNext := None\<rparr>)"
  have head: "m_pstTimedFBList th = Some e"
    using assms by (simp add: timer_rep_def)
  have "addTimedFBEntry e th = Some (th\<lparr>m_entries := set_next e (Some e) h\<rparr>)"
    unfolding addTimedFBEntry_def Let_def h_def [symmetric] using head
    by (subst add_walk.simps) (simp add: h_def time_gt_ticks)
  with head show ?thesis
    by (simp add: h_def)
qed

lemma self_loop_hangs:
  assumes "m_pstTimedFBList th = Some e" "m_pstNext (m_entries th e) = Some e" "f \<noteq> e"
    and "ticks (m_stTimeOut (m_entries th e)) \<le> ticks (due_time (m_stForteTime th) (timer_interval dt))"
  shows "registerTimedFB f dt th = None"
proof -
  define ent where "ent = (m_entries th f)\<lparr>m_nInterval := timer_interval dt,
      m_stTimeOut := due_time (m_stForteTime th) (timer_interval dt), m_pstNext := None\<rparr>"
  define k where "k = (m_entries th)(f := ent)"
  have k: "m_pstNext (k e) = Some e" "\<not> time_gt (m_stTimeOut (k e)) (m_stTimeOut (k f))"
    using assms by (simp_all add: k_def ent_def time_gt_ticks not_less)
  have "registerTimedFB f dt th = map_option (\<lambda>h'. th\<lparr>m_entries := h'\<rparr>) (add_walk f e k)"
    using k assms by (simp add: registerTimedFB_def addTimedFBEntry_def Let_def k_def ent_def)
  then show ?thesis
    using add_walk_self_loop [OF k] by simp
qed

text \<open>
  Registering a block that is alone in the timer list a second time links its entry to itself
  (the code guards against this in the function blocks only). From then on, registering any other
  block that is not due before it never returns, while it holds the timer's lock.
\<close>

theorem double_registration_hangs:
  assumes "timer_rep th [e]" "f \<noteq> e"
    "ticks (due_time (m_stForteTime th) (m_nInterval (m_entries th e)))
       \<le> ticks (due_time (m_stForteTime th) (timer_interval dt))"
  shows "\<exists>th'. addTimedFBEntry e th = Some th' \<and> m_pstNext (m_entries th' e) = Some e
     \<and> registerTimedFB f dt th' = None"
  using add_twice [OF assms(1)] self_loop_hangs [OF _ _ assms(2)] assms(3) by metis

theorem double_registration_hangs_witness:
  "let th = two_timers\<lparr>m_pstTimedFBList := Some 2\<rparr>
   in \<exists>th'. addTimedFBEntry 2 th = Some th' \<and> m_pstNext (m_entries th' 2) = Some 2
     \<and> registerTimedFB 1 9000000 th' = None"
proof -
  let ?th = "two_timers\<lparr>m_pstTimedFBList := Some 2\<rparr>"
  have "timer_rep ?th [2]"
    by (simp add: timer_rep_def two_timers_def)
  moreover have "timer_interval 9000000 = 9"
    by (simp add: timer_interval_def cg_nForteTicksPerSecond_def FORTE_TIME_BASE_UNITS_PER_SECOND_def)
  ultimately show ?thesis
    unfolding Let_def
    by (intro double_registration_hangs)
       (simp_all add: two_timers_def due_time_def time_add_def ticks_def)
qed

end
