(* ===== verification/Com_Env.thy ===== *)
theory Com_Env
  imports Data_Types
begin

text \<open>
  What the communication layers of all function blocks share: the groups of the local layer
  (\<open>CLocalCommGroupsManager\<close> of \<^verbatim>\<open>src/src/core/cominfra/localcomlayer.{h,cpp}\<close>), the sockets, and the
  layers that wait for data on a socket (\<open>m_lstConnectionsList\<close> of \<^verbatim>\<open>src/src/arch/fdselecthand.cpp\<close>).

  A layer is the number of its function block and its position in the stack of that block, 0 for the
  top. A group is referred to by its name, which only one group of the list has. The operating system
  is a list of answers: each call to a socket is noted with its arguments, and takes the next answer, a
  number and the received bytes; without an answer it fails with -1.
\<close>

type_synonym layer_ref = "nat \<times> nat"

section \<open>Sockets\<close>

datatype sock_call =
    openTCPServerConnection "u8 list" u16
  | openTCPClientConnection "u8 list" u16
  | openUDPSendPort "u8 list" u16
  | openUDPReceivePort "u8 list" u16
  | acceptTCPConnection int
  | closeSocket_call int
  | sendDataOnTCP int "u8 list"
  | sendDataOnUDP int "u8 list"
  | receiveDataFromTCP int nat
  | receiveDataFromUDP int nat

record net =
  net_calls :: "sock_call list"
  net_answers :: "(int \<times> u8 list) list"

definition sock_ask :: "sock_call \<Rightarrow> net \<Rightarrow> (int \<times> u8 list) \<times> net" where
  "sock_ask c n =
     (case net_answers n of
        [] \<Rightarrow> ((- 1, []), n\<lparr>net_calls := net_calls n @ [c]\<rparr>)
      | a # as \<Rightarrow> (a, n\<lparr>net_calls := net_calls n @ [c], net_answers := as\<rparr>))"

definition scm_nInvalidSocketDescriptor :: int where
  "scm_nInvalidSocketDescriptor = - 1"

section \<open>Groups of the local layer\<close>

record SLocalCommGroup =
  m_nGroupName :: TStringId
  m_lPublList :: "layer_ref list"
  m_lSublList :: "layer_ref list"

definition findLocalCommGroup :: "TStringId \<Rightarrow> SLocalCommGroup list \<Rightarrow> SLocalCommGroup option" where
  "findLocalCommGroup n gs = List.find (\<lambda>g. m_nGroupName g = n) gs"

definition createLocalCommGroup :: "TStringId \<Rightarrow> SLocalCommGroup list \<Rightarrow> SLocalCommGroup list" where
  "createLocalCommGroup n gs = \<lparr>m_nGroupName = n, m_lPublList = [], m_lSublList = []\<rparr> # gs"

text \<open>Work on the group that \<open>findLocalCommGroup\<close> finds, and its removal from the list.\<close>

fun upd_group :: "TStringId \<Rightarrow> (SLocalCommGroup \<Rightarrow> SLocalCommGroup) \<Rightarrow> SLocalCommGroup list \<Rightarrow> SLocalCommGroup list" where
  "upd_group n f [] = []"
| "upd_group n f (g # gs) = (if m_nGroupName g = n then f g # gs else g # upd_group n f gs)"

fun removeCommGroup :: "TStringId \<Rightarrow> SLocalCommGroup list \<Rightarrow> SLocalCommGroup list" where
  "removeCommGroup n [] = []"
| "removeCommGroup n (g # gs) = (if m_nGroupName g = n then gs else g # removeCommGroup n gs)"

fun removeListEntry :: "layer_ref \<Rightarrow> layer_ref list \<Rightarrow> layer_ref list" where
  "removeListEntry l [] = []"
| "removeListEntry l (x # xs) = (if x = l then xs else x # removeListEntry l xs)"

definition find_or_create :: "TStringId \<Rightarrow> SLocalCommGroup list \<Rightarrow> SLocalCommGroup list" where
  "find_or_create n gs = (if findLocalCommGroup n gs = None then createLocalCommGroup n gs else gs)"

definition registerPubl :: "TStringId \<Rightarrow> layer_ref \<Rightarrow> SLocalCommGroup list \<Rightarrow> SLocalCommGroup list" where
  "registerPubl n l gs = upd_group n (\<lambda>g. g\<lparr>m_lPublList := m_lPublList g @ [l]\<rparr>) (find_or_create n gs)"

definition registerSubl :: "TStringId \<Rightarrow> layer_ref \<Rightarrow> SLocalCommGroup list \<Rightarrow> SLocalCommGroup list" where
  "registerSubl n l gs = upd_group n (\<lambda>g. g\<lparr>m_lSublList := m_lSublList g @ [l]\<rparr>) (find_or_create n gs)"

definition remove_if_empty :: "TStringId \<Rightarrow> SLocalCommGroup list \<Rightarrow> SLocalCommGroup list" where
  "remove_if_empty n gs =
     (case findLocalCommGroup n gs of
        None \<Rightarrow> gs
      | Some g \<Rightarrow> if m_lPublList g = [] \<and> m_lSublList g = [] then removeCommGroup n gs else gs)"

definition unregisterPubl :: "TStringId \<Rightarrow> layer_ref \<Rightarrow> SLocalCommGroup list \<Rightarrow> SLocalCommGroup list" where
  "unregisterPubl n l gs =
     remove_if_empty n (upd_group n (\<lambda>g. g\<lparr>m_lPublList := removeListEntry l (m_lPublList g)\<rparr>) gs)"

definition unregisterSubl :: "TStringId \<Rightarrow> layer_ref \<Rightarrow> SLocalCommGroup list \<Rightarrow> SLocalCommGroup list" where
  "unregisterSubl n l gs =
     remove_if_empty n (upd_group n (\<lambda>g. g\<lparr>m_lSublList := removeListEntry l (m_lSublList g)\<rparr>) gs)"

section \<open>The shared state\<close>

record com_env =
  w_net :: net
  w_groups :: "SLocalCommGroup list"
  m_lstConnectionsList :: "(int \<times> layer_ref) list"

definition com_start :: com_env where
  "com_start = \<lparr>w_net = \<lparr>net_calls = [], net_answers = []\<rparr>, w_groups = [], m_lstConnectionsList = []\<rparr>"

text \<open>\<open>addComCallback\<close> and \<open>removeComCallback\<close>.\<close>

definition addComCallback :: "int \<Rightarrow> layer_ref \<Rightarrow> com_env \<Rightarrow> com_env" where
  "addComCallback h l c = c\<lparr>m_lstConnectionsList := m_lstConnectionsList c @ [(h, l)]\<rparr>"

fun remove_callback :: "int \<Rightarrow> (int \<times> layer_ref) list \<Rightarrow> (int \<times> layer_ref) list" where
  "remove_callback h [] = []"
| "remove_callback h (x # xs) = (if fst x = h then xs else x # remove_callback h xs)"

definition removeComCallback :: "int \<Rightarrow> com_env \<Rightarrow> com_env" where
  "removeComCallback h c = c\<lparr>m_lstConnectionsList := remove_callback h (m_lstConnectionsList c)\<rparr>"

section \<open>The groups are a map\<close>

text \<open>
  What a user of the groups sees: for each name the publishers and the subscribers, in the order in which
  they were registered. The list of groups has no two groups of one name and no empty group.
\<close>

definition members :: "SLocalCommGroup list \<Rightarrow> TStringId \<Rightarrow> layer_ref list \<times> layer_ref list" where
  "members gs n =
     (case findLocalCommGroup n gs of None \<Rightarrow> ([], []) | Some g \<Rightarrow> (m_lPublList g, m_lSublList g))"

definition groups_ok :: "SLocalCommGroup list \<Rightarrow> bool" where
  "groups_ok gs \<longleftrightarrow> distinct (map m_nGroupName gs) \<and> (\<forall>g \<in> set gs. m_lPublList g \<noteq> [] \<or> m_lSublList g \<noteq> [])"

lemma findLocalCommGroup_simps [simp]:
  "findLocalCommGroup n [] = None"
  "findLocalCommGroup n (g # gs) = (if m_nGroupName g = n then Some g else findLocalCommGroup n gs)"
  by (simp_all add: findLocalCommGroup_def)

lemma find_group_none: "findLocalCommGroup n gs = None \<longleftrightarrow> n \<notin> m_nGroupName ` set gs"
  by (induction gs) auto

lemma find_group_name: "findLocalCommGroup n gs = Some g \<Longrightarrow> m_nGroupName g = n \<and> g \<in> set gs"
  by (induction gs) (auto split: if_splits)

lemma upd_group_names [simp]:
  "(\<And>g. m_nGroupName (f g) = m_nGroupName g) \<Longrightarrow> map m_nGroupName (upd_group n f gs) = map m_nGroupName gs"
  by (induction gs) auto

lemma find_upd_group:
  assumes "\<And>g. m_nGroupName (f g) = m_nGroupName g"
  shows "findLocalCommGroup m (upd_group n f gs)
    = (if m = n then map_option f (findLocalCommGroup n gs) else findLocalCommGroup m gs)"
  by (induction gs) (auto simp: assms)

lemma set_upd_group:
  "distinct (map m_nGroupName gs) \<Longrightarrow> findLocalCommGroup n gs = Some g \<Longrightarrow>
    set (upd_group n f gs) = insert (f g) {h \<in> set gs. m_nGroupName h \<noteq> n}"
  by (induction gs) (auto split: if_splits simp: image_iff)

lemma find_removeCommGroup:
  "distinct (map m_nGroupName gs) \<Longrightarrow>
    findLocalCommGroup m (removeCommGroup n gs) = (if m = n then None else findLocalCommGroup m gs)"
  by (induction gs) (auto simp: find_group_none)

lemma removeCommGroup_subset: "set (removeCommGroup n gs) \<subseteq> set gs"
  by (induction gs) auto

lemma removeCommGroup_distinct: "distinct (map m_nGroupName gs) \<Longrightarrow> distinct (map m_nGroupName (removeCommGroup n gs))"
  by (induction gs) (use removeCommGroup_subset in \<open>auto simp: image_iff\<close>)

lemma removeListEntry_remove1 [simp]: "removeListEntry l xs = remove1 l xs"
  by (induction xs) auto

lemma members_upd:
  assumes "\<And>g. m_nGroupName (f g) = m_nGroupName g"
  shows "members (upd_group n f gs) m
    = (if m = n then (case findLocalCommGroup n gs of None \<Rightarrow> ([], []) | Some g \<Rightarrow> (m_lPublList (f g), m_lSublList (f g)))
       else members gs m)"
  using assms by (simp add: members_def find_upd_group split: option.split)

lemma members_empty_group: "members (createLocalCommGroup n gs) m = (if m = n then ([], []) else members gs m)"
  by (auto simp: members_def createLocalCommGroup_def)

lemma find_or_create_found: "\<exists>g. findLocalCommGroup n (find_or_create n gs) = Some g \<and> (m_lPublList g, m_lSublList g) = members gs n"
  by (auto simp: find_or_create_def createLocalCommGroup_def members_def)

lemma register_group:
  assumes "groups_ok gs" and "\<And>g. m_nGroupName (f g) = m_nGroupName g"
    and "\<And>g. m_lPublList (f g) \<noteq> [] \<or> m_lSublList (f g) \<noteq> []"
  shows "groups_ok (upd_group n f (find_or_create n gs))"
proof -
  let ?hs = "find_or_create n gs"
  have d: "distinct (map m_nGroupName ?hs)"
    using assms(1) by (auto simp: find_or_create_def createLocalCommGroup_def groups_ok_def find_group_none)
  obtain g where g: "findLocalCommGroup n ?hs = Some g"
    using find_or_create_found by blast
  have "\<forall>h \<in> set ?hs. m_nGroupName h = n \<or> m_lPublList h \<noteq> [] \<or> m_lSublList h \<noteq> []"
    using assms(1) by (auto simp: find_or_create_def createLocalCommGroup_def groups_ok_def)
  then show ?thesis
    using assms(2,3) d set_upd_group [OF d g, of f] by (auto simp: groups_ok_def)
qed

lemma members_find_or_create [simp]: "members (find_or_create n gs) m = members gs m"
  by (auto simp: find_or_create_def members_empty_group) (simp add: members_def)

lemma unregister_group:
  assumes "groups_ok gs" and "\<And>g. m_nGroupName (f g) = m_nGroupName g"
  shows "groups_ok (remove_if_empty n (upd_group n f gs))"
    and "members (remove_if_empty n (upd_group n f gs)) m = members (upd_group n f gs) m"
proof -
  let ?hs = "upd_group n f gs"
  have d: "distinct (map m_nGroupName gs)" "distinct (map m_nGroupName ?hs)"
    using assms by (auto simp: groups_ok_def)
  have "groups_ok (remove_if_empty n ?hs) \<and> members (remove_if_empty n ?hs) m = members ?hs m"
  proof (cases "findLocalCommGroup n gs")
    case None
    then have "upd_group n f gs = gs" by (induction gs) (auto split: if_splits)
    then show ?thesis using assms(1) None by (simp add: remove_if_empty_def)
  next
    case (Some g)
    have s: "set ?hs = insert (f g) {h \<in> set gs. m_nGroupName h \<noteq> n}" by (rule set_upd_group [OF d(1) Some])
    have fg: "findLocalCommGroup n ?hs = Some (f g)" by (simp add: find_upd_group assms(2) Some)
    have "findLocalCommGroup n (removeCommGroup n ?hs) = None" by (simp add: find_removeCommGroup d)
    then have "n \<notin> m_nGroupName ` set (removeCommGroup n ?hs)" by (simp add: find_group_none)
    then have sub: "set (removeCommGroup n ?hs) \<subseteq> {h \<in> set gs. m_nGroupName h \<noteq> n}"
      using removeCommGroup_subset [of n ?hs] s find_group_name [OF Some] assms(2) [of g] by auto
    show ?thesis
      using assms(1) d s sub fg removeCommGroup_distinct [OF d(2), of n]
      by (auto simp: remove_if_empty_def groups_ok_def members_def find_removeCommGroup)
  qed
  then show "groups_ok (remove_if_empty n ?hs)" "members (remove_if_empty n ?hs) m = members ?hs m" by simp_all
qed

text \<open>
  The contract of a registry: registering appends to the members of one name, unregistering takes the first
  occurrence away, and other names are not concerned. The publishers and the subscribers of the groups are
  two registries over the same list.
\<close>

locale registry =
  fixes reg_ok :: "'s \<Rightarrow> bool"
    and register unregister :: "'n \<Rightarrow> 'l \<Rightarrow> 's \<Rightarrow> 's"
    and registered :: "'s \<Rightarrow> 'n \<Rightarrow> 'l list"
  assumes register_ok: "reg_ok s \<Longrightarrow> reg_ok (register n l s)"
    and unregister_ok: "reg_ok s \<Longrightarrow> reg_ok (unregister n l s)"
    and registered_register: "reg_ok s \<Longrightarrow> registered (register n l s) m = (if m = n then registered s n @ [l] else registered s m)"
    and registered_unregister: "reg_ok s \<Longrightarrow> registered (unregister n l s) m = (if m = n then remove1 l (registered s n) else registered s m)"
begin

lemma register_unregister:
  "reg_ok s \<Longrightarrow> l \<notin> set (registered s n) \<Longrightarrow> registered (unregister n l (register n l s)) = registered s"
  by (rule ext) (simp add: registered_register registered_unregister register_ok remove1_append)

lemma register_all:
  "reg_ok s \<Longrightarrow> reg_ok (fold (register n) ls s) \<and> registered (fold (register n) ls s) n = registered s n @ ls"
  by (induction ls arbitrary: s) (simp_all add: registered_register register_ok)

lemma unregister_all:
  "reg_ok s \<Longrightarrow> reg_ok (fold (unregister n) ls s) \<and> registered (fold (unregister n) ls s) n = fold remove1 ls (registered s n)"
  by (induction ls arbitrary: s) (simp_all add: registered_unregister unregister_ok)

end

lemma publ_members:
  assumes "groups_ok gs"
  shows "groups_ok (registerPubl n l gs)" "groups_ok (unregisterPubl n l gs)"
    and "members (registerPubl n l gs) = (members gs)(n := (fst (members gs n) @ [l], snd (members gs n)))"
    and "members (unregisterPubl n l gs) = (members gs)(n := (remove1 l (fst (members gs n)), snd (members gs n)))"
  using find_or_create_found [of n gs]
  by (auto simp: registerPubl_def unregisterPubl_def register_group unregister_group assms members_upd fun_eq_iff)
     (auto simp: members_def split: option.splits)

lemma subl_members:
  assumes "groups_ok gs"
  shows "groups_ok (registerSubl n l gs)" "groups_ok (unregisterSubl n l gs)"
    and "members (registerSubl n l gs) = (members gs)(n := (fst (members gs n), snd (members gs n) @ [l]))"
    and "members (unregisterSubl n l gs) = (members gs)(n := (fst (members gs n), remove1 l (snd (members gs n))))"
  using find_or_create_found [of n gs]
  by (auto simp: registerSubl_def unregisterSubl_def register_group unregister_group assms members_upd fun_eq_iff)
     (auto simp: members_def split: option.splits)

interpretation publs: registry groups_ok registerPubl unregisterPubl "\<lambda>gs n. fst (members gs n)"
  by unfold_locales (simp_all add: publ_members)

interpretation subls: registry groups_ok registerSubl unregisterSubl "\<lambda>gs n. snd (members gs n)"
  by unfold_locales (simp_all add: subl_members)

text \<open>Sequences of the four operations, on the list of groups and on what a user sees of it.\<close>

datatype group_op =
    Open_publ TStringId layer_ref | Close_publ TStringId layer_ref
  | Open_subl TStringId layer_ref | Close_subl TStringId layer_ref

fun group_step :: "group_op \<Rightarrow> SLocalCommGroup list \<Rightarrow> SLocalCommGroup list" where
  "group_step (Open_publ n l) gs = registerPubl n l gs"
| "group_step (Close_publ n l) gs = unregisterPubl n l gs"
| "group_step (Open_subl n l) gs = registerSubl n l gs"
| "group_step (Close_subl n l) gs = unregisterSubl n l gs"

fun member_step :: "group_op \<Rightarrow> (TStringId \<Rightarrow> layer_ref list \<times> layer_ref list) \<Rightarrow> TStringId \<Rightarrow> layer_ref list \<times> layer_ref list" where
  "member_step (Open_publ n l) m = m(n := (fst (m n) @ [l], snd (m n)))"
| "member_step (Close_publ n l) m = m(n := (remove1 l (fst (m n)), snd (m n)))"
| "member_step (Open_subl n l) m = m(n := (fst (m n), snd (m n) @ [l]))"
| "member_step (Close_subl n l) m = m(n := (fst (m n), remove1 l (snd (m n))))"

lemma group_step_refines:
  "groups_ok gs \<Longrightarrow> groups_ok (group_step op gs) \<and> members (group_step op gs) = member_step op (members gs)"
  by (cases op) (simp_all add: publ_members subl_members)

text \<open>
  C26. Opening and closing publishers and subscribers of local groups, in any order, refines the update of a
  map from names to their publishers and subscribers; no two groups have one name, and no group is kept
  without members.
\<close>

theorem groups_refine_map:
  assumes "groups_ok gs"
  shows "groups_ok (fold group_step ops gs) \<and>
    members (fold group_step ops gs) = fold member_step ops (members gs)"
  using assms by (induction ops arbitrary: gs) (simp_all add: group_step_refines)

theorem groups_refine_map_witness:
  "groups_ok [] \<and>
   members (fold group_step [Open_publ ''a'' (1, 0), Open_subl ''a'' (2, 0), Open_subl ''b'' (3, 0), Close_publ ''a'' (1, 0),
       Close_subl ''b'' (3, 0)] []) ''a'' = ([], [(2, 0)])"
proof -
  have ok: "groups_ok []" by (simp add: groups_ok_def)
  show ?thesis
    using ok groups_refine_map [OF ok, of "[Open_publ ''a'' (1, 0), Open_subl ''a'' (2, 0), Open_subl ''b'' (3, 0),
      Close_publ ''a'' (1, 0), Close_subl ''b'' (3, 0)]"]
    by (simp add: members_def)
qed

end
