(* ===== verification/Func_Block.thy ===== *)
theory Func_Block
  imports Event_Chain Timer_Handler Com_Env
begin

text \<open>
  Function blocks and their connections: \<^verbatim>\<open>src/src/core/funcbloc.{h,cpp}\<close>, \<^verbatim>\<open>conn.{h,cpp}\<close>,
  \<^verbatim>\<open>eventconn.cpp\<close>, \<^verbatim>\<open>dataconn.{h,cpp}\<close>, built with monitoring and without \<open>FORTE_CLASS_0\<close>.

  The state (the record \<open>world\<close>) is that of one resource: the event chain execution thread, the
  function blocks by number (a number stands for the pointer to the block; a number without a block
  is a dangling pointer, on which the operations do nothing), the timer handler, the platform, and what
  the communication layers share.
  Connections are parts of the block that owns the output, as in the code; an input refers to its
  data connection by the block and the output port. What a class of blocks adds to \<open>CFunctionBlock\<close>
  is the component \<open>fb_class\<close>.
\<close>

section \<open>Interfaces\<close>

text \<open>The type entry of a data point; \<open>ARRAY\<close>, the length and the element type take three entries
  of the list in the code.\<close>

datatype data_type_decl = DT TStringId | ArrayOf nat TStringId

record SAdapterInstanceDef =
  m_nAdapterTypeNameID :: TStringId
  m_nAdapterNameID :: TStringId
  m_bIsPlug :: bool

record SFBInterfaceSpec =
  m_aunEINames :: "TStringId list"
  m_anEIWith :: "nat list"
  m_anEIWithIndexes :: "int list option"
  m_aunEONames :: "TStringId list"
  m_anEOWith :: "nat list"
  m_anEOWithIndexes :: "int list option"
  m_aunDINames :: "TStringId list"
  m_aunDIDataTypeNames :: "data_type_decl list"
  m_aunDONames :: "TStringId list"
  m_aunDODataTypeNames :: "data_type_decl list"
  m_pstAdapterInstanceDefinition :: "SAdapterInstanceDef list"

abbreviation m_nNumEIs :: "SFBInterfaceSpec \<Rightarrow> nat" where "m_nNumEIs s \<equiv> length (m_aunEINames s)"
abbreviation m_nNumEOs :: "SFBInterfaceSpec \<Rightarrow> nat" where "m_nNumEOs s \<equiv> length (m_aunEONames s)"
abbreviation m_nNumDIs :: "SFBInterfaceSpec \<Rightarrow> nat" where "m_nNumDIs s \<equiv> length (m_aunDINames s)"
abbreviation m_nNumDOs :: "SFBInterfaceSpec \<Rightarrow> nat" where "m_nNumDOs s \<equiv> length (m_aunDONames s)"

text \<open>The data points that an event takes with it: from its start index to the 255.\<close>

definition with_list :: "nat list \<Rightarrow> int list option \<Rightarrow> nat \<Rightarrow> nat list" where
  "with_list ws idx e =
     (case idx of
        None \<Rightarrow> []
      | Some is \<Rightarrow> if is ! e = - 1 then [] else takeWhile (\<lambda>i. i \<noteq> 255) (drop (nat (is ! e)) ws))"

definition ei_with :: "SFBInterfaceSpec \<Rightarrow> nat \<Rightarrow> nat list" where
  "ei_with s e = with_list (m_anEIWith s) (m_anEIWithIndexes s) e"

definition eo_with :: "SFBInterfaceSpec \<Rightarrow> nat \<Rightarrow> nat list" where
  "eo_with s e = with_list (m_anEOWith s) (m_anEOWithIndexes s) e"

section \<open>State\<close>

record conn_point =
  mFB :: nat
  mPortId :: nat

datatype E_FBStates = e_RUNNING | e_IDLE | e_STOPPED | e_KILLED

datatype EBreakPointStatus = eActive | eOnce | eInactive

text \<open>\<open>SMonitorEvent\<close>; its buffer has one element.\<close>

record SMonitorEvent =
  mBreakpointSet :: EBreakPointStatus
  mBreakpointEnable :: bool
  mEventCount :: u32
  mTimeStamp :: SForteTime

definition monitor_init :: SMonitorEvent where
  "monitor_init = \<lparr>mBreakpointSet = eInactive, mBreakpointEnable = False, mEventCount = 0,
     mTimeStamp = time_zero\<rparr>"

text \<open>A data point: its object and the flag \<open>m_bForced\<close>.\<close>

record dpoint =
  dp_val :: iec_any
  dp_forced :: bool

record CDataConnection =
  dc_dests :: "conn_point list"
  m_poValue :: "iec_any option"
  mSpecialCastConnection :: bool

record 'c fb =
  fb_spec :: SFBInterfaceSpec
  m_nFBInstanceName :: TStringId
  m_enFBState :: E_FBStates
  m_bDeletable :: bool
  m_aoDIs :: "dpoint list"
  m_aoDOs :: "dpoint list"
  m_apoDIConns :: "(nat \<times> nat) option list"
  mEOConns :: "conn_point list list"
  mDOConns :: "CDataConnection list"
  m_apoAdapters :: "nat option list"
  m_nEIMonitorCount :: "SMonitorEvent list"
  m_nEOMonitorCount :: "SMonitorEvent list"
  m_updated :: bool
  fb_class :: 'c

record 'c world = "conn_point ecet" +
  w_fbs :: "nat \<Rightarrow> 'c fb option"
  w_timer :: timerha
  w_platform :: platform
  w_com :: com_env

definition upd_fb :: "nat \<Rightarrow> ('c fb \<Rightarrow> 'c fb) \<Rightarrow> 'c world \<Rightarrow> 'c world" where
  "upd_fb i f w = (case w_fbs w i of None \<Rightarrow> w | Some b \<Rightarrow> w\<lparr>w_fbs := (w_fbs w)(i \<mapsto> f b)\<rparr>)"

text \<open>\<open>getPortId\<close>, on which \<open>getEIID\<close>, \<open>getEOID\<close>, \<open>getDIID\<close> and \<open>getDOID\<close> rest.\<close>

fun find_port :: "TStringId \<Rightarrow> TStringId list \<Rightarrow> nat \<Rightarrow> nat" where
  "find_port n [] i = cg_unInvalidPortId"
| "find_port n (m # ms) i = (if n = m then i else find_port n ms (Suc i))"

definition getPortId :: "TStringId \<Rightarrow> TStringId list \<Rightarrow> nat" where
  "getPortId n ns = find_port n ns 0"

section \<open>Data connections\<close>

definition readData :: "platform \<Rightarrow> CDataConnection \<Rightarrow> iec_any \<Rightarrow> iec_any" where
  "readData P c x =
     (case m_poValue c of
        None \<Rightarrow> x
      | Some v \<Rightarrow> if \<not> mSpecialCastConnection c then setValue P x v else specialCast P v x)"

definition writeData :: "platform \<Rightarrow> iec_any \<Rightarrow> CDataConnection \<Rightarrow> CDataConnection" where
  "writeData P x c =
     (case m_poValue c of None \<Rightarrow> c | Some v \<Rightarrow> c\<lparr>m_poValue := Some (setValue P v x)\<rparr>)"

definition needsSpecialCast :: "EDataTypeID \<Rightarrow> bool" where
  "needsSpecialCast t \<longleftrightarrow> t = e_LREAL \<or> t = e_REAL"

text \<open>\<open>canBeConnected\<close>: the answer and the new value of the flag passed by reference, which is only
  written when the type ids differ and none is ANY.\<close>

definition canBeConnected :: "EDataTypeID \<Rightarrow> EDataTypeID \<Rightarrow> bool \<Rightarrow> bool \<times> bool" where
  "canBeConnected src dst special =
     (if src = dst then (True, special)
      else if (src = e_ANY \<and> dst \<noteq> e_ANY) \<or> (src \<noteq> e_ANY \<and> dst = e_ANY) then (True, special)
      else (isCastable src dst, isCastable src dst \<and> needsSpecialCast src))"

text \<open>\<open>CConnection::addDestination\<close> and \<open>removeDestination\<close>.\<close>

definition addDestination :: "conn_point \<Rightarrow> conn_point list \<Rightarrow> EMGMResponse \<times> conn_point list" where
  "addDestination d ds = (if d \<in> set ds then (e_INVALID_STATE, ds) else (e_RDY, ds @ [d]))"

definition removeDestination :: "conn_point \<Rightarrow> conn_point list \<Rightarrow> EMGMResponse \<times> conn_point list" where
  "removeDestination d ds = (if d \<in> set ds then (e_RDY, remove1 d ds) else (e_INVALID_STATE, ds))"

section \<open>Connecting\<close>

definition do_conn :: "'c world \<Rightarrow> nat \<times> nat \<Rightarrow> CDataConnection option" where
  "do_conn w sp = map_option (\<lambda>b. mDOConns b ! snd sp) (w_fbs w (fst sp))"

definition upd_do_conn :: "nat \<times> nat \<Rightarrow> (CDataConnection \<Rightarrow> CDataConnection) \<Rightarrow> 'c world \<Rightarrow> 'c world" where
  "upd_do_conn sp f =
     upd_fb (fst sp) (\<lambda>b. b\<lparr>mDOConns := (mDOConns b)[snd sp := f (mDOConns b ! snd sp)]\<rparr>)"

text \<open>A data input or output of type ANY takes over a copy of the value it is connected to.\<close>

definition configureGenericDI :: "nat \<Rightarrow> iec_any option \<Rightarrow> 'c fb \<Rightarrow> 'c fb" where
  "configureGenericDI p ref b =
     (case ref of
        None \<Rightarrow> b
      | Some v \<Rightarrow> if getDataTypeID (dp_val (m_aoDIs b ! p)) = e_ANY
          then b\<lparr>m_aoDIs := (m_aoDIs b)[p := \<lparr>dp_val = v, dp_forced = False\<rparr>]\<rparr> else b)"

definition configureGenericDO :: "nat \<Rightarrow> iec_any \<Rightarrow> 'c fb \<Rightarrow> 'c fb" where
  "configureGenericDO p v b =
     (if p < m_nNumDOs (fb_spec b) \<and> getDataTypeID (dp_val (m_aoDOs b ! p)) = e_ANY
      then b\<lparr>m_aoDOs := (m_aoDOs b)[p := \<lparr>dp_val = v, dp_forced = False\<rparr>]\<rparr> else b)"

text \<open>\<open>connectDI\<close> on the block itself, and in the world; a null connection disconnects.\<close>

definition connectDI_fb :: "nat \<Rightarrow> (nat \<times> nat) option \<Rightarrow> iec_any option \<Rightarrow> 'c fb \<Rightarrow> bool \<times> 'c fb" where
  "connectDI_fb p con val b =
     (if p < m_nNumDIs (fb_spec b) then
        (case con of
           None \<Rightarrow> (True, b\<lparr>m_apoDIConns := (m_apoDIConns b)[p := None]\<rparr>)
         | Some sp \<Rightarrow>
             (case m_apoDIConns b ! p of
                Some sp' \<Rightarrow> if sp' = sp then (True, configureGenericDI p val b) else (False, b)
              | None \<Rightarrow> (True, configureGenericDI p val
                          (b\<lparr>m_apoDIConns := (m_apoDIConns b)[p := Some sp]\<rparr>))))
      else (False, b))"

definition conn_value :: "'c world \<Rightarrow> (nat \<times> nat) option \<Rightarrow> iec_any option" where
  "conn_value w con = (case con of None \<Rightarrow> None | Some sp \<Rightarrow> Option.bind (do_conn w sp) m_poValue)"

definition connectDI :: "nat \<Rightarrow> nat \<Rightarrow> (nat \<times> nat) option \<Rightarrow> 'c world \<Rightarrow> bool \<times> 'c world" where
  "connectDI i p con w =
     (case w_fbs w i of
        None \<Rightarrow> (False, w)
      | Some b \<Rightarrow>
          let r = connectDI_fb p con (conn_value w con) b
          in (fst r, w\<lparr>w_fbs := (w_fbs w)(i \<mapsto> snd r)\<rparr>))"

text \<open>The virtual \<open>connectDI\<close> of the destination is the parameter \<open>cdi\<close> of the next two.\<close>

definition handleAnySrcPortConnection ::
  "(nat \<Rightarrow> nat \<Rightarrow> (nat \<times> nat) option \<Rightarrow> 'c world \<Rightarrow> bool \<times> 'c world) \<Rightarrow> nat \<times> nat \<Rightarrow> iec_any \<Rightarrow> 'c world \<Rightarrow> 'c world" where
  "handleAnySrcPortConnection cdi sp dst w =
     (if getDataTypeID dst \<noteq> e_ANY then
        let w1 = upd_do_conn sp (\<lambda>c. c\<lparr>m_poValue := Some dst\<rparr>) w;
            w2 = upd_fb (fst sp) (configureGenericDO (snd sp) dst) w1
        in fold (\<lambda>d v. snd (cdi (mFB d) (mPortId d) (Some sp) v))
             (case do_conn w2 sp of None \<Rightarrow> [] | Some c \<Rightarrow> dc_dests c) w2
      else w)"

text \<open>\<open>establishDataConnection\<close>, from the data output \<open>sp\<close> to port \<open>p\<close> of block \<open>i\<close>. When the block
  refuses the connection, the code takes off the first destination of the list.\<close>

definition establishDataConnection ::
  "(nat \<Rightarrow> nat \<Rightarrow> (nat \<times> nat) option \<Rightarrow> 'c world \<Rightarrow> bool \<times> 'c world) \<Rightarrow> nat \<times> nat \<Rightarrow> nat \<Rightarrow> nat \<Rightarrow> iec_any \<Rightarrow> 'c world \<Rightarrow> EMGMResponse \<times> 'c world" where
  "establishDataConnection cdi sp i p dst w =
     (case do_conn w sp of
        None \<Rightarrow> (e_INVALID_OPERATION, w)
      | Some c \<Rightarrow>
          let (ok, w1) =
            (case m_poValue c of
               None \<Rightarrow> (True, handleAnySrcPortConnection cdi sp dst w)
             | Some v \<Rightarrow>
                 let r = canBeConnected (getDataTypeID v) (getDataTypeID dst) (mSpecialCastConnection c)
                 in (fst r, upd_do_conn sp (\<lambda>c. c\<lparr>mSpecialCastConnection := snd r\<rparr>) w))
          in if ok then
               (case do_conn w1 sp of
                  None \<Rightarrow> (e_INVALID_OPERATION, w1)
                | Some c1 \<Rightarrow>
                    let r = addDestination \<lparr>mFB = i, mPortId = p\<rparr> (dc_dests c1);
                        w2 = upd_do_conn sp (\<lambda>c. c\<lparr>dc_dests := snd r\<rparr>) w1
                    in if fst r = e_RDY then
                         let q = cdi i p (Some sp) w2
                         in if fst q then (e_RDY, snd q)
                            else (e_INVALID_STATE, upd_do_conn sp (\<lambda>c. c\<lparr>dc_dests := tl (dc_dests c)\<rparr>) (snd q))
                       else (fst r, w2))
             else (e_INVALID_OPERATION, w1))"

definition data_connect :: "nat \<times> nat \<Rightarrow> nat \<Rightarrow> TStringId \<Rightarrow> 'c world \<Rightarrow> EMGMResponse \<times> 'c world" where
  "data_connect sp i n w =
     (case w_fbs w i of
        None \<Rightarrow> (e_NO_SUCH_OBJECT, w)
      | Some b \<Rightarrow>
          let p = getPortId n (m_aunDINames (fb_spec b))
          in if p \<noteq> cg_unInvalidPortId then establishDataConnection connectDI sp i p (dp_val (m_aoDIs b ! p)) w
             else (e_NO_SUCH_OBJECT, w))"

definition data_disconnect :: "nat \<times> nat \<Rightarrow> nat \<Rightarrow> TStringId \<Rightarrow> 'c world \<Rightarrow> EMGMResponse \<times> 'c world" where
  "data_disconnect sp i n w =
     (case w_fbs w i of
        None \<Rightarrow> (e_NO_SUCH_OBJECT, w)
      | Some b \<Rightarrow>
          let p = getPortId n (m_aunDINames (fb_spec b))
          in if p \<noteq> cg_unInvalidPortId then
               (case do_conn w sp of
                  None \<Rightarrow> (e_NO_SUCH_OBJECT, w)
                | Some c \<Rightarrow>
                    let r = removeDestination \<lparr>mFB = i, mPortId = p\<rparr> (dc_dests c);
                        w1 = upd_do_conn sp (\<lambda>c. c\<lparr>dc_dests := snd r\<rparr>) w
                    in if fst r = e_RDY then (e_RDY, snd (connectDI i p None w1)) else (fst r, w1))
             else (e_NO_SUCH_OBJECT, w))"

text \<open>Event connections.\<close>

definition upd_eo_conn :: "nat \<times> nat \<Rightarrow> (conn_point list \<Rightarrow> conn_point list) \<Rightarrow> 'c world \<Rightarrow> 'c world" where
  "upd_eo_conn sp f =
     upd_fb (fst sp) (\<lambda>b. b\<lparr>mEOConns := (mEOConns b)[snd sp := f (mEOConns b ! snd sp)]\<rparr>)"

definition event_conn_op ::
  "(conn_point \<Rightarrow> conn_point list \<Rightarrow> EMGMResponse \<times> conn_point list) \<Rightarrow>
     nat \<times> nat \<Rightarrow> nat \<Rightarrow> TStringId \<Rightarrow> 'c world \<Rightarrow> EMGMResponse \<times> 'c world" where
  "event_conn_op f sp i n w =
     (case (w_fbs w i, w_fbs w (fst sp)) of
        (Some b, Some src) \<Rightarrow>
          let p = getPortId n (m_aunEINames (fb_spec b))
          in if p \<noteq> cg_nInvalidEventID then
               let r = f \<lparr>mFB = i, mPortId = p\<rparr> (mEOConns src ! snd sp)
               in (fst r, upd_eo_conn sp (\<lambda>_. snd r) w)
             else (e_NO_SUCH_OBJECT, w)
      | _ \<Rightarrow> (e_NO_SUCH_OBJECT, w))"

definition event_connect :: "nat \<times> nat \<Rightarrow> nat \<Rightarrow> TStringId \<Rightarrow> 'c world \<Rightarrow> EMGMResponse \<times> 'c world" where
  "event_connect = event_conn_op addDestination"

definition event_disconnect :: "nat \<times> nat \<Rightarrow> nat \<Rightarrow> TStringId \<Rightarrow> 'c world \<Rightarrow> EMGMResponse \<times> 'c world" where
  "event_disconnect = event_conn_op removeDestination"

definition triggerEvent :: "conn_point list \<Rightarrow> 'c world \<Rightarrow> 'c world" where
  "triggerEvent ds w = fold addEventEntry ds w"

section \<open>Events\<close>

text \<open>A breakpoint that is enabled holds the event back, except for the once that a continue allows;
  an event that is let through is counted.\<close>

definition breakpoint_step :: "SForteTime \<Rightarrow> SMonitorEvent \<Rightarrow> bool \<times> SMonitorEvent" where
  "breakpoint_step t m =
     (let count = (\<lambda>m. m\<lparr>mEventCount := mEventCount m + 1, mTimeStamp := t\<rparr>)
      in if mBreakpointEnable m then
           (if mBreakpointSet m = eOnce then (True, count (m\<lparr>mBreakpointSet := eInactive\<rparr>))
            else (False, m\<lparr>mBreakpointSet := eActive\<rparr>))
         else (True, count m))"

text \<open>Reading the inputs that come with an event; a forced input keeps its value.\<close>

definition sample_DI :: "'c world \<Rightarrow> nat \<Rightarrow> 'c fb \<Rightarrow> 'c fb" where
  "sample_DI w p b =
     (case m_apoDIConns b ! p of
        None \<Rightarrow> b
      | Some sp \<Rightarrow>
          let d = m_aoDIs b ! p
          in if dp_forced d then b
             else (case do_conn w sp of
                 None \<Rightarrow> b
               | Some c \<Rightarrow> b\<lparr>m_aoDIs := (m_aoDIs b)[p := d\<lparr>dp_val := readData (w_platform w) c (dp_val d)\<rparr>]\<rparr>))"

text \<open>
  \<open>receiveInputEvent\<close>. The virtual \<open>executeEvent\<close> is the parameter \<open>exec\<close>; it is \<open>None\<close> when the
  block never returns (a call into a corrupted timer list). Connections are read from
  the world as it is when the event arrives, also for a block that is connected to itself: sampling
  writes inputs only.
\<close>

definition receiveInputEvent ::
  "(nat \<Rightarrow> nat \<Rightarrow> 'c world \<Rightarrow> 'c world option) \<Rightarrow> conn_point \<Rightarrow> 'c world \<Rightarrow> 'c world option" where
  "receiveInputEvent exec ev w =
     (let i = mFB ev; e = mPortId ev in
      case w_fbs w i of
        None \<Rightarrow> Some w
      | Some b \<Rightarrow>
          if m_enFBState b \<noteq> e_RUNNING then Some w
          else if e < m_nNumEIs (fb_spec b) then
            (let m = m_nEIMonitorCount b ! e in
             if mBreakpointSet m = eActive then Some w
             else
               let b1 = fold (sample_DI w) (ei_with (fb_spec b) e) b;
                   r = breakpoint_step (m_stForteTime (w_timer w)) m;
                   b2 = b1\<lparr>m_nEIMonitorCount := (m_nEIMonitorCount b)[e := snd r]\<rparr>
               in if fst r then exec i e (w\<lparr>w_fbs := (w_fbs w)(i \<mapsto> b2\<lparr>m_updated := True\<rparr>)\<rparr>)
                  else Some (w\<lparr>w_fbs := (w_fbs w)(i \<mapsto> b2)\<rparr>))
          else exec i e w)"

text \<open>Writing the outputs that go with an event; a forced output takes back the value of its
  connection.\<close>

definition publish_DO :: "platform \<Rightarrow> nat \<Rightarrow> 'c fb \<Rightarrow> 'c fb" where
  "publish_DO P p b =
     (let c = mDOConns b ! p; d = m_aoDOs b ! p
      in if dc_dests c \<noteq> [] then
           (if \<not> dp_forced d then b\<lparr>mDOConns := (mDOConns b)[p := writeData P (dp_val d) c]\<rparr>
            else b\<lparr>m_aoDOs := (m_aoDOs b)[p := d\<lparr>dp_val := readData P c (dp_val d)\<rparr>]\<rparr>)
         else b)"

text \<open>\<open>sendOutputEvent\<close>: the event is passed on before the breakpoint is looked at.\<close>

definition sendOutputEvent :: "nat \<Rightarrow> nat \<Rightarrow> 'c world \<Rightarrow> 'c world" where
  "sendOutputEvent i eo w =
     (case w_fbs w i of
        None \<Rightarrow> w
      | Some b \<Rightarrow>
          if eo < m_nNumEOs (fb_spec b) then
            (let m = m_nEOMonitorCount b ! eo in
             if mBreakpointSet m = eActive then w
             else
               let b1 = fold (publish_DO (w_platform w)) (eo_with (fb_spec b) eo) b;
                   r = breakpoint_step (m_stForteTime (w_timer w)) m;
                   b2 = b1\<lparr>m_nEOMonitorCount := (m_nEOMonitorCount b)[eo := snd r]\<rparr>;
                   b3 = (if fst r then b2\<lparr>m_updated := True\<rparr> else b2)
               in triggerEvent (mEOConns b ! eo) (w\<lparr>w_fbs := (w_fbs w)(i \<mapsto> b3)\<rparr>))
          else w)"

section \<open>Execution state\<close>

text \<open>
  The switch of \<open>changeFBExecutionState\<close>; the flag says whether \<open>setInitialValues\<close> is to run.
\<close>

definition fb_state_switch :: "EMGMCommandType \<Rightarrow> E_FBStates \<Rightarrow> EMGMResponse \<times> E_FBStates" where
  "fb_state_switch cmd st =
     (case cmd of
        cg_nMGM_CMD_Start \<Rightarrow> (if st = e_IDLE \<or> st = e_STOPPED then (e_RDY, e_RUNNING) else (e_INVALID_STATE, st))
      | cg_nMGM_CMD_Stop \<Rightarrow> (if st = e_RUNNING then (e_RDY, e_STOPPED) else (e_INVALID_STATE, st))
      | cg_nMGM_CMD_Kill \<Rightarrow> (if st = e_RUNNING then (e_RDY, e_KILLED) else (e_INVALID_STATE, st))
      | cg_nMGM_CMD_Reset \<Rightarrow> (if st = e_STOPPED \<or> st = e_KILLED then (e_RDY, e_IDLE) else (e_INVALID_STATE, st))
      | _ \<Rightarrow> (e_INVALID_OPERATION, st))"

text \<open>
  \<open>CFunctionBlock::changeFBExecutionState\<close>, which passes an accepted command on to the adapters of
  the block. An adapter is a block without adapters of its own, so one level is enough; \<open>n\<close> bounds
  the levels. \<open>setInitialValues\<close> is the parameter \<open>setInit\<close>.
\<close>

fun changeFBExecutionState ::
  "('c fb \<Rightarrow> 'c fb) \<Rightarrow> nat \<Rightarrow> EMGMCommandType \<Rightarrow> nat \<Rightarrow> 'c world \<Rightarrow> EMGMResponse \<times> 'c world" where
  "changeFBExecutionState setInit n cmd i w =
     (case w_fbs w i of
        None \<Rightarrow> (e_INVALID_STATE, w)
      | Some b \<Rightarrow>
          let r = fb_state_switch cmd (m_enFBState b);
              b1 = b\<lparr>m_enFBState := snd r\<rparr>;
              b2 = (if fst r = e_RDY \<and> cmd = cg_nMGM_CMD_Reset then setInit b1 else b1);
              w1 = w\<lparr>w_fbs := (w_fbs w)(i \<mapsto> b2)\<rparr>
          in (fst r,
              if fst r = e_RDY then
                (case n of
                   0 \<Rightarrow> w1
                 | Suc k \<Rightarrow> fold (\<lambda>a v. case a of None \<Rightarrow> v
                      | Some j \<Rightarrow> snd (changeFBExecutionState setInit k cmd j v)) (m_apoAdapters b) w1)
              else w1))"

declare changeFBExecutionState.simps [simp del]

definition isCurrentlyDeleteable :: "'c fb \<Rightarrow> bool" where
  "isCurrentlyDeleteable b \<longleftrightarrow> m_bDeletable b \<and> m_enFBState b \<noteq> e_RUNNING"

section \<open>Monitoring\<close>

text \<open>
  The breakpoint operations on an event (the input and the output versions of \<open>clear\<close> and \<open>stop\<close>
  are the same up to the array; \<open>start\<close> and \<open>stop\<close> of an output also reset the state). The code
  tests \<open>mBreakpointSet > 0\<close>, and \<open>eActive\<close> is 0.
\<close>

definition bp_num :: "EBreakPointStatus \<Rightarrow> nat" where
  "bp_num s = (case s of eActive \<Rightarrow> 0 | eOnce \<Rightarrow> 1 | eInactive \<Rightarrow> 2)"

definition startEIBreakpoint :: "SMonitorEvent \<Rightarrow> SMonitorEvent" where
  "startEIBreakpoint m = m\<lparr>mBreakpointEnable := True\<rparr>"

definition stopEIBreakpoint :: "SMonitorEvent \<Rightarrow> SMonitorEvent" where
  "stopEIBreakpoint m = m\<lparr>mBreakpointEnable := False\<rparr>"

definition startEOBreakpoint :: "SMonitorEvent \<Rightarrow> SMonitorEvent" where
  "startEOBreakpoint m = m\<lparr>mBreakpointEnable := True, mBreakpointSet := eInactive\<rparr>"

definition stopEOBreakpoint :: "SMonitorEvent \<Rightarrow> SMonitorEvent" where
  "stopEOBreakpoint m = m\<lparr>mBreakpointEnable := False, mBreakpointSet := eInactive\<rparr>"

definition clearBreakpoint :: "SMonitorEvent \<Rightarrow> SMonitorEvent" where
  "clearBreakpoint m =
     (if 0 < bp_num (mBreakpointSet m)
      then m\<lparr>mBreakpointSet := (if mBreakpointEnable m then eOnce else eInactive)\<rparr>
      else m)"

definition upd_EI_monitor :: "nat \<Rightarrow> nat \<Rightarrow> (SMonitorEvent \<Rightarrow> SMonitorEvent) \<Rightarrow> 'c world \<Rightarrow> 'c world" where
  "upd_EI_monitor i e f =
     upd_fb i (\<lambda>b. b\<lparr>m_nEIMonitorCount := (m_nEIMonitorCount b)[e := f (m_nEIMonitorCount b ! e)]\<rparr>)"

definition upd_EO_monitor :: "nat \<Rightarrow> nat \<Rightarrow> (SMonitorEvent \<Rightarrow> SMonitorEvent) \<Rightarrow> 'c world \<Rightarrow> 'c world" where
  "upd_EO_monitor i e f =
     upd_fb i (\<lambda>b. b\<lparr>m_nEOMonitorCount := (m_nEOMonitorCount b)[e := f (m_nEOMonitorCount b ! e)]\<rparr>)"

section \<open>Creating a block\<close>

text \<open>\<open>createDataPoint\<close>; an unknown type gives no data point.\<close>

definition createDataPoint :: "(TStringId \<times> iec_any) list \<Rightarrow> data_type_decl \<Rightarrow> dpoint option" where
  "createDataPoint lib d =
     map_option (\<lambda>v. \<lparr>dp_val = v, dp_forced = False\<rparr>)
       (case d of DT t \<Rightarrow> findType t lib
        | ArrayOf n t \<Rightarrow> (if findType ''ARRAY'' lib = None then None else array_setup lib n t))"

text \<open>The connection of a data output starts with a copy of the output, unless that is an ANY.\<close>

definition new_data_conn :: "dpoint \<Rightarrow> CDataConnection" where
  "new_data_conn d =
     \<lparr>dc_dests = [],
      m_poValue = (if getDataTypeID (dp_val d) = e_ANY then None else Some (dp_val d)),
      mSpecialCastConnection = False\<rparr>"

text \<open>The constructor with \<open>setupFBInterface\<close> (adapters are created by the caller). A new block is in
  the state KILLED until its first reset.\<close>

definition new_FB :: "(TStringId \<times> iec_any) list \<Rightarrow> SFBInterfaceSpec \<Rightarrow> TStringId \<Rightarrow> 'c \<Rightarrow> 'c fb option" where
  "new_FB lib s n c =
     (let dis = map (createDataPoint lib) (m_aunDIDataTypeNames s);
          dos = map (createDataPoint lib) (m_aunDODataTypeNames s)
      in if None \<in> set dis \<or> None \<in> set dos then None
         else Some
           \<lparr>fb_spec = s, m_nFBInstanceName = n, m_enFBState = e_KILLED, m_bDeletable = True,
            m_aoDIs = map the dis, m_aoDOs = map the dos,
            m_apoDIConns = replicate (m_nNumDIs s) None,
            mEOConns = replicate (m_nNumEOs s) [],
            mDOConns = map new_data_conn (map the dos),
            m_apoAdapters = replicate (length (m_pstAdapterInstanceDefinition s)) None,
            m_nEIMonitorCount = replicate (m_nNumEIs s) monitor_init,
            m_nEOMonitorCount = replicate (m_nNumEOs s) monitor_init,
            m_updated = False, fb_class = c\<rparr>)"

text \<open>\<open>getVar\<close> for a name list: data inputs first, then data outputs.\<close>

definition getVar :: "TStringId list \<Rightarrow> 'c fb \<Rightarrow> iec_any option" where
  "getVar ns b =
     (if length ns = 1 then
        let p = getPortId (hd ns) (m_aunDINames (fb_spec b));
            q = getPortId (hd ns) (m_aunDONames (fb_spec b))
        in if p \<noteq> cg_unInvalidPortId then Some (dp_val (m_aoDIs b ! p))
           else if q \<noteq> cg_unInvalidPortId then Some (dp_val (m_aoDOs b ! q))
           else None
      else None)"

section \<open>Frame facts\<close>

lemma map_update_same:
  "(p < length xs \<Longrightarrow> f y = f (xs ! p)) \<Longrightarrow> map f (xs[p := y]) = map f xs"
  by (cases "p < length xs") (auto simp: map_update list_update_same_conv list_update_beyond)

lemma addEventEntry_frame [simp]:
  "w_fbs (addEventEntry x w) = w_fbs w"
  "w_timer (addEventEntry x w) = w_timer w"
  "w_platform (addEventEntry x w) = w_platform w"
  "w_com (addEventEntry x w) = w_com w"
  by (simp_all add: addEventEntry_def)

lemma triggerEvent_frame [simp]:
  "w_fbs (triggerEvent ds w) = w_fbs w"
  "w_timer (triggerEvent ds w) = w_timer w"
  "w_platform (triggerEvent ds w) = w_platform w"
  "w_com (triggerEvent ds w) = w_com w"
  "mExternalEventList (triggerEvent ds w) = mExternalEventList w"
  "mEventList (triggerEvent ds w) = fold ring_push ds (mEventList w)"
  by (induction ds arbitrary: w) (simp_all add: triggerEvent_def addEventEntry_def)

lemma only_posts_triggerEvent [simp]: "only_posts w (triggerEvent ds w)"
proof -
  have "mExternalEventList (triggerEvent ds w) = fold ring_push [] (mExternalEventList w)"
    by simp
  then show ?thesis
    unfolding only_posts_def by (metis triggerEvent_frame(6))
qed

lemma only_posts_fbs [simp]: "only_posts w (w\<lparr>w_fbs := f\<rparr>)"
  by (rule only_posts_frame) simp_all

lemma upd_fb_frame [simp]:
  "mEventList (upd_fb i f w) = mEventList w" "mExternalEventList (upd_fb i f w) = mExternalEventList w"
  "w_timer (upd_fb i f w) = w_timer w" "w_platform (upd_fb i f w) = w_platform w" "w_com (upd_fb i f w) = w_com w"
  "w_fbs (upd_fb i f w) j = (if j = i then map_option f (w_fbs w i) else w_fbs w j)"
  by (simp_all add: upd_fb_def split: option.split)

lemma only_posts_upd_fb [simp]: "only_posts w (upd_fb i f w)"
  by (rule only_posts_frame) simp_all

lemma sendOutputEvent_only_posts: "only_posts w (sendOutputEvent i eo w)"
  by (auto simp: sendOutputEvent_def Let_def split: option.split
     intro: only_posts_trans [OF only_posts_fbs only_posts_triggerEvent])

lemma publish_DO_class [simp]: "fb_class (fold (publish_DO P) ps b) = fb_class b"
  by (induction ps arbitrary: b) (simp_all add: publish_DO_def Let_def)

lemma changeFBExecutionState_keeps:
  fixes w :: "'c world"
  shows "w_com (snd (changeFBExecutionState (\<lambda>b. b) n cmd i w)) = w_com w \<and>
   map_option fb_class (w_fbs (snd (changeFBExecutionState (\<lambda>b. b) n cmd i w)) j) = map_option fb_class (w_fbs w j)"
proof (induction n arbitrary: i w)
  case 0
  show ?case by (simp add: changeFBExecutionState.simps [where n = 0] Let_def split: option.split)
next
  case (Suc n)
  have f: "w_com (fold (\<lambda>a v. case a of None \<Rightarrow> v | Some j \<Rightarrow> snd (changeFBExecutionState (\<lambda>b. b) n cmd j v)) as v) = w_com v \<and>
    map_option fb_class (w_fbs (fold (\<lambda>a v. case a of None \<Rightarrow> v
      | Some j \<Rightarrow> snd (changeFBExecutionState (\<lambda>b. b) n cmd j v)) as v) j) = map_option fb_class (w_fbs v j)" for as and v :: "'c world"
    by (induction as arbitrary: v) (simp_all add: Suc split: option.split)
  show ?case
    by (simp add: changeFBExecutionState.simps [where n = "Suc n"] f Let_def split: option.split)
qed

lemmas changeFBExecutionState_frame [simp] = changeFBExecutionState_keeps [THEN conjunct1] changeFBExecutionState_keeps [THEN conjunct2]

lemma receiveInputEvent_only_posts:
  assumes "\<And>i e w w'. exec i e w = Some w' \<Longrightarrow> only_posts w w'"
    and "receiveInputEvent exec ev w = Some w'"
  shows "only_posts w w'"
  using assms(2)
  by (auto simp: receiveInputEvent_def Let_def split: option.splits if_splits
     intro: assms(1) only_posts_trans [OF only_posts_fbs])

section \<open>What execution never changes\<close>

text \<open>
  The shape of a block: its interface, its name, all its connections, and the types of all its data points.
\<close>

definition fb_shape :: "'c fb \<Rightarrow> _" where
  "fb_shape b = (fb_spec b, m_nFBInstanceName b, m_apoDIConns b, mEOConns b, m_apoAdapters b,
     map (\<lambda>c. (dc_dests c, mSpecialCastConnection c, map_option getDataTypeID (m_poValue c))) (mDOConns b),
     map (\<lambda>d. getDataTypeID (dp_val d)) (m_aoDIs b), map (\<lambda>d. getDataTypeID (dp_val d)) (m_aoDOs b),
     length (m_nEIMonitorCount b), length (m_nEOMonitorCount b))"

definition world_shape :: "'c world \<Rightarrow> _" where
  "world_shape w = (\<lambda>i. map_option fb_shape (w_fbs w i))"

lemma readData_type [simp]: "getDataTypeID (readData P c x) = getDataTypeID x"
  by (simp add: readData_def split: option.split)

lemma sample_DI_shape [simp]: "fb_shape (sample_DI w p b) = fb_shape b"
  by (simp add: sample_DI_def fb_shape_def Let_def map_update_same split: option.split)

lemma publish_DO_shape [simp]: "fb_shape (publish_DO P p b) = fb_shape b"
  by (simp add: publish_DO_def fb_shape_def Let_def map_update_same writeData_def split: option.split)

lemma fold_sample_shape [simp]: "fb_shape (fold (sample_DI w) ps b) = fb_shape b"
  by (induction ps arbitrary: b) simp_all

lemma fold_publish_shape [simp]: "fb_shape (fold (publish_DO P) ps b) = fb_shape b"
  by (induction ps arbitrary: b) simp_all

lemma fb_shape_upd [simp]:
  "fb_shape (b\<lparr>m_updated := u\<rparr>) = fb_shape b"
  "fb_shape (b\<lparr>m_enFBState := st\<rparr>) = fb_shape b"
  "fb_shape (b\<lparr>fb_class := c\<rparr>) = fb_shape b"
  by (simp_all add: fb_shape_def)

lemma fb_shape_EI_monitor:
  "fb_shape b' = fb_shape b \<Longrightarrow> fb_shape (b'\<lparr>m_nEIMonitorCount := (m_nEIMonitorCount b)[e := m]\<rparr>) = fb_shape b"
  by (simp add: fb_shape_def)

lemma fb_shape_EO_monitor:
  "fb_shape b' = fb_shape b \<Longrightarrow> fb_shape (b'\<lparr>m_nEOMonitorCount := (m_nEOMonitorCount b)[e := m]\<rparr>) = fb_shape b"
  by (simp add: fb_shape_def)

lemma world_shape_upd:
  "w_fbs w i = Some b \<Longrightarrow> fb_shape b' = fb_shape b \<Longrightarrow> world_shape (w\<lparr>w_fbs := (w_fbs w)(i \<mapsto> b')\<rparr>) = world_shape w"
  by (auto simp: world_shape_def)

lemma world_shape_trigger [simp]: "world_shape (triggerEvent ds w) = world_shape w"
  by (simp add: world_shape_def)

lemma world_shape_upd_fb: "(\<And>b. fb_shape (f b) = fb_shape b) \<Longrightarrow> world_shape (upd_fb i f w) = world_shape w"
  by (auto simp: world_shape_def option.map_comp o_def)

lemma sendOutputEvent_shape [simp]: "world_shape (sendOutputEvent i eo w) = world_shape w"
  by (auto simp: sendOutputEvent_def Let_def fb_shape_EO_monitor world_shape_upd split: option.split)

lemma world_shape_ecet [simp]:
  "world_shape (w\<lparr>mEventList := l\<rparr>) = world_shape w"
  "world_shape (w\<lparr>mExternalEventList := l\<rparr>) = world_shape w"
  "world_shape (w\<lparr>mProcessingEvents := p\<rparr>) = world_shape w"
  "world_shape (w\<lparr>mSuspendSemaphore := n\<rparr>) = world_shape w"
  "world_shape (w\<lparr>w_timer := t\<rparr>) = world_shape w"
  "world_shape (w\<lparr>w_com := c\<rparr>) = world_shape w"
  "world_shape (addEventEntry x w) = world_shape w"
  by (simp_all add: world_shape_def)

lemma transfer_world_shape: "transferExternalEvents w = Some w' \<Longrightarrow> world_shape w' = world_shape w"
proof (induction w rule: transferExternalEvents.induct)
  case (1 s)
  show ?case
    using "1.prems" "1.IH"
    by (subst (asm) transferExternalEvents.simps) (auto split: if_splits option.splits)
qed

text \<open>
  What the rest of the runtime relies on in the behaviour of a class of function blocks
  (\<open>executeEvent\<close>): it posts events and sets values, but does not touch the event lists otherwise,
  nor any connection, interface or type.
\<close>

locale fb_behaviour =
  fixes exec :: "nat \<Rightarrow> nat \<Rightarrow> 'c world \<Rightarrow> 'c world option"
  assumes exec_only_posts: "exec i e w = Some w' \<Longrightarrow> only_posts w w'"
    and exec_shape: "exec i e w = Some w' \<Longrightarrow> world_shape w' = world_shape w"
begin

lemma deliver_only_posts: "receiveInputEvent exec ev w = Some w' \<Longrightarrow> only_posts w w'"
  by (rule receiveInputEvent_only_posts [OF exec_only_posts])

lemma deliver_shape: 
  assumes "receiveInputEvent exec ev w = Some w'"
  shows "world_shape w' = world_shape w"
  using assms
  by (auto simp: receiveInputEvent_def Let_def fb_shape_EI_monitor world_shape_upd
     split: option.splits if_splits dest!: exec_shape)

end

sublocale fb_behaviour \<subseteq> ev: event_receiver "receiveInputEvent exec"
  by unfold_locales (rule deliver_only_posts)

context fb_behaviour begin

lemma run_iteration_shape:
  assumes "run_iteration (receiveInputEvent exec) w = Some w'"
  shows "world_shape w' = world_shape w"
proof -
  have r: "selfSuspend s = Some t \<Longrightarrow> world_shape t = world_shape s" for s t :: "'c world"
    by (auto simp: selfSuspend_def split: nat.splits)
  show ?thesis
    using assms unfolding run_iteration_def
    by (auto split: option.splits if_splits dest!: transfer_world_shape deliver_shape r)
qed

lemma run_thread_shape:
  "run_thread (receiveInputEvent exec) n w = Some w' \<Longrightarrow> world_shape w' = world_shape w"
proof (induction n arbitrary: w)
  case (Suc n)
  then show ?case
    by (auto split: if_splits option.splits dest!: run_iteration_shape)
qed simp

end

end
