(* ===== verification/Connection_Laws.thy ===== *)
theory Connection_Laws
  imports Func_Block
begin

text \<open>
  The laws of the data connections of \<^verbatim>\<open>src/src/core/dataconn.cpp\<close>: both ends of a connection agree
  after connecting and disconnecting, and the two ways in which a refused attempt damages an existing
  connection.
\<close>

section \<open>Consistency of the data connections\<close>

definition fb_wf :: "'c fb \<Rightarrow> bool" where
  "fb_wf b \<longleftrightarrow> length (m_aoDIs b) = m_nNumDIs (fb_spec b) \<and> length (m_apoDIConns b) = m_nNumDIs (fb_spec b)
     \<and> length (m_aoDOs b) = m_nNumDOs (fb_spec b) \<and> length (mDOConns b) = m_nNumDOs (fb_spec b)
     \<and> length (mEOConns b) = m_nNumEOs (fb_spec b)
     \<and> length (m_nEIMonitorCount b) = m_nNumEIs (fb_spec b)
     \<and> length (m_nEOMonitorCount b) = m_nNumEOs (fb_spec b)"

definition wf_world :: "'c world \<Rightarrow> bool" where
  "wf_world w \<longleftrightarrow> (\<forall>i b. w_fbs w i = Some b \<longrightarrow> fb_wf b)"

text \<open>The two ends of the data connections: the destinations an output lists, and the source an
  input refers to.\<close>

definition dests_of :: "'c world \<Rightarrow> nat \<times> nat \<Rightarrow> conn_point list" where
  "dests_of w sp =
     (case w_fbs w (fst sp) of
        None \<Rightarrow> []
      | Some b \<Rightarrow> if snd sp < length (mDOConns b) then dc_dests (mDOConns b ! snd sp) else [])"

definition di_source :: "'c world \<Rightarrow> nat \<Rightarrow> nat \<Rightarrow> (nat \<times> nat) option" where
  "di_source w i p =
     (case w_fbs w i of
        None \<Rightarrow> None
      | Some b \<Rightarrow> if p < length (m_apoDIConns b) then m_apoDIConns b ! p else None)"

text \<open>Both ends agree, and no output lists an input twice.\<close>

definition consistent :: "'c world \<Rightarrow> bool" where
  "consistent w \<longleftrightarrow> (\<forall>sp. distinct (dests_of w sp))
     \<and> (\<forall>sp d. d \<in> set (dests_of w sp) \<longleftrightarrow> di_source w (mFB d) (mPortId d) = Some sp)"

lemma consistentD:
  assumes "consistent w"
  shows "distinct (dests_of w sp)"
    and "d \<in> set (dests_of w sp) \<longleftrightarrow> di_source w (mFB d) (mPortId d) = Some sp"
  using assms unfolding consistent_def by blast+

definition do_valid :: "'c world \<Rightarrow> nat \<times> nat \<Rightarrow> bool" where
  "do_valid w sp \<longleftrightarrow> (\<exists>b. w_fbs w (fst sp) = Some b \<and> snd sp < length (mDOConns b))"

definition same_links :: "'c world \<Rightarrow> 'c world \<Rightarrow> bool" where
  "same_links w w' \<longleftrightarrow> dests_of w' = dests_of w \<and> di_source w' = di_source w
     \<and> do_valid w' = do_valid w \<and> (wf_world w \<longrightarrow> wf_world w')
     \<and> (\<forall>i. map_option fb_spec (w_fbs w' i) = map_option fb_spec (w_fbs w i))"

lemma same_linksD:
  assumes "same_links w w'"
  shows "dests_of w' = dests_of w" "di_source w' = di_source w" "do_valid w' sp = do_valid w sp"
    "wf_world w \<Longrightarrow> wf_world w'" "map_option fb_spec (w_fbs w' i) = map_option fb_spec (w_fbs w i)"
  using assms by (simp_all add: same_links_def)

lemma same_links_refl [simp]: "same_links w w"
  by (simp add: same_links_def)

lemma same_links_trans: "same_links u v \<Longrightarrow> same_links v w \<Longrightarrow> same_links u w"
  by (simp add: same_links_def)

lemma same_links_upd_fb:
  assumes "\<And>b. w_fbs w i = Some b \<Longrightarrow> m_apoDIConns (f b) = m_apoDIConns b
      \<and> map dc_dests (mDOConns (f b)) = map dc_dests (mDOConns b)
      \<and> fb_spec (f b) = fb_spec b \<and> (fb_wf b \<longrightarrow> fb_wf (f b))"
  shows "same_links w (upd_fb i f w)"
proof -
  have l: "length (mDOConns (f b)) = length (mDOConns b)" if "w_fbs w i = Some b" for b
    using assms [OF that] by (metis length_map)
  have d: "dc_dests (mDOConns (f b) ! k) = dc_dests (mDOConns b ! k)"
    if "w_fbs w i = Some b" "k < length (mDOConns b)" for b k
    using assms [OF that(1)] l [OF that(1)] that(2) by (metis nth_map)
  show ?thesis
    unfolding same_links_def
  proof (intro conjI allI impI ext)
    show "dests_of (upd_fb i f w) sp = dests_of w sp" for sp
      using l d by (auto simp: dests_of_def split: option.split)
    show "di_source (upd_fb i f w) j p = di_source w j p" for j p
      using assms by (auto simp: di_source_def split: option.split)
    show "do_valid (upd_fb i f w) sp = do_valid w sp" for sp
      using l by (auto simp: do_valid_def)
    show "map_option fb_spec (w_fbs (upd_fb i f w) j) = map_option fb_spec (w_fbs w j)" for j
      using assms by (cases "w_fbs w i") auto
    assume "wf_world w"
    then show "wf_world (upd_fb i f w)"
      using assms by (auto simp: wf_world_def split: if_splits)
  qed
qed

lemma same_links_upd_do_conn:
  assumes "\<And>c. dc_dests (f c) = dc_dests c"
  shows "same_links w (upd_do_conn sp f w)"
  unfolding upd_do_conn_def
  by (rule same_links_upd_fb) (simp add: assms map_update_same fb_wf_def)

lemma same_links_configureGenericDO: "same_links w (upd_fb i (configureGenericDO p v) w)"
  by (rule same_links_upd_fb) (simp add: configureGenericDO_def fb_wf_def)

lemma configureGenericDI_simps [simp]:
  "m_apoDIConns (configureGenericDI p v b) = m_apoDIConns b"
  "mDOConns (configureGenericDI p v b) = mDOConns b"
  "fb_spec (configureGenericDI p v b) = fb_spec b"
  "fb_wf (configureGenericDI p v b) = fb_wf b"
  by (simp_all add: configureGenericDI_def fb_wf_def split: option.split)

lemma connectDI_upd: "w_fbs w i = Some b \<Longrightarrow> connectDI i p con w =
  (fst (connectDI_fb p con (conn_value w con) b), upd_fb i (\<lambda>_. snd (connectDI_fb p con (conn_value w con) b)) w)"
  by (simp add: connectDI_def upd_fb_def Let_def)

text \<open>An input that already refers to the connection is only reconfigured.\<close>

lemma connectDI_reconfigure:
  assumes "di_source w i p = Some sp" "wf_world w"
  shows "fst (connectDI i p (Some sp) w)" and "same_links w (snd (connectDI i p (Some sp) w))"
proof -
  obtain b where b: "w_fbs w i = Some b" "p < length (m_apoDIConns b)" "m_apoDIConns b ! p = Some sp"
    using assms(1) by (auto simp: di_source_def split: option.splits if_splits)
  have "fb_wf b"
    using b(1) assms(2) by (simp add: wf_world_def)
  then have c: "connectDI_fb p (Some sp) v b = (True, configureGenericDI p v b)" for v
    using b by (simp add: connectDI_fb_def fb_wf_def)
  show "fst (connectDI i p (Some sp) w)"
    by (simp add: connectDI_upd [OF b(1)] c)
  show "same_links w (snd (connectDI i p (Some sp) w))"
    unfolding connectDI_upd [OF b(1)] c snd_conv
    by (rule same_links_upd_fb) (simp add: b(1))
qed

lemma same_links_reconfigure_all:
  assumes "wf_world w" "\<And>d. d \<in> set ds \<Longrightarrow> di_source w (mFB d) (mPortId d) = Some sp"
  shows "same_links w (fold (\<lambda>d v. snd (connectDI (mFB d) (mPortId d) (Some sp) v)) ds w)"
  using assms
proof (induction ds arbitrary: w)
  case (Cons d ds)
  let ?w = "snd (connectDI (mFB d) (mPortId d) (Some sp) w)"
  have s: "same_links w ?w"
    by (rule connectDI_reconfigure(2)) (use Cons.prems in auto)
  then have "same_links ?w (fold (\<lambda>d v. snd (connectDI (mFB d) (mPortId d) (Some sp) v)) ds ?w)"
    using Cons.prems by (intro Cons.IH) (simp_all add: same_links_def)
  with s show ?case
    by (auto intro: same_links_trans)
qed simp

lemma do_conn_dests: "do_valid w sp \<Longrightarrow> \<exists>c. do_conn w sp = Some c \<and> dc_dests c = dests_of w sp"
  by (auto simp: do_valid_def do_conn_def dests_of_def)

lemma same_links_handleAny:
  assumes "wf_world w" "consistent w" "do_valid w sp"
  shows "same_links w (handleAnySrcPortConnection connectDI sp v w)"
proof (cases "getDataTypeID v = e_ANY")
  case False
  let ?w1 = "upd_do_conn sp (\<lambda>c. c\<lparr>m_poValue := Some v\<rparr>) w"
  let ?w2 = "upd_fb (fst sp) (configureGenericDO (snd sp) v) ?w1"
  have s: "same_links w ?w2"
    by (rule same_links_trans [OF same_links_upd_do_conn same_links_configureGenericDO]) simp
  obtain c where c: "do_conn ?w2 sp = Some c" "dc_dests c = dests_of ?w2 sp"
    using do_conn_dests [of ?w2 sp] same_linksD(3) [OF s, of sp] assms(3) by blast
  have "same_links ?w2 (fold (\<lambda>d v. snd (connectDI (mFB d) (mPortId d) (Some sp) v)) (dc_dests c) ?w2)"
    using assms(1,2) c(2) same_linksD [OF s]
    by (intro same_links_reconfigure_all) (simp_all add: consistentD)
  then show ?thesis
    using s c False by (auto simp: handleAnySrcPortConnection_def Let_def intro: same_links_trans)
qed (simp add: handleAnySrcPortConnection_def)

lemma consistent_same_links: "same_links w w' \<Longrightarrow> consistent w' = consistent w"
  by (simp add: consistent_def same_links_def)

lemma dests_of_upd:
  assumes "do_valid w sp"
  shows "dests_of (upd_do_conn sp (\<lambda>c. c\<lparr>dc_dests := f c\<rparr>) w) sq =
    (if sq = sp then f (the (do_conn w sp)) else dests_of w sq)"
  using assms
  by (cases sp; cases sq) (auto simp: dests_of_def upd_do_conn_def do_valid_def do_conn_def split: option.split)

lemma upd_do_conn_rest:
  "di_source (upd_do_conn sp f w) = di_source w"
  "do_valid (upd_do_conn sp f w) sq = do_valid w sq"
  "wf_world w \<Longrightarrow> wf_world (upd_do_conn sp f w)"
  "map_option fb_spec (w_fbs (upd_do_conn sp f w) i) = map_option fb_spec (w_fbs w i)"
  by (auto simp: di_source_def upd_do_conn_def do_valid_def wf_world_def fb_wf_def fun_eq_iff
     option.map_comp o_def split: option.split if_splits)

lemma do_conn_upd: "do_conn (upd_do_conn sp f w) sp =
    map_option (\<lambda>b. (mDOConns b)[snd sp := f (mDOConns b ! snd sp)] ! snd sp) (w_fbs w (fst sp))"
  by (simp add: do_conn_def upd_do_conn_def option.map_comp o_def)

text \<open>The effect of \<open>connectDI\<close> on the links.\<close>

lemma connectDI_links:
  assumes "w_fbs w i = Some b" "wf_world w" "p < m_nNumDIs (fb_spec b)"
    and "con = None \<or> di_source w i p = None"
  shows "fst (connectDI i p con w)"
    and "dests_of (snd (connectDI i p con w)) = dests_of w"
    and "di_source (snd (connectDI i p con w)) j q = (if j = i \<and> q = p then con else di_source w j q)"
    and "wf_world (snd (connectDI i p con w))"
proof -
  have wf: "fb_wf b"
    using assms(1,2) by (simp add: wf_world_def)
  have len: "p < length (m_apoDIConns b)"
    using wf assms(3) by (simp add: fb_wf_def)
  define b' where "b' = snd (connectDI_fb p con (conn_value w con) b)"
  have f: "fst (connectDI_fb p con (conn_value w con) b)" and b': "mDOConns b' = mDOConns b" "fb_wf b'"
    "m_apoDIConns b' = (m_apoDIConns b)[p := con]"
    using assms(3,4) len wf assms(1)
    by (auto simp: connectDI_fb_def b'_def di_source_def fb_wf_def configureGenericDI_def split: option.splits)
  have c: "connectDI i p con w = (True, upd_fb i (\<lambda>_. b') w)"
    using connectDI_upd [OF assms(1)] f by (simp add: b'_def)
  show "fst (connectDI i p con w)"
    by (simp add: c)
  show "dests_of (snd (connectDI i p con w)) = dests_of w"
    using b'(1) assms(1) by (auto simp: c dests_of_def fun_eq_iff split: option.split)
  show "di_source (snd (connectDI i p con w)) j q = (if j = i \<and> q = p then con else di_source w j q)"
    using b'(3) assms(1) len by (auto simp: c di_source_def split: option.split)
  show "wf_world (snd (connectDI i p con w))"
    using b'(2) assms(1,2) by (auto simp: c wf_world_def split: if_splits)
qed

text \<open>A connection that an input refuses, because it has another source.\<close>

lemma connectDI_refused:
  assumes "w_fbs w i = Some b" "wf_world w" "p < m_nNumDIs (fb_spec b)"
    and "di_source w i p = Some sq" "sq \<noteq> sp"
  shows "fst (connectDI i p (Some sp) w) = False" and "same_links w (snd (connectDI i p (Some sp) w))"
proof -
  have "fb_wf b"
    using assms(1,2) by (simp add: wf_world_def)
  then have c: "connectDI_fb p (Some sp) v b = (False, b)" for v
    using assms by (simp add: connectDI_fb_def fb_wf_def di_source_def)
  show "fst (connectDI i p (Some sp) w) = False"
    by (simp add: connectDI_upd [OF assms(1)] c)
  show "same_links w (snd (connectDI i p (Some sp) w))"
    unfolding connectDI_upd [OF assms(1)] c snd_conv
    by (rule same_links_upd_fb) (simp add: assms(1))
qed

text \<open>The second half of \<open>establishDataConnection\<close>, once the types are accepted.\<close>

definition add_and_connect :: "nat \<times> nat \<Rightarrow> nat \<Rightarrow> nat \<Rightarrow> 'c world \<Rightarrow> EMGMResponse \<times> 'c world" where
  "add_and_connect sp i p w1 =
     (case do_conn w1 sp of
        None \<Rightarrow> (e_INVALID_OPERATION, w1)
      | Some c1 \<Rightarrow>
          let r = addDestination \<lparr>mFB = i, mPortId = p\<rparr> (dc_dests c1);
              w2 = upd_do_conn sp (\<lambda>c. c\<lparr>dc_dests := snd r\<rparr>) w1
          in if fst r = e_RDY then
               let q = connectDI i p (Some sp) w2
               in if fst q then (e_RDY, snd q)
                  else (e_INVALID_STATE, upd_do_conn sp (\<lambda>c. c\<lparr>dc_dests := tl (dc_dests c)\<rparr>) (snd q))
             else (fst r, w2))"

lemma establish_cases:
  assumes "wf_world w" "consistent w" "do_valid w sp"
  obtains (refused) w1 where "same_links w w1" "establishDataConnection connectDI sp i p dst w = (e_INVALID_OPERATION, w1)"
  | (accepted) w1 where "same_links w w1" "establishDataConnection connectDI sp i p dst w = add_and_connect sp i p w1"
proof -
  obtain c where c: "do_conn w sp = Some c"
    using do_conn_dests [OF assms(3)] by blast
  show thesis
  proof (cases "m_poValue c")
    case None
    have "establishDataConnection connectDI sp i p dst w = add_and_connect sp i p (handleAnySrcPortConnection connectDI sp dst w)"
      by (simp add: establishDataConnection_def c None add_and_connect_def)
    then show thesis
      by (rule accepted [OF same_links_handleAny [OF assms]])
  next
    case (Some v)
    let ?r = "canBeConnected (getDataTypeID v) (getDataTypeID dst) (mSpecialCastConnection c)"
    let ?w1 = "upd_do_conn sp (\<lambda>c. c\<lparr>mSpecialCastConnection := snd ?r\<rparr>) w"
    have s: "same_links w ?w1"
      by (rule same_links_upd_do_conn) simp
    have "establishDataConnection connectDI sp i p dst w =
        (if fst ?r then add_and_connect sp i p ?w1 else (e_INVALID_OPERATION, ?w1))"
      by (simp add: establishDataConnection_def c Some add_and_connect_def)
    with s show thesis
      using refused [of ?w1] accepted [of ?w1] by (cases "fst ?r") simp_all
  qed
qed

lemma dests_of_do_valid: "do_valid w sp \<Longrightarrow> do_conn w sp = Some c \<Longrightarrow> dc_dests c = dests_of w sp"
  using do_conn_dests by fastforce

lemma add_and_connect_links:
  assumes wf: "wf_world w" and con: "consistent w" and val: "do_valid w sp"
    and b: "w_fbs w i = Some b" "p < m_nNumDIs (fb_spec b)"
  defines "res \<equiv> add_and_connect sp i p w" and "d \<equiv> \<lparr>mFB = i, mPortId = p\<rparr>"
  shows "di_source w i p = Some sp \<Longrightarrow> fst res = e_INVALID_STATE \<and> same_links w (snd res)"
    and "di_source w i p = None \<Longrightarrow> fst res = e_RDY
        \<and> dests_of (snd res) = (dests_of w)(sp := dests_of w sp @ [d])
        \<and> (\<forall>j q. di_source (snd res) j q = (if j = i \<and> q = p then Some sp else di_source w j q))
        \<and> wf_world (snd res)"
    and "di_source w i p = Some sq \<Longrightarrow> sq \<noteq> sp \<Longrightarrow> fst res = e_INVALID_STATE
        \<and> dests_of (snd res) = (dests_of w)(sp := tl (dests_of w sp @ [d]))
        \<and> di_source (snd res) = di_source w"
proof -
  obtain c where c: "do_conn w sp = Some c" "dc_dests c = dests_of w sp"
    using do_conn_dests [OF val] by blast
  have mem: "d \<in> set (dests_of w sp) \<longleftrightarrow> di_source w i p = Some sp"
    using consistentD(2) [OF con, of d sp] by (simp add: d_def)
  let ?w2 = "upd_do_conn sp (\<lambda>c. c\<lparr>dc_dests := dests_of w sp @ [d]\<rparr>) w"
  have w2: "di_source ?w2 = di_source w" "wf_world ?w2" "do_valid ?w2 sp"
      "dests_of ?w2 = (dests_of w)(sp := dests_of w sp @ [d])"
    using wf val by (simp_all add: upd_do_conn_rest dests_of_upd [OF val] fun_eq_iff)
  obtain b2 where b2: "w_fbs ?w2 i = Some b2" "p < m_nNumDIs (fb_spec b2)"
    using upd_do_conn_rest(4) [of sp "\<lambda>c. c\<lparr>dc_dests := dests_of w sp @ [d]\<rparr>" w i] b by auto
  have res: "res = (let q = connectDI i p (Some sp) ?w2
       in if fst q then (e_RDY, snd q)
          else (e_INVALID_STATE, upd_do_conn sp (\<lambda>c. c\<lparr>dc_dests := tl (dc_dests c)\<rparr>) (snd q)))"
    if "d \<notin> set (dests_of w sp)"
    using that c by (simp add: res_def add_and_connect_def addDestination_def d_def Let_def)
  show "fst res = e_INVALID_STATE \<and> same_links w (snd res)" if "di_source w i p = Some sp"
  proof -
    have r: "res = (e_INVALID_STATE, upd_do_conn sp (\<lambda>c'. c'\<lparr>dc_dests := dests_of w sp\<rparr>) w)"
      using that mem c by (simp add: res_def add_and_connect_def addDestination_def d_def Let_def)
    have "dests_of (snd res) = dests_of w"
      by (rule ext) (simp add: r dests_of_upd [OF val])
    then show ?thesis
      using r wf by (simp add: same_links_def upd_do_conn_rest fun_eq_iff)
  qed
  show "fst res = e_RDY \<and> dests_of (snd res) = (dests_of w)(sp := dests_of w sp @ [d])
        \<and> (\<forall>j q. di_source (snd res) j q = (if j = i \<and> q = p then Some sp else di_source w j q))
        \<and> wf_world (snd res)" if "di_source w i p = None"
  proof -
    have "di_source ?w2 i p = None" "d \<notin> set (dests_of w sp)"
      using that mem w2(1) by simp_all
    then show ?thesis
      using connectDI_links [OF b2(1) w2(2) b2(2), of "Some sp"] w2(1,4)
      by (simp add: res Let_def)
  qed
  show "fst res = e_INVALID_STATE \<and> dests_of (snd res) = (dests_of w)(sp := tl (dests_of w sp @ [d]))
        \<and> di_source (snd res) = di_source w" if sq: "di_source w i p = Some sq" "sq \<noteq> sp"
  proof -
    have nd: "d \<notin> set (dests_of w sp)" and sq2: "di_source ?w2 i p = Some sq"
      using sq mem w2(1) by simp_all
    note ref = connectDI_refused [OF b2(1) w2(2) b2(2) sq2 sq(2)]
    let ?w3 = "snd (connectDI i p (Some sp) ?w2)"
    note l3 = same_linksD [OF ref(2)]
    have v3: "do_valid ?w3 sp"
      using l3(3) w2(3) by simp
    have "dc_dests (the (do_conn ?w3 sp)) = dests_of w sp @ [d]"
      using do_conn_dests [OF v3] l3(1) w2(4) by auto
    then have "dests_of (upd_do_conn sp (\<lambda>c. c\<lparr>dc_dests := tl (dc_dests c)\<rparr>) ?w3)
        = (dests_of w)(sp := tl (dests_of w sp @ [d]))"
      using l3(1) w2(4) by (auto simp: dests_of_upd [OF v3] fun_eq_iff)
    then show ?thesis
      using ref(1) l3(2) w2(1) by (simp add: res [OF nd] Let_def upd_do_conn_rest)
  qed
qed

section \<open>Ports\<close>

lemma find_port_found:
  "find_port n ns k \<noteq> cg_unInvalidPortId \<Longrightarrow> k \<le> find_port n ns k \<and> find_port n ns k < k + length ns
     \<and> ns ! (find_port n ns k - k) = n"
  by (induction ns arbitrary: k) (fastforce simp: nth_Cons')+

lemma getPortId_found:
  "getPortId n ns \<noteq> cg_unInvalidPortId \<Longrightarrow> getPortId n ns < length ns \<and> ns ! getPortId n ns = n"
  using find_port_found [of n ns 0] by (simp add: getPortId_def)

section \<open>Connections: properties\<close>

lemma consistent_connect:
  assumes "consistent w" "di_source w i p = None"
    and "dests_of w' = (dests_of w)(sp := dests_of w sp @ [\<lparr>mFB = i, mPortId = p\<rparr>])"
    and "\<forall>j q. di_source w' j q = (if j = i \<and> q = p then Some sp else di_source w j q)"
  shows "consistent w'"
proof -
  let ?d = "\<lparr>mFB = i, mPortId = p\<rparr>"
  have no: "?d \<notin> set (dests_of w sq)" for sq
    using consistentD(2) [OF assms(1), of ?d sq] assms(2) by simp
  have "distinct (dests_of w' sq)" for sq
    using consistentD(1) [OF assms(1)] no by (simp add: assms(3))
  moreover have "d \<in> set (dests_of w' sq) \<longleftrightarrow> di_source w' (mFB d) (mPortId d) = Some sq" for d sq
  proof (cases "d = ?d")
    case True
    then show ?thesis
      using no by (auto simp: assms(3,4))
  next
    case False
    then have "\<not> (mFB d = i \<and> mPortId d = p)"
      by (cases d) auto
    with False show ?thesis
      using consistentD(2) [OF assms(1)] by (auto simp: assms(3,4))
  qed
  ultimately show ?thesis
    unfolding consistent_def by blast
qed

lemma data_connect_keeps:
  assumes "wf_world w" "consistent w" "do_valid w sp" "w_fbs w i = Some b"
    and "di_source w i (getPortId n (m_aunDINames (fb_spec b))) \<in> {None, Some sp} \<or>
      fst (data_connect sp i n w) \<noteq> e_INVALID_STATE"
  shows "consistent (snd (data_connect sp i n w))"
proof -
  let ?p = "getPortId n (m_aunDINames (fb_spec b))"
  show ?thesis
  proof (cases "?p = cg_unInvalidPortId")
    case True
    then show ?thesis
      using assms(2,4) by (simp add: data_connect_def Let_def)
  next
    case False
    have p: "?p < m_nNumDIs (fb_spec b)"
      using getPortId_found [OF False] by simp
    have con: "data_connect sp i n w = establishDataConnection connectDI sp i ?p (dp_val (m_aoDIs b ! ?p)) w"
      using False assms(4) by (simp add: data_connect_def Let_def)
    show ?thesis
      unfolding con
    proof (rule establish_cases [OF assms(1-3), where i = i and p = ?p and dst = "dp_val (m_aoDIs b ! ?p)"])
      fix w1
      assume "same_links w w1"
        and "establishDataConnection connectDI sp i ?p (dp_val (m_aoDIs b ! ?p)) w = (e_INVALID_OPERATION, w1)"
      then show "consistent (snd (establishDataConnection connectDI sp i ?p (dp_val (m_aoDIs b ! ?p)) w))"
        using assms(2) consistent_same_links by auto
    next
      fix w1
      assume s: "same_links w w1"
        and e: "establishDataConnection connectDI sp i ?p (dp_val (m_aoDIs b ! ?p)) w = add_and_connect sp i ?p w1"
      note l = same_linksD [OF s]
      obtain b1 where b1: "w_fbs w1 i = Some b1" "fb_spec b1 = fb_spec b"
        using l(5) [of i] assms(4) by auto
      have c1: "consistent w1"
        using consistent_same_links [OF s] assms(2) by simp
      note links = add_and_connect_links [OF l(4) [OF assms(1)] c1 _ b1(1), of sp ?p]
      have "di_source w1 i ?p \<in> {None, Some sp}"
      proof (rule ccontr)
        assume "di_source w1 i ?p \<notin> {None, Some sp}"
        then obtain sq where "di_source w1 i ?p = Some sq" "sq \<noteq> sp" by auto
        then show False
          using assms(5) links(3) p b1(2) l(2,3) assms(3) con e by auto
      qed
      then consider "di_source w1 i ?p = None" | "di_source w1 i ?p = Some sp" by auto
      then show "consistent (snd (establishDataConnection connectDI sp i ?p (dp_val (m_aoDIs b ! ?p)) w))"
      proof cases
        case 1
        then show ?thesis
          using links(2) p b1(2) l(3) assms(3) unfolding e
          by (intro consistent_connect [OF c1 1, where sp = sp]) simp_all
      next
        case 2
        then have "same_links w1 (snd (add_and_connect sp i ?p w1))"
          using links(1) p b1(2) l(3) assms(3) by simp
        then show ?thesis
          using consistent_same_links c1 unfolding e by blast
      qed
    qed
  qed
qed

text \<open>
  C6. Making a data connection keeps both ends of all data connections in agreement: every output
  lists exactly the inputs that refer to it, once each. This holds for every attempt on an input that
  is free, or that is already connected to the same output, whatever the answer is.
\<close>

theorem data_connect_consistent:
  assumes "wf_world w" "consistent w" "do_valid w sp" "w_fbs w i = Some b"
    and "di_source w i (getPortId n (m_aunDINames (fb_spec b))) \<in> {None, Some sp}"
  shows "consistent (snd (data_connect sp i n w))"
  using data_connect_keeps [OF assms(1-4)] assms(5) by blast

lemma data_disconnect_keeps:
  assumes "wf_world w" "consistent w" "do_valid w sp"
  shows "consistent (snd (data_disconnect sp i n w))
    \<and> (fst (data_disconnect sp i n w) = e_RDY \<longrightarrow>
        (\<exists>b. w_fbs w i = Some b \<and> di_source w i (getPortId n (m_aunDINames (fb_spec b))) = Some sp
          \<and> di_source (snd (data_disconnect sp i n w)) i (getPortId n (m_aunDINames (fb_spec b))) = None))"
proof (cases "w_fbs w i")
  case None
  then show ?thesis
    using assms by (simp add: data_disconnect_def)
next
  case (Some b)
  let ?p = "getPortId n (m_aunDINames (fb_spec b))" and ?r = "data_disconnect sp i n w"
  let ?d = "\<lparr>mFB = i, mPortId = ?p\<rparr>"
  obtain c where c: "do_conn w sp = Some c" "dc_dests c = dests_of w sp"
    using do_conn_dests [OF assms(3)] by blast
  have mem: "?d \<in> set (dests_of w sp) \<longleftrightarrow> di_source w i ?p = Some sp"
    using consistentD(2) [OF assms(2), of ?d sp] by simp
  let ?w1 = "upd_do_conn sp (\<lambda>c. c\<lparr>dc_dests := remove1 ?d (dests_of w sp)\<rparr>) w"
  show ?thesis
  proof (cases "?p = cg_unInvalidPortId \<or> ?d \<notin> set (dests_of w sp)")
    case True
    then have r: "?r = (e_NO_SUCH_OBJECT, w) \<or>
        ?r = (e_INVALID_STATE, upd_do_conn sp (\<lambda>c. c\<lparr>dc_dests := dests_of w sp\<rparr>) w)"
      using c Some by (auto simp: data_disconnect_def removeDestination_def Let_def)
    have "dests_of (upd_do_conn sp (\<lambda>c. c\<lparr>dc_dests := dests_of w sp\<rparr>) w) = dests_of w"
      by (rule ext) (simp add: dests_of_upd [OF assms(3)])
    then have "consistent (upd_do_conn sp (\<lambda>c. c\<lparr>dc_dests := dests_of w sp\<rparr>) w)"
      using assms(2) by (simp add: consistent_def upd_do_conn_rest)
    with r assms(2) show ?thesis by auto
  next
    case False
    then have p: "?p < m_nNumDIs (fb_spec b)" and src: "di_source w i ?p = Some sp"
      using getPortId_found [of n] mem by auto
    have r: "?r = (e_RDY, snd (connectDI i ?p None ?w1))"
      using False c Some by (simp add: data_disconnect_def removeDestination_def Let_def)
    obtain b1 where b1: "w_fbs ?w1 i = Some b1" "fb_spec b1 = fb_spec b"
      using upd_do_conn_rest(4) [of sp "\<lambda>c. c\<lparr>dc_dests := remove1 ?d (dests_of w sp)\<rparr>" w i] Some by auto
    have wf1: "wf_world ?w1"
      by (rule upd_do_conn_rest(3) [OF assms(1)])
    note l = connectDI_links [OF b1(1) wf1 _ disjI1 [OF refl], of ?p]
    let ?w2 = "snd (connectDI i ?p None ?w1)"
    have ds: "dests_of ?w2 sq = (if sq = sp then remove1 ?d (dests_of w sp) else dests_of w sq)" for sq
      using l(2) p b1(2) by (simp add: dests_of_upd [OF assms(3)])
    have di: "di_source ?w2 j q = (if j = i \<and> q = ?p then None else di_source w j q)" for j q
      using l(3) p b1(2) by (simp add: upd_do_conn_rest)
    have "distinct (dests_of ?w2 sq)" for sq
      using consistentD(1) [OF assms(2)] by (simp add: ds)
    moreover have "d \<in> set (dests_of ?w2 sq) \<longleftrightarrow> di_source ?w2 (mFB d) (mPortId d) = Some sq" for d sq
    proof (cases "d = ?d")
      case True
      have "?d \<in> set (dests_of w sq) \<longleftrightarrow> sq = sp"
        using consistentD(2) [OF assms(2), of ?d sq] src by auto
      with True show ?thesis
        using consistentD(1) [OF assms(2)] by (simp add: ds di)
    next
      case False
      then have "\<not> (mFB d = i \<and> mPortId d = ?p)"
        by (cases d) auto
      with False show ?thesis
        using consistentD [OF assms(2)] by (auto simp: ds di)
    qed
    ultimately have "consistent ?w2"
      unfolding consistent_def by blast
    then show ?thesis
      using r Some src di by auto
  qed
qed

text \<open>
  Removing a data connection keeps both ends in agreement too, and after the answer RDY the input
  is free and the output does not list it any more.
\<close>

theorem data_disconnect_consistent:
  assumes "wf_world w" "consistent w" "do_valid w sp"
  shows "consistent (snd (data_disconnect sp i n w))
    \<and> (fst (data_disconnect sp i n w) = e_RDY \<longrightarrow>
        (\<exists>b. w_fbs w i = Some b \<and> di_source w i (getPortId n (m_aunDINames (fb_spec b))) = Some sp
          \<and> di_source (snd (data_disconnect sp i n w)) i (getPortId n (m_aunDINames (fb_spec b))) = None))"
  by (rule data_disconnect_keeps [OF assms])

text \<open>
  Connecting an input that already has another source is refused with INVALID_STATE, but it
  damages the connection: the output loses its first receiver, which still refers to it, and lists the
  refused input instead. (The code takes the first destination off the list; the new one is the last.)
\<close>

theorem refused_connect_drops_receiver:
  assumes "wf_world w" "consistent w" "do_valid w sp" "w_fbs w i = Some b"
    and "getPortId n (m_aunDINames (fb_spec b)) \<noteq> cg_unInvalidPortId"
    and "di_source w i (getPortId n (m_aunDINames (fb_spec b))) = Some sq" "sq \<noteq> sp"
    and "conn_value w (Some sp) = Some v"
    and "getDataTypeID v = getDataTypeID (dp_val (m_aoDIs b ! getPortId n (m_aunDINames (fb_spec b))))"
    and "dests_of w sp = d # ds"
  shows "fst (data_connect sp i n w) = e_INVALID_STATE
    \<and> dests_of (snd (data_connect sp i n w)) sp = ds @ [\<lparr>mFB = i, mPortId = getPortId n (m_aunDINames (fb_spec b))\<rparr>]
    \<and> di_source (snd (data_connect sp i n w)) (mFB d) (mPortId d) = Some sp
    \<and> \<not> consistent (snd (data_connect sp i n w))"
proof -
  let ?p = "getPortId n (m_aunDINames (fb_spec b))"
  obtain c where c: "do_conn w sp = Some c" "m_poValue c = Some v"
    using assms(8) by (auto simp: conn_value_def split: Option.bind_splits)
  let ?w1 = "upd_do_conn sp (\<lambda>c'. c'\<lparr>mSpecialCastConnection := mSpecialCastConnection c\<rparr>) w"
  have s: "same_links w ?w1"
    by (rule same_links_upd_do_conn) simp
  note l = same_linksD [OF s]
  have e: "data_connect sp i n w = add_and_connect sp i ?p ?w1"
    using assms(4,5,9) c
    by (simp add: data_connect_def establishDataConnection_def canBeConnected_def add_and_connect_def Let_def)
  obtain b1 where b1: "w_fbs ?w1 i = Some b1" "fb_spec b1 = fb_spec b"
    using l(5) [of i] assms(4) by auto
  have c1: "consistent ?w1"
    using consistent_same_links [OF s] assms(2) by simp
  have p: "?p < m_nNumDIs (fb_spec b1)"
    using getPortId_found [OF assms(5)] b1(2) by simp
  have v1: "do_valid ?w1 sp"
    using assms(3) l(3) by simp
  have sq1: "di_source ?w1 i ?p = Some sq"
    using assms(6) l(2) by simp
  from add_and_connect_links(3) [OF l(4) [OF assms(1)] c1 v1 b1(1) p sq1 assms(7)]
  have r: "fst (data_connect sp i n w) = e_INVALID_STATE"
    "dests_of (snd (data_connect sp i n w)) sp = ds @ [\<lparr>mFB = i, mPortId = ?p\<rparr>]"
    "di_source (snd (data_connect sp i n w)) = di_source w"
    using assms(10) l(1,2) by (simp_all add: e)
  have "di_source w (mFB d) (mPortId d) = Some sp"
    using consistentD(2) [OF assms(2), of d sp] assms(10) by simp
  moreover have "\<not> consistent (snd (data_connect sp i n w))"
    using consistentD(2) [of "snd (data_connect sp i n w)" "\<lparr>mFB = i, mPortId = ?p\<rparr>" sp] r assms(6,7) by auto
  ultimately show ?thesis
    using r by simp
qed

text \<open>
  A failing attempt to connect a floating point output (here to a STRING input) switches off the
  conversion of the connection for the receivers it already has: a DINT input that read the converted
  number before reads the raw bits of the LREAL afterwards.
\<close>

theorem refused_connect_disables_cast:
  assumes "do_conn w sp = Some c" "m_poValue c = Some (Elem e_LREAL bits)" "mSpecialCastConnection c"
    and "w_fbs w i = Some b" "getPortId n (m_aunDINames (fb_spec b)) = p" "p \<noteq> cg_unInvalidPortId"
    and "dp_val (m_aoDIs b ! p) = Str s" "do_valid w sp"
  shows "fst (data_connect sp i n w) = e_INVALID_OPERATION
    \<and> (\<exists>c'. do_conn (snd (data_connect sp i n w)) sp = Some c'
        \<and> readData P c (Elem e_DINT z) = Elem e_DINT (i64_of_f64 P bits)
        \<and> readData P c' (Elem e_DINT z) = Elem e_DINT bits)"
proof -
  have nc: "\<not> isCastable e_LREAL e_STRING"
    by code_simp
  have e: "data_connect sp i n w =
      (e_INVALID_OPERATION, upd_do_conn sp (\<lambda>c. c\<lparr>mSpecialCastConnection := False\<rparr>) w)"
    using assms nc
    by (simp add: data_connect_def Let_def establishDataConnection_def canBeConnected_def)
  have c': "do_conn (upd_do_conn sp (\<lambda>c. c\<lparr>mSpecialCastConnection := False\<rparr>) w) sp =
      Some (c\<lparr>mSpecialCastConnection := False\<rparr>)"
    using assms(1,8) unfolding do_conn_upd by (auto simp: do_valid_def do_conn_def)
  show ?thesis
    using assms(2,3)
    by (simp add: e c' readData_def specialCast_def castLRealData_def Let_def is_signed_dt_def
       setLargestUInt_def getLargestUInt_def setValueSimple_def)
qed

end
