(* ===== verification/Event_Delivery.thy ===== *)
theory Event_Delivery
  imports Connection_Laws
begin

text \<open>
  The delivery of an event with its data (\<open>receiveInputEvent\<close> and \<open>sendOutputEvent\<close> of
  \<^verbatim>\<open>src/src/core/funcbloc.cpp\<close>), the breakpoints that can hold an event back, and the life cycle of a
  function block.
\<close>

section \<open>Sampling and publishing\<close>

text \<open>What an input holds after it has been sampled.\<close>

definition sampled :: "'c world \<Rightarrow> (nat \<times> nat) option \<Rightarrow> dpoint \<Rightarrow> dpoint" where
  "sampled w con d =
     (case con of
        None \<Rightarrow> d
      | Some sp \<Rightarrow> if dp_forced d then d
          else (case do_conn w sp of
              None \<Rightarrow> d
            | Some c \<Rightarrow> d\<lparr>dp_val := readData (w_platform w) c (dp_val d)\<rparr>))"

lemma sample_DI_sampled:
  "sample_DI w p b = b\<lparr>m_aoDIs := (m_aoDIs b)[p := sampled w (m_apoDIConns b ! p) (m_aoDIs b ! p)]\<rparr>"
  by (simp add: sample_DI_def sampled_def Let_def split: option.split)

definition sample_all :: "'c world \<Rightarrow> nat list \<Rightarrow> 'c fb \<Rightarrow> 'c fb" where
  "sample_all w ps b = b\<lparr>m_aoDIs := map (\<lambda>q. if q \<in> set ps
     then sampled w (m_apoDIConns b ! q) (m_aoDIs b ! q) else m_aoDIs b ! q) [0..<length (m_aoDIs b)]\<rparr>"

lemma fold_sample_DI: "distinct ps \<Longrightarrow> fold (sample_DI w) ps b = sample_all w ps b"
proof (induction ps arbitrary: b)
  case Nil
  then show ?case by (simp add: sample_all_def map_nth)
next
  case (Cons p ps)
  let ?b = "sample_DI w p b"
  have "fold (sample_DI w) (p # ps) b = sample_all w ps ?b"
    using Cons by simp
  have neq: "p \<noteq> x" if "x \<in> set ps" for x
    using Cons.prems that by auto
  have "sample_all w ps ?b = sample_all w (p # ps) b"
    using neq Cons.prems by (auto simp: sample_all_def sample_DI_sampled intro!: arg_cong [where f = "\<lambda>x. b\<lparr>m_aoDIs := x\<rparr>"])
  with \<open>fold (sample_DI w) (p # ps) b = sample_all w ps ?b\<close> show ?case by simp
qed

text \<open>The same for the outputs: the connection that an output writes to.\<close>

definition published :: "platform \<Rightarrow> dpoint \<Rightarrow> CDataConnection \<Rightarrow> CDataConnection" where
  "published P d c = (if dc_dests c \<noteq> [] \<and> \<not> dp_forced d then writeData P (dp_val d) c else c)"

lemma publish_DO_conns: "mDOConns (publish_DO P p b) = (mDOConns b)[p := published P (m_aoDOs b ! p) (mDOConns b ! p)]"
  by (simp add: publish_DO_def published_def Let_def)

lemma publish_DO_other: "q \<noteq> p \<Longrightarrow> m_aoDOs (publish_DO P p b) ! q = m_aoDOs b ! q"
  by (simp add: publish_DO_def Let_def)

lemma fold_publish_conns:
  "distinct ps \<Longrightarrow> length (mDOConns (fold (publish_DO P) ps b)) = length (mDOConns b)
    \<and> (\<forall>q < length (mDOConns b). mDOConns (fold (publish_DO P) ps b) ! q =
        (if q \<in> set ps then published P (m_aoDOs b ! q) (mDOConns b ! q) else mDOConns b ! q))"
proof (induction ps arbitrary: b)
  case (Cons p ps)
  have o: "m_aoDOs (publish_DO P p b) ! q = m_aoDOs b ! q" if "q \<in> set ps" for q
    using that Cons.prems by (intro publish_DO_other) auto
  have neq: "p \<noteq> x" if "x \<in> set ps" for x
    using Cons.prems that by auto
  show ?case
    using Cons.IH [of "publish_DO P p b"] Cons.prems o neq
    by (auto simp: publish_DO_conns)
qed simp

text \<open>Two objects of the same type and layout.\<close>

fun same_layout :: "iec_any \<Rightarrow> iec_any \<Rightarrow> bool" and same_layouts :: "iec_any list \<Rightarrow> iec_any list \<Rightarrow> bool" where
  "same_layout (Elem t w) y \<longleftrightarrow> t \<notin> {e_STRING, e_WSTRING, e_ARRAY, e_STRUCT} \<and> (\<exists>v. y = Elem t v)"
| "same_layout (Str s) y \<longleftrightarrow> (\<exists>s'. y = Str s')"
| "same_layout (WStr s) y \<longleftrightarrow> (\<exists>s'. y = WStr s')"
| "same_layout (Arr r xs) y \<longleftrightarrow> (\<exists>ys. y = Arr r ys \<and> same_layouts xs ys)"
| "same_layout (Struct n a ns xs) y \<longleftrightarrow> (\<exists>ys. y = Struct n a ns ys \<and> same_layouts xs ys)"
| "same_layouts [] ys \<longleftrightarrow> ys = []"
| "same_layouts (x # xs) ys \<longleftrightarrow> (\<exists>z zs. ys = z # zs \<and> same_layout x z \<and> same_layouts xs zs)"

lemma setValue_same_layout:
  "same_layout x y \<Longrightarrow> setValue P x y = y"
  "same_layouts xs ys \<Longrightarrow> setValues P xs ys = ys"
  by (induction x y and xs ys rule: same_layout_same_layouts.induct)
     (auto simp: real_setValue_def lreal_setValue_def setValueSimple_def setLargestUInt_def getLargestUInt_def)

lemma same_layout_refl_on: "same_layout x y \<Longrightarrow> same_layout y y" and "same_layouts xs ys \<Longrightarrow> same_layouts ys ys"
  by (induction x y and xs ys rule: same_layout_same_layouts.induct) auto

text \<open>An event that no breakpoint holds back.\<close>

definition unmonitored :: "SMonitorEvent \<Rightarrow> bool" where
  "unmonitored m \<longleftrightarrow> mBreakpointSet m \<noteq> eActive \<and> \<not> mBreakpointEnable m"

lemma unmonitored_step [simp]: "unmonitored m \<Longrightarrow> fst (breakpoint_step t m)"
  by (simp add: unmonitored_def breakpoint_step_def Let_def)

text \<open>
  An input event runs the block on sampled inputs. A running block whose event is not held back
  by a breakpoint executes the event exactly once, in a state where every data input that the
  event carries, that is connected and not forced holds the value of its connection (converted where
  the types differ), every other data input is unchanged, the event has been counted, and nothing
  else in the resource is different.
\<close>

theorem receiveInputEvent_samples:
  assumes "w_fbs w i = Some b" "m_enFBState b = e_RUNNING" "e < m_nNumEIs (fb_spec b)"
    and "unmonitored (m_nEIMonitorCount b ! e)" "distinct (ei_with (fb_spec b) e)"
  shows "\<exists>b'. receiveInputEvent exec \<lparr>mFB = i, mPortId = e\<rparr> w = exec i e (w\<lparr>w_fbs := (w_fbs w)(i \<mapsto> b')\<rparr>)
    \<and> m_aoDIs b' = map (\<lambda>q. if q \<in> set (ei_with (fb_spec b) e)
         then sampled w (m_apoDIConns b ! q) (m_aoDIs b ! q) else m_aoDIs b ! q) [0..<length (m_aoDIs b)]
    \<and> (\<exists>ms. b' = b\<lparr>m_aoDIs := m_aoDIs b', m_nEIMonitorCount := ms, m_updated := True\<rparr>
         \<and> ms = (m_nEIMonitorCount b)[e := (m_nEIMonitorCount b ! e)
             \<lparr>mEventCount := mEventCount (m_nEIMonitorCount b ! e) + 1, mTimeStamp := m_stForteTime (w_timer w)\<rparr>])"
proof -
  let ?m = "m_nEIMonitorCount b ! e"
  let ?ms = "(m_nEIMonitorCount b)[e := snd (breakpoint_step (m_stForteTime (w_timer w)) ?m)]"
  let ?b' = "(sample_all w (ei_with (fb_spec b) e) b)\<lparr>m_nEIMonitorCount := ?ms, m_updated := True\<rparr>"
  have "receiveInputEvent exec \<lparr>mFB = i, mPortId = e\<rparr> w = exec i e (w\<lparr>w_fbs := (w_fbs w)(i \<mapsto> ?b')\<rparr>)"
    using assms by (simp add: receiveInputEvent_def Let_def fold_sample_DI unmonitored_def)
  moreover have "snd (breakpoint_step t ?m) = ?m\<lparr>mEventCount := mEventCount ?m + 1, mTimeStamp := t\<rparr>" for t
    using assms(4) by (simp add: breakpoint_step_def Let_def unmonitored_def)
  ultimately show ?thesis
    by (intro exI [of _ ?b']) (auto simp: sample_all_def)
qed

text \<open>
  Only a block in the state RUNNING reacts to events: for any other block, and for a block number
  that does not exist, an event changes nothing at all.
\<close>

theorem event_ignored_unless_running:
  assumes "\<forall>b. w_fbs w (mFB ev) = Some b \<longrightarrow> m_enFBState b \<noteq> e_RUNNING"
  shows "receiveInputEvent exec ev w = Some w"
  using assms by (simp add: receiveInputEvent_def Let_def split: option.split)

text \<open>
  Data travels with its event. After a block has sent an output event, a receiver of the data
  output reads exactly the value that the output had when the event was sent: for any elementary type,
  string, array or struct that the two ends share.
\<close>

theorem data_follows_event:
  assumes "w_fbs w i = Some b" "eo < m_nNumEOs (fb_spec b)" "mBreakpointSet (m_nEOMonitorCount b ! eo) \<noteq> eActive"
    and "distinct (eo_with (fb_spec b) eo)" "p \<in> set (eo_with (fb_spec b) eo)" "p < length (mDOConns b)"
    and "\<not> dp_forced (m_aoDOs b ! p)" "m_poValue (mDOConns b ! p) = Some v" "same_layout v (dp_val (m_aoDOs b ! p))"
    and "\<not> mSpecialCastConnection (mDOConns b ! p)" "dc_dests (mDOConns b ! p) \<noteq> []"
    and "\<not> dp_forced d" "same_layout (dp_val d) (dp_val (m_aoDOs b ! p))"
  shows "sampled (sendOutputEvent i eo w) (Some (i, p)) d = d\<lparr>dp_val := dp_val (m_aoDOs b ! p)\<rparr>"
proof -
  let ?c = "(mDOConns b ! p)\<lparr>m_poValue := Some (dp_val (m_aoDOs b ! p))\<rparr>"
  have "published (w_platform w) (m_aoDOs b ! p) (mDOConns b ! p) = ?c"
    using assms(7-9,11) by (simp add: published_def writeData_def setValue_same_layout)
  then have "do_conn (sendOutputEvent i eo w) (i, p) = Some ?c"
    using assms(1-6) fold_publish_conns [OF assms(4), of "w_platform w" b]
    by (simp add: sendOutputEvent_def Let_def do_conn_def)
  moreover have "readData P ?c (dp_val d) = dp_val (m_aoDOs b ! p)" for P
    using assms(10,13) by (simp add: readData_def setValue_same_layout)
  ultimately show ?thesis
    using assms(12) by (simp add: sampled_def)
qed

section \<open>Breakpoints\<close>

datatype bp_op = Bp_start | Bp_stop | Bp_clear

fun ei_bp_op :: "bp_op \<Rightarrow> SMonitorEvent \<Rightarrow> SMonitorEvent" where
  "ei_bp_op Bp_start = startEIBreakpoint"
| "ei_bp_op Bp_stop = stopEIBreakpoint"
| "ei_bp_op Bp_clear = clearBreakpoint"

lemma ei_bp_op_active: "mBreakpointSet m = eActive \<Longrightarrow> mBreakpointSet (ei_bp_op op m) = eActive"
  by (cases op) (simp_all add: startEIBreakpoint_def stopEIBreakpoint_def clearBreakpoint_def bp_num_def)

text \<open>
  Once a breakpoint on an input event has been hit, no sequence of the breakpoint operations
  (start, stop, clear) lets an event through again: the block ignores that event for ever. (\<open>clear\<close>
  tests for a value above 0, and the state "active" is 0.)
\<close>

theorem ei_breakpoint_never_released:
  assumes "w_fbs w i = Some b" "e < m_nNumEIs (fb_spec b)" "e < length (m_nEIMonitorCount b)"
    and "mBreakpointSet (m_nEIMonitorCount b ! e) = eActive"
  shows "receiveInputEvent exec \<lparr>mFB = i, mPortId = e\<rparr> (fold (\<lambda>op. upd_EI_monitor i e (ei_bp_op op)) ops w)
    = Some (fold (\<lambda>op. upd_EI_monitor i e (ei_bp_op op)) ops w)"
  using assms
proof (induction ops arbitrary: w b)
  case Nil
  then show ?case by (simp add: receiveInputEvent_def Let_def)
next
  case (Cons op ops)
  let ?b = "b\<lparr>m_nEIMonitorCount := (m_nEIMonitorCount b)[e := ei_bp_op op (m_nEIMonitorCount b ! e)]\<rparr>"
  have "w_fbs (upd_EI_monitor i e (ei_bp_op op) w) i = Some ?b"
    using Cons.prems(1) by (simp add: upd_EI_monitor_def)
  then show ?case
    using Cons.IH [of "upd_EI_monitor i e (ei_bp_op op) w" ?b] Cons.prems by (simp add: ei_bp_op_active)
qed

section \<open>Life cycle\<close>

text \<open>The life cycle of a managed function block (IEC 61499-1, figure 24).\<close>

inductive managed :: "E_FBStates \<Rightarrow> EMGMCommandType \<Rightarrow> E_FBStates \<Rightarrow> bool" where
  reset_killed: "managed e_KILLED cg_nMGM_CMD_Reset e_IDLE"
| reset_stopped: "managed e_STOPPED cg_nMGM_CMD_Reset e_IDLE"
| start_idle: "managed e_IDLE cg_nMGM_CMD_Start e_RUNNING"
| start_stopped: "managed e_STOPPED cg_nMGM_CMD_Start e_RUNNING"
| stop: "managed e_RUNNING cg_nMGM_CMD_Stop e_STOPPED"
| kill: "managed e_RUNNING cg_nMGM_CMD_Kill e_KILLED"

inductive_cases managed_cases: "managed s c t"
inductive_simps managed_Reset: "managed s cg_nMGM_CMD_Reset t"

lemma fb_state_switch_managed:
  "fst (fb_state_switch c s) = e_RDY \<longleftrightarrow> managed s c (snd (fb_state_switch c s))"
  "fst (fb_state_switch c s) \<noteq> e_RDY \<Longrightarrow> snd (fb_state_switch c s) = s"
  by (cases c; cases s; auto simp: fb_state_switch_def intro: managed.intros elim: managed_cases)+

text \<open>The states that a sequence of commands leads through, starting from a new block.\<close>

fun run_commands :: "EMGMCommandType list \<Rightarrow> E_FBStates \<Rightarrow> E_FBStates" where
  "run_commands [] s = s"
| "run_commands (c # cs) s = run_commands cs (snd (fb_state_switch c s))"

lemma run_commands_append: "run_commands (xs @ ys) s = run_commands ys (run_commands xs s)"
  by (induction xs arbitrary: s) simp_all

text \<open>
  Between a kill (or the creation) of a block and its next execution there are always a Reset
  and, after it, a Start: commands in any number and order that leave a killed block running contain
  them in that order.
\<close>

theorem running_needs_reset_and_start:
  assumes "run_commands cs e_KILLED = e_RUNNING"
  shows "\<exists>xs ys zs. cs = xs @ cg_nMGM_CMD_Reset # ys @ cg_nMGM_CMD_Start # zs"
proof -
  have killed: "run_commands as e_KILLED = e_KILLED" if "cg_nMGM_CMD_Reset \<notin> set as" for as
    using that
  proof (induction as)
    case (Cons c as)
    then show ?case by (cases c) (auto simp: fb_state_switch_def)
  qed simp
  have not_started: "run_commands as s \<noteq> e_RUNNING" if "cg_nMGM_CMD_Start \<notin> set as" "s \<noteq> e_RUNNING" for as s
    using that
  proof (induction as arbitrary: s)
    case (Cons c as)
    then show ?case by (cases c) (auto simp: fb_state_switch_def split: if_splits)
  qed simp
  have "cg_nMGM_CMD_Reset \<in> set cs"
    using assms killed [of cs] by auto
  then obtain xs rest where cs: "cs = xs @ cg_nMGM_CMD_Reset # rest" "cg_nMGM_CMD_Reset \<notin> set xs"
    by (meson split_list_first)
  have "run_commands rest e_IDLE = e_RUNNING"
    using assms cs killed [OF cs(2)] by (simp add: run_commands_append fb_state_switch_def)
  then have "cg_nMGM_CMD_Start \<in> set rest"
    using not_started [of rest e_IDLE] by auto
  then show ?thesis
    using cs(1) by (metis split_list)
qed

section \<open>An example resource\<close>

text \<open>
  A platform whose conversions copy bits, and a resource with five blocks, each with one event and
  one data point on either side: 1 feeds 2, 3 feeds 4, and the input of 5 is free.
\<close>

definition plain_platform :: platform where
  "plain_platform =
     \<lparr>f32_of_i64 = ucast, f32_of_u64 = ucast, f32_of_f64 = ucast, f64_of_i64 = id, f64_of_u64 = id,
      f64_of_f32 = ucast, i64_of_f32 = ucast, u64_of_f32 = ucast, i64_of_f64 = (\<lambda>w. drop_bit 52 w),
      u64_of_f64 = id, c_strtof = (\<lambda>_. (0, 0)), c_strtod = (\<lambda>_. (0, 0, True)), gen_ptr = (\<lambda>_. 0)\<rparr>"

definition relay_spec :: "TStringId \<Rightarrow> TStringId \<Rightarrow> SFBInterfaceSpec" where
  "relay_spec t u =
     \<lparr>m_aunEINames = [''REQ''], m_anEIWith = [0, 255], m_anEIWithIndexes = Some [0],
      m_aunEONames = [''CNF''], m_anEOWith = [0, 255], m_anEOWithIndexes = Some [0, -1],
      m_aunDINames = [''IN''], m_aunDIDataTypeNames = [DT t], m_aunDONames = [''OUT''],
      m_aunDODataTypeNames = [DT u], m_pstAdapterInstanceDefinition = []\<rparr>"

definition relay ::
  "(nat \<times> nat) option \<Rightarrow> conn_point list \<Rightarrow> bool \<Rightarrow> iec_any \<Rightarrow> iec_any \<Rightarrow> unit fb" where
  "relay src ds cast x y =
     \<lparr>fb_spec = relay_spec ''T'' ''U'', m_nFBInstanceName = ''RELAY'', m_enFBState = e_RUNNING,
      m_bDeletable = True, m_aoDIs = [\<lparr>dp_val = x, dp_forced = False\<rparr>],
      m_aoDOs = [\<lparr>dp_val = y, dp_forced = False\<rparr>], m_apoDIConns = [src], mEOConns = [[]],
      mDOConns = [\<lparr>dc_dests = ds, m_poValue = Some y, mSpecialCastConnection = cast\<rparr>],
      m_apoAdapters = [], m_nEIMonitorCount = [monitor_init], m_nEOMonitorCount = [monitor_init],
      m_updated = False, fb_class = ()\<rparr>"

definition demo_world :: "unit world" where
  "demo_world =
     \<lparr>mEventList = ring_clear 4, mExternalEventList = ring_clear 4, mProcessingEvents = True,
      mSuspendSemaphore = 0, mAlive = True,
      w_fbs = [1 \<mapsto> relay None [\<lparr>mFB = 2, mPortId = 0\<rparr>] False (Elem e_DINT 0) (Elem e_DINT 7),
        2 \<mapsto> relay (Some (1, 0)) [] False (Elem e_DINT 0) (Elem e_DINT 0),
        3 \<mapsto> relay None [\<lparr>mFB = 4, mPortId = 0\<rparr>] True (Str []) (Elem e_LREAL 0x3FF0000000000000),
        4 \<mapsto> relay (Some (3, 0)) [] False (Elem e_DINT 0) (Elem e_DINT 8),
        5 \<mapsto> relay None [] False (Str []) (Elem e_DINT 0)],
      w_timer = two_timers, w_platform = plain_platform, w_com = com_start\<rparr>"

lemmas demo_simps = demo_world_def relay_def relay_spec_def monitor_init_def

lemma demo_wf: "wf_world demo_world"
  by (auto simp: wf_world_def fb_wf_def demo_simps split: if_splits)

lemma demo_consistent: "consistent demo_world"
proof -
  have "distinct (dests_of demo_world sp)" for sp
    by (simp add: dests_of_def demo_simps split: option.split)
  moreover have "d \<in> set (dests_of demo_world sp) \<longleftrightarrow> di_source demo_world (mFB d) (mPortId d) = Some sp" for d sp
    by (cases d; cases sp) (auto simp: dests_of_def di_source_def demo_simps split: option.splits if_splits)
  ultimately show ?thesis
    unfolding consistent_def by blast
qed

lemma demo_ports [simp]: "getPortId ''IN'' [''IN''] = 0" "cg_unInvalidPortId = 255"
  by (simp_all add: getPortId_def cg_unInvalidPortId_def)

lemma demo_fbs:
  "w_fbs demo_world 2 = Some (relay (Some (1, 0)) [] False (Elem e_DINT 0) (Elem e_DINT 0))"
  "w_fbs demo_world 4 = Some (relay (Some (3, 0)) [] False (Elem e_DINT 0) (Elem e_DINT 8))"
  "w_fbs demo_world 5 = Some (relay None [] False (Str []) (Elem e_DINT 0))"
  by (simp_all add: demo_world_def)

theorem data_connect_consistent_witness:
  "consistent (snd (data_connect (1, 0) 5 ''IN'' demo_world))"
  by (rule data_connect_consistent [OF demo_wf demo_consistent _ demo_fbs(3)])
     (simp_all add: do_valid_def demo_simps di_source_def)

theorem data_disconnect_consistent_witness:
  "consistent (snd (data_disconnect (1, 0) 2 ''IN'' demo_world))
    \<and> di_source (snd (data_disconnect (1, 0) 2 ''IN'' demo_world)) 2 0 = None"
proof -
  have "fst (data_disconnect (1, 0) 2 ''IN'' demo_world) = e_RDY"
    by (simp add: data_disconnect_def demo_simps do_conn_def removeDestination_def)
  then show ?thesis
    using data_disconnect_consistent [OF demo_wf demo_consistent, of "(1, 0)" 2 "''IN''"]
    by (simp add: do_valid_def demo_simps)
qed

theorem refused_connect_drops_receiver_witness:
  "fst (data_connect (1, 0) 4 ''IN'' demo_world) = e_INVALID_STATE
    \<and> dests_of (snd (data_connect (1, 0) 4 ''IN'' demo_world)) (1, 0) = [\<lparr>mFB = 4, mPortId = 0\<rparr>]
    \<and> di_source (snd (data_connect (1, 0) 4 ''IN'' demo_world)) 2 0 = Some (1, 0)
    \<and> \<not> consistent (snd (data_connect (1, 0) 4 ''IN'' demo_world))"
  using refused_connect_drops_receiver [OF demo_wf demo_consistent, of "(1, 0)" 4, OF _ demo_fbs(2), of "''IN''" "(3, 0)"
      "Elem e_DINT 7" "\<lparr>mFB = 2, mPortId = 0\<rparr>" "[]"]
  by (simp add: do_valid_def di_source_def dests_of_def conn_value_def do_conn_def demo_simps)

theorem refused_connect_disables_cast_witness:
  "fst (data_connect (3, 0) 5 ''IN'' demo_world) = e_INVALID_OPERATION
    \<and> (\<exists>c'. do_conn (snd (data_connect (3, 0) 5 ''IN'' demo_world)) (3, 0) = Some c'
        \<and> readData plain_platform \<lparr>dc_dests = [\<lparr>mFB = 4, mPortId = 0\<rparr>], m_poValue = Some (Elem e_LREAL 0x3FF0000000000000),
              mSpecialCastConnection = True\<rparr> (Elem e_DINT 0) = Elem e_DINT (i64_of_f64 plain_platform 0x3FF0000000000000)
        \<and> readData plain_platform c' (Elem e_DINT 0) = Elem e_DINT 0x3FF0000000000000)"
  by (rule refused_connect_disables_cast [OF _ _ _ demo_fbs(3), where p = 0 and s = "[]"]) (simp_all add: do_valid_def do_conn_def demo_simps)

theorem receiveInputEvent_samples_witness:
  "\<exists>b b'. w_fbs demo_world 2 = Some b
    \<and> receiveInputEvent (\<lambda>i e w. Some w) \<lparr>mFB = 2, mPortId = 0\<rparr> demo_world
        = Some (demo_world\<lparr>w_fbs := (w_fbs demo_world)(2 \<mapsto> b')\<rparr>)
    \<and> m_aoDIs b' = [sampled demo_world (Some (1, 0)) \<lparr>dp_val = Elem e_DINT 0, dp_forced = False\<rparr>]"
proof -
  obtain b where b: "w_fbs demo_world 2 = Some b" "b = relay (Some (1, 0)) [] False (Elem e_DINT 0) (Elem e_DINT 0)"
    by (simp add: demo_world_def)
  have "ei_with (fb_spec b) 0 = [0]"
    by (simp add: b(2) demo_simps ei_with_def with_list_def)
  with b receiveInputEvent_samples [OF b(1), of 0 "\<lambda>i e w. Some w"] show ?thesis
    by (auto simp: demo_simps unmonitored_def)
qed

theorem event_ignored_unless_running_witness:
  "receiveInputEvent (\<lambda>i e w. None) \<lparr>mFB = 9, mPortId = 0\<rparr> demo_world = Some demo_world"
  by (rule event_ignored_unless_running) (simp add: demo_world_def)

theorem data_follows_event_witness:
  "sampled (sendOutputEvent 1 0 demo_world) (Some (1, 0)) \<lparr>dp_val = Elem e_DINT 0, dp_forced = False\<rparr>
     = \<lparr>dp_val = Elem e_DINT 7, dp_forced = False\<rparr>"
  using data_follows_event [where w = demo_world and i = 1 and eo = 0 and p = 0 and v = "Elem e_DINT 7"
      and d = "\<lparr>dp_val = Elem e_DINT 0, dp_forced = False\<rparr>"]
  by (simp add: demo_simps eo_with_def with_list_def)

theorem ei_breakpoint_never_released_witness:
  "let w = upd_EI_monitor 2 0 (\<lambda>m. m\<lparr>mBreakpointSet := eActive, mBreakpointEnable := True\<rparr>) demo_world;
       w' = fold (\<lambda>op. upd_EI_monitor 2 0 (ei_bp_op op)) [Bp_clear, Bp_stop, Bp_clear] w
   in receiveInputEvent (\<lambda>i e w. None) \<lparr>mFB = 2, mPortId = 0\<rparr> w' = Some w'"
  unfolding Let_def
  by (rule ei_breakpoint_never_released [where b = "(relay (Some (1, 0)) [] False (Elem e_DINT 0) (Elem e_DINT 0))
        \<lparr>m_nEIMonitorCount := [monitor_init\<lparr>mBreakpointSet := eActive, mBreakpointEnable := True\<rparr>]\<rparr>"])
     (simp_all add: upd_EI_monitor_def demo_simps)

theorem running_needs_reset_and_start_witness:
  "\<exists>xs ys zs. [cg_nMGM_CMD_Start, cg_nMGM_CMD_Reset, cg_nMGM_CMD_Kill, cg_nMGM_CMD_Start]
     = xs @ cg_nMGM_CMD_Reset # ys @ cg_nMGM_CMD_Start # zs"
  by (rule running_needs_reset_and_start) (simp add: fb_state_switch_def)

end
