(* ===== verification/Event_FBs.thy ===== *)
theory Event_FBs
  imports Event_Delivery
begin

text \<open>
  The standard event function blocks, \<^verbatim>\<open>src/src/stdfblib/events/*.{h,cpp}\<close> and \<^verbatim>\<open>src/src/stdfblib/timedfb.{h,cpp}\<close>:
  for each class its interface specification and its \<open>executeEvent\<close>, and for the timed blocks and
  \<open>E_RESTART\<close> also \<open>changeFBExecutionState\<close>. \<open>exec_event\<close> is the virtual dispatch of
  \<open>executeEvent\<close> for these classes.
\<close>

section \<open>Classes\<close>

datatype timed_kind = T_E_CYCLE | T_E_DELAY | T_E_RDELAY

text \<open>The class of a block and its private members.\<close>

datatype fb_class_data =
    C_E_CTU
  | C_E_CTD (ctd_ecc: nat)
  | C_E_CTUD (ctud_ecc: nat)
  | C_E_SPLIT
  | C_E_MERGE
  | C_E_REND (m_bE1Occ: bool) (m_bE2Occ: bool)
  | C_E_SELECT
  | C_E_SWITCH
  | C_E_PERMIT
  | C_E_DEMUX
  | C_E_D_FF
  | C_E_R_TRIG (r_bOldVal: bool)
  | C_E_F_TRIG (f_bOldVal: bool)
  | C_E_RS
  | C_E_SR
  | C_GEN_E_MUX
  | C_GEN_E_DEMUX
  | C_Timed timed_kind (m_bActive: bool)
  | C_E_RESTART (mEventToSend: nat) (restart_sem: nat)

type_synonym rt = "fb_class_data world"

definition DI :: "nat \<Rightarrow> nat \<Rightarrow> 'c world \<Rightarrow> iec_any" where
  "DI i p w = (case w_fbs w i of None \<Rightarrow> Elem e_ANY 0 | Some b \<Rightarrow> dp_val (m_aoDIs b ! p))"

definition DO :: "nat \<Rightarrow> nat \<Rightarrow> 'c world \<Rightarrow> iec_any" where
  "DO i p w = (case w_fbs w i of None \<Rightarrow> Elem e_ANY 0 | Some b \<Rightarrow> dp_val (m_aoDOs b ! p))"

definition upd_DO :: "nat \<Rightarrow> nat \<Rightarrow> (iec_any \<Rightarrow> iec_any) \<Rightarrow> 'c world \<Rightarrow> 'c world" where
  "upd_DO i p f =
     upd_fb i (\<lambda>b. b\<lparr>m_aoDOs := (m_aoDOs b)[p := (m_aoDOs b ! p)\<lparr>dp_val := f (dp_val (m_aoDOs b ! p))\<rparr>]\<rparr>)"

definition set_class :: "nat \<Rightarrow> fb_class_data \<Rightarrow> rt \<Rightarrow> rt" where
  "set_class i c = upd_fb i (\<lambda>b. b\<lparr>fb_class := c\<rparr>)"

section \<open>Interface specifications\<close>

definition no_data_spec :: "TStringId list \<Rightarrow> TStringId list \<Rightarrow> SFBInterfaceSpec" where
  "no_data_spec eis eos =
     \<lparr>m_aunEINames = eis, m_anEIWith = [], m_anEIWithIndexes = None, m_aunEONames = eos, m_anEOWith = [],
      m_anEOWithIndexes = None, m_aunDINames = [], m_aunDIDataTypeNames = [], m_aunDONames = [],
      m_aunDODataTypeNames = [], m_pstAdapterInstanceDefinition = []\<rparr>"

definition E_CTU_spec :: SFBInterfaceSpec where
  "E_CTU_spec =
     \<lparr>m_aunEINames = [''CU'', ''R''], m_anEIWith = [0, 255], m_anEIWithIndexes = Some [0, -1],
      m_aunEONames = [''CUO'', ''RO''], m_anEOWith = [0, 1, 255, 0, 1, 255], m_anEOWithIndexes = Some [0, 3],
      m_aunDINames = [''PV''], m_aunDIDataTypeNames = [DT ''UINT''],
      m_aunDONames = [''Q'', ''CV''], m_aunDODataTypeNames = [DT ''BOOL'', DT ''UINT''],
      m_pstAdapterInstanceDefinition = []\<rparr>"

definition E_CTD_spec :: SFBInterfaceSpec where
  "E_CTD_spec =
     \<lparr>m_aunEINames = [''CD'', ''LD''], m_anEIWith = [0, 255], m_anEIWithIndexes = Some [-1, 0],
      m_aunEONames = [''CDO'', ''LDO''], m_anEOWith = [0, 1, 255, 0, 1, 255],
      m_anEOWithIndexes = Some [0, 3, -1],
      m_aunDINames = [''PV''], m_aunDIDataTypeNames = [DT ''UINT''],
      m_aunDONames = [''Q'', ''CV''], m_aunDODataTypeNames = [DT ''BOOL'', DT ''UINT''],
      m_pstAdapterInstanceDefinition = []\<rparr>"

definition E_CTUD_spec :: SFBInterfaceSpec where
  "E_CTUD_spec =
     \<lparr>m_aunEINames = [''CU'', ''CD'', ''R'', ''LD''], m_anEIWith = [0, 255, 0, 255],
      m_anEIWithIndexes = Some [0, -1, -1, 2],
      m_aunEONames = [''CO'', ''RO'', ''LDO''], m_anEOWith = [0, 2, 1, 255, 0, 2, 1, 255, 0, 1, 2, 255],
      m_anEOWithIndexes = Some [0, 4, 8, -1],
      m_aunDINames = [''PV''], m_aunDIDataTypeNames = [DT ''UINT''],
      m_aunDONames = [''QU'', ''QD'', ''CV''], m_aunDODataTypeNames = [DT ''BOOL'', DT ''BOOL'', DT ''UINT''],
      m_pstAdapterInstanceDefinition = []\<rparr>"

definition E_SPLIT_spec :: SFBInterfaceSpec where
  "E_SPLIT_spec = no_data_spec [''EI''] [''EO1'', ''EO2'']"

definition E_MERGE_spec :: SFBInterfaceSpec where
  "E_MERGE_spec = no_data_spec [''EI1'', ''EI2''] [''EO'']"

definition E_REND_spec :: SFBInterfaceSpec where
  "E_REND_spec = no_data_spec [''EI1'', ''EI2'', ''R''] [''EO'']"

text \<open>Blocks with one data input that comes with every event, and no data output.\<close>

definition one_di_spec ::
  "TStringId list \<Rightarrow> nat list \<Rightarrow> int list \<Rightarrow> TStringId list \<Rightarrow> TStringId \<Rightarrow> TStringId \<Rightarrow> SFBInterfaceSpec" where
  "one_di_spec eis with idx eos n t =
     \<lparr>m_aunEINames = eis, m_anEIWith = with, m_anEIWithIndexes = Some idx, m_aunEONames = eos,
      m_anEOWith = [], m_anEOWithIndexes = None, m_aunDINames = [n], m_aunDIDataTypeNames = [DT t],
      m_aunDONames = [], m_aunDODataTypeNames = [], m_pstAdapterInstanceDefinition = []\<rparr>"

definition E_SELECT_spec :: SFBInterfaceSpec where
  "E_SELECT_spec = one_di_spec [''EI0'', ''EI1''] [0, 255, 0, 255] [0, 2] [''EO''] ''G'' ''BOOL''"

definition E_SWITCH_spec :: SFBInterfaceSpec where
  "E_SWITCH_spec = one_di_spec [''EI''] [0, 255] [0] [''EO0'', ''EO1''] ''G'' ''BOOL''"

definition E_PERMIT_spec :: SFBInterfaceSpec where
  "E_PERMIT_spec = one_di_spec [''EI''] [0, 255] [0] [''EO''] ''PERMIT'' ''BOOL''"

definition E_DEMUX_spec :: SFBInterfaceSpec where
  "E_DEMUX_spec = one_di_spec [''EI''] [0, 255] [0] [''EO0'', ''EO1'', ''EO2'', ''EO3''] ''K'' ''UINT''"

definition E_R_TRIG_spec :: SFBInterfaceSpec where
  "E_R_TRIG_spec = one_di_spec [''EI''] [0, 255] [0] [''EO''] ''QI'' ''BOOL''"

definition E_F_TRIG_spec :: SFBInterfaceSpec where
  "E_F_TRIG_spec = one_di_spec [''EI''] [0, 255] [0] [''EO''] ''QI'' ''BOOL''"

definition E_D_FF_spec :: SFBInterfaceSpec where
  "E_D_FF_spec =
     \<lparr>m_aunEINames = [''CLK''], m_anEIWith = [0, 255], m_anEIWithIndexes = Some [0],
      m_aunEONames = [''EO''], m_anEOWith = [0, 255], m_anEOWithIndexes = Some [0],
      m_aunDINames = [''D''], m_aunDIDataTypeNames = [DT ''BOOL''],
      m_aunDONames = [''Q''], m_aunDODataTypeNames = [DT ''BOOL''], m_pstAdapterInstanceDefinition = []\<rparr>"

definition E_RS_spec :: SFBInterfaceSpec where
  "E_RS_spec =
     \<lparr>m_aunEINames = [''R'', ''S''], m_anEIWith = [], m_anEIWithIndexes = None,
      m_aunEONames = [''EO''], m_anEOWith = [0, 255], m_anEOWithIndexes = Some [0],
      m_aunDINames = [], m_aunDIDataTypeNames = [],
      m_aunDONames = [''Q''], m_aunDODataTypeNames = [DT ''BOOL''], m_pstAdapterInstanceDefinition = []\<rparr>"

definition E_SR_spec :: SFBInterfaceSpec where
  "E_SR_spec =
     \<lparr>m_aunEINames = [''S'', ''R''], m_anEIWith = [], m_anEIWithIndexes = None,
      m_aunEONames = [''EO''], m_anEOWith = [0, 255], m_anEOWithIndexes = Some [0],
      m_aunDINames = [], m_aunDIDataTypeNames = [],
      m_aunDONames = [''Q''], m_aunDODataTypeNames = [DT ''BOOL''], m_pstAdapterInstanceDefinition = []\<rparr>"

definition CTimedFB_spec :: SFBInterfaceSpec where
  "CTimedFB_spec = one_di_spec [''START'', ''STOP''] [0, 255] [0, -1] [''EO''] ''DT'' ''TIME''"

definition E_RESTART_spec :: SFBInterfaceSpec where
  "E_RESTART_spec = no_data_spec [] [''COLD'', ''WARM'', ''STOP'']"

section \<open>Behaviour\<close>

definition exec_E_CTU :: "nat \<Rightarrow> nat \<Rightarrow> 'c world \<Rightarrow> 'c world" where
  "exec_E_CTU i e w =
     (if e = 0 then
        (if op_uint16 (DO i 1 w) < 65535 then
           let w1 = upd_DO i 1 (setTUINT16 (op_uint16 (DO i 1 w) + 1)) w;
               w2 = upd_DO i 0 (setTBOOL8 (op_uint16 (DI i 0 w1) \<le> op_uint16 (DO i 1 w1))) w1
           in sendOutputEvent i 0 w2
         else w)
      else if e = 1 then
        sendOutputEvent i 1 (upd_DO i 0 (setTBOOL8 False) (upd_DO i 1 (setTUINT16 0) w))
      else w)"

text \<open>
  The loop of a basic function block runs the execution control chart: \<open>step\<close> is its body, with the
  flag \<open>bTransitionCleared\<close>. From the second round on there is no event.
\<close>

partial_function (option) ecc_loop :: "(nat \<Rightarrow> 'w \<Rightarrow> bool \<times> 'w) \<Rightarrow> nat \<Rightarrow> 'w \<Rightarrow> 'w option" where
  "ecc_loop step e w =
     (let r = step e w in if fst r then ecc_loop step cg_nInvalidEventID (snd r) else Some (snd r))"

text \<open>\<open>FORTE_E_CTD\<close>; the states are START = 0, CU = 1, LD = 2.\<close>

definition ctd_alg_CD :: "nat \<Rightarrow> rt \<Rightarrow> rt" where
  "ctd_alg_CD i w =
     (let w1 = upd_DO i 1 (setTUINT16 (op_uint16 (DO i 1 w) - 1)) w
      in upd_DO i 0 (setTBOOL8 (op_uint16 (DO i 1 w1) \<le> 0)) w1)"

definition ctd_alg_LD :: "nat \<Rightarrow> rt \<Rightarrow> rt" where
  "ctd_alg_LD i w =
     (let w1 = upd_DO i 1 (\<lambda>x. setValueSimple (w_platform w) x (DI i 0 w)) w
      in upd_DO i 0 (setTBOOL8 (op_uint16 (DO i 1 w1) \<le> 0)) w1)"

definition ctd_enterCU :: "nat \<Rightarrow> rt \<Rightarrow> rt" where
  "ctd_enterCU i w = sendOutputEvent i 0 (ctd_alg_CD i (set_class i (C_E_CTD 1) w))"

definition ctd_enterLD :: "nat \<Rightarrow> rt \<Rightarrow> rt" where
  "ctd_enterLD i w = sendOutputEvent i 1 (ctd_alg_LD i (set_class i (C_E_CTD 2) w))"

definition ctd_step :: "nat \<Rightarrow> nat \<Rightarrow> rt \<Rightarrow> bool \<times> rt" where
  "ctd_step i e w =
     (case w_fbs w i of
        None \<Rightarrow> (False, w)
      | Some b \<Rightarrow>
          let st = ctd_ecc (fb_class b) in
          if st = 0 then
            (if e = 0 \<and> 1 \<le> op_uint16 (DO i 1 w) then (True, ctd_enterCU i w)
             else if e = 1 then (True, ctd_enterLD i w)
             else (False, w))
          else (True, set_class i (C_E_CTD 0) w))"

definition exec_E_CTD :: "nat \<Rightarrow> nat \<Rightarrow> rt \<Rightarrow> rt option" where
  "exec_E_CTD i e w = ecc_loop (ctd_step i) e w"

text \<open>\<open>FORTE_E_CTUD\<close>; the states are START = 0, CU = 1, R = 2, CD = 3, LD = 4.\<close>

definition ctud_alg_UpdateQUQD :: "nat \<Rightarrow> rt \<Rightarrow> rt" where
  "ctud_alg_UpdateQUQD i w =
     (let w1 = upd_DO i 0 (setTBOOL8 (op_uint16 (DI i 0 w) \<le> op_uint16 (DO i 2 w))) w
      in upd_DO i 1 (setTBOOL8 (op_uint16 (DO i 2 w1) \<le> 0)) w1)"

definition ctud_enter :: "nat \<Rightarrow> nat \<Rightarrow> nat \<Rightarrow> (rt \<Rightarrow> iec_any \<Rightarrow> iec_any) \<Rightarrow> rt \<Rightarrow> rt" where
  "ctud_enter i st eo alg w =
     (let w1 = set_class i (C_E_CTUD st) w
      in sendOutputEvent i eo (ctud_alg_UpdateQUQD i (upd_DO i 2 (alg w1) w1)))"

definition ctud_enterCU :: "nat \<Rightarrow> rt \<Rightarrow> rt" where
  "ctud_enterCU i = ctud_enter i 1 0 (\<lambda>w. setTUINT16 (op_uint16 (DO i 2 w) + 1))"

definition ctud_enterR :: "nat \<Rightarrow> rt \<Rightarrow> rt" where
  "ctud_enterR i = ctud_enter i 2 1 (\<lambda>w. setTUINT16 0)"

definition ctud_enterCD :: "nat \<Rightarrow> rt \<Rightarrow> rt" where
  "ctud_enterCD i = ctud_enter i 3 0 (\<lambda>w. setTUINT16 (op_uint16 (DO i 2 w) - 1))"

definition ctud_enterLD :: "nat \<Rightarrow> rt \<Rightarrow> rt" where
  "ctud_enterLD i = ctud_enter i 4 2 (\<lambda>w x. setValueSimple (w_platform w) x (DI i 0 w))"

definition ctud_step :: "nat \<Rightarrow> nat \<Rightarrow> rt \<Rightarrow> bool \<times> rt" where
  "ctud_step i e w =
     (case w_fbs w i of
        None \<Rightarrow> (False, w)
      | Some b \<Rightarrow>
          if ctud_ecc (fb_class b) = 0 then
            (if e = 0 \<and> op_uint16 (DO i 2 w) < 65535 then (True, ctud_enterCU i w)
             else if e = 2 then (True, ctud_enterR i w)
             else if e = 1 \<and> 1 \<le> op_uint16 (DO i 2 w) then (True, ctud_enterCD i w)
             else if e = 3 then (True, ctud_enterLD i w)
             else (False, w))
          else (True, set_class i (C_E_CTUD 0) w))"

definition exec_E_CTUD :: "nat \<Rightarrow> nat \<Rightarrow> rt \<Rightarrow> rt option" where
  "exec_E_CTUD i e w = ecc_loop (ctud_step i) e w"

definition exec_E_SPLIT :: "nat \<Rightarrow> nat \<Rightarrow> 'c world \<Rightarrow> 'c world" where
  "exec_E_SPLIT i e w = (if e = 0 then sendOutputEvent i 1 (sendOutputEvent i 0 w) else w)"

definition exec_E_MERGE :: "nat \<Rightarrow> nat \<Rightarrow> 'c world \<Rightarrow> 'c world" where
  "exec_E_MERGE i e w = (if e = 0 \<or> e = 1 then sendOutputEvent i 0 w else w)"

definition exec_E_REND :: "nat \<Rightarrow> nat \<Rightarrow> bool \<Rightarrow> bool \<Rightarrow> rt \<Rightarrow> rt" where
  "exec_E_REND i e e1 e2 w =
     (if e = 0 then
        (if e2 then sendOutputEvent i 0 (set_class i (C_E_REND e1 False) w)
         else set_class i (C_E_REND True e2) w)
      else if e = 1 then
        (if e1 then sendOutputEvent i 0 (set_class i (C_E_REND False e2) w)
         else set_class i (C_E_REND e1 True) w)
      else if e = 2 then set_class i (C_E_REND False False) w
      else w)"

definition exec_E_SELECT :: "nat \<Rightarrow> nat \<Rightarrow> 'c world \<Rightarrow> 'c world" where
  "exec_E_SELECT i e w =
     (if e = 0 then (if op_bool (DI i 0 w) = False then sendOutputEvent i 0 w else w)
      else if e = 1 then (if op_bool (DI i 0 w) = True then sendOutputEvent i 0 w else w)
      else w)"

definition exec_E_SWITCH :: "nat \<Rightarrow> nat \<Rightarrow> 'c world \<Rightarrow> 'c world" where
  "exec_E_SWITCH i e w =
     (if e = 0 then (if op_bool (DI i 0 w) then sendOutputEvent i 1 w else sendOutputEvent i 0 w) else w)"

definition exec_E_PERMIT :: "nat \<Rightarrow> nat \<Rightarrow> 'c world \<Rightarrow> 'c world" where
  "exec_E_PERMIT i e w = (if e = 0 \<and> op_bool (DI i 0 w) then sendOutputEvent i 0 w else w)"

definition exec_E_DEMUX :: "nat \<Rightarrow> nat \<Rightarrow> 'c world \<Rightarrow> 'c world" where
  "exec_E_DEMUX i e w =
     (if e = 0 then
        (if op_uint16 (DI i 0 w) \<le> 3 then sendOutputEvent i (unat (op_uint16 (DI i 0 w))) w else w)
      else w)"

definition exec_E_D_FF :: "nat \<Rightarrow> nat \<Rightarrow> 'c world \<Rightarrow> 'c world" where
  "exec_E_D_FF i e w =
     (if e = 0 then
        (if op_bool (DI i 0 w) \<noteq> op_bool (DO i 0 w) then
           sendOutputEvent i 0 (upd_DO i 0 (\<lambda>x. setValueSimple (w_platform w) x (DI i 0 w)) w)
         else w)
      else w)"

definition exec_E_R_TRIG :: "nat \<Rightarrow> nat \<Rightarrow> bool \<Rightarrow> rt \<Rightarrow> rt" where
  "exec_E_R_TRIG i e old w =
     (if e = 0 then
        let q = op_bool (DI i 0 w);
            w1 = (if old \<noteq> q \<and> q = True then sendOutputEvent i 0 w else w)
        in set_class i (C_E_R_TRIG (op_bool (DI i 0 w1))) w1
      else w)"

definition exec_E_F_TRIG :: "nat \<Rightarrow> nat \<Rightarrow> bool \<Rightarrow> rt \<Rightarrow> rt" where
  "exec_E_F_TRIG i e old w =
     (if e = 0 then
        let q = op_bool (DI i 0 w);
            w1 = (if old \<noteq> q \<and> q = False then sendOutputEvent i 0 w else w)
        in set_class i (C_E_F_TRIG (op_bool (DI i 0 w1))) w1
      else w)"

definition exec_E_RS :: "nat \<Rightarrow> nat \<Rightarrow> 'c world \<Rightarrow> 'c world" where
  "exec_E_RS i e w =
     (if e = 0 then
        (if op_bool (DO i 0 w) = True then sendOutputEvent i 0 (upd_DO i 0 (setTBOOL8 False) w) else w)
      else if e = 1 then
        (if op_bool (DO i 0 w) = False then sendOutputEvent i 0 (upd_DO i 0 (setTBOOL8 True) w) else w)
      else w)"

definition exec_E_SR :: "nat \<Rightarrow> nat \<Rightarrow> 'c world \<Rightarrow> 'c world" where
  "exec_E_SR i e w =
     (if e = 0 then
        (if op_bool (DO i 0 w) = False then sendOutputEvent i 0 (upd_DO i 0 (setTBOOL8 True) w) else w)
      else if e = 1 then
        (if op_bool (DO i 0 w) = True then sendOutputEvent i 0 (upd_DO i 0 (setTBOOL8 False) w) else w)
      else w)"

definition exec_GEN_E_MUX :: "nat \<Rightarrow> nat \<Rightarrow> 'c world \<Rightarrow> 'c world" where
  "exec_GEN_E_MUX i e w =
     (case w_fbs w i of
        None \<Rightarrow> w
      | Some b \<Rightarrow>
          if e < m_nNumEIs (fb_spec b) then sendOutputEvent i 0 (upd_DO i 0 (setTUINT16 (of_nat e)) w) else w)"

definition exec_GEN_E_DEMUX :: "nat \<Rightarrow> nat \<Rightarrow> 'c world \<Rightarrow> 'c world" where
  "exec_GEN_E_DEMUX i e w =
     (case w_fbs w i of
        None \<Rightarrow> w
      | Some b \<Rightarrow>
          if e = 0 then
            (if unat (op_uint16 (DI i 0 w)) < m_nNumEOs (fb_spec b)
             then sendOutputEvent i (unat (op_uint16 (DI i 0 w))) w else w)
          else w)"

section \<open>Timed blocks\<close>

definition with_timer :: "(timerha \<Rightarrow> timerha option) \<Rightarrow> 'c world \<Rightarrow> 'c world option" where
  "with_timer f w = map_option (\<lambda>t. w\<lparr>w_timer := t\<rparr>) (f (w_timer w))"

text \<open>\<open>CTimedFB::executeEvent\<close>. (All blocks of the model run in the thread of their resource, so the
  executor that a delay takes over from its invoker is that thread.)\<close>

definition exec_CTimedFB :: "timed_kind \<Rightarrow> nat \<Rightarrow> nat \<Rightarrow> bool \<Rightarrow> rt \<Rightarrow> rt option" where
  "exec_CTimedFB k i e active w =
     (if e = cg_nExternalEventID then Some (sendOutputEvent i 0 w)
      else if e = 1 then
        (if active then map_option (set_class i (C_Timed k False)) (with_timer (unregisterTimedFB i) w)
         else Some w)
      else if e = 0 then
        (if \<not> active
         then map_option (set_class i (C_Timed k True)) (with_timer (registerTimedFB i (op_int64 (DI i 0 w))) w)
         else Some w)
      else Some w)"

definition exec_E_DELAY :: "nat \<Rightarrow> nat \<Rightarrow> bool \<Rightarrow> rt \<Rightarrow> rt option" where
  "exec_E_DELAY i e active w =
     (if e = cg_nExternalEventID then Some (set_class i (C_Timed T_E_DELAY False) (sendOutputEvent i 0 w))
      else exec_CTimedFB T_E_DELAY i e active w)"

definition exec_E_RDELAY :: "nat \<Rightarrow> nat \<Rightarrow> bool \<Rightarrow> rt \<Rightarrow> rt option" where
  "exec_E_RDELAY i e active w =
     (if e = cg_nExternalEventID then Some (set_class i (C_Timed T_E_RDELAY False) (sendOutputEvent i 0 w))
      else if e = 0 then
        (case (if active then with_timer (unregisterTimedFB i) w else Some w) of
           None \<Rightarrow> None
         | Some w1 \<Rightarrow>
             map_option (set_class i (C_Timed T_E_RDELAY True))
               (with_timer (registerTimedFB i (op_int64 (DI i 0 w1))) w1))
      else exec_CTimedFB T_E_RDELAY i e active w)"

text \<open>\<open>E_RESTART::executeEvent\<close>: after the stop event the block stops itself and releases the
  management thread that waits for it.\<close>

definition exec_E_RESTART :: "nat \<Rightarrow> nat \<Rightarrow> nat \<Rightarrow> nat \<Rightarrow> rt \<Rightarrow> rt" where
  "exec_E_RESTART i e send sem w =
     (if e = cg_nExternalEventID \<and> send \<noteq> cg_nInvalidEventID then
        let w1 = sendOutputEvent i send w
        in if send = 2 then
             set_class i (C_E_RESTART send (Suc sem))
               (snd (changeFBExecutionState (\<lambda>b. b) 1 cg_nMGM_CMD_Stop i w1))
           else w1
      else w)"

section \<open>Dispatch\<close>

definition exec_event :: "nat \<Rightarrow> nat \<Rightarrow> rt \<Rightarrow> rt option" where
  "exec_event i e w =
     (case w_fbs w i of
        None \<Rightarrow> Some w
      | Some b \<Rightarrow>
          (case fb_class b of
             C_E_CTU \<Rightarrow> Some (exec_E_CTU i e w)
           | C_E_CTD _ \<Rightarrow> exec_E_CTD i e w
           | C_E_CTUD _ \<Rightarrow> exec_E_CTUD i e w
           | C_E_SPLIT \<Rightarrow> Some (exec_E_SPLIT i e w)
           | C_E_MERGE \<Rightarrow> Some (exec_E_MERGE i e w)
           | C_E_REND a b' \<Rightarrow> Some (exec_E_REND i e a b' w)
           | C_E_SELECT \<Rightarrow> Some (exec_E_SELECT i e w)
           | C_E_SWITCH \<Rightarrow> Some (exec_E_SWITCH i e w)
           | C_E_PERMIT \<Rightarrow> Some (exec_E_PERMIT i e w)
           | C_E_DEMUX \<Rightarrow> Some (exec_E_DEMUX i e w)
           | C_E_D_FF \<Rightarrow> Some (exec_E_D_FF i e w)
           | C_E_R_TRIG old \<Rightarrow> Some (exec_E_R_TRIG i e old w)
           | C_E_F_TRIG old \<Rightarrow> Some (exec_E_F_TRIG i e old w)
           | C_E_RS \<Rightarrow> Some (exec_E_RS i e w)
           | C_E_SR \<Rightarrow> Some (exec_E_SR i e w)
           | C_GEN_E_MUX \<Rightarrow> Some (exec_GEN_E_MUX i e w)
           | C_GEN_E_DEMUX \<Rightarrow> Some (exec_GEN_E_DEMUX i e w)
           | C_Timed k a \<Rightarrow>
               (case k of
                  T_E_CYCLE \<Rightarrow> exec_CTimedFB T_E_CYCLE i e a w
                | T_E_DELAY \<Rightarrow> exec_E_DELAY i e a w
                | T_E_RDELAY \<Rightarrow> exec_E_RDELAY i e a w)
           | C_E_RESTART send sem \<Rightarrow> Some (exec_E_RESTART i e send sem w)))"

text \<open>The event chain thread of the resource delivers to these blocks.\<close>

abbreviation rt_deliver :: "conn_point \<Rightarrow> rt \<Rightarrow> rt option" where
  "rt_deliver \<equiv> receiveInputEvent exec_event"

text \<open>\<open>startNewEventChain\<close> for an event source block, and one tick of the timer.\<close>

definition startNewEventChain :: "nat \<Rightarrow> rt \<Rightarrow> rt" where
  "startNewEventChain i w = startEventChain \<lparr>mFB = i, mPortId = cg_nExternalEventID\<rparr> w"

definition rt_tick :: "rt \<Rightarrow> rt option" where
  "rt_tick w = map_option (\<lambda>r. (snd r)\<lparr>w_timer := fst r\<rparr>) (nextTick startNewEventChain (w_timer w) w)"

section \<open>Execution state of the special classes\<close>

definition timed_changeFBExecutionState :: "EMGMCommandType \<Rightarrow> nat \<Rightarrow> rt \<Rightarrow> (EMGMResponse \<times> rt) option" where
  "timed_changeFBExecutionState cmd i w =
     (let r = changeFBExecutionState (\<lambda>b. b) 1 cmd i w; w1 = snd r in
      if fst r = e_RDY \<and> (cmd = cg_nMGM_CMD_Stop \<or> cmd = cg_nMGM_CMD_Kill) then
        (case w_fbs w1 i of
           Some b \<Rightarrow>
             (case fb_class b of
                C_Timed k True \<Rightarrow>
                  map_option (\<lambda>w2. (fst r, set_class i (C_Timed k False) w2)) (with_timer (unregisterTimedFB i) w1)
              | _ \<Rightarrow> Some r)
         | None \<Rightarrow> Some r)
      else Some r)"

text \<open>\<open>E_RESTART::changeFBExecutionState\<close> up to the wait for the semaphore (only a Stop waits), and
  the wait itself, which does not return while the counter is 0.\<close>

definition restart_changeFBExecutionState :: "EMGMCommandType \<Rightarrow> nat \<Rightarrow> rt \<Rightarrow> EMGMResponse \<times> rt" where
  "restart_changeFBExecutionState cmd i w =
     (let r = changeFBExecutionState (\<lambda>b. b) 1 cmd i w; w1 = snd r in
      case w_fbs w1 i of
        None \<Rightarrow> r
      | Some b \<Rightarrow>
          let send = mEventToSend (fb_class b); sem = restart_sem (fb_class b) in
          if fst r \<noteq> e_RDY then r
          else if cmd = cg_nMGM_CMD_Start then
            (fst r, startNewEventChain i
              (set_class i (C_E_RESTART (if send = 2 then 1 else 0) sem) w1))
          else if cmd = cg_nMGM_CMD_Stop then
            (fst r, startNewEventChain i
              (snd (changeFBExecutionState (\<lambda>b. b) 1 cg_nMGM_CMD_Start i (set_class i (C_E_RESTART 2 sem) w1))))
          else (fst r, set_class i (C_E_RESTART cg_nInvalidEventID sem) w1))"

definition restart_wait :: "nat \<Rightarrow> rt \<Rightarrow> rt option" where
  "restart_wait i w =
     (case w_fbs w i of
        Some b \<Rightarrow>
          (case fb_class b of
             C_E_RESTART send (Suc n) \<Rightarrow> Some (set_class i (C_E_RESTART send n) w)
           | _ \<Rightarrow> None)
      | None \<Rightarrow> None)"

section \<open>The event blocks fulfil the contract of a function block\<close>

text \<open>What a step of a block may do to the resource.\<close>

definition benign :: "'c world \<Rightarrow> 'c world \<Rightarrow> bool" where
  "benign w w' \<longleftrightarrow> only_posts w w' \<and> world_shape w' = world_shape w"

named_theorems benign_intros

lemma benign_refl [simp, benign_intros]: "benign w w"
  by (simp add: benign_def)

lemma benign_trans: "benign w w1 \<Longrightarrow> benign w1 w2 \<Longrightarrow> benign w w2"
  by (auto simp: benign_def intro: only_posts_trans)

lemma benign_sendOutputEvent: "benign w w1 \<Longrightarrow> benign w (sendOutputEvent i eo w1)"
  by (erule benign_trans) (simp add: benign_def sendOutputEvent_only_posts)

lemma benign_upd_DO:
  "(\<And>x. getDataTypeID (f x) = getDataTypeID x) \<Longrightarrow> benign w w1 \<Longrightarrow> benign w (upd_DO i p f w1)"
  by (erule benign_trans)
     (simp add: benign_def upd_DO_def world_shape_upd_fb fb_shape_def map_update_same)

lemma benign_set_class: "benign w w1 \<Longrightarrow> benign w (set_class i c w1)"
  by (erule benign_trans) (simp add: benign_def set_class_def world_shape_upd_fb)

lemma benign_timer: "benign w w1 \<Longrightarrow> with_timer f w1 = Some w2 \<Longrightarrow> benign w w2"
  by (erule benign_trans) (auto simp: benign_def with_timer_def intro: only_posts_frame)

lemma benign_state:
  "w_fbs w1 i = Some b \<Longrightarrow> fb_shape b' = fb_shape b \<Longrightarrow> benign w w1 \<Longrightarrow>
    benign w (w1\<lparr>w_fbs := (w_fbs w1)(i \<mapsto> b')\<rparr>)"
  by (erule benign_trans) (simp add: benign_def world_shape_upd)

lemma benign_if: "benign w a \<Longrightarrow> benign w b \<Longrightarrow> benign w (if c then a else b)"
  by simp

lemma benign_changeFBExecutionState:
  assumes "\<And>b. fb_shape (setInit b) = fb_shape b"
  shows "benign w w1 \<Longrightarrow> benign w (snd (changeFBExecutionState setInit n cmd i w1))"
proof (induction n arbitrary: i w1)
  case 0
  then show ?case
    by (auto simp: changeFBExecutionState.simps [where n = 0] Let_def assms split: option.split intro!: benign_state)
next
  case (Suc n)
  have f: "benign w v \<Longrightarrow> benign w (fold (\<lambda>a v. case a of None \<Rightarrow> v
      | Some j \<Rightarrow> snd (changeFBExecutionState setInit n cmd j v)) as v)" for as v
    by (induction as arbitrary: v) (auto split: option.split intro: Suc.IH)
  show ?case
  proof (cases "w_fbs w1 i")
    case None
    with Suc.prems show ?thesis by (simp add: changeFBExecutionState.simps [where n = "Suc n"])
  next
    case (Some b)
    let ?r = "fb_state_switch cmd (m_enFBState b)" and ?b = "b\<lparr>m_enFBState := snd (fb_state_switch cmd (m_enFBState b))\<rparr>"
    have "fb_shape (if fst ?r = e_RDY \<and> cmd = cg_nMGM_CMD_Reset then setInit ?b else ?b) = fb_shape b"
      by (simp add: assms)
    note st = benign_state [OF Some this Suc.prems]
    show ?thesis
      by (simp only: changeFBExecutionState.simps [where n = "Suc n"] Some option.case Let_def snd_conv nat.case)
        (rule benign_if [OF f [OF st] st])
  qed
qed

lemma benign_startEventChain: "benign w w1 \<Longrightarrow> benign w (startEventChain x w1)"
  by (erule benign_trans)
     (simp add: benign_def only_posts_start, simp add: startEventChain_def resumeSelfSuspend_def world_shape_def)

lemmas benign_steps = benign_refl benign_sendOutputEvent benign_upd_DO benign_set_class
  benign_changeFBExecutionState benign_startEventChain

lemma ecc_loop_keeps:
  assumes "\<And>w e. keeps w \<Longrightarrow> keeps (snd (step e w))" and "keeps w"
    and "ecc_loop step e w = Some w'"
  shows "keeps w'"
proof -
  have "(\<forall>w e. keeps w \<longrightarrow> keeps (snd (step e w))) \<longrightarrow> keeps w \<longrightarrow> keeps w'"
    by (rule ecc_loop.raw_induct [where P = "\<lambda>st e w w'. (\<forall>w e. keeps w \<longrightarrow> keeps (snd (st e w))) \<longrightarrow> keeps w \<longrightarrow> keeps w'",
          OF _ assms(3)])
      (auto simp: Let_def split: if_splits)
  with assms(1,2) show ?thesis by blast
qed

lemma ecc_loop_benign:
  assumes "\<And>w e. benign w (snd (step e w))"
    and "ecc_loop step e w = Some w'"
  shows "benign w w'"
  by (rule ecc_loop_keeps [of "benign w", OF _ benign_refl assms(2)]) (blast intro: benign_trans assms(1))

lemma ctd_step_benign: "benign w (snd (ctd_step i e w))"
  by (auto simp: ctd_step_def Let_def ctd_enterCU_def ctd_enterLD_def ctd_alg_CD_def ctd_alg_LD_def
     split: option.split intro!: benign_steps)

lemma ctud_enter_benign:
  assumes "\<And>w x. getDataTypeID (alg w x) = getDataTypeID x"
  shows "benign w (ctud_enter i st eo alg w)"
  by (auto simp: ctud_enter_def Let_def ctud_alg_UpdateQUQD_def assms intro!: benign_steps)

lemma ctud_step_benign: "benign w (snd (ctud_step i e w))"
  by (auto simp: ctud_step_def Let_def ctud_enterCU_def ctud_enterR_def ctud_enterCD_def ctud_enterLD_def
     split: option.split intro!: benign_steps ctud_enter_benign)

lemma exec_CTimedFB_benign: "exec_CTimedFB k i e a w = Some w' \<Longrightarrow> benign w w'"
  by (auto simp: exec_CTimedFB_def split: if_splits intro!: benign_steps intro: benign_timer [OF benign_refl])

lemma exec_E_DELAY_benign: "exec_E_DELAY i e a w = Some w' \<Longrightarrow> benign w w'"
  by (auto simp: exec_E_DELAY_def split: if_splits intro!: benign_steps intro: exec_CTimedFB_benign)

lemma exec_E_RDELAY_benign: "exec_E_RDELAY i e a w = Some w' \<Longrightarrow> benign w w'"
  by (auto simp: exec_E_RDELAY_def split: if_splits option.splits intro!: benign_steps
     intro: exec_CTimedFB_benign benign_timer [OF benign_refl] benign_timer [OF benign_timer [OF benign_refl]])

lemma exec_E_RESTART_benign: "benign w (exec_E_RESTART i e s m w)"
  by (auto simp: exec_E_RESTART_def Let_def intro!: benign_steps)

lemma exec_E_CTD_benign: "exec_E_CTD i e w = Some w' \<Longrightarrow> benign w w'"
  unfolding exec_E_CTD_def by (rule ecc_loop_benign [OF ctd_step_benign])

lemma exec_E_CTUD_benign: "exec_E_CTUD i e w = Some w' \<Longrightarrow> benign w w'"
  unfolding exec_E_CTUD_def by (rule ecc_loop_benign [OF ctud_step_benign])

lemma exec_simple_benign:
  "benign w (exec_E_CTU i e w)"
  "benign w (exec_E_SPLIT i e w)"
  "benign w (exec_E_MERGE i e w)"
  "benign w (exec_E_SELECT i e w)"
  "benign w (exec_E_SWITCH i e w)"
  "benign w (exec_E_PERMIT i e w)"
  "benign w (exec_E_DEMUX i e w)"
  "benign w (exec_E_D_FF i e w)"
  "benign w (exec_E_RS i e w)"
  "benign w (exec_E_SR i e w)"
  "benign w (exec_GEN_E_MUX i e w)"
  "benign w (exec_GEN_E_DEMUX i e w)"
  by (simp_all add: Let_def exec_E_CTU_def exec_E_SPLIT_def exec_E_MERGE_def exec_E_SELECT_def exec_E_SWITCH_def exec_E_PERMIT_def exec_E_DEMUX_def exec_E_D_FF_def exec_E_RS_def exec_E_SR_def exec_GEN_E_MUX_def exec_GEN_E_DEMUX_def
     benign_sendOutputEvent benign_upd_DO split: option.split)

lemma exec_state_benign:
  "benign w (exec_E_REND i e b1 b2 w)" "benign w (exec_E_R_TRIG i e b1 w)" "benign w (exec_E_F_TRIG i e b1 w)"
  by (simp_all add: Let_def exec_E_REND_def exec_E_R_TRIG_def exec_E_F_TRIG_def benign_sendOutputEvent benign_set_class)

lemma exec_event_benign: "exec_event i e w = Some w' \<Longrightarrow> benign w w'"
  by (auto simp: exec_event_def split: option.splits fb_class_data.splits timed_kind.splits
     intro!: exec_simple_benign exec_state_benign exec_E_RESTART_benign
     intro: exec_CTimedFB_benign exec_E_DELAY_benign exec_E_RDELAY_benign exec_E_CTD_benign exec_E_CTUD_benign)

interpretation event_fbs: fb_behaviour exec_event
  by unfold_locales (auto dest!: exec_event_benign simp: benign_def)


end
