(* ===== verification/Event_FB_Laws.thy ===== *)
theory Event_FB_Laws
  imports Event_FBs
begin

text \<open>
  What the event function blocks do, beyond the contract of a function block: their outputs, the
  events they post and in which order, for sequences of events of any length; and what the event
  chain thread and the timer make of them.
\<close>

section \<open>Sending an output event\<close>

text \<open>A block without breakpoints on its outputs and without forced outputs.\<close>

definition plain_block :: "'c fb \<Rightarrow> bool" where
  "plain_block b \<longleftrightarrow> (\<forall>m \<in> set (m_nEOMonitorCount b). unmonitored m)
     \<and> (\<forall>d \<in> set (m_aoDOs b). \<not> dp_forced d)
     \<and> m_nNumEOs (fb_spec b) \<le> length (m_nEOMonitorCount b)
     \<and> (\<forall>eo < m_nNumEOs (fb_spec b). set (eo_with (fb_spec b) eo) \<subseteq> {..<length (m_aoDOs b)})"

text \<open>What a block keeps while it only sends events, sets outputs and changes its own members.\<close>

definition same_block :: "'c fb \<Rightarrow> 'c fb \<Rightarrow> bool" where
  "same_block b b' \<longleftrightarrow> fb_spec b' = fb_spec b \<and> m_enFBState b' = m_enFBState b \<and> mEOConns b' = mEOConns b
     \<and> m_aoDIs b' = m_aoDIs b \<and> length (m_aoDOs b') = length (m_aoDOs b)
     \<and> length (m_nEOMonitorCount b') = length (m_nEOMonitorCount b)"

text \<open>
  One step of the block \<open>i\<close>, as far as the block is concerned: what becomes of its outputs, of its
  class data, and which events it posts.
\<close>

definition blk_step :: "nat \<Rightarrow> rt \<Rightarrow> rt \<Rightarrow> dpoint list \<Rightarrow> fb_class_data \<Rightarrow> conn_point list \<Rightarrow> bool" where
  "blk_step i w w' dos c ps \<longleftrightarrow>
     (\<exists>b b'. w_fbs w i = Some b \<and> w_fbs w' i = Some b' \<and> (plain_block b \<longrightarrow> plain_block b') \<and> same_block b b'
        \<and> m_aoDOs b' = dos \<and> fb_class b' = c)
     \<and> w_platform w' = w_platform w \<and> w_timer w' = w_timer w
     \<and> mEventList w' = fold ring_push ps (mEventList w)
     \<and> mExternalEventList w' = mExternalEventList w"

lemma publish_DO_plain:
  assumes "\<forall>d \<in> set (m_aoDOs b). \<not> dp_forced d" "p < length (m_aoDOs b)"
  shows "\<exists>cs. publish_DO P p b = b\<lparr>mDOConns := cs\<rparr>"
proof (cases "dc_dests (mDOConns b ! p) = []")
  case True
  then show ?thesis
    by (intro exI [of _ "mDOConns b"]) (simp add: publish_DO_def Let_def)
next
  case False
  with assms show ?thesis
    by (auto simp: publish_DO_def Let_def)
qed

lemma fold_publish_plain:
  "\<forall>d \<in> set (m_aoDOs b). \<not> dp_forced d \<Longrightarrow> set ps \<subseteq> {..<length (m_aoDOs b)} \<Longrightarrow>
    \<exists>cs. fold (publish_DO P) ps b = b\<lparr>mDOConns := cs\<rparr>"
proof (induction ps arbitrary: b)
  case Nil
  then show ?case
    by (intro exI [of _ "mDOConns b"]) simp
next
  case (Cons p ps)
  then obtain cs where cs: "publish_DO P p b = b\<lparr>mDOConns := cs\<rparr>"
    using publish_DO_plain by (metis insert_subset lessThan_iff list.simps(15))
  with Cons.prems Cons.IH [of "b\<lparr>mDOConns := cs\<rparr>"] show ?case
    by auto
qed

lemma breakpoint_step_unmonitored: "unmonitored m \<Longrightarrow> unmonitored (snd (breakpoint_step t m))"
  by (simp add: unmonitored_def breakpoint_step_def Let_def)

lemma plain_block_monitor:
  "plain_block b \<Longrightarrow> e < m_nNumEOs (fb_spec b) \<Longrightarrow> unmonitored (m_nEOMonitorCount b ! e)"
  by (auto simp: plain_block_def)

lemma blk_step_send:
  assumes "w_fbs w i = Some b" "plain_block b"
  shows "blk_step i w (sendOutputEvent i eo w) (m_aoDOs b) (fb_class b)
    (if eo < m_nNumEOs (fb_spec b) then mEOConns b ! eo else [])"
proof (cases "eo < m_nNumEOs (fb_spec b)")
  case False
  with assms show ?thesis
    by (auto simp: blk_step_def sendOutputEvent_def same_block_def)
next
  case True
  obtain cs where cs: "fold (publish_DO (w_platform w)) (eo_with (fb_spec b) eo) b = b\<lparr>mDOConns := cs\<rparr>"
    using assms(2) True fold_publish_plain by (metis plain_block_def)
  have m: "unmonitored (m_nEOMonitorCount b ! eo)"
    using plain_block_monitor [OF assms(2) True] .
  let ?s = "snd (breakpoint_step (m_stForteTime (w_timer w)) (m_nEOMonitorCount b ! eo))"
  have "plain_block (b\<lparr>mDOConns := cs, m_nEOMonitorCount := (m_nEOMonitorCount b)[eo := ?s], m_updated := True\<rparr>)"
    using assms(2) breakpoint_step_unmonitored [OF m]
    by (auto simp: plain_block_def dest!: set_update_subset_insert [THEN subsetD])
  with assms(1) True m show ?thesis
    by (simp add: sendOutputEvent_def Let_def cs blk_step_def same_block_def unmonitored_def)
qed

text \<open>Running a sequence of events on one block.\<close>

fun exec_all :: "nat \<Rightarrow> nat list \<Rightarrow> rt \<Rightarrow> rt option" where
  "exec_all i [] w = Some w"
| "exec_all i (e # es) w = Option.bind (exec_event i e w) (exec_all i es)"

lemma exec_all_append: "exec_all i (es @ fs) w = Option.bind (exec_all i es w) (exec_all i fs)"
  by (induction es arbitrary: w) (auto split: bind_split)

text \<open>The conversions of the outputs.\<close>

lemma op_setters [simp]:
  "op_bool (setTBOOL8 b x) = b" "op_uint16 (setTUINT16 n x) = n"
  by (simp_all add: op_bool_def setTBOOL8_def op_uint16_def setTUINT16_def setLargestUInt_def elem_bits_def
       ucast_up_ucast_id is_up)

section \<open>Counters\<close>

text \<open>A counter block as its count, its output flag and its preset value.\<close>

definition counter_block :: "fb_class_data \<Rightarrow> SFBInterfaceSpec \<Rightarrow> nat \<Rightarrow> nat \<Rightarrow> bool \<Rightarrow> conn_point list list \<Rightarrow> fb_class_data fb \<Rightarrow> bool" where
  "counter_block c s pv cv q eos b \<longleftrightarrow> plain_block b \<and> fb_class b = c \<and> fb_spec b = s \<and> mEOConns b = eos
     \<and> (\<exists>d0 d1 t v. m_aoDOs b = [d0, d1] \<and> dp_val (m_aoDIs b ! 0) = Elem t v \<and> unat (ucast v :: u16) = pv
          \<and> unat (op_uint16 (dp_val d1)) = cv \<and> op_bool (dp_val d0) = q)"

definition counter_at :: "nat \<Rightarrow> rt \<Rightarrow> fb_class_data \<Rightarrow> SFBInterfaceSpec \<Rightarrow> nat \<Rightarrow> nat \<Rightarrow> bool \<Rightarrow> conn_point list list \<Rightarrow> bool" where
  "counter_at i w c s pv cv q eos \<longleftrightarrow> (\<exists>b. w_fbs w i = Some b \<and> counter_block c s pv cv q eos b)"

lemma counter_send:
  assumes "w_fbs w i = Some b" "counter_block c s pv cv q eos b"
  shows "counter_at i (sendOutputEvent i eo w) c s pv cv q eos
    \<and> mEventList (sendOutputEvent i eo w) = fold ring_push (if eo < m_nNumEOs s then eos ! eo else []) (mEventList w)"
proof -
  have p: "plain_block b"
    using assms(2) by (simp add: counter_block_def)
  show ?thesis
    using blk_step_send [OF assms(1) p, of eo] assms
    by (auto simp: blk_step_def counter_at_def counter_block_def same_block_def)
qed

lemma counter_set:
  assumes "w_fbs w i = Some b" "counter_block c s pv cv q eos b"
    and "unat (op_uint16 (f (dp_val (m_aoDOs b ! 1)))) = cv'" "op_bool (g (dp_val (m_aoDOs b ! 0))) = q'"
  shows "\<exists>b'. w_fbs (upd_DO i 0 g (upd_DO i 1 f w)) i = Some b' \<and> counter_block c s pv cv' q' eos b'"
  using assms by (auto simp: upd_DO_def counter_block_def plain_block_def)

lemma unat_u16_less: "unat (w :: u16) < 2 ^ 16"
  using unsigned_less [of w] by simp

text \<open>One event of \<open>E_CTU\<close>.\<close>

lemma DI_DO_upd [simp]:
  "DI i p (upd_DO j q f w) = DI i p w"
  "DI i p (set_class j c w') = DI i p w'"
  "DO i p (set_class j c w') = DO i p w'"
  by (auto simp: DI_def upd_DO_def set_class_def DO_def split: option.split)

lemma DO_upd: "w_fbs w i = Some b \<Longrightarrow> p < length (m_aoDOs b) \<Longrightarrow>
    DO i p (upd_DO i q f w) = (if p = q then f (DO i p w) else DO i p w)"
  by (simp add: DO_def upd_DO_def)

lemma counter_values:
  assumes "w_fbs w i = Some b" "counter_block c s pv cv q eos b"
  shows "unat (op_uint16 (DO i 1 w)) = cv" "unat (op_uint16 (DI i 0 w)) = pv" "length (m_aoDOs b) = 2"
  using assms by (auto simp: counter_block_def DO_def DI_def op_uint16_def elem_bits_def)

lemma ctu_count:
  assumes "counter_at i w C_E_CTU E_CTU_spec pv cv q eos"
  shows "\<exists>w'. exec_event i 0 w = Some w'
    \<and> counter_at i w' C_E_CTU E_CTU_spec pv (min (cv + 1) 65535) (if cv < 65535 then pv \<le> cv + 1 else q) eos
    \<and> mEventList w' = fold ring_push (if cv < 65535 then eos ! 0 else []) (mEventList w)"
proof -
  obtain b where b: "w_fbs w i = Some b" "counter_block C_E_CTU E_CTU_spec pv cv q eos b"
    using assms by (auto simp: counter_at_def)
  note v = counter_values [OF b]
  have e: "exec_event i 0 w = Some (exec_E_CTU i 0 w)"
    using b by (simp add: exec_event_def counter_block_def)
  have lt: "op_uint16 (DO i 1 w) < 65535 \<longleftrightarrow> cv < 65535"
    using v(1) by (simp add: word_less_nat_alt)
  have le65: "cv \<le> 65535"
    using v(1) unat_u16_less [of "op_uint16 (DO i 1 w)"] by simp
  show ?thesis
  proof (cases "cv < 65535")
    case False
    with e lt le65 assms show ?thesis
      by (simp add: exec_E_CTU_def)
  next
    case True
    let ?cv = "op_uint16 (DO i 1 w) + 1"
    have cv: "unat ?cv = cv + 1"
      using v(1) True by (simp add: unat_word_ariths)
    let ?w1 = "upd_DO i 1 (setTUINT16 ?cv) w"
    let ?w2 = "upd_DO i 0 (setTBOOL8 (pv \<le> cv + 1)) ?w1"
    have "(op_uint16 (DI i 0 ?w1) \<le> op_uint16 (DO i 1 ?w1)) = (pv \<le> cv + 1)"
      using v cv DO_upd [OF b(1), of 1 1] by (simp add: word_le_nat_alt)
    then have x: "exec_E_CTU i 0 w = sendOutputEvent i 0 ?w2"
      using True lt by (simp add: exec_E_CTU_def Let_def)
    obtain b' where b': "w_fbs ?w2 i = Some b'" "counter_block C_E_CTU E_CTU_spec pv (cv + 1) (pv \<le> cv + 1) eos b'"
      using counter_set [OF b, of "setTUINT16 ?cv" "cv + 1" "setTBOOL8 (pv \<le> cv + 1)" "pv \<le> cv + 1"] cv by auto
    show ?thesis
      using counter_send [OF b', of 0] e True x by (simp add: E_CTU_spec_def upd_DO_def)
  qed
qed

lemma ctu_reset:
  assumes "counter_at i w C_E_CTU E_CTU_spec pv cv q eos"
  shows "\<exists>w'. exec_event i 1 w = Some w' \<and> counter_at i w' C_E_CTU E_CTU_spec pv 0 False eos
    \<and> mEventList w' = fold ring_push (eos ! 1) (mEventList w)"
proof -
  obtain b where b: "w_fbs w i = Some b" "counter_block C_E_CTU E_CTU_spec pv cv q eos b"
    using assms by (auto simp: counter_at_def)
  have e: "exec_event i 1 w = Some (exec_E_CTU i 1 w)"
    using b by (simp add: exec_event_def counter_block_def)
  obtain b' where b': "w_fbs (upd_DO i 0 (setTBOOL8 False) (upd_DO i 1 (setTUINT16 0) w)) i = Some b'"
    "counter_block C_E_CTU E_CTU_spec pv 0 False eos b'"
    using counter_set [OF b, of "setTUINT16 0" 0 "setTBOOL8 False" False] by auto
  show ?thesis
    using counter_send [OF b', of 1] e by (simp add: E_CTU_spec_def upd_DO_def exec_E_CTU_def)
qed

lemma ctu_counts:
  assumes "counter_at i w C_E_CTU E_CTU_spec pv cv q eos" "cv \<le> 65535" "q = (0 < cv \<and> pv \<le> cv)"
  shows "\<exists>w'. exec_all i (replicate n 0) w = Some w'
    \<and> counter_at i w' C_E_CTU E_CTU_spec pv (min (cv + n) 65535)
        (0 < min (cv + n) 65535 \<and> pv \<le> min (cv + n) 65535) eos
    \<and> mEventList w' = fold ring_push (concat (replicate (min (cv + n) 65535 - cv) (eos ! 0))) (mEventList w)"
  using assms
proof (induction n arbitrary: w cv q)
  case 0
  then show ?case by simp
next
  case (Suc n)
  obtain w1 where w1: "exec_event i 0 w = Some w1"
    "counter_at i w1 C_E_CTU E_CTU_spec pv (min (cv + 1) 65535) (if cv < 65535 then pv \<le> cv + 1 else q) eos"
    "mEventList w1 = fold ring_push (if cv < 65535 then eos ! 0 else []) (mEventList w)"
    using ctu_count [OF Suc.prems(1)] by blast
  let ?cv = "min (cv + 1) 65535"
  have q: "(if cv < 65535 then pv \<le> cv + 1 else q) = (0 < ?cv \<and> pv \<le> ?cv)"
    using Suc.prems(2,3) by auto
  obtain w2 where w2: "exec_all i (replicate n 0) w1 = Some w2"
    "counter_at i w2 C_E_CTU E_CTU_spec pv (min (?cv + n) 65535) (0 < min (?cv + n) 65535 \<and> pv \<le> min (?cv + n) 65535) eos"
    "mEventList w2 = fold ring_push (concat (replicate (min (?cv + n) 65535 - ?cv) (eos ! 0))) (mEventList w1)"
    using Suc.IH [OF w1(2) _ q] by auto
  have m: "min (?cv + n) 65535 = min (cv + Suc n) 65535"
    by auto
  show ?case
  proof (cases "cv < 65535")
    case True
    have "min (cv + Suc n) 65535 - cv = Suc (min (cv + Suc n) 65535 - ?cv)"
      using True by auto
    with w1 w2 True show ?thesis
      by (simp add: m)
  next
    case False
    with Suc.prems(2) w1 w2 show ?thesis
      by (simp add: m)
  qed
qed

text \<open>
  \<open>E_CTU\<close> counts. After a reset and any number of count events, its output CV is the number of
  count events, saturated at 65535, Q tells whether PV has been reached, and it has posted the reset
  event once and one count event for each count that CV still could take, in this order.
\<close>

theorem E_CTU_counts:
  assumes "counter_at i w C_E_CTU E_CTU_spec pv cv q eos"
  shows "\<exists>w'. exec_all i (1 # replicate n 0) w = Some w'
    \<and> counter_at i w' C_E_CTU E_CTU_spec pv (min n 65535) (0 < n \<and> pv \<le> min n 65535) eos
    \<and> mEventList w' = fold ring_push (eos ! 1 @ concat (replicate (min n 65535) (eos ! 0))) (mEventList w)"
proof -
  obtain w1 where w1: "exec_event i 1 w = Some w1" "counter_at i w1 C_E_CTU E_CTU_spec pv 0 False eos"
    "mEventList w1 = fold ring_push (eos ! 1) (mEventList w)"
    using ctu_reset [OF assms] by blast
  have "(0 < min n 65535 \<and> pv \<le> min n 65535) = (0 < n \<and> pv \<le> min n 65535)"
    by auto
  with ctu_counts [OF w1(2), of n] w1 show ?thesis
    by simp
qed

text \<open>The loop of the control chart: what one more round does.\<close>

lemma ecc_loop_stop: "\<not> fst (step e w) \<Longrightarrow> ecc_loop step e w = Some (snd (step e w))"
  by (subst ecc_loop.simps) (simp add: Let_def)

lemma ecc_loop_again: "fst (step e w) \<Longrightarrow> ecc_loop step e w = ecc_loop step cg_nInvalidEventID (snd (step e w))"
  by (subst ecc_loop.simps) (simp add: Let_def)

definition class_of :: "nat \<Rightarrow> rt \<Rightarrow> fb_class_data option" where
  "class_of i w = map_option fb_class (w_fbs w i)"

lemma class_of_simps [simp]:
  "class_of i (sendOutputEvent j eo w) = class_of i w"
  "class_of i (upd_DO j p f w) = class_of i w"
  "class_of i (set_class j c w) = (if j = i then map_option (\<lambda>_. c) (class_of i w) else class_of i w)"
  by (auto simp: class_of_def sendOutputEvent_def upd_DO_def set_class_def upd_fb_def Let_def option.map_comp o_def split: option.split)

text \<open>The chart of \<open>E_CTD\<close>: every entered state is left again at once.\<close>

lemma ctd_step_idle: "class_of i w = Some (C_E_CTD 0) \<Longrightarrow> ctd_step i cg_nInvalidEventID w = (False, w)"
  by (auto simp: ctd_step_def class_of_def cg_nInvalidEventID_def)

lemma ctd_step_back:
  "class_of i w = Some (C_E_CTD (Suc n)) \<Longrightarrow> ctd_step i e w = (True, set_class i (C_E_CTD 0) w)"
  by (auto simp: ctd_step_def class_of_def)

lemma ctd_loop_back:
  assumes "class_of i w = Some (C_E_CTD (Suc n))"
  shows "ecc_loop (ctd_step i) e w = Some (set_class i (C_E_CTD 0) w)"
proof -
  have "class_of i (set_class i (C_E_CTD 0) w) = Some (C_E_CTD 0)"
    using assms by simp
  then show ?thesis
    using ecc_loop_again [of "ctd_step i" e w] ecc_loop_stop [of "ctd_step i" cg_nInvalidEventID]
    by (simp add: ctd_step_back [OF assms] ctd_step_idle)
qed

lemma exec_E_CTD_idle:
  assumes "class_of i w = Some (C_E_CTD 0)"
  shows "exec_E_CTD i e w = Some
    (if e = 0 \<and> 1 \<le> op_uint16 (DO i 1 w) then set_class i (C_E_CTD 0) (ctd_enterCU i w)
     else if e = 1 then set_class i (C_E_CTD 0) (ctd_enterLD i w) else w)"
proof -
  have c: "class_of i (ctd_enterCU i w) = Some (C_E_CTD (Suc 0))" "class_of i (ctd_enterLD i w) = Some (C_E_CTD (Suc 1))"
    using assms by (simp_all add: ctd_enterCU_def ctd_enterLD_def ctd_alg_CD_def ctd_alg_LD_def Let_def numeral_2_eq_2)
  have s: "ctd_step i e w = (if e = 0 \<and> 1 \<le> op_uint16 (DO i 1 w) then (True, ctd_enterCU i w)
      else if e = 1 then (True, ctd_enterLD i w) else (False, w))"
    using assms by (auto simp: ctd_step_def class_of_def Let_def)
  show ?thesis
    unfolding exec_E_CTD_def
    using ecc_loop_again [of "ctd_step i" e w] ecc_loop_stop [of "ctd_step i" e w] c
    by (auto simp: s ctd_loop_back)
qed

text \<open>The chart of \<open>E_CTUD\<close>, in the same way.\<close>

lemma ctud_step_idle: "class_of i w = Some (C_E_CTUD 0) \<Longrightarrow> ctud_step i cg_nInvalidEventID w = (False, w)"
  by (auto simp: ctud_step_def class_of_def cg_nInvalidEventID_def)

lemma ctud_step_back:
  "class_of i w = Some (C_E_CTUD (Suc n)) \<Longrightarrow> ctud_step i e w = (True, set_class i (C_E_CTUD 0) w)"
  by (auto simp: ctud_step_def class_of_def)

lemma ctud_loop_back:
  assumes "class_of i w = Some (C_E_CTUD (Suc n))"
  shows "ecc_loop (ctud_step i) e w = Some (set_class i (C_E_CTUD 0) w)"
proof -
  have "class_of i (set_class i (C_E_CTUD 0) w) = Some (C_E_CTUD 0)"
    using assms by simp
  then show ?thesis
    using ecc_loop_again [of "ctud_step i" e w] ecc_loop_stop [of "ctud_step i" cg_nInvalidEventID]
    by (simp add: ctud_step_back [OF assms] ctud_step_idle)
qed

lemma ctud_enter_class: "class_of i w \<noteq> None \<Longrightarrow> class_of i (ctud_enter i st eo alg w) = Some (C_E_CTUD st)"
  by (auto simp: ctud_enter_def ctud_alg_UpdateQUQD_def Let_def)

definition ctud_choice :: "nat \<Rightarrow> nat \<Rightarrow> rt \<Rightarrow> rt option" where
  "ctud_choice i e w =
     (if e = 0 \<and> op_uint16 (DO i 2 w) < 65535 then Some (ctud_enterCU i w)
      else if e = 2 then Some (ctud_enterR i w)
      else if e = 1 \<and> 1 \<le> op_uint16 (DO i 2 w) then Some (ctud_enterCD i w)
      else if e = 3 then Some (ctud_enterLD i w)
      else None)"

lemma exec_E_CTUD_idle:
  assumes "class_of i w = Some (C_E_CTUD 0)"
  shows "exec_E_CTUD i e w =
    Some (case ctud_choice i e w of None \<Rightarrow> w | Some w1 \<Rightarrow> set_class i (C_E_CTUD 0) w1)"
proof -
  have n: "class_of i w \<noteq> None"
    using assms by simp
  have c: "\<exists>n. class_of i w1 = Some (C_E_CTUD (Suc n))" if "ctud_choice i e w = Some w1" for w1
    using that ctud_enter_class [OF n]
    by (auto simp: ctud_choice_def ctud_enterCU_def ctud_enterR_def ctud_enterCD_def ctud_enterLD_def
        numeral_eq_Suc split: if_splits)
  have s: "ctud_step i e w = (case ctud_choice i e w of None \<Rightarrow> (False, w) | Some w1 \<Rightarrow> (True, w1))"
    using assms by (auto simp: ctud_step_def class_of_def Let_def ctud_choice_def)
  show ?thesis
  proof (cases "ctud_choice i e w")
    case None
    with s show ?thesis
      by (simp add: exec_E_CTUD_def ecc_loop_stop)
  next
    case (Some w1)
    then obtain n where "class_of i w1 = Some (C_E_CTUD (Suc n))"
      using c by blast
    from ctud_loop_back [OF this, of cg_nInvalidEventID] s Some show ?thesis
      by (simp add: exec_E_CTUD_def ecc_loop_again)
  qed
qed

section \<open>Every block but the timed ones returns\<close>

lemma ctd_returns: "class_of i w = Some (C_E_CTD n) \<Longrightarrow> exec_E_CTD i e w \<noteq> None"
  by (cases n) (simp_all add: exec_E_CTD_idle ctd_loop_back exec_E_CTD_def [symmetric], simp add: exec_E_CTD_def ctd_loop_back)

lemma ctud_returns: "class_of i w = Some (C_E_CTUD n) \<Longrightarrow> exec_E_CTUD i e w \<noteq> None"
  by (cases n) (simp_all add: exec_E_CTUD_idle, simp add: exec_E_CTUD_def ctud_loop_back)

lemma untimed_returns:
  assumes "w_fbs w i = Some b" "\<nexists>k a. fb_class b = C_Timed k a"
  shows "\<exists>w'. exec_event i e w = Some w'"
proof (cases "fb_class b")
  case (C_E_CTD n)
  then show ?thesis
    using assms ctd_returns [of i w n e] by (simp add: exec_event_def class_of_def)
next
  case (C_E_CTUD n)
  then show ?thesis
    using assms ctud_returns [of i w n e] by (simp add: exec_event_def class_of_def)
qed (use assms in \<open>simp_all add: exec_event_def\<close>)

lemma fold_sample_class [simp]: "fb_class (fold (sample_DI w) ps b) = fb_class b"
  by (induction ps arbitrary: b) (simp_all add: sample_DI_sampled)

lemma delivery_returns:
  assumes "\<forall>b k a. w_fbs w (mFB ev) = Some b \<longrightarrow> fb_class b \<noteq> C_Timed k a"
  shows "\<exists>w'. rt_deliver ev w = Some w'"
proof (cases "w_fbs w (mFB ev)")
  case None
  then show ?thesis
    by (simp add: receiveInputEvent_def Let_def)
next
  case (Some b)
  have "\<exists>w'. exec_event (mFB ev) e (w\<lparr>w_fbs := (w_fbs w)(mFB ev \<mapsto> b')\<rparr>) = Some w'" if "fb_class b' = fb_class b" for e b'
    by (rule untimed_returns [of _ _ b']) (use that Some assms in auto)
  moreover have "\<exists>w'. exec_event (mFB ev) e w = Some w'" for e
    by (rule untimed_returns [of _ _ b]) (use Some assms in auto)
  ultimately show ?thesis
    using Some by (auto simp: receiveInputEvent_def Let_def)
qed

text \<open>
  C40. The delivery of an event to any block that is not a timed one returns, whatever the event, the
  state of the block and its data: the control charts of \<open>E_CTD\<close> and \<open>E_CTUD\<close> come back to their
  start state in at most three rounds.
\<close>

theorem untimed_delivery_returns:
  assumes "\<forall>b k a. w_fbs w (mFB ev) = Some b \<longrightarrow> fb_class b \<noteq> C_Timed k a"
  shows "\<exists>w'. rt_deliver ev w = Some w'"
  by (rule delivery_returns [OF assms])

section \<open>The thread gets to every event\<close>

text \<open>No block of the resource is a timed one.\<close>

definition timed_free :: "rt \<Rightarrow> bool" where
  "timed_free w \<longleftrightarrow> (\<forall>i k a. class_of i w \<noteq> Some (C_Timed k a))"

named_theorems timed_free_intros

lemma timed_free_cong:
  "timed_free w \<Longrightarrow> (\<And>i. class_of i w' = class_of i w) \<Longrightarrow> timed_free w'"
  by (simp add: timed_free_def)

lemma timed_free_step [timed_free_intros]:
  "timed_free w \<Longrightarrow> timed_free (sendOutputEvent i eo w)"
  "timed_free w \<Longrightarrow> timed_free (upd_DO i p f w)"
  "timed_free w \<Longrightarrow> timed_free (snd (changeFBExecutionState (\<lambda>b. b) n cmd i w))"
  by (auto elim!: timed_free_cong simp: class_of_def [of _ "snd _"])
    (simp_all add: class_of_def)

lemma timed_free_class [timed_free_intros]:
  "timed_free w \<Longrightarrow> (\<And>k a. c \<noteq> C_Timed k a) \<Longrightarrow> timed_free (set_class i c w)"
  by (auto simp: timed_free_def)

lemma timed_free_lists [simp]:
  "timed_free (w\<lparr>mEventList := r\<rparr>) = timed_free w" "timed_free (w\<lparr>mExternalEventList := r\<rparr>) = timed_free w"
  by (simp_all add: timed_free_def class_of_def)

lemma ctd_step_timed_free: "timed_free w \<Longrightarrow> timed_free (snd (ctd_step i e w))"
  by (auto simp: ctd_step_def Let_def ctd_enterCU_def ctd_enterLD_def ctd_alg_CD_def ctd_alg_LD_def
     split: option.split intro!: timed_free_intros)

lemma ctud_step_timed_free: "timed_free w \<Longrightarrow> timed_free (snd (ctud_step i e w))"
  by (auto simp: ctud_step_def Let_def ctud_enterCU_def ctud_enterR_def ctud_enterCD_def ctud_enterLD_def
     ctud_enter_def ctud_alg_UpdateQUQD_def split: option.split intro!: timed_free_intros)

lemma exec_simple_timed_free:
  assumes "timed_free w"
  shows "timed_free (exec_E_CTU i e w)" "timed_free (exec_E_SPLIT i e w)" "timed_free (exec_E_MERGE i e w)"
    "timed_free (exec_E_SELECT i e w)" "timed_free (exec_E_SWITCH i e w)" "timed_free (exec_E_PERMIT i e w)"
    "timed_free (exec_E_DEMUX i e w)" "timed_free (exec_E_D_FF i e w)" "timed_free (exec_E_RS i e w)"
    "timed_free (exec_E_SR i e w)" "timed_free (exec_GEN_E_MUX i e w)" "timed_free (exec_GEN_E_DEMUX i e w)"
    "timed_free (exec_E_REND i e b1 b2 w)" "timed_free (exec_E_R_TRIG i e b1 w)" "timed_free (exec_E_F_TRIG i e b1 w)"
    "timed_free (exec_E_RESTART i e s m w)"
  using assms
  by (simp_all add: Let_def exec_E_CTU_def exec_E_SPLIT_def exec_E_MERGE_def exec_E_SELECT_def exec_E_SWITCH_def
      exec_E_PERMIT_def exec_E_DEMUX_def exec_E_D_FF_def exec_E_RS_def exec_E_SR_def exec_GEN_E_MUX_def
      exec_GEN_E_DEMUX_def exec_E_REND_def exec_E_R_TRIG_def exec_E_F_TRIG_def exec_E_RESTART_def
      timed_free_intros split: option.split)

lemma exec_event_timed_free:
  assumes "timed_free w" "exec_event i e w = Some w'"
  shows "timed_free w'"
proof -
  have "timed_free v" if "exec_E_CTD i e w = Some v" for v
    using ecc_loop_keeps [of timed_free, OF ctd_step_timed_free assms(1)] that by (simp add: exec_E_CTD_def)
  moreover have "timed_free v" if "exec_E_CTUD i e w = Some v" for v
    using ecc_loop_keeps [of timed_free, OF ctud_step_timed_free assms(1)] that by (simp add: exec_E_CTUD_def)
  moreover have "fb_class b \<noteq> C_Timed k a" if "w_fbs w i = Some b" for b k a
    using assms(1) that by (auto simp: timed_free_def class_of_def)
  ultimately show ?thesis
    using assms by (auto simp: exec_event_def split: option.splits fb_class_data.splits
      intro!: exec_simple_timed_free [OF assms(1)])
qed

lemma rt_deliver_timed_free:
  assumes "timed_free w" "rt_deliver ev w = Some w'"
  shows "timed_free w'"
proof -
  have u: "timed_free (w\<lparr>w_fbs := (w_fbs w)(i \<mapsto> b')\<rparr>)" if "w_fbs w i = Some b" "fb_class b' = fb_class b" for i b b'
    using assms(1) that by (auto elim!: timed_free_cong simp: class_of_def)
  show ?thesis
    using assms by (auto simp: receiveInputEvent_def Let_def split: option.splits if_splits
      elim!: exec_event_timed_free [rotated] intro!: u)
qed



section \<open>Counting down, and up and down\<close>

text \<open>The abstract counter: an event gives it a new count, or leaves it as it is.\<close>

definition ctud_next :: "nat \<Rightarrow> nat \<Rightarrow> nat \<Rightarrow> nat option" where
  "ctud_next pv e cv =
     (if e = 0 \<and> cv < 65535 then Some (cv + 1) else if e = 2 then Some 0
      else if e = 1 \<and> 0 < cv then Some (cv - 1) else if e = 3 then Some pv else None)"

fun ctud_spec_step :: "nat \<Rightarrow> nat \<Rightarrow> nat \<times> bool \<times> bool \<Rightarrow> nat \<times> bool \<times> bool" where
  "ctud_spec_step pv e (cv, qu, qd) =
     (case ctud_next pv e cv of None \<Rightarrow> (cv, qu, qd) | Some c \<Rightarrow> (c, pv \<le> c, c = 0))"

definition ctud_eo :: "nat \<Rightarrow> nat" where
  "ctud_eo e = (if e = 2 then 1 else if e = 3 then 2 else 0)"

definition ctud_block :: "fb_class_data \<Rightarrow> nat \<Rightarrow> nat \<times> bool \<times> bool \<Rightarrow> conn_point list list \<Rightarrow> fb_class_data fb \<Rightarrow> bool" where
  "ctud_block c pv s eos b \<longleftrightarrow> plain_block b \<and> fb_class b = c \<and> fb_spec b = E_CTUD_spec \<and> mEOConns b = eos
     \<and> (\<exists>d0 d1 d2 t v. m_aoDOs b = [d0, d1, d2] \<and> dp_val (m_aoDIs b ! 0) = Elem t v \<and> unat (ucast v :: u16) = pv
          \<and> s = (unat (op_uint16 (dp_val d2)), op_bool (dp_val d0), op_bool (dp_val d1)))"

definition ctud_at :: "nat \<Rightarrow> rt \<Rightarrow> fb_class_data \<Rightarrow> nat \<Rightarrow> nat \<times> bool \<times> bool \<Rightarrow> conn_point list list \<Rightarrow> bool" where
  "ctud_at i w c pv s eos \<longleftrightarrow> (\<exists>b. w_fbs w i = Some b \<and> ctud_block c pv s eos b)"

lemma ctud_at_send:
  assumes "ctud_at i w c pv s eos"
  shows "ctud_at i (sendOutputEvent i eo w) c pv s eos
    \<and> mEventList (sendOutputEvent i eo w) = fold ring_push (if eo < 3 then eos ! eo else []) (mEventList w)"
proof -
  obtain b where b: "w_fbs w i = Some b" "ctud_block c pv s eos b"
    using assms by (auto simp: ctud_at_def)
  then have "plain_block b"
    by (simp add: ctud_block_def)
  from blk_step_send [OF b(1) this, of eo] b show ?thesis
    by (auto simp: blk_step_def ctud_at_def ctud_block_def same_block_def E_CTUD_spec_def)
qed

lemma ctud_at_class: "ctud_at i w c pv s eos \<Longrightarrow> ctud_at i (set_class i c' w) c' pv s eos"
  by (auto simp: ctud_at_def ctud_block_def set_class_def plain_block_def)

lemma ctud_at_count:
  assumes "ctud_at i w c pv (cv, qu, qd) eos" "unat (op_uint16 (f (DO i 2 w))) = cv'"
  shows "ctud_at i (upd_DO i 2 f w) c pv (cv', qu, qd) eos"
  using assms by (auto simp: ctud_at_def ctud_block_def upd_DO_def DO_def plain_block_def)

lemma ctud_at_QU: "ctud_at i w c pv (cv, qu, qd) eos \<Longrightarrow> ctud_at i (upd_DO i 0 (setTBOOL8 b) w) c pv (cv, b, qd) eos"
  by (auto simp: ctud_at_def ctud_block_def upd_DO_def plain_block_def)

lemma ctud_at_QD: "ctud_at i w c pv (cv, qu, qd) eos \<Longrightarrow> ctud_at i (upd_DO i 1 (setTBOOL8 b) w) c pv (cv, qu, b) eos"
  by (auto simp: ctud_at_def ctud_block_def upd_DO_def plain_block_def)

lemma ctud_at_values:
  assumes "ctud_at i w c pv (cv, qu, qd) eos"
  shows "unat (op_uint16 (DO i 2 w)) = cv" "unat (op_uint16 (DI i 0 w)) = pv" "class_of i w = Some c"
    "\<exists>t v. DI i 0 w = Elem t v"
  using assms by (auto simp: ctud_at_def ctud_block_def DO_def DI_def class_of_def op_uint16_def elem_bits_def)

lemma ctud_at_update:
  assumes "ctud_at i w c pv (cv, qu, qd) eos"
  shows "ctud_at i (ctud_alg_UpdateQUQD i w) c pv (cv, pv \<le> cv, cv = 0) eos"
proof -
  let ?w = "upd_DO i 0 (setTBOOL8 (op_uint16 (DI i 0 w) \<le> op_uint16 (DO i 2 w))) w"
  have v: "(op_uint16 (DI i 0 w) \<le> op_uint16 (DO i 2 w)) = (pv \<le> cv)"
    using ctud_at_values [OF assms] by (simp add: word_le_nat_alt)
  have w: "ctud_at i ?w c pv (cv, pv \<le> cv, qd) eos"
    unfolding v by (rule ctud_at_QU [OF assms])
  have "(op_uint16 (DO i 2 ?w) \<le> 0) = (cv = 0)"
    using ctud_at_values [OF w] by (simp add: word_le_nat_alt)
  with ctud_at_QD [OF w, of "cv = 0"] show ?thesis
    by (simp add: ctud_alg_UpdateQUQD_def Let_def)
qed

lemma ctud_at_enter:
  assumes "ctud_at i w c pv (cv, qu, qd) eos"
    and "unat (op_uint16 (alg (set_class i (C_E_CTUD st) w) (DO i 2 w))) = cv'" "eo < 3"
  shows "ctud_at i (set_class i (C_E_CTUD 0) (ctud_enter i st eo alg w)) (C_E_CTUD 0) pv (cv', pv \<le> cv', cv' = 0) eos
    \<and> mEventList (set_class i (C_E_CTUD 0) (ctud_enter i st eo alg w)) = fold ring_push (eos ! eo) (mEventList w)"
proof -
  let ?w1 = "set_class i (C_E_CTUD st) w"
  let ?w2 = "ctud_alg_UpdateQUQD i (upd_DO i 2 (alg ?w1) ?w1)"
  have "ctud_at i ?w2 (C_E_CTUD st) pv (cv', pv \<le> cv', cv' = 0) eos"
    using ctud_at_count [OF ctud_at_class [OF assms(1)], of "alg ?w1" "C_E_CTUD st" cv'] assms(2)
    by (intro ctud_at_update) simp
  from ctud_at_send [OF this, of eo] assms(3) show ?thesis
    by (auto simp: ctud_enter_def Let_def intro: ctud_at_class)
       (simp add: set_class_def ctud_alg_UpdateQUQD_def Let_def upd_DO_def)
qed

text \<open>One event of \<open>E_CTUD\<close> is one step of the abstract counter.\<close>

lemma ctud_step_refines:
  assumes "ctud_at i w (C_E_CTUD 0) pv (cv, qu, qd) eos"
  shows "\<exists>w'. exec_event i e w = Some w'
    \<and> ctud_at i w' (C_E_CTUD 0) pv (ctud_spec_step pv e (cv, qu, qd)) eos
    \<and> mEventList w' = fold ring_push (if ctud_next pv e cv = None then [] else eos ! ctud_eo e) (mEventList w)"
proof -
  note v = ctud_at_values [OF assms]
  have lt: "op_uint16 (DO i 2 w) < 65535 \<longleftrightarrow> cv < 65535" and ge: "1 \<le> op_uint16 (DO i 2 w) \<longleftrightarrow> 0 < cv"
    using v(1) by (simp_all add: word_less_nat_alt word_le_nat_alt Suc_le_eq)
  have x: "exec_event i e w = Some (case ctud_choice i e w of None \<Rightarrow> w | Some w1 \<Rightarrow> set_class i (C_E_CTUD 0) w1)"
    using exec_E_CTUD_idle [OF v(3)] v(3) by (auto simp: exec_event_def class_of_def)
  have up: "unat (op_uint16 (DO i 2 w) + 1) = cv + 1" if "cv < 65535"
    using v(1) that by (simp add: unat_word_ariths)
  have down: "unat (op_uint16 (DO i 2 w) - 1) = cv - 1" if "0 < cv"
    using v(1) that ge by (simp add: unat_sub)
  obtain t u where di: "DI i 0 w = Elem t u"
    using v(4) by blast
  have ld: "op_uint16 (setValueSimple P x (DI i 0 w)) = op_uint16 (DI i 0 w)" for P x
    by (simp add: di setValueSimple_def setLargestUInt_def getLargestUInt_def op_uint16_def elem_bits_def)
  note en = ctud_at_enter [OF assms]
  consider (cu) "e = 0" "cv < 65535" | (r) "e = 2" | (cd) "e = 1" "0 < cv" | (ld) "e = 3"
    | (none) "ctud_next pv e cv = None"
    by (metis ctud_next_def)
  then show ?thesis
  proof cases
    case cu
    with x lt en [of "\<lambda>w. setTUINT16 (op_uint16 (DO i 2 w) + 1)" 1 "cv + 1" 0] up show ?thesis
      by (simp add: ctud_choice_def ctud_enterCU_def ctud_next_def ctud_eo_def)
  next
    case r
    with x en [of "\<lambda>w. setTUINT16 0" 2 0 1] show ?thesis
      by (simp add: ctud_choice_def ctud_enterR_def ctud_next_def ctud_eo_def)
  next
    case cd
    with x ge en [of "\<lambda>w. setTUINT16 (op_uint16 (DO i 2 w) - 1)" 3 "cv - 1" 0] down show ?thesis
      by (simp add: ctud_choice_def ctud_enterCD_def ctud_next_def ctud_eo_def)
  next
    case ld
    with x en [of "\<lambda>w x. setValueSimple (w_platform w) x (DI i 0 w)" 4 pv 2] v(2) show ?thesis
      by (simp add: ctud_choice_def ctud_enterLD_def ctud_next_def ctud_eo_def \<open>\<And>P x. op_uint16 (setValueSimple P x (DI i 0 w)) = op_uint16 (DI i 0 w)\<close>)
  next
    case none
    then have "ctud_choice i e w = None"
      using lt ge by (auto simp: ctud_choice_def ctud_next_def split: if_splits)
    with none x assms show ?thesis by simp
  qed
qed

text \<open>
  \<open>E_CTUD\<close> refines the up/down counter: any sequence of events runs to its end, and leaves the
  block with the count that the abstract counter reaches, which saturates at 65535 and at 0, and with
  QU and QD telling whether the preset value and 0 have been reached.
\<close>

theorem E_CTUD_refines:
  assumes "ctud_at i w (C_E_CTUD 0) pv s eos"
  shows "\<exists>w'. exec_all i es w = Some w' \<and> ctud_at i w' (C_E_CTUD 0) pv (fold (ctud_spec_step pv) es s) eos"
  using assms
proof (induction es arbitrary: w s)
  case (Cons e es)
  obtain cv qu qd where "s = (cv, qu, qd)"
    by (cases s)
  with ctud_step_refines [of i w pv cv qu qd eos e] Cons show ?case
    by fastforce
qed simp

section \<open>The thread of a resource with event blocks\<close>

text \<open>
  C2. Executing events is safe. Whatever the thread of the resource does with event blocks, for any
  number of rounds, both event lists stay well formed and of the same size, and no interface, no
  connection, no adapter and no type of any data point of any block changes.
\<close>

theorem thread_keeps_shape:
  assumes "ecet_wf w" "run_thread rt_deliver n w = Some w'"
  shows "ecet_wf w' \<and> ecet_size w' = ecet_size w \<and> world_shape w' = world_shape w"
  using event_fbs.ev.run_thread_wf [OF assms] event_fbs.run_thread_shape [OF assms(2)] by simp


text \<open>
  C34. One overflow silences a resource for ever. Once the event list has been filled to its last slot,
  the event in that slot is never delivered, and every event posted or transferred from then on is lost:
  in any number of rounds the thread only works off what was pending.
\<close>

theorem event_list_latches:
  assumes "ecet_wf w" "ring_latch (mEventList w) = Some y" "run_thread rt_deliver n w = Some w'"
  shows "ring_latch (mEventList w') = Some y
    \<and> (\<exists>k \<le> n. ring_queue (mEventList w') = drop k (ring_queue (mEventList w)))"
  by (rule event_fbs.ev.run_thread_latched [OF assms])

section \<open>Ticks\<close>

abbreviation ext_event :: "nat \<Rightarrow> conn_point" where
  "ext_event x \<equiv> \<lparr>mFB = x, mPortId = cg_nExternalEventID\<rparr>"

fun rt_ticks :: "nat \<Rightarrow> rt \<Rightarrow> rt option" where
  "rt_ticks 0 w = Some w"
| "rt_ticks (Suc n) w = Option.bind (rt_tick w) (rt_ticks n)"

lemma fold_start [simp]:
  "w_timer (fold startNewEventChain xs w) = w_timer w" "w_fbs (fold startNewEventChain xs w) = w_fbs w"
  "mExternalEventList (fold startNewEventChain xs w) = fold ring_push (map ext_event xs) (mExternalEventList w)"
  by (induction xs arbitrary: w)
     (simp_all add: startNewEventChain_def startEventChain_def resumeSelfSuspend_def)

lemma count_filter_distinct: "distinct xs \<Longrightarrow> count_list (filter P xs) i = (if i \<in> set xs \<and> P i then 1 else 0)"
  by (induction xs) auto

text \<open>One tick, seen by the block \<open>i\<close>.\<close>

lemma rt_tick_spec:
  assumes "timer_rep (w_timer w) xs" "now (w_timer w) + 2 ^ 33 + 1 < 2 ^ 64"
  shows "\<exists>w' ys fs. rt_tick w = Some w' \<and> timer_rep (w_timer w') ys \<and> now (w_timer w') = now (w_timer w) + 1
    \<and> w_fbs w' = w_fbs w
    \<and> mExternalEventList w' = fold ring_push (map ext_event fs) (mExternalEventList w)
    \<and> count_list fs i = (if i \<in> set xs \<and> due (m_entries (w_timer w)) i \<le> now (w_timer w) + 1 then 1 else 0)
    \<and> (i \<in> set ys \<longleftrightarrow> i \<in> set xs \<and> (now (w_timer w) + 1 < due (m_entries (w_timer w)) i \<or> is_periodic (w_timer w) i))
    \<and> (i \<in> set ys \<longrightarrow> due (m_entries (w_timer w')) i =
        (if now (w_timer w) + 1 < due (m_entries (w_timer w)) i then due (m_entries (w_timer w)) i
         else now (w_timer w) + 1 + period (m_nInterval (m_entries (w_timer w) i))))
    \<and> m_nInterval (m_entries (w_timer w') i) = m_nInterval (m_entries (w_timer w) i)
    \<and> is_periodic (w_timer w') i = is_periodic (w_timer w) i"
proof -
  let ?th = "(w_timer w)\<lparr>m_stForteTime := time_inc (m_stForteTime (w_timer w))\<rparr>"
  have n: "now ?th = now (w_timer w) + 1"
    using assms(2) by (simp add: time_inc_add time_add_ticks)
  have rep: "timer_rep ?th xs"
    using assms(1) by simp
  obtain th' ys where t: "tick_loop startNewEventChain ?th w = Some (th', fold startNewEventChain (due_now ?th xs) w)"
    "tick_result ?th xs th' ys"
    using tick_loop_spec [OF rep, of startNewEventChain w] assms(2) n by auto
  have dn: "due_now ?th xs = filter (\<lambda>x. due (m_entries (w_timer w)) x \<le> now (w_timer w) + 1) xs"
    using due_now_filter [OF rep] n by simp
  have dl: "set (due_later ?th xs) = {x \<in> set xs. now (w_timer w) + 1 < due (m_entries (w_timer w)) x}"
    using due_later_filter [OF rep] n by simp
  have p: "is_periodic ?th = is_periodic (w_timer w)"
    by (auto simp: is_periodic_def)
  have d: "distinct xs"
    using assms(1) tlist_distinct by (auto simp: timer_rep_def)
  let ?w' = "(fold startNewEventChain (due_now ?th xs) w)\<lparr>w_timer := th'\<rparr>"
  have x: "rt_tick w = Some ?w'"
    using t(1) by (simp add: rt_tick_def nextTick_def)
  have e: "mExternalEventList ?w' = fold ring_push (map ext_event (due_now ?th xs)) (mExternalEventList w)"
    by simp
  have c: "count_list (due_now ?th xs) i =
      (if i \<in> set xs \<and> due (m_entries (w_timer w)) i \<le> now (w_timer w) + 1 then 1 else 0)"
    by (simp add: dn count_filter_distinct [OF d])
  note r = t(2) [unfolded tick_result_def dn dl p n]
  have ys: "i \<in> set ys \<longleftrightarrow> i \<in> set xs
      \<and> (now (w_timer w) + 1 < due (m_entries (w_timer w)) i \<or> is_periodic (w_timer w) i)"
    using r by auto
  have du: "i \<in> set ys \<longrightarrow> due (m_entries th') i =
        (if now (w_timer w) + 1 < due (m_entries (w_timer w)) i then due (m_entries (w_timer w)) i
         else now (w_timer w) + 1 + period (m_nInterval (m_entries (w_timer w) i)))"
    using r by auto
  have rest: "m_nInterval (m_entries th' i) = m_nInterval (m_entries (w_timer w) i)"
    "is_periodic th' i = is_periodic (w_timer w) i" "now th' = now (w_timer w) + 1"
    using r n by (auto simp: is_periodic_def)
  show ?thesis
    using r by (intro exI [of _ ?w'] exI [of _ ys] exI [of _ "due_now ?th xs"] conjI x e c ys)
      (use du rest in simp_all)
qed

text \<open>How often a block whose next due time is \<open>r\<close> ticks away has fired after \<open>n\<close> ticks.\<close>

definition firings :: "bool \<Rightarrow> nat \<Rightarrow> nat \<Rightarrow> nat \<Rightarrow> nat" where
  "firings periodic p r n = (if n < r then 0 else if periodic then Suc ((n - r) div p) else 1)"

lemma firings_Suc:
  assumes "0 < p" "0 < r"
  shows "firings per p r (Suc n) =
    (if r = 1 then Suc (if per then firings per p p n else 0) else firings per p (r - 1) n)"
proof -
  have "Suc (n div p) = Suc (if n < p then 0 else Suc ((n - p) div p))"
    using assms(1) by (simp add: le_div_geq)
  then show ?thesis
    using assms by (auto simp: firings_def)
qed

lemma ticks_idle:
  assumes "timer_rep (w_timer w) xs" "i \<notin> set xs" "now (w_timer w) + n + 2 ^ 33 < 2 ^ 64"
  shows "\<exists>w' fs. rt_ticks n w = Some w' \<and> count_list fs i = 0
    \<and> mExternalEventList w' = fold ring_push (map ext_event fs) (mExternalEventList w)"
  using assms
proof (induction n arbitrary: w xs)
  case 0
  have "mExternalEventList w = fold ring_push (map ext_event []) (mExternalEventList w)"
    by simp
  then show ?case
    by (intro exI [of _ w] exI [of _ "[]"]) simp
next
  case (Suc n)
  obtain w1 ys fs where t: "rt_tick w = Some w1" "timer_rep (w_timer w1) ys" "now (w_timer w1) = now (w_timer w) + 1"
    "mExternalEventList w1 = fold ring_push (map ext_event fs) (mExternalEventList w)"
    "count_list fs i = 0" "i \<notin> set ys"
    using rt_tick_spec [OF Suc.prems(1), of i] Suc.prems(2,3) by auto
  obtain w2 gs where g: "rt_ticks n w1 = Some w2" "count_list gs i = 0"
    "mExternalEventList w2 = fold ring_push (map ext_event gs) (mExternalEventList w1)"
    using Suc.IH [OF t(2,6)] t(3) Suc.prems(3) by auto
  show ?case
    using t g by (intro exI [of _ w2] exI [of _ "fs @ gs"]) simp
qed

lemma ticks_fire:
  assumes "timer_rep (w_timer w) xs" "i \<in> set xs" "now (w_timer w) + n + 2 ^ 33 < 2 ^ 64"
    and "due (m_entries (w_timer w)) i = now (w_timer w) + r" "0 < r"
  shows "\<exists>w' fs. rt_ticks n w = Some w'
    \<and> count_list fs i = firings (is_periodic (w_timer w) i) (period (m_nInterval (m_entries (w_timer w) i))) r n
    \<and> mExternalEventList w' = fold ring_push (map ext_event fs) (mExternalEventList w)"
  using assms
proof (induction n arbitrary: w xs r)
  case 0
  then show ?case
    by (intro exI [of _ w] exI [of _ "[]"]) (simp add: firings_def)
next
  case (Suc n)
  let ?p = "period (m_nInterval (m_entries (w_timer w) i))" and ?per = "is_periodic (w_timer w) i"
  have le: "due (m_entries (w_timer w)) i \<le> now (w_timer w) + 1 \<longleftrightarrow> r = 1"
    using Suc.prems(4,5) by auto
  obtain w1 ys fs where t: "rt_tick w = Some w1" "timer_rep (w_timer w1) ys" "now (w_timer w1) = now (w_timer w) + 1"
    "mExternalEventList w1 = fold ring_push (map ext_event fs) (mExternalEventList w)"
    "count_list fs i = (if r = 1 then 1 else 0)" "i \<in> set ys \<longleftrightarrow> r \<noteq> 1 \<or> ?per"
    "i \<in> set ys \<longrightarrow> due (m_entries (w_timer w1)) i = now (w_timer w1) + (if r = 1 then ?p else r - 1)"
    "m_nInterval (m_entries (w_timer w1) i) = m_nInterval (m_entries (w_timer w) i)"
    "is_periodic (w_timer w1) i = ?per"
    using rt_tick_spec [OF Suc.prems(1), of i] Suc.prems le by (auto split: if_splits)
  have b: "now (w_timer w1) + n + 2 ^ 33 < 2 ^ 64"
    using t(3) Suc.prems(3) by simp
  have "\<exists>w2 gs. rt_ticks n w1 = Some w2
      \<and> count_list gs i = (if r = 1 then (if ?per then firings ?per ?p ?p n else 0) else firings ?per ?p (r - 1) n)
      \<and> mExternalEventList w2 = fold ring_push (map ext_event gs) (mExternalEventList w1)"
  proof (cases "i \<in> set ys")
    case False
    with ticks_idle [OF t(2) False b] t(6) show ?thesis
      by auto
  next
    case True
    have "0 < (if r = 1 then ?p else r - 1)"
      using Suc.prems(5) by auto
    from Suc.IH [OF t(2) True b _ this] t(6-9) True show ?thesis
      by (cases "r = 1") simp_all
  qed
  then obtain w2 gs where g: "rt_ticks n w1 = Some w2"
    "count_list gs i = (if r = 1 then (if ?per then firings ?per ?p ?p n else 0) else firings ?per ?p (r - 1) n)"
    "mExternalEventList w2 = fold ring_push (map ext_event gs) (mExternalEventList w1)"
    by blast
  have "count_list (fs @ gs) i = firings ?per ?p r (Suc n)"
    using t(5) g(2) firings_Suc [of ?p r ?per n] Suc.prems(5) by simp
  with t g show ?case
    by (intro exI [of _ w2] exI [of _ "fs @ gs"]) simp
qed

section \<open>Timed blocks\<close>

lemma with_timer_simps [simp]: "with_timer f w = Some w' \<longleftrightarrow> (\<exists>t. f (w_timer w) = Some t \<and> w' = w\<lparr>w_timer := t\<rparr>)"
  by (auto simp: with_timer_def)

lemma set_class_frame [simp]:
  "w_timer (set_class i c w) = w_timer w" "w_platform (set_class i c w) = w_platform w"
  "w_fbs (set_class i c w) j = (if j = i then map_option (\<lambda>b. b\<lparr>fb_class := c\<rparr>) (w_fbs w i) else w_fbs w j)"
  "mEventList (set_class i c w) = mEventList w" "mExternalEventList (set_class i c w) = mExternalEventList w"
  by (simp_all add: set_class_def)

text \<open>Starting an inactive timed block registers it with its interval.\<close>

lemma start_timed:
  assumes "class_of i w = Some (C_Timed k False)" "k = T_E_RDELAY \<longrightarrow> False"
    and "timer_rep (w_timer w) xs" "i \<notin> set xs" "now (w_timer w) + 2 ^ 33 < 2 ^ 64"
  shows "\<exists>w'. exec_event i 0 w = Some w' \<and> class_of i w' = Some (C_Timed k True)
    \<and> mExternalEventList w' = mExternalEventList w
    \<and> timer_rep (w_timer w') (insert_due (due (m_entries (w_timer w'))) i xs)
    \<and> now (w_timer w') = now (w_timer w)
    \<and> due (m_entries (w_timer w')) i = now (w_timer w) + period (timer_interval (op_int64 (DI i 0 w)))
    \<and> m_nInterval (m_entries (w_timer w') i) = timer_interval (op_int64 (DI i 0 w))
    \<and> is_periodic (w_timer w') i = is_periodic (w_timer w) i"
proof -
  obtain th' where t: "registerTimedFB i (op_int64 (DI i 0 w)) (w_timer w) = Some th'"
     "timer_rep th' (insert_due (due (m_entries th')) i xs)"
     "due (m_entries th') i = now (w_timer w) + period (timer_interval (op_int64 (DI i 0 w)))"
     "m_stForteTime th' = m_stForteTime (w_timer w)"
     "m_nInterval (m_entries th' i) = timer_interval (op_int64 (DI i 0 w))"
     "m_eType (m_entries th' i) = m_eType (m_entries (w_timer w) i)"
    using registerTimedFB_refines [OF assms(3-5)] by blast
  have "exec_event i 0 w = Some (set_class i (C_Timed k True) (w\<lparr>w_timer := th'\<rparr>))"
    using assms(1,2) t(1)
    by (cases k) (auto simp: class_of_def exec_event_def exec_CTimedFB_def exec_E_DELAY_def cg_nExternalEventID_def with_timer_def)
  with t assms(1) show ?thesis
    by (auto simp: is_periodic_def class_of_def)
qed

text \<open>
  C4. \<open>E_DELAY\<close> delays by exactly its interval. A start of an inactive delay returns; then, whatever
  other blocks the timer serves, the delay posts its external event in the tick that completes the
  interval DT (rounded down to ticks, 10 ms if that is 0), once, and in no other tick.
\<close>

theorem E_DELAY_fires_once:
  assumes "class_of i w = Some (C_Timed T_E_DELAY False)" "\<not> is_periodic (w_timer w) i"
    and "timer_rep (w_timer w) xs" "i \<notin> set xs" "now (w_timer w) + n + 2 ^ 33 < 2 ^ 64"
  shows "\<exists>w1 w' fs. exec_event i 0 w = Some w1 \<and> rt_ticks n w1 = Some w'
    \<and> mExternalEventList w' = fold ring_push (map ext_event fs) (mExternalEventList w)
    \<and> count_list fs i = (if n < period (timer_interval (op_int64 (DI i 0 w))) then 0 else 1)"
proof -
  obtain w1 where w1: "exec_event i 0 w = Some w1" "mExternalEventList w1 = mExternalEventList w"
    "timer_rep (w_timer w1) (insert_due (due (m_entries (w_timer w1))) i xs)"
    "now (w_timer w1) = now (w_timer w)"
    "due (m_entries (w_timer w1)) i = now (w_timer w) + period (timer_interval (op_int64 (DI i 0 w)))"
    "is_periodic (w_timer w1) i = is_periodic (w_timer w) i"
    using start_timed [OF assms(1) _ assms(3,4)] assms(5) by auto
  have "\<exists>w' fs. rt_ticks n w1 = Some w'
    \<and> count_list fs i = firings (is_periodic (w_timer w1) i) (period (m_nInterval (m_entries (w_timer w1) i)))
        (period (timer_interval (op_int64 (DI i 0 w)))) n
    \<and> mExternalEventList w' = fold ring_push (map ext_event fs) (mExternalEventList w1)"
    by (rule ticks_fire [OF w1(3)]) (use w1 assms(5) in simp_all)
  with w1 assms(2) show ?thesis
    by (auto simp: firings_def)
qed

text \<open>
  \<open>E_CYCLE\<close> keeps its period. After the start of an inactive cycle block, \<open>n\<close> ticks post its
  external event exactly \<open>n\<close> divided by the period times, whatever other blocks the timer serves.
\<close>

theorem E_CYCLE_period:
  assumes "class_of i w = Some (C_Timed T_E_CYCLE False)" "is_periodic (w_timer w) i"
    and "timer_rep (w_timer w) xs" "i \<notin> set xs" "now (w_timer w) + n + 2 ^ 33 < 2 ^ 64"
  shows "\<exists>w1 w' fs. exec_event i 0 w = Some w1 \<and> rt_ticks n w1 = Some w'
    \<and> mExternalEventList w' = fold ring_push (map ext_event fs) (mExternalEventList w)
    \<and> count_list fs i = n div period (timer_interval (op_int64 (DI i 0 w)))"
proof -
  let ?p = "period (timer_interval (op_int64 (DI i 0 w)))"
  obtain w1 where w1: "exec_event i 0 w = Some w1" "mExternalEventList w1 = mExternalEventList w"
    "timer_rep (w_timer w1) (insert_due (due (m_entries (w_timer w1))) i xs)"
    "now (w_timer w1) = now (w_timer w)" "due (m_entries (w_timer w1)) i = now (w_timer w) + ?p"
    "m_nInterval (m_entries (w_timer w1) i) = timer_interval (op_int64 (DI i 0 w))"
    "is_periodic (w_timer w1) i = is_periodic (w_timer w) i"
    using start_timed [OF assms(1) _ assms(3,4)] assms(5) by auto
  have "\<exists>w' fs. rt_ticks n w1 = Some w'
    \<and> count_list fs i = firings (is_periodic (w_timer w1) i) (period (m_nInterval (m_entries (w_timer w1) i))) ?p n
    \<and> mExternalEventList w' = fold ring_push (map ext_event fs) (mExternalEventList w1)"
    by (rule ticks_fire [OF w1(3)]) (use w1 assms(5) in simp_all)
  moreover have "firings True ?p ?p n = n div ?p"
    by (auto simp: firings_def le_div_geq)
  ultimately show ?thesis
    using w1 assms(2) by auto
qed

lemma fold_publish_DIs [simp]: "m_aoDIs (fold (publish_DO P) ps b) = m_aoDIs b"
  by (induction ps arbitrary: b) (simp_all add: publish_DO_def Let_def)

lemma sendOutputEvent_frame [simp]:
  "w_timer (sendOutputEvent i eo w) = w_timer w" "DI j p (sendOutputEvent i eo w) = DI j p w"
  by (auto simp: sendOutputEvent_def DI_def Let_def split: option.split)

lemma timer_frame_simps [simp]:
  "class_of i (w\<lparr>w_timer := t\<rparr>) = class_of i w" "DI i p (w\<lparr>w_timer := t\<rparr>) = DI i p w"
  by (simp_all add: class_of_def DI_def)

text \<open>A delay in its three situations: the external event, a start while inactive, a stop while active.\<close>

lemma exec_E_DELAY_ext:
  "class_of i w = Some (C_Timed T_E_DELAY a) \<Longrightarrow>
    exec_event i cg_nExternalEventID w = Some (set_class i (C_Timed T_E_DELAY False) (sendOutputEvent i 0 w))"
  by (auto simp: class_of_def exec_event_def exec_E_DELAY_def)

lemma exec_E_DELAY_start:
  "class_of i w = Some (C_Timed T_E_DELAY False) \<Longrightarrow> exec_event i 0 w =
    map_option (set_class i (C_Timed T_E_DELAY True)) (with_timer (registerTimedFB i (op_int64 (DI i 0 w))) w)"
  by (auto simp: class_of_def exec_event_def exec_E_DELAY_def exec_CTimedFB_def cg_nExternalEventID_def)

lemma exec_E_DELAY_stop:
  "class_of i w = Some (C_Timed T_E_DELAY True) \<Longrightarrow> exec_event i 1 w =
    map_option (set_class i (C_Timed T_E_DELAY False)) (with_timer (unregisterTimedFB i) w)"
  by (auto simp: class_of_def exec_event_def exec_E_DELAY_def exec_CTimedFB_def cg_nExternalEventID_def)

text \<open>
  C35. A delay that is restarted while its expired event is still queued wrecks the timer. The timer has
  fired and its event waits in the list; a stop and a start are executed before it; the event then
  marks the delay as inactive although it is registered again, and the next start links the timer list
  to itself. From then on another delay that is due no earlier cannot be started: that call
  never returns.
\<close>

theorem E_DELAY_restart_race:
  assumes "class_of i w = Some (C_Timed T_E_DELAY True)" "timer_rep (w_timer w) []"
    and "now (w_timer w) + 2 ^ 33 < 2 ^ 64"
    and "class_of j w = Some (C_Timed T_E_DELAY False)" "j \<noteq> i"
    and "period (timer_interval (op_int64 (DI i 0 w))) \<le> period (timer_interval (op_int64 (DI j 0 w)))"
  shows "\<exists>w'. exec_all i [1, 0, cg_nExternalEventID, 0] w = Some w' \<and> exec_event j 0 w' = None"
proof -
  let ?w1 = "set_class i (C_Timed T_E_DELAY False) w"
  have s1: "exec_event i 1 w = Some ?w1"
    using exec_E_DELAY_stop [OF assms(1)] assms(2) by (simp add: with_timer_def unregisterTimedFB_def timer_rep_def)
  let ?di = "op_int64 (DI i 0 w)"
  obtain th1 where r1: "registerTimedFB i ?di (w_timer w) = Some th1" "timer_rep th1 [i]"
    "m_stForteTime th1 = m_stForteTime (w_timer w)" "m_nInterval (m_entries th1 i) = timer_interval ?di"
    using registerTimedFB_refines [OF assms(2), of i ?di] assms(3) by auto
  let ?w2 = "set_class i (C_Timed T_E_DELAY True) (?w1\<lparr>w_timer := th1\<rparr>)"
  have s2: "exec_event i 0 ?w1 = Some ?w2"
    using exec_E_DELAY_start [of i ?w1] r1(1) assms(1) by (simp add: with_timer_def)
  let ?w3 = "set_class i (C_Timed T_E_DELAY False) (sendOutputEvent i 0 ?w2)"
  have s3: "exec_event i cg_nExternalEventID ?w2 = Some ?w3"
    using exec_E_DELAY_ext [of i ?w2 True] assms(1) by simp
  obtain th2 where r2: "addTimedFBEntry i th1 = Some th2" "m_pstTimedFBList th2 = Some i"
    "m_pstNext (m_entries th2 i) = Some i" "m_stForteTime th2 = m_stForteTime th1"
    "m_stTimeOut (m_entries th2 i) = due_time (m_stForteTime th1) (timer_interval ?di)"
    using add_twice [OF r1(2)] r1(4) by metis
  have "(m_entries th1 i)\<lparr>m_nInterval := timer_interval ?di\<rparr> = m_entries th1 i"
    using r1(4) by (cases "m_entries th1 i") simp
  then have same: "th1\<lparr>m_entries := (m_entries th1)(i := (m_entries th1 i)\<lparr>m_nInterval := timer_interval ?di\<rparr>)\<rparr> = th1"
    by (simp add: fun_upd_idem)
  have reg2: "registerTimedFB i ?di th1 = Some th2"
    using r2(1) unfolding registerTimedFB_def same .
  let ?w4 = "set_class i (C_Timed T_E_DELAY True) (?w3\<lparr>w_timer := th2\<rparr>)"
  have s4: "exec_event i 0 ?w3 = Some ?w4"
    using exec_E_DELAY_start [of i ?w3] assms(1) reg2 by (simp add: with_timer_def)
  have "registerTimedFB j (op_int64 (DI j 0 w)) th2 = None"
    using assms(3,5,6) r2 r1(3)
    by (intro self_loop_hangs [of th2 i]) (simp_all add: due_time_period)
  then have "exec_event j 0 ?w4 = None"
    using exec_E_DELAY_start [of j ?w4] assms(4,5) by (simp add: with_timer_def)
  then show ?thesis
    using s1 s2 s3 s4 by (intro exI [of _ ?w4]) simp
qed

section \<open>Edges\<close>

text \<open>A boolean input sample, and a sequence of samples that each come with an event.\<close>

definition sample_bool :: "nat \<Rightarrow> bool \<Rightarrow> rt \<Rightarrow> rt" where
  "sample_bool i q = upd_fb i (\<lambda>b. b\<lparr>m_aoDIs := (m_aoDIs b)[0 := \<lparr>dp_val = Elem e_BOOL (if q then 1 else 0), dp_forced = False\<rparr>]\<rparr>)"

fun run_samples :: "nat \<Rightarrow> bool list \<Rightarrow> rt \<Rightarrow> rt option" where
  "run_samples i [] w = Some w"
| "run_samples i (q # qs) w = Option.bind (exec_event i 0 (sample_bool i q w)) (run_samples i qs)"

text \<open>An edge detector: \<open>up\<close> says which of the two classes it is.\<close>

definition edge_class :: "bool \<Rightarrow> bool \<Rightarrow> fb_class_data" where
  "edge_class up old = (if up then C_E_R_TRIG old else C_E_F_TRIG old)"

definition edge_at :: "nat \<Rightarrow> rt \<Rightarrow> bool \<Rightarrow> bool \<Rightarrow> conn_point list list \<Rightarrow> bool" where
  "edge_at i w up old eos \<longleftrightarrow> (\<exists>b. w_fbs w i = Some b \<and> plain_block b \<and> fb_class b = edge_class up old
     \<and> mEOConns b = eos \<and> m_nNumEOs (fb_spec b) = 1 \<and> m_aoDIs b \<noteq> [])"

text \<open>How often the value changes to \<open>up\<close>.\<close>

fun edges :: "bool \<Rightarrow> bool \<Rightarrow> bool list \<Rightarrow> nat" where
  "edges up old [] = 0"
| "edges up old (q # qs) = (if q = up \<and> old \<noteq> up then 1 else 0) + edges up q qs"

lemma edge_step:
  assumes "edge_at i w up old eos"
  shows "\<exists>w'. exec_event i 0 (sample_bool i q w) = Some w' \<and> edge_at i w' up q eos
    \<and> mEventList w' = fold ring_push (if q = up \<and> old \<noteq> up then eos ! 0 else []) (mEventList w)"
proof -
  obtain b where b: "w_fbs w i = Some b" "plain_block b" "fb_class b = edge_class up old"
    "mEOConns b = eos" "m_nNumEOs (fb_spec b) = 1" "m_aoDIs b \<noteq> []"
    using assms by (auto simp: edge_at_def)
  let ?w = "sample_bool i q w"
  let ?b = "b\<lparr>m_aoDIs := (m_aoDIs b)[0 := \<lparr>dp_val = Elem e_BOOL (if q then 1 else 0), dp_forced = False\<rparr>]\<rparr>"
  have w: "w_fbs ?w i = Some ?b" "mEventList ?w = mEventList w"
    using b(1) by (simp_all add: sample_bool_def)
  have pb: "plain_block ?b"
    using b(2) by (simp add: plain_block_def)
  have di: "op_bool (DI i 0 ?w) = q"
    using w b(6) by (simp add: DI_def op_bool_def)
  let ?fire = "q = up \<and> old \<noteq> up"
  let ?v = "if ?fire then sendOutputEvent i 0 ?w else ?w"
  have x: "exec_event i 0 ?w = Some (set_class i (edge_class up q) ?v)"
    using w(1) b(3) di
    by (cases up; cases q; cases old)
       (simp_all add: exec_event_def edge_class_def exec_E_R_TRIG_def exec_E_F_TRIG_def Let_def)
  have s: "blk_step i ?w (sendOutputEvent i 0 ?w) (m_aoDOs ?b) (fb_class ?b) (eos ! 0)"
    using blk_step_send [OF w(1) pb, of 0] b(4,5) by simp
  have "\<exists>b'. w_fbs ?v i = Some b' \<and> plain_block b' \<and> same_block ?b b'
    \<and> mEventList ?v = fold ring_push (if ?fire then eos ! 0 else []) (mEventList w)"
  proof (cases ?fire)
    case True
    then have v: "?v = sendOutputEvent i 0 ?w"
      by simp
    show ?thesis
      unfolding v using s pb w True by (auto simp: blk_step_def)
  next
    case False
    then have v: "?v = ?w"
      by (simp only: if_False)
    show ?thesis
      unfolding v using w pb False by (auto simp: same_block_def)
  qed
  then obtain b' where b': "w_fbs ?v i = Some b'" "plain_block b'" "same_block ?b b'"
    "mEventList ?v = fold ring_push (if ?fire then eos ! 0 else []) (mEventList w)"
    by blast
  have "m_aoDIs b' \<noteq> []"
    using b'(3) b(6) by (auto simp: same_block_def)
  then have "edge_at i (set_class i (edge_class up q) ?v) up q eos"
    using b' b(4,5) by (auto simp: edge_at_def same_block_def plain_block_def)
  then show ?thesis
    using x b'(4) by (simp del: if_split)
qed

text \<open>
  \<open>E_R_TRIG\<close> and \<open>E_F_TRIG\<close> report edges and nothing else: over any sequence of samples that
  come with events, the block posts its output event exactly as often as the input has changed to
  true (to false), counted from the value it remembered.
\<close>

theorem edge_detectors_count_edges:
  assumes "edge_at i w up old eos"
  shows "\<exists>w'. run_samples i qs w = Some w'
    \<and> mEventList w' = fold ring_push (concat (replicate (edges up old qs) (eos ! 0))) (mEventList w)"
  using assms
proof (induction qs arbitrary: w old)
  case (Cons q qs)
  obtain w1 where w1: "exec_event i 0 (sample_bool i q w) = Some w1" "edge_at i w1 up q eos"
    "mEventList w1 = fold ring_push (if q = up \<and> old \<noteq> up then eos ! 0 else []) (mEventList w)"
    using edge_step [OF Cons.prems] by blast
  from Cons.IH [OF w1(2)] w1(1,3) show ?case
    by (auto split: if_splits)
qed simp

section \<open>An example resource with event blocks\<close>

definition ev_block ::
  "SFBInterfaceSpec \<Rightarrow> fb_class_data \<Rightarrow> iec_any list \<Rightarrow> iec_any list \<Rightarrow> conn_point list list \<Rightarrow> fb_class_data fb" where
  "ev_block s c dis dos eos =
     \<lparr>fb_spec = s, m_nFBInstanceName = ''FB'', m_enFBState = e_RUNNING, m_bDeletable = True,
      m_aoDIs = map (\<lambda>v. \<lparr>dp_val = v, dp_forced = False\<rparr>) dis,
      m_aoDOs = map (\<lambda>v. \<lparr>dp_val = v, dp_forced = False\<rparr>) dos, m_apoDIConns = replicate (length dis) None,
      mEOConns = eos, mDOConns = map (\<lambda>v. \<lparr>dc_dests = [], m_poValue = Some v, mSpecialCastConnection = False\<rparr>) dos,
      m_apoAdapters = [], m_nEIMonitorCount = replicate (m_nNumEIs s) monitor_init,
      m_nEOMonitorCount = replicate (m_nNumEOs s) monitor_init, m_updated = False, fb_class = c\<rparr>"

definition ev_timer :: timerha where
  "ev_timer =
     \<lparr>m_stForteTime = time_zero, m_pstTimedFBList = None,
      m_entries = (\<lambda>x. \<lparr>m_stTimeOut = time_zero, m_nInterval = 0,
        m_eType = (if x = 4 then e_Periodic else e_SingleShot), m_pstNext = None\<rparr>)\<rparr>"

text \<open>Block 1 counts up to 3, 2 counts both ways from 2, 3 and 6 are delays of 4 and 9 ms, 4 is a cycle of
  5 ms, 5 is an edge detector and 7 a split that feeds 1 and 5; an event for 7 is pending.\<close>

definition ev_world :: rt where
  "ev_world =
     \<lparr>mEventList = \<lparr>slots = [None, None, None, Some \<lparr>mFB = 7, mPortId = 0\<rparr>], rstart = 3, rend = 2\<rparr>,
      mExternalEventList = ring_clear 4, mProcessingEvents = True, mSuspendSemaphore = 0, mAlive = True,
      w_fbs = [1 \<mapsto> ev_block E_CTU_spec C_E_CTU [Elem e_UINT 3] [Elem e_BOOL 0, Elem e_UINT 9] [[\<lparr>mFB = 2, mPortId = 0\<rparr>], []],
        2 \<mapsto> ev_block E_CTUD_spec (C_E_CTUD 0) [Elem e_UINT 2] [Elem e_BOOL 0, Elem e_BOOL 0, Elem e_UINT 0] [[], [], []],
        3 \<mapsto> ev_block CTimedFB_spec (C_Timed T_E_DELAY False) [Elem e_TIME 4000000] [] [[]],
        4 \<mapsto> ev_block CTimedFB_spec (C_Timed T_E_CYCLE False) [Elem e_TIME 5000000] [] [[]],
        5 \<mapsto> ev_block E_R_TRIG_spec (C_E_R_TRIG False) [Elem e_BOOL 0] [] [[\<lparr>mFB = 1, mPortId = 0\<rparr>]],
        6 \<mapsto> ev_block CTimedFB_spec (C_Timed T_E_DELAY True) [Elem e_TIME 4000000] [] [[]],
        7 \<mapsto> ev_block E_SPLIT_spec C_E_SPLIT [] [] [[\<lparr>mFB = 1, mPortId = 0\<rparr>], [\<lparr>mFB = 5, mPortId = 0\<rparr>]]],
      w_timer = ev_timer, w_platform = plain_platform, w_com = com_start\<rparr>"

lemma ev_block_fields [simp]:
  "fb_spec (ev_block s c dis dos eos) = s" "fb_class (ev_block s c dis dos eos) = c"
  "mEOConns (ev_block s c dis dos eos) = eos"
  "m_aoDIs (ev_block s c dis dos eos) = map (\<lambda>v. \<lparr>dp_val = v, dp_forced = False\<rparr>) dis"
  "m_aoDOs (ev_block s c dis dos eos) = map (\<lambda>v. \<lparr>dp_val = v, dp_forced = False\<rparr>) dos"
  by (simp_all add: ev_block_def)

lemma unmonitored_init [simp]: "unmonitored monitor_init"
  by (simp add: unmonitored_def monitor_init_def)

lemma ev_block_plain:
  "\<forall>eo < m_nNumEOs s. set (eo_with s eo) \<subseteq> {..<length dos} \<Longrightarrow> plain_block (ev_block s c dis dos eos)"
  by (auto simp: plain_block_def) (auto simp: ev_block_def)

lemma ev_world_fields [simp]:
  "w_timer ev_world = ev_timer" "now ev_timer = 0" "w_platform ev_world = plain_platform"
  "mExternalEventList ev_world = ring_clear 4"
  by (simp_all add: ev_world_def ev_timer_def ticks_def time_zero_def)

lemma ev_timer_rep: "timer_rep (w_timer ev_world) []"
  by (simp add: timer_rep_def ev_world_def ev_timer_def)

lemma ev_wf: "ecet_wf ev_world"
proof -
  have "ring_wf (mEventList ev_world)"
    by (auto simp: ev_world_def ring_wf_def ring_count_def ring_pos_def less_Suc_eq numeral_eq_Suc)
  then show ?thesis
    by (simp add: ecet_wf_def ring_clear_wf)
qed

lemma ev_queue: "ring_queue (mEventList ev_world) = [\<lparr>mFB = 7, mPortId = 0\<rparr>]" "ring_latch (mEventList ev_world) = None"
  "ring_queue (mExternalEventList ev_world) = []" "ecet_size ev_world = 4"
  by (simp_all add: ring_clear_abs) (simp_all add: ring_queue_def ring_latch_def ring_count_def ring_pos_def ecet_size_def ev_world_def)

lemma ev_deliver:
  assumes "w_fbs w 7 = w_fbs ev_world 7" "mFB ev = 7"
  obtains w' where "rt_deliver ev w = Some w'"
proof -
  have "\<exists>w'. exec_event 7 e v = Some w'" if "class_of 7 v = Some C_E_SPLIT" for e v
    using that untimed_returns [of v 7 _ e] by (auto simp: class_of_def)
  then have "\<exists>w'. rt_deliver ev w = Some w'"
    using assms by (auto simp: receiveInputEvent_def Let_def ev_world_def class_of_def)
  then show thesis
    using that by blast
qed

lemma ev_round:
  assumes "mExternalEventList w = ring_clear 4" "ring_nonempty (mEventList w)"
    and "ring_first (mEventList w) = Some \<lparr>mFB = 7, mPortId = 0\<rparr>" "w_fbs w 7 = w_fbs ev_world 7"
  obtains w' where "run_iteration rt_deliver w = Some w'"
proof -
  have "\<not> externalEventOccured w"
    using assms(1) by (simp add: externalEventOccured_def ring_nonempty_def ring_clear_def)
  moreover obtain w1 where "rt_deliver \<lparr>mFB = 7, mPortId = 0\<rparr> w = Some w1"
    using ev_deliver [OF assms(4), of "\<lparr>mFB = 7, mPortId = 0\<rparr>"] by auto
  ultimately show thesis
    using that assms(2,3) by (simp add: run_iteration_def)
qed

theorem thread_keeps_shape_witness:
  "\<exists>w'. run_thread rt_deliver 1 ev_world = Some w' \<and> ecet_wf w' \<and> ecet_size w' = 4 \<and> world_shape w' = world_shape ev_world"
proof -
  obtain w' where "run_iteration rt_deliver ev_world = Some w'"
    by (rule ev_round [of ev_world]) (simp_all, simp_all add: ev_world_def ring_nonempty_def ring_first_def)
  then have w': "run_thread rt_deliver 1 ev_world = Some w'"
    by (simp add: ev_world_def)
  from thread_keeps_shape [OF ev_wf this] show ?thesis
    using w' ev_queue(4) by simp
qed


text \<open>The same resource after its event list has been filled up.\<close>

definition full_world :: rt where
  "full_world = ev_world\<lparr>mEventList := \<lparr>slots = [Some \<lparr>mFB = 5, mPortId = 0\<rparr>, Some \<lparr>mFB = 7, mPortId = 0\<rparr>],
     rstart = 1, rend = 0\<rparr>\<rparr>"

theorem event_list_latches_witness:
  "\<exists>w' k. run_thread rt_deliver 1 full_world = Some w' \<and> ring_latch (mEventList w') = Some \<lparr>mFB = 5, mPortId = 0\<rparr>
    \<and> ring_queue (mEventList w') = drop k [\<lparr>mFB = 7, mPortId = 0\<rparr>]"
proof -
  have wf: "ecet_wf full_world"
    using ev_wf by (auto simp: ecet_wf_def full_world_def ring_wf_def ring_count_def ring_pos_def less_Suc_eq numeral_eq_Suc)
  have l: "ring_latch (mEventList full_world) = Some \<lparr>mFB = 5, mPortId = 0\<rparr>"
    "ring_queue (mEventList full_world) = [\<lparr>mFB = 7, mPortId = 0\<rparr>]"
    by (simp_all add: full_world_def ring_latch_def ring_queue_def ring_count_def ring_pos_def)
  obtain w1 where "run_iteration rt_deliver full_world = Some w1"
    by (rule ev_round [of full_world]) (simp_all add: full_world_def ring_nonempty_def ring_first_def)
  then have "\<exists>w'. run_thread rt_deliver 1 full_world = Some w'"
    by (simp add: full_world_def ev_world_def)
  then obtain w' where w': "run_thread rt_deliver 1 full_world = Some w'"
    by blast
  from event_list_latches [OF wf l(1) w'] show ?thesis
    using w' l(2) by auto
qed

theorem untimed_delivery_returns_witness:
  "\<exists>w'. rt_deliver \<lparr>mFB = 2, mPortId = 3\<rparr> ev_world = Some w'"
  by (rule untimed_delivery_returns) (simp add: ev_world_def)

lemma ev_counter: "counter_at 1 ev_world C_E_CTU E_CTU_spec 3 9 False [[\<lparr>mFB = 2, mPortId = 0\<rparr>], []]"
proof -
  have "plain_block (ev_block E_CTU_spec C_E_CTU [Elem e_UINT 3] [Elem e_BOOL 0, Elem e_UINT 9] [[\<lparr>mFB = 2, mPortId = 0\<rparr>], []])"
    by (rule ev_block_plain) (auto simp: E_CTU_spec_def eo_with_def with_list_def less_Suc_eq numeral_eq_Suc)
  then show ?thesis
    by (simp add: counter_at_def counter_block_def ev_world_def op_uint16_def op_bool_def elem_bits_def)
qed

theorem E_CTU_counts_witness:
  "\<exists>w'. exec_all 1 (1 # replicate 5 0) ev_world = Some w'
    \<and> counter_at 1 w' C_E_CTU E_CTU_spec 3 5 True [[\<lparr>mFB = 2, mPortId = 0\<rparr>], []]"
  using E_CTU_counts [OF ev_counter, of 5] by auto

lemma ev_ctud: "ctud_at 2 ev_world (C_E_CTUD 0) 2 (0, False, False) [[], [], []]"
proof -
  have "plain_block (ev_block E_CTUD_spec (C_E_CTUD 0) [Elem e_UINT 2] [Elem e_BOOL 0, Elem e_BOOL 0, Elem e_UINT 0] [[], [], []])"
    by (rule ev_block_plain) (auto simp: E_CTUD_spec_def eo_with_def with_list_def less_Suc_eq numeral_eq_Suc)
  then show ?thesis
    by (simp add: ctud_at_def ctud_block_def ev_world_def op_uint16_def op_bool_def elem_bits_def)
qed

theorem E_CTUD_refines_witness:
  "\<exists>w'. exec_all 2 [1, 0, 0, 1, 3] ev_world = Some w'
    \<and> ctud_at 2 w' (C_E_CTUD 0) 2 (2, True, False) [[], [], []]"
  using E_CTUD_refines [OF ev_ctud, of "[1, 0, 0, 1, 3]"] by (simp add: ctud_next_def)

lemma ev_classes [simp]:
  "class_of 3 ev_world = Some (C_Timed T_E_DELAY False)" "class_of 4 ev_world = Some (C_Timed T_E_CYCLE False)"
  "class_of 6 ev_world = Some (C_Timed T_E_DELAY True)" "is_periodic ev_timer 4" "\<not> is_periodic ev_timer 3"
  by (simp_all add: class_of_def ev_world_def is_periodic_def ev_timer_def)

lemma ev_periods [simp]:
  "period (timer_interval (op_int64 (DI 3 0 ev_world))) = 4" "period (timer_interval (op_int64 (DI 4 0 ev_world))) = 5"
  "period (timer_interval (op_int64 (DI 6 0 ev_world))) = 4"
  by (simp_all add: DI_def ev_world_def op_int64_def elem_bits_def period_def timer_interval_def
      cg_nForteTicksPerSecond_def FORTE_TIME_BASE_UNITS_PER_SECOND_def)

theorem E_DELAY_fires_once_witness:
  "\<exists>w1 w' fs. exec_event 3 0 ev_world = Some w1 \<and> rt_ticks 4 w1 = Some w' \<and> count_list fs 3 = 1
    \<and> mExternalEventList w' = fold ring_push (map ext_event fs) (ring_clear 4)"
  using E_DELAY_fires_once [OF _ _ ev_timer_rep, of 3 4] by auto

theorem E_CYCLE_period_witness:
  "\<exists>w1 w' fs. exec_event 4 0 ev_world = Some w1 \<and> rt_ticks 17 w1 = Some w' \<and> count_list fs 4 = 3
    \<and> mExternalEventList w' = fold ring_push (map ext_event fs) (ring_clear 4)"
  using E_CYCLE_period [OF _ _ ev_timer_rep, of 4 17] by auto

theorem E_DELAY_restart_race_witness:
  "\<exists>w'. exec_all 6 [1, 0, cg_nExternalEventID, 0] ev_world = Some w' \<and> exec_event 3 0 w' = None"
  by (rule E_DELAY_restart_race [OF _ ev_timer_rep]) simp_all

lemma ev_edge: "edge_at 5 ev_world True False [[\<lparr>mFB = 1, mPortId = 0\<rparr>]]"
proof -
  have "plain_block (ev_block E_R_TRIG_spec (C_E_R_TRIG False) [Elem e_BOOL 0] [] [[\<lparr>mFB = 1, mPortId = 0\<rparr>]])"
    by (rule ev_block_plain) (simp add: E_R_TRIG_spec_def one_di_spec_def eo_with_def with_list_def)
  then show ?thesis
    by (simp add: edge_at_def ev_world_def edge_class_def E_R_TRIG_spec_def one_di_spec_def)
qed

theorem edge_detectors_count_edges_witness:
  "\<exists>w'. run_samples 5 [True, True, False, True] ev_world = Some w'
    \<and> mEventList w' = fold ring_push [\<lparr>mFB = 1, mPortId = 0\<rparr>, \<lparr>mFB = 1, mPortId = 0\<rparr>] (mEventList ev_world)"
  using edge_detectors_count_edges [OF ev_edge, of "[True, True, False, True]"] by (simp add: numeral_2_eq_2)

text \<open>The resource without its timed blocks.\<close>

definition quiet_world :: rt where
  "quiet_world = ev_world\<lparr>w_fbs := (w_fbs ev_world)(3 := None, 4 := None, 6 := None),
     mEventList := fold ring_push [\<lparr>mFB = 7, mPortId = 0\<rparr>, \<lparr>mFB = 2, mPortId = 3\<rparr>] (ring_clear 4)\<rparr>"


end
