(* ===== verification/Unicode_Utils.thy ===== *)
theory Unicode_Utils
  imports Data_Types
begin

text \<open>
  UTF-8 and UTF-16, \<^verbatim>\<open>src/src/core/datatypes/unicode_utils.{h,cpp}\<close>, and the conversion of wide strings,
  \<open>fromUTF16\<close> and \<open>toUTF16\<close> of \<^verbatim>\<open>src/src/core/datatypes/forte_wstring.cpp\<close> (a WSTRING is kept as UTF-8).

  A buffer is a list of bytes; what lies behind its end is the terminator 0 that every string buffer
  has (a read there never changes the result). A negative return value is \<open>None\<close>.
\<close>

section \<open>Code points\<close>

definition scm_unBOMMarker :: u32 where "scm_unBOMMarker = 0xfeff"
definition scm_unBOMMarkerSwapped :: u32 where "scm_unBOMMarkerSwapped = 0xfffe"

definition byte_at :: "u8 list \<Rightarrow> nat \<Rightarrow> u8" where
  "byte_at s k = (if k < length s then s ! k else 0)"

text \<open>The last six bits of a continuation byte, the test for one, and its construction.\<close>

abbreviation is_cont :: "u8 \<Rightarrow> bool" where
  "is_cont b \<equiv> b AND 0xc0 = 0x80"

definition cont_bits :: "u8 \<Rightarrow> u32" where
  "cont_bits b = ucast b AND 0x3f"

definition cont_byte :: "u32 \<Rightarrow> u8" where
  "cont_byte v = ucast (0x80 OR (v AND 0x3f))"

definition parseUTF8Codepoint :: "u8 list \<Rightarrow> (u32 \<times> nat) option" where
  "parseUTF8Codepoint s =
     (let b0 = byte_at s 0; b1 = byte_at s 1; b2 = byte_at s 2; b3 = byte_at s 3 in
      if b0 AND 0x80 = 0 then Some (ucast b0 AND 0x7f, 1)
      else if b0 AND 0xe0 = 0xc0 then
        (if \<not> is_cont b1 then None
         else Some (push_bit 6 (ucast b0 AND 0x1f) OR cont_bits b1, 2))
      else if b0 AND 0xf0 = 0xe0 then
        (if \<not> is_cont b1 \<or> \<not> is_cont b2 then None
         else Some (push_bit 12 (ucast b0 AND 0x0f) OR push_bit 6 (cont_bits b1) OR cont_bits b2, 3))
      else if b0 AND 0xf8 = 0xf0 then
        (if \<not> is_cont b1 \<or> \<not> is_cont b2 \<or> \<not> is_cont b3 then None
         else Some (push_bit 18 (ucast b0 AND 0x07) OR push_bit 12 (cont_bits b1)
                OR push_bit 6 (cont_bits b2) OR cont_bits b3, 4))
      else None)"

text \<open>\<open>encodeUTF8Codepoint\<close> with a buffer that is large enough, and the length it returns.\<close>

definition encodeUTF8Codepoint :: "u32 \<Rightarrow> u8 list option" where
  "encodeUTF8Codepoint v =
     (if v < 0x80 then Some [ucast v]
      else if v < 0x800 then Some [ucast (0xc0 OR (drop_bit 6 v AND 0x1f)), cont_byte v]
      else if v < 0x10000 then
        Some [ucast (0xe0 OR (drop_bit 12 v AND 0x1f)), cont_byte (drop_bit 6 v), cont_byte v]
      else if v < 0x110000 then
        Some [ucast (0xf0 OR (drop_bit 18 v AND 0x1f)), cont_byte (drop_bit 12 v), cont_byte (drop_bit 6 v),
          cont_byte v]
      else None)"

text \<open>The two bytes of a 16-bit word in either byte order.\<close>

definition word_bytes :: "bool \<Rightarrow> u16 \<Rightarrow> u8 list" where
  "word_bytes little w = (if little then [ucast w, ucast (drop_bit 8 w)] else [ucast (drop_bit 8 w), ucast w])"

definition bytes_word :: "bool \<Rightarrow> u8 \<Rightarrow> u8 \<Rightarrow> u16" where
  "bytes_word little a b = (if little then ucast a OR push_bit 8 (ucast b) else push_bit 8 (ucast a) OR ucast b)"

definition parseUTF16Codepoint :: "bool \<Rightarrow> u8 list \<Rightarrow> (u32 \<times> nat) option" where
  "parseUTF16Codepoint little s =
     (let nFirstWord = bytes_word little (byte_at s 0) (byte_at s 1) in
      if nFirstWord AND 0xfc00 = 0xd800 then
        (let nSecondWord = bytes_word little (byte_at s 2) (byte_at s 3) in
         if nSecondWord AND 0xfc00 \<noteq> 0xdc00 then None
         else Some (0x10000 + (push_bit 10 (ucast (nFirstWord AND 0x3ff)) OR ucast (nSecondWord AND 0x3ff)), 4))
      else Some (ucast nFirstWord, 2))"

definition encodeUTF16Codepoint :: "bool \<Rightarrow> u32 \<Rightarrow> u8 list option" where
  "encodeUTF16Codepoint little v =
     (if (0xd800 \<le> v \<and> v < 0xe000) \<or> 0x110000 \<le> v then None
      else if v < 0x10000 then Some (word_bytes little (ucast v))
      else
        let nVal = v - 0x10000;
            nHighSurrogate = 0xd800 OR (ucast (drop_bit 10 nVal) AND 0x3ff);
            nLowSurrogate = 0xdc00 OR (ucast nVal AND 0x3ff)
        in Some (word_bytes little nHighSurrogate @ word_bytes little nLowSurrogate))"

lemma parseUTF8_length: "parseUTF8Codepoint s = Some (v, n) \<Longrightarrow> 0 < n"
  by (auto simp: parseUTF8Codepoint_def Let_def split: if_splits)

lemma parseUTF16_length: "parseUTF16Codepoint l s = Some (v, n) \<Longrightarrow> 0 < n"
  by (auto simp: parseUTF16Codepoint_def Let_def split: if_splits)

text \<open>
  \<open>checkUTF8\<close>: the number of code points and the width of the widest. The loop walks over the bytes;
  it is shared by the conversions: \<open>step\<close> is what it does with a code point.
\<close>

function walk_codepoints ::
  "(u8 list \<Rightarrow> (u32 \<times> nat) option) \<Rightarrow> (u32 \<Rightarrow> 'a \<Rightarrow> 'a option) \<Rightarrow> u8 list \<Rightarrow> 'a \<Rightarrow> 'a option" where
  "walk_codepoints parse step s acc =
     (if s = [] then Some acc
      else
        case parse s of
          None \<Rightarrow> None
        | Some (v, n) \<Rightarrow>
            if n = 0 \<or> length s < n then None
            else (case step v acc of None \<Rightarrow> None | Some acc' \<Rightarrow> walk_codepoints parse step (drop n s) acc'))"
  by pat_completeness auto
termination
  by (relation "measure (\<lambda>(p, f, s, a). length s)") auto

declare walk_codepoints.simps [simp del]

definition checkUTF8 :: "u8 list \<Rightarrow> (nat \<times> nat) option" where
  "checkUTF8 s =
     walk_codepoints parseUTF8Codepoint
       (\<lambda>v (n, w). Some (Suc n,
          if v \<noteq> scm_unBOMMarker then
            (if 0x10000 \<le> v then 21 else if 0x100 \<le> v \<and> w < 16 then 16 else if 0x80 \<le> v \<and> w < 8 then 8 else w)
          else w))
       s (0, 7)"

section \<open>Wide strings\<close>

text \<open>\<open>toUTF16\<close> leaves byte order marks out; a negative result is \<open>None\<close>. With a null buffer it returns the
  length of what it would write.\<close>

definition utf16_bytes :: "u8 list \<Rightarrow> u8 list option" where
  "utf16_bytes s =
     walk_codepoints parseUTF8Codepoint
       (\<lambda>v acc. if v = scm_unBOMMarker then Some acc else map_option (\<lambda>b. acc @ b) (encodeUTF16Codepoint False v))
       s []"

definition toUTF16 :: "int \<Rightarrow> u8 list \<Rightarrow> u8 list option" where
  "toUTF16 n s =
     (case utf16_bytes s of None \<Rightarrow> None | Some bs \<Rightarrow> if n < int (length bs) then None else Some bs)"

definition scm_unMaxStringLen :: nat where "scm_unMaxStringLen = 65534"

definition fromUTF16 :: "u8 list \<Rightarrow> u8 list option" where
  "fromUTF16 s =
     (if s = [] then Some []
      else if odd (length s) then None
      else
        case parseUTF16Codepoint False s of
          None \<Rightarrow> None
        | Some (v, n) \<Rightarrow>
            let swapped = n = 2 \<and> v = scm_unBOMMarkerSwapped;
                t = (if n = 2 \<and> (v = scm_unBOMMarkerSwapped \<or> v = scm_unBOMMarker) then drop 2 s else s)
            in case walk_codepoints (parseUTF16Codepoint swapped)
                      (\<lambda>v acc. map_option (\<lambda>b. acc @ b) (encodeUTF8Codepoint v)) t [] of
                 None \<Rightarrow> None
               | Some r \<Rightarrow> if scm_unMaxStringLen < length r then None else Some r)"

end
