(* ===== verification/ASN1_Layer.thy ===== *)
theory ASN1_Layer
  imports Unicode_Utils "HOL-Library.Signed_Division"
begin

text \<open>
  The ASN.1 communication layer, \<^verbatim>\<open>src/src/core/cominfra/fbdkasn1layer.{h,cpp}\<close>, which every
  communication function block uses by default: it writes the data inputs of a block as tagged,
  big-endian values and reads the data outputs of a block from the packets of the layer below.

  The output buffer is the list of the bytes written so far; the size of the stream is the number of bytes
  that may still be written, as in the code, and \<open>None\<close> is its -1. The input buffer is the list of the
  bytes left; a read behind its end gives 0 (the code reads the tag of an array without checking for it;
  the following element then fails, whatever the byte was). A deserialization returns the code's
  number and the object as it is afterwards, also when it failed. User-defined types with their own
  serialization (\<open>e_External\<close>) are not modelled. The machine is little-endian and TIME counts nanoseconds
  (\<open>FORTE_TimeBaseUnitsPerSecond\<close>, the default).
\<close>

section \<open>Tags and sizes\<close>

definition e_APPLICATION :: u8 where "e_APPLICATION = 64"
definition e_CONSTRUCTED :: u8 where "e_CONSTRUCTED = 32"

text \<open>One entry for each type, in the order of the type ids: the tag, and the size of tag and value
  together (255 where it is not fixed).\<close>

definition csm_aDataTags :: "(u8 \<times> nat) list" where
  "csm_aDataTags =
    [(e_APPLICATION + 0, 255), (e_APPLICATION + 1, 1), (e_APPLICATION + 2, 2), (e_APPLICATION + 3, 3),
     (e_APPLICATION + 4, 5), (e_APPLICATION + 5, 9), (e_APPLICATION + 6, 2), (e_APPLICATION + 7, 3),
     (e_APPLICATION + 8, 5), (e_APPLICATION + 9, 9), (e_APPLICATION + 17, 2), (e_APPLICATION + 18, 3),
     (e_APPLICATION + 19, 5), (e_APPLICATION + 20, 9), (e_APPLICATION + 13, 9), (e_APPLICATION + 14, 9),
     (e_APPLICATION + 15, 9), (e_APPLICATION + 12, 9), (e_APPLICATION + 10, 5), (e_APPLICATION + 11, 9),
     (e_APPLICATION + 16, 255), (e_APPLICATION + 21, 255),
     (e_APPLICATION + e_CONSTRUCTED + 26, 255), (e_APPLICATION + e_CONSTRUCTED + 27, 255),
     (e_APPLICATION + e_CONSTRUCTED + 28, 255), (e_APPLICATION + e_CONSTRUCTED + 29, 255),
     (e_APPLICATION + e_CONSTRUCTED + 22, 255), (e_APPLICATION + e_CONSTRUCTED + 31, 255)]"

definition dt_tag :: "EDataTypeID \<Rightarrow> u8" where
  "dt_tag t = fst (csm_aDataTags ! dt_num t)"

definition dt_size :: "EDataTypeID \<Rightarrow> nat" where
  "dt_size t = snd (csm_aDataTags ! dt_num t)"

text \<open>The types whose value is written as its bytes, most significant byte first.\<close>

definition simple_type :: "EDataTypeID \<Rightarrow> bool" where
  "simple_type t \<longleftrightarrow> (e_BOOL < t \<and> t \<le> e_DATE_AND_TIME) \<or> t = e_REAL \<or> t = e_LREAL"

fun getASN1StructType :: "iec_any \<Rightarrow> u8" where
  "getASN1StructType (Struct n a ns xs) = a"
| "getASN1StructType x = 0"

section \<open>Serialization\<close>

definition be_bytes :: "nat \<Rightarrow> u64 \<Rightarrow> u8 list" where
  "be_bytes n w = rev (map (\<lambda>i. ucast (drop_bit (8 * i) w)) [0..<n])"

definition serializeTag :: "u8 list \<Rightarrow> iec_any \<Rightarrow> u8 list" where
  "serializeTag buf x =
     buf @ [if getDataTypeID x \<noteq> e_STRUCT then dt_tag (getDataTypeID x) else getASN1StructType x]"

definition serializeValueSimpleDataType :: "int \<Rightarrow> u8 list \<Rightarrow> EDataTypeID \<Rightarrow> u64 \<Rightarrow> u8 list option" where
  "serializeValueSimpleDataType n buf t w =
     (let nRetVal = dt_size t - 1 in if int nRetVal \<le> n then Some (buf @ be_bytes nRetVal w) else None)"

text \<open>TIME is kept in nanoseconds and sent in microseconds.\<close>

definition getInMicroSeconds :: "u64 \<Rightarrow> u64" where
  "getInMicroSeconds w = word_of_int (sint w sdiv 1000)"

definition setFromMicroSeconds :: "u64 \<Rightarrow> u64" where
  "setFromMicroSeconds v = v * 1000"

definition serializeValueTime :: "int \<Rightarrow> u8 list \<Rightarrow> u64 \<Rightarrow> u8 list option" where
  "serializeValueTime n buf w = (if 8 \<le> n then Some (buf @ be_bytes 8 (getInMicroSeconds w)) else None)"

text \<open>The two bytes of a 16-bit length.\<close>

definition len_bytes :: "nat \<Rightarrow> u8 list" where
  "len_bytes k = [of_nat (k div 256), of_nat k]"

definition serializeValueString :: "int \<Rightarrow> u8 list \<Rightarrow> u8 list \<Rightarrow> u8 list option" where
  "serializeValueString n buf s =
     (if int (length s) + 2 \<le> n then Some (buf @ len_bytes (length s) @ s) else None)"

text \<open>The length of a wide string counts 16-bit units.\<close>

definition serializeValueWString :: "int \<Rightarrow> u8 list \<Rightarrow> u8 list \<Rightarrow> u8 list option" where
  "serializeValueWString n buf s =
     (if n < 2 then None
      else case toUTF16 (n - 2) s of
             None \<Rightarrow> None
           | Some bs \<Rightarrow>
               if 131070 < length bs then None
               else Some (buf @ [of_nat (length bs div 512), of_nat (length bs div 2)] @ bs))"

text \<open>The loops over elements and members: what is left of the stream shrinks by what was written.\<close>

primrec ser_all :: "(int \<Rightarrow> u8 list \<Rightarrow> iec_any \<Rightarrow> u8 list option) \<Rightarrow> int \<Rightarrow> u8 list \<Rightarrow> iec_any list
    \<Rightarrow> u8 list option" where
  "ser_all f n buf [] = Some buf"
| "ser_all f n buf (x # xs) =
     (case f n buf x of
        None \<Rightarrow> None
      | Some buf' \<Rightarrow> ser_all f (n - (int (length buf') - int (length buf))) buf' xs)"

lemma ser_all_cong [fundef_cong]:
  assumes "n = n'" "buf = buf'" "xs = ys" "\<And>n b x. x \<in> set ys \<Longrightarrow> f n b x = g n b x"
  shows "ser_all f n buf xs = ser_all g n' buf' ys"
proof -
  have "(\<And>n b x. x \<in> set xs \<Longrightarrow> f n b x = g n b x) \<Longrightarrow> ser_all f n buf xs = ser_all g n buf xs" for n buf
    by (induction xs arbitrary: n buf) (auto split: option.split)
  then show ?thesis
    using assms by blast
qed

lemma size_list_mem: "(x :: iec_any) \<in> set xs \<Longrightarrow> size x < size_list size xs"
  by (induction xs) auto

text \<open>The value of a BOOL is in its tag, the byte in front: FALSE takes the type off it again. Array
  elements follow one common tag, struct members have none; but a BOOL always brings its own.\<close>

function serializeValue :: "int \<Rightarrow> u8 list \<Rightarrow> iec_any \<Rightarrow> u8 list option"
  and serializeDataPoint :: "int \<Rightarrow> u8 list \<Rightarrow> iec_any \<Rightarrow> u8 list option"
  and serializeArray :: "int \<Rightarrow> u8 list \<Rightarrow> iec_any list \<Rightarrow> u8 list option"
  and serializeValueStruct :: "int \<Rightarrow> u8 list \<Rightarrow> iec_any list \<Rightarrow> u8 list option" where
  "serializeValue n buf x =
     (case x of
        Elem t w \<Rightarrow>
          if simple_type t then serializeValueSimpleDataType n buf t w
          else if t = e_BOOL then (if op_bool x then Some buf else Some (butlast buf @ [last buf - 1]))
          else if t = e_TIME then serializeValueTime n buf w
          else if t = e_STRUCT then Some buf
          else None
      | WStr s \<Rightarrow> serializeValueWString n buf s
      | Str s \<Rightarrow> serializeValueString n buf s
      | Arr r xs \<Rightarrow> serializeArray n buf xs
      | Struct sn a ns xs \<Rightarrow> serializeValueStruct n buf xs)"
| "serializeDataPoint n buf x =
     (if 0 < n then serializeValue (n - 1) (serializeTag buf x) x else None)"
| "serializeArray n buf xs =
     (let b = buf @ len_bytes (length xs) in
      case xs of
        [] \<Rightarrow> None
      | x0 # _ \<Rightarrow>
          if getDataTypeID x0 = e_BOOL then ser_all serializeDataPoint (n - 2) b xs
          else ser_all serializeValue (n - 3) (serializeTag b x0) xs)"
| "serializeValueStruct n buf xs =
     ser_all (\<lambda>m b y. if getDataTypeID y = e_BOOL then serializeDataPoint m b y else serializeValue m b y) n buf xs"
  by pat_completeness auto
termination
  by (relation "measure (case_sum (case_sum (\<lambda>(n, b, x). 2 * size x) (\<lambda>(n, b, x). 2 * size x + 1))
    (case_sum (\<lambda>(n, b, xs). 2 * size_list size xs + 1) (\<lambda>(n, b, xs). 2 * size_list size xs + 1)))")
    (auto dest: size_list_mem)
declare serializeValue.simps [simp del] serializeDataPoint.simps [simp del] serializeArray.simps [simp del]
  serializeValueStruct.simps [simp del]

definition scm_nNull :: u8 where "scm_nNull = 5"

text \<open>All inputs of a block; no input at all is sent as one Null byte. (The pointers are never null
  here.) \<open>serializeDataPointArray\<close> does the same with an array of pointers.\<close>

definition serializeFBDataPointArray :: "int \<Rightarrow> iec_any list \<Rightarrow> u8 list option" where
  "serializeFBDataPointArray n xs = (if xs = [] then Some [scm_nNull] else ser_all serializeDataPoint n [] xs)"

definition serializeDataPointArray :: "int \<Rightarrow> iec_any list \<Rightarrow> u8 list option" where
  "serializeDataPointArray n xs = (if xs = [] then Some [scm_nNull] else ser_all serializeDataPoint n [] xs)"

definition getRequiredWString :: "u8 list \<Rightarrow> int" where
  "getRequiredWString s = (case utf16_bytes s of None \<Rightarrow> -1 | Some bs \<Rightarrow> int (length bs)) + 3"

fun getRequiredSerializationSize :: "iec_any \<Rightarrow> int" where
  "getRequiredSerializationSize (Str s) = int (length s) + 3"
| "getRequiredSerializationSize (WStr s) = getRequiredWString s"
| "getRequiredSerializationSize (Arr r xs) =
     3 + (if getDataTypeID r = e_BOOL then int (length xs)
          else sum_list (map getRequiredSerializationSize xs) - (int (length xs) - 1))"
| "getRequiredSerializationSize (Elem t w) = (if t = e_ARRAY then 4 else int (dt_size t))"
| "getRequiredSerializationSize (Struct n a ns xs) = int (dt_size e_STRUCT)"

section \<open>Deserialization\<close>

definition deserializeTag :: "u8 \<Rightarrow> iec_any \<Rightarrow> bool \<times> iec_any" where
  "deserializeTag b x =
     (if getDataTypeID x = e_BOOL then
        (if b = e_APPLICATION \<or> b = e_APPLICATION + 1 then (True, setTBOOL8 (dt_tag e_BOOL = b) x) else (False, x))
      else if getDataTypeID x = e_STRUCT then (getASN1StructType x = b, x)
      else (dt_tag (getDataTypeID x) = b, x))"

definition be_word :: "u8 list \<Rightarrow> u64" where
  "be_word bs = foldl (\<lambda>a b. push_bit 8 a OR ucast b) 0 bs"

text \<open>The union is cleared, or filled with ones when a negative SINT, INT or DINT arrives, and its low
  bytes are overwritten.\<close>

definition deserializeValueSimpleDataType :: "u8 list \<Rightarrow> EDataTypeID \<Rightarrow> u64 \<Rightarrow> int \<times> u64" where
  "deserializeValueSimpleDataType bs t w =
     (let nValueSize = dt_size t - 1 in
      if nValueSize \<le> length bs then
        (int nValueSize,
         (if t \<le> e_DINT \<and> byte_at bs 0 AND 0x80 \<noteq> 0
          then (-1 AND NOT (mask (8 * nValueSize))) else 0) OR be_word (take nValueSize bs))
      else (-1, w))"

definition deserializeValueTime :: "u8 list \<Rightarrow> u64 \<Rightarrow> int \<times> u64" where
  "deserializeValueTime bs w =
     (if 8 \<le> length bs then (8, setFromMicroSeconds (be_word (take 8 bs))) else (-1, w))"

definition word_len :: "u8 list \<Rightarrow> nat" where
  "word_len bs = unat (byte_at bs 0) * 256 + unat (byte_at bs 1)"

definition deserializeValueWString :: "u8 list \<Rightarrow> u8 list \<Rightarrow> int \<times> u8 list" where
  "deserializeValueWString bs old =
     (if length bs < 2 then (-1, old)
      else
        let unStringSize = word_len bs in
        if length bs < unStringSize * 2 + 2 then (-1, old)
        else case fromUTF16 (take (unStringSize * 2) (drop 2 bs)) of
               None \<Rightarrow> (-1, old)
             | Some s \<Rightarrow> (int (unStringSize * 2 + 2), s))"

definition deserializeValueString :: "u8 list \<Rightarrow> u8 list \<Rightarrow> int \<times> u8 list" where
  "deserializeValueString bs old =
     (if length bs < 2 then (-1, old)
      else
        let unStringSize = word_len bs in
        if length bs < unStringSize + 2 then (-1, old)
        else (int (2 + unStringSize), take unStringSize (drop 2 bs)))"

text \<open>The loops over targets: whether all of them were read, the number of bytes (or the value that
  stopped the loop), and the targets afterwards.\<close>

primrec des_all :: "(u8 list \<Rightarrow> iec_any \<Rightarrow> int \<times> iec_any) \<Rightarrow> u8 list \<Rightarrow> iec_any list
    \<Rightarrow> bool \<times> int \<times> iec_any list" where
  "des_all f bs [] = (True, 0, [])"
| "des_all f bs (x # xs) =
     (case f bs x of
        (n, x') \<Rightarrow>
          if n \<le> 0 then (False, n, x' # xs)
          else (case des_all f (drop (nat n) bs) xs of
                  (ok, m, xs') \<Rightarrow> (ok, (if ok then n + m else m), x' # xs')))"

lemma des_all_cong [fundef_cong]:
  assumes "bs = bs'" "xs = ys" "\<And>b x. x \<in> set ys \<Longrightarrow> f b x = g b x"
  shows "des_all f bs xs = des_all g bs' ys"
proof -
  have "(\<And>b x. x \<in> set xs \<Longrightarrow> f b x = g b x) \<Longrightarrow> des_all f bs xs = des_all g bs xs" for bs
    by (induction xs arbitrary: bs) (auto split: prod.split)
  then show ?thesis
    using assms by blast
qed

lemma size_deserializeTag [simp]: "size (snd (deserializeTag b x)) = size x"
  by (cases x) (auto simp: deserializeTag_def setTBOOL8_def setLargestUInt_def)

text \<open>
  The elements an incoming array has beyond the size of the target are read into a clone of its first
  element (for BOOL arrays: into a BOOL of their own) and dropped. The first element is copied here as it
  was on entry: how many bytes a clone takes does not depend on what it holds. An array without a
  block has no first element: the code would follow a null pointer there, the model answers -1.
\<close>

definition array_targets :: "nat \<Rightarrow> iec_any \<Rightarrow> iec_any list \<Rightarrow> iec_any list" where
  "array_targets k c xs = take k xs @ replicate (k - length xs) c"

lemma size_array_targets: "y \<in> set (array_targets k (hd xs) xs) \<Longrightarrow> xs \<noteq> [] \<Longrightarrow> size y < size_list size xs"
  by (cases xs) (auto simp: array_targets_def in_set_replicate dest!: size_list_mem in_set_takeD split: if_splits)

lemma size_bool_targets:
  "y \<in> set (array_targets k (Elem e_BOOL 0) xs) \<Longrightarrow> xs \<noteq> [] \<Longrightarrow> size y < size_list size xs"
  by (cases xs) (auto simp: array_targets_def in_set_replicate dest!: size_list_mem in_set_takeD split: if_splits)

function deserializeValue :: "u8 list \<Rightarrow> iec_any \<Rightarrow> int \<times> iec_any"
  and deserializeDataPoint :: "u8 list \<Rightarrow> iec_any \<Rightarrow> int \<times> iec_any"
  and deserializeArray :: "u8 list \<Rightarrow> iec_any list \<Rightarrow> int \<times> iec_any list"
  and deserializeValueBoolArray :: "u8 list \<Rightarrow> iec_any list \<Rightarrow> nat \<Rightarrow> int \<times> iec_any list"
  and deserializeValueStruct :: "u8 list \<Rightarrow> iec_any list \<Rightarrow> int \<times> iec_any list" where
  "deserializeValue bs x =
     (case x of
        Elem t w \<Rightarrow>
          if simple_type t then apsnd (Elem t) (deserializeValueSimpleDataType bs t w)
          else if t = e_BOOL then (0, x)
          else if t = e_TIME then apsnd (Elem t) (deserializeValueTime bs w)
          else if t = e_STRUCT then (0, x)
          else if t = e_ARRAY \<and> 2 \<le> length bs \<and> word_len bs = 0 then (2, x)
          else (-1, x)
      | WStr s \<Rightarrow> apsnd WStr (deserializeValueWString bs s)
      | Str s \<Rightarrow> apsnd Str (deserializeValueString bs s)
      | Arr r xs \<Rightarrow> apsnd (Arr r) (deserializeArray bs xs)
      | Struct sn a ns xs \<Rightarrow> apsnd (Struct sn a ns) (deserializeValueStruct bs xs))"
| "deserializeDataPoint bs x =
     (if bs = [] then (-1, x)
      else if hd bs AND e_APPLICATION \<noteq> e_APPLICATION then (-1, x)
      else if \<not> fst (deserializeTag (hd bs) x) then (-2, x)
      else (case deserializeValue (tl bs) (snd (deserializeTag (hd bs) x)) of (n, x') \<Rightarrow> (n + 1, x')))"
| "deserializeArray bs xs =
     (if length bs < 2 then (-1, xs)
      else
        let nSize = word_len bs in
        if nSize = 0 then (2, xs)
        else if xs = [] then (-1, xs)
        else if getDataTypeID (hd xs) = e_BOOL then
          (case deserializeValueBoolArray (drop 2 bs) xs nSize of
             (n, xs') \<Rightarrow> (if 0 \<le> n then 2 + n else n, xs'))
        else if \<not> fst (deserializeTag (byte_at bs 2) (hd xs)) then (-1, xs)
        else
          (case des_all deserializeValue (drop 3 bs) (array_targets nSize (hd xs) xs) of
             (ok, n, ys) \<Rightarrow> (if ok then 3 + n else n, take (length xs) ys @ drop nSize xs)))"
| "deserializeValueBoolArray bs xs nSize =
     (if xs = [] then (-1, xs)
      else
        (case des_all deserializeDataPoint bs (array_targets nSize (Elem e_BOOL 0) xs) of
           (ok, n, ys) \<Rightarrow> (n, take (length xs) ys @ drop nSize xs)))"
| "deserializeValueStruct bs xs =
     (case des_all (\<lambda>b y. if getDataTypeID y = e_BOOL then deserializeDataPoint b y else deserializeValue b y) bs xs of
        (ok, n, ys) \<Rightarrow> (n, ys))"
  by pat_completeness auto
termination
  by (relation "measure (case_sum (case_sum (\<lambda>(b, x). 2 * size x) (\<lambda>(b, x). 2 * size x + 1))
    (case_sum (\<lambda>(b, xs). 2 * size_list size xs + 1)
      (case_sum (\<lambda>(b, xs, k). 2 * size_list size xs) (\<lambda>(b, xs). 2 * size_list size xs + 1))))")
    (auto dest: size_list_mem size_array_targets dest!: size_bool_targets)

declare deserializeValue.simps [simp del] deserializeDataPoint.simps [simp del] deserializeArray.simps [simp del]
  deserializeValueBoolArray.simps [simp del] deserializeValueStruct.simps [simp del]

definition deserializeDataPointArray :: "u8 list \<Rightarrow> iec_any list \<Rightarrow> bool \<times> iec_any list" where
  "deserializeDataPointArray bs xs =
     (if xs = [] then (length bs = 1 \<and> hd bs = scm_nNull, [])
      else (case des_all deserializeDataPoint bs xs of (ok, n, ys) \<Rightarrow> (ok, ys)))"
section \<open>The layer\<close>

datatype EComResponse =
    e_Nothing | e_InitOk | e_ProcessDataOk | e_InitInvalidId | e_InitTerminated | e_ProcessDataInvalidObject
  | e_ProcessDataDataTypeError | e_ProcessDataInhibited | e_ProcessDataNoSocket | e_ProcessDataSendFailed
  | e_ProcessDataRecvFaild

text \<open>\<open>mDeserBuf\<close> holds the \<open>mDeserBufPos\<close> bytes kept from earlier packets; \<open>mDOPos\<close> is the next output to
  be read. The sizes of the two buffers grow as needed and only decide where they are allocated.\<close>

record asn1_layer =
  mStatSerBufSize :: nat
  mDeserBuf :: "u8 list"
  mDeserBufSize :: nat
  mDOPos :: nat
  RDs :: "iec_any list"

text \<open>The constructor: room for the data points whose size is fixed.\<close>

definition fixed_sizes :: "iec_any list \<Rightarrow> nat" where
  "fixed_sizes xs =
     sum_list (map (\<lambda>x. if dt_size (getDataTypeID x) \<noteq> 255 then dt_size (getDataTypeID x) + 1 else 0) xs)"

definition CFBDKASN1ComLayer :: "iec_any list \<Rightarrow> iec_any list \<Rightarrow> asn1_layer" where
  "CFBDKASN1ComLayer sds rds =
     \<lparr>mStatSerBufSize = fixed_sizes sds, mDeserBuf = [], mDeserBufSize = fixed_sizes rds, mDOPos = 0, RDs = rds\<rparr>"

text \<open>\<open>sendData\<close>: the response, and what the bottom layer was given. The bottom layer, if there is one,
  answers as its argument says. The buffer has the required size, which is the size of the static one
  or of one allocated for this call.\<close>

definition asn1_sendData :: "(u8 list \<Rightarrow> EComResponse) option \<Rightarrow> iec_any list \<Rightarrow> EComResponse \<times> u8 list option" where
  "asn1_sendData bottom sds =
     (case bottom of
        None \<Rightarrow> (e_ProcessDataNoSocket, None)
      | Some send \<Rightarrow>
          let unNeededBufferSize = sum_list (map getRequiredSerializationSize sds) in
          case serializeFBDataPointArray unNeededBufferSize sds of
            None \<Rightarrow> (e_ProcessDataDataTypeError, None)
          | Some bs \<Rightarrow> if bs = [] then (e_ProcessDataDataTypeError, None) else (send bs, Some bs))"

definition resizeDeserBuffer :: "nat \<Rightarrow> asn1_layer \<Rightarrow> asn1_layer" where
  "resizeDeserBuffer n L = L\<lparr>mDeserBufSize := n\<rparr>"

text \<open>
  The loop of \<open>recvData\<close>. \<open>fresh\<close> says that the bytes are read from the packet itself and not from
  \<open>mDeserBuf\<close>: only then does an incomplete data point go into \<open>mDeserBuf\<close>.
\<close>

function recv_loop :: "bool \<Rightarrow> u8 list \<Rightarrow> EComResponse \<Rightarrow> asn1_layer \<Rightarrow> EComResponse \<times> asn1_layer" where
  "recv_loop fresh bs eRetVal L =
     (if bs = [] then (eRetVal, L)
      else
        case (if RDs L = [] then (1, Elem e_ANY 0) else deserializeDataPoint bs (RDs L ! mDOPos L)) of
          (nBuf, x) \<Rightarrow>
            let L = (if RDs L = [] then L else L\<lparr>RDs := (RDs L)[mDOPos L := x]\<rparr>) in
            if nBuf \<le> 0 then
              if nBuf = -2 then (e_ProcessDataDataTypeError, L)
              else
                let L = (if fresh
                         then (if mDeserBufSize L < length bs then resizeDeserBuffer (length bs) L else L)
                                \<lparr>mDeserBuf := bs\<rparr>
                         else L)
                in if length (RDs L) \<le> mDOPos L then (e_ProcessDataOk, L\<lparr>mDOPos := 0\<rparr>) else (eRetVal, L)
            else
              let L = L\<lparr>mDOPos := mDOPos L + 1, mDeserBuf := []\<rparr> in
              if length (RDs L) \<le> mDOPos L
              then recv_loop fresh (drop (nat nBuf) bs) e_ProcessDataOk (L\<lparr>mDOPos := 0\<rparr>)
              else recv_loop fresh (drop (nat nBuf) bs) eRetVal L)"
  by pat_completeness auto
termination
  by (relation "measure (\<lambda>(f, bs, e, L). length bs)") auto

declare recv_loop.simps [simp del]

definition asn1_recvData :: "u8 list \<Rightarrow> asn1_layer \<Rightarrow> EComResponse \<times> asn1_layer" where
  "asn1_recvData packet L =
     (if mDeserBuf L = [] then recv_loop True packet e_Nothing L
      else
        let n = length packet + length (mDeserBuf L);
            L = (if mDeserBufSize L < n then resizeDeserBuffer n L else L);
            L = L\<lparr>mDeserBuf := mDeserBuf L @ packet\<rparr>
        in recv_loop False (mDeserBuf L) e_Nothing L)"

end
