(* ===== verification/Unicode_Laws.thy ===== *)
theory Unicode_Laws
  imports Unicode_Utils
begin

text \<open>
  What the conversions of \<^verbatim>\<open>unicode_utils.cpp\<close> and \<^verbatim>\<open>forte_wstring.cpp\<close> promise: each code point survives
  encoding and parsing in both encodings (bit by bit, \<open>u32_eqI\<close>), strings of code points survive the
  conversion to the wire format and back, and where the two directions disagree.
\<close>

section \<open>UTF-8\<close>

lemma cont_byte_is_cont [simp]: "is_cont (cont_byte v)"
  by (rule u8_eqI) (simp add: cont_byte_def bit_simps all_less_numeral)

lemma cont_bits_byte [simp]: "cont_bits (cont_byte v) = v AND 0x3f"
  by (rule u32_eqI) (simp add: cont_byte_def cont_bits_def bit_simps all_less_numeral)

lemma less_bit:
  fixes v :: u32
  assumes "unat v < 2 ^ k" "k \<le> n"
  shows "\<not> bit v n"
proof
  assume "bit v n"
  then have "bit (unat v) n"
    by (simp add: bit_unsigned_iff)
  moreover have "take_bit k (unat v) = unat v"
    using assms(1) by (simp add: take_bit_nat_eq_self)
  ultimately show False
    using assms(2) by (metis bit_take_bit_iff leD)
qed

text \<open>Which code points each length of UTF-8 covers, as bits.\<close>

lemma utf8_bits:
  fixes v :: u32
  shows "v < 0x80 \<Longrightarrow> 7 \<le> n \<Longrightarrow> \<not> bit v n" "v < 0x800 \<Longrightarrow> 11 \<le> n \<Longrightarrow> \<not> bit v n"
    "v < 0x10000 \<Longrightarrow> 16 \<le> n \<Longrightarrow> \<not> bit v n" "v < 0x110000 \<Longrightarrow> 21 \<le> n \<Longrightarrow> \<not> bit v n"
  using less_bit [of v 7 n] less_bit [of v 11 n] less_bit [of v 16 n] less_bit [of v 21 n]
  by (simp_all add: word_less_nat_alt)

lemma utf8_roundtrip2:
  assumes "v < 0x800"
  shows "(ucast (0xc0 OR (drop_bit 6 v AND 0x1f) :: u32) :: u8) AND 0x80 \<noteq> 0"
    "(ucast (0xc0 OR (drop_bit 6 v AND 0x1f) :: u32) :: u8) AND 0xe0 = 0xc0"
    "push_bit 6 (ucast (ucast (0xc0 OR (drop_bit 6 v AND 0x1f) :: u32) :: u8) AND 0x1f) OR (v AND 0x3f) = v"
proof -
  let ?b = "ucast (0xc0 OR (drop_bit 6 v AND 0x1f) :: u32) :: u8"
  have "bit (?b AND 0x80) 7"
    by (simp add: bit_simps)
  then show "?b AND 0x80 \<noteq> 0"
    by (metis bit_0_eq bot_apply bot_bool_def)
  show "?b AND 0xe0 = 0xc0"
    by (rule u8_eqI) (simp add: bit_simps all_less_numeral)
  show "push_bit 6 (ucast ?b AND 0x1f) OR (v AND 0x3f) = v"
    using utf8_bits(2) [OF assms]
    by (intro u32_eqI) (simp add: bit_simps all_less_numeral)
qed


lemma bit_neq_0: "bit (b :: u8) n \<Longrightarrow> b \<noteq> 0"
  by auto

lemma utf8_roundtrip3:
  assumes "v < 0x10000"
  shows "(ucast (0xe0 OR (drop_bit 12 v AND 0x1f) :: u32) :: u8) AND 0x80 \<noteq> 0"
    "(ucast (0xe0 OR (drop_bit 12 v AND 0x1f) :: u32) :: u8) AND 0xe0 \<noteq> 0xc0"
    "(ucast (0xe0 OR (drop_bit 12 v AND 0x1f) :: u32) :: u8) AND 0xf0 = 0xe0"
    "push_bit 12 (ucast (ucast (0xe0 OR (drop_bit 12 v AND 0x1f) :: u32) :: u8) AND 0x0f)
       OR push_bit 6 (drop_bit 6 v AND 0x3f) OR (v AND 0x3f) = v"
proof -
  let ?b = "ucast (0xe0 OR (drop_bit 12 v AND 0x1f) :: u32) :: u8"
  have "bit (?b AND 0x80) 7"
    by (simp add: bit_simps)
  then show "?b AND 0x80 \<noteq> 0"
    by (rule bit_neq_0)
  have "bit (?b AND 0xe0) 5" "\<not> bit (0xc0 :: u8) 5"
    by (simp_all add: bit_simps)
  then show "?b AND 0xe0 \<noteq> 0xc0"
    by metis
  show "?b AND 0xf0 = 0xe0"
    using utf8_bits(3) [OF assms] by (intro u8_eqI) (simp add: bit_simps all_less_numeral)
  show "push_bit 12 (ucast ?b AND 0x0f) OR push_bit 6 (drop_bit 6 v AND 0x3f) OR (v AND 0x3f) = v"
    using utf8_bits(3) [OF assms]
    by (intro u32_eqI) (simp add: bit_simps all_less_numeral)
qed

lemma utf8_roundtrip4:
  assumes "v < 0x110000"
  shows "(ucast (0xf0 OR (drop_bit 18 v AND 0x1f) :: u32) :: u8) AND 0x80 \<noteq> 0"
    "(ucast (0xf0 OR (drop_bit 18 v AND 0x1f) :: u32) :: u8) AND 0xe0 \<noteq> 0xc0"
    "(ucast (0xf0 OR (drop_bit 18 v AND 0x1f) :: u32) :: u8) AND 0xf0 \<noteq> 0xe0"
    "(ucast (0xf0 OR (drop_bit 18 v AND 0x1f) :: u32) :: u8) AND 0xf8 = 0xf0"
    "push_bit 18 (ucast (ucast (0xf0 OR (drop_bit 18 v AND 0x1f) :: u32) :: u8) AND 0x07)
       OR push_bit 12 (drop_bit 12 v AND 0x3f) OR push_bit 6 (drop_bit 6 v AND 0x3f) OR (v AND 0x3f) = v"
proof -
  let ?b = "ucast (0xf0 OR (drop_bit 18 v AND 0x1f) :: u32) :: u8"
  have "bit (?b AND 0x80) 7"
    by (simp add: bit_simps)
  then show "?b AND 0x80 \<noteq> 0"
    by (rule bit_neq_0)
  have "bit (?b AND 0xe0) 5" "\<not> bit (0xc0 :: u8) 5" "bit (?b AND 0xf0) 4" "\<not> bit (0xe0 :: u8) 4"
    by (simp_all add: bit_simps)
  then show "?b AND 0xe0 \<noteq> 0xc0" "?b AND 0xf0 \<noteq> 0xe0"
    by metis+
  show "?b AND 0xf8 = 0xf0"
    using utf8_bits(4) [OF assms] by (intro u8_eqI) (simp add: bit_simps all_less_numeral)
  show "push_bit 18 (ucast ?b AND 0x07) OR push_bit 12 (drop_bit 12 v AND 0x3f)
      OR push_bit 6 (drop_bit 6 v AND 0x3f) OR (v AND 0x3f) = v"
    using utf8_bits(4) [OF assms]
    by (intro u32_eqI) (simp add: bit_simps all_less_numeral)
qed

lemma utf8_roundtrip1:
  fixes v :: u32
  assumes "v < 0x80"
  shows "(ucast v :: u8) AND 0x80 = 0" "ucast (ucast v :: u8) AND 0x7f = v"
proof -
  show "(ucast v :: u8) AND 0x80 = 0"
    using utf8_bits(1) [OF assms] by (intro u8_eqI) (simp add: bit_simps all_less_numeral)
  show "ucast (ucast v :: u8) AND 0x7f = v"
    using utf8_bits(1) [OF assms] by (intro u32_eqI) (simp add: bit_simps all_less_numeral)
qed

lemma byte_at_simps [simp]: "byte_at (b # s) 0 = b" "byte_at (b # s) (Suc n) = byte_at s n"
  "byte_at (b # s) (numeral k) = byte_at s (pred_numeral k)"
  by (simp_all add: byte_at_def numeral_eq_Suc)

lemma encodeUTF8_cases:
  assumes "encodeUTF8Codepoint v = Some bs"
  obtains (one) "v < 0x80" "bs = [ucast v]"
    | (two) "v < 0x800" "bs = [ucast (0xc0 OR (drop_bit 6 v AND 0x1f)), cont_byte v]"
    | (three) "v < 0x10000" "bs = [ucast (0xe0 OR (drop_bit 12 v AND 0x1f)), cont_byte (drop_bit 6 v), cont_byte v]"
    | (four) "v < 0x110000" "bs = [ucast (0xf0 OR (drop_bit 18 v AND 0x1f)), cont_byte (drop_bit 12 v),
        cont_byte (drop_bit 6 v), cont_byte v]"
  using assms unfolding encodeUTF8Codepoint_def by (metis option.distinct(1) option.sel)

lemma encodeUTF8_nonempty: "encodeUTF8Codepoint v = Some bs \<Longrightarrow> bs \<noteq> []"
  by (erule encodeUTF8_cases) auto

lemma encode_parse_UTF8:
  assumes "encodeUTF8Codepoint v = Some bs"
  shows "parseUTF8Codepoint (bs @ rest) = Some (v, length bs)"
  using assms
proof (cases rule: encodeUTF8_cases)
  case one
  then show ?thesis
    using utf8_roundtrip1 [OF one(1)] by (simp add: parseUTF8Codepoint_def Let_def)
next
  case two
  then show ?thesis
    using utf8_roundtrip2 [OF two(1)] by (simp add: parseUTF8Codepoint_def Let_def)
next
  case three
  then show ?thesis
    using utf8_roundtrip3 [OF three(1)] by (simp add: parseUTF8Codepoint_def Let_def)
next
  case four
  then show ?thesis
    using utf8_roundtrip4 [OF four(1)] by (simp add: parseUTF8Codepoint_def Let_def)
qed

section \<open>UTF-16\<close>

lemma length_word_bytes [simp]: "length (word_bytes l w) = 2"
  by (simp add: word_bytes_def)

lemma word_bytes_nth [simp]: "bytes_word l (byte_at (word_bytes l w @ r) 0) (byte_at (word_bytes l w @ r) (Suc 0)) = w"
proof -
  have "(ucast (ucast w :: u8) :: u16) OR push_bit 8 (ucast (ucast (drop_bit 8 w) :: u8)) = w"
    "push_bit 8 (ucast (ucast (drop_bit 8 w) :: u8) :: u16) OR ucast (ucast w :: u8) = w"
    by (rule u16_eqI; simp add: bit_simps all_less_numeral)+
  then show ?thesis
    by (simp add: word_bytes_def bytes_word_def)
qed

lemma byte_at_append: "length xs = k \<Longrightarrow> byte_at (xs @ ys) (k + j) = byte_at ys j"
  by (simp add: byte_at_def nth_append)

lemma bytes_word_second [simp]:
  "bytes_word l (byte_at (word_bytes l a @ word_bytes l b @ r) 2) (byte_at (word_bytes l a @ word_bytes l b @ r) 3) = b"
  using byte_at_append [of "word_bytes l a" 2 "word_bytes l b @ r" 0]
    byte_at_append [of "word_bytes l a" 2 "word_bytes l b @ r" 1]
  by simp

lemma high_surrogate_range:
  fixes w :: u16
  assumes "w AND 0xfc00 = 0xd800"
  shows "0xd800 \<le> w" "w < 0xdc00"
proof -
  have "bit (w AND 0xfc00) n = bit (0xd800 :: u16) n" for n
    using assms by simp
  note b = this [of 10] this [of 11] this [of 12] this [of 13] this [of 14] this [of 15]
  have out: "\<not> bit w n" if "16 \<le> n" for n
    using that bit_imp_le_length [of w n] by auto
  from b have "drop_bit 10 w = 0x36"
    by (intro u16_eqI) (simp add: bit_simps all_less_numeral out)
  then have "unat (drop_bit 10 w) = 0x36"
    by simp
  then have "unat w div 1024 = 0x36"
    by (simp add: drop_bit_eq_div unat_div)
  then show "0xd800 \<le> w" "w < 0xdc00"
    by (simp_all add: word_le_nat_alt word_less_nat_alt)
qed

lemma surrogate_marks:
  fixes v :: u32
  shows "(0xd800 OR (ucast v AND 0x3ff) :: u16) AND 0xfc00 = 0xd800"
    "(0xdc00 OR (ucast v AND 0x3ff) :: u16) AND 0xfc00 = 0xdc00"
    "(0xd800 OR (ucast v AND 0x3ff) :: u16) AND 0x3ff = ucast v AND 0x3ff"
    "(0xdc00 OR (ucast v AND 0x3ff) :: u16) AND 0x3ff = ucast v AND 0x3ff"
  by (rule u16_eqI; simp add: bit_simps all_less_numeral)+

lemma surrogate_pair:
  fixes v :: u32
  assumes "v < 0x110000" "\<not> v < 0x10000"
  shows "0x10000 + (push_bit 10 (ucast (ucast (drop_bit 10 (v - 0x10000)) AND 0x3ff :: u16))
    OR ucast (ucast (v - 0x10000) AND 0x3ff :: u16)) = v"
proof -
  have "unat (v - 0x10000) < 2 ^ 20"
    using assms by (simp add: word_less_nat_alt unat_sub_if')
  note b = less_bit [OF this]
  have "push_bit 10 (ucast (ucast (drop_bit 10 (v - 0x10000)) AND 0x3ff :: u16))
    OR ucast (ucast (v - 0x10000) AND 0x3ff :: u16) = v - 0x10000"
    using b by (intro u32_eqI) (simp add: bit_simps all_less_numeral)
  then show ?thesis
    by simp
qed

lemma encode_parse_UTF16:
  assumes "encodeUTF16Codepoint l v = Some bs"
  shows "parseUTF16Codepoint l (bs @ rest) = Some (v, length bs)" "bs \<noteq> []"
proof -
  have r: "\<not> (0xd800 \<le> v \<and> v < 0xe000)" "v < 0x110000"
    using assms by (auto simp: encodeUTF16Codepoint_def not_le split: if_splits)
  show "parseUTF16Codepoint l (bs @ rest) = Some (v, length bs)"
  proof (cases "v < 0x10000")
    case True
    have bs: "bs = word_bytes l (ucast v)"
      using assms r True unfolding encodeUTF16Codepoint_def by (metis option.distinct(1) option.sel)
    have inv: "ucast (ucast v :: u16) = v"
      using utf8_bits(3) [OF True] by (intro u32_eqI) (simp add: bit_simps all_less_numeral)
    have "(ucast v :: u16) AND 0xfc00 \<noteq> 0xd800"
    proof
      assume "(ucast v :: u16) AND 0xfc00 = 0xd800"
      note h = high_surrogate_range [OF this]
      have "unat (ucast v :: u16) = unat v"
        using True by (simp add: unsigned_ucast_eq take_bit_nat_eq_self word_less_nat_alt)
      with h r show False
        by (simp add: word_le_nat_alt word_less_nat_alt)
    qed
    then show ?thesis
      using inv by (simp add: bs parseUTF16Codepoint_def Let_def)
  next
    case False
    have bs: "bs = word_bytes l (0xd800 OR (ucast (drop_bit 10 (v - 0x10000)) AND 0x3ff))
        @ word_bytes l (0xdc00 OR (ucast (v - 0x10000) AND 0x3ff))"
      using assms r False unfolding encodeUTF16Codepoint_def Let_def
      by (metis linorder_not_le option.distinct(1) option.sel)
    show ?thesis
      using surrogate_pair [OF r(2) False]
      by (simp add: bs parseUTF16Codepoint_def Let_def surrogate_marks)
  qed
  show "bs \<noteq> []"
    using assms by (auto simp: encodeUTF16Codepoint_def Let_def word_bytes_def split: if_splits)
qed

section \<open>Strings\<close>

text \<open>
  Strings as sequences of code points: \<open>scalars\<close> are the code points both encodings have, \<open>utf8_of\<close>
  and \<open>utf16_of\<close> the two encodings of a sequence.
\<close>

definition scalar :: "u32 \<Rightarrow> bool" where
  "scalar v \<longleftrightarrow> v < 0x110000 \<and> \<not> (0xd800 \<le> v \<and> v < 0xe000)"

definition utf8_of :: "u32 list \<Rightarrow> u8 list" where
  "utf8_of vs = concat (map (\<lambda>v. the (encodeUTF8Codepoint v)) vs)"

definition utf16_of :: "bool \<Rightarrow> u32 list \<Rightarrow> u8 list" where
  "utf16_of l vs = concat (map (\<lambda>v. the (encodeUTF16Codepoint l v)) vs)"

lemma utf8_of_simps [simp]:
  "utf8_of [] = []" "utf8_of (v # vs) = the (encodeUTF8Codepoint v) @ utf8_of vs"
  by (simp_all add: utf8_of_def)

lemma utf16_of_simps [simp]:
  "utf16_of l [] = []" "utf16_of l (v # vs) = the (encodeUTF16Codepoint l v) @ utf16_of l vs"
  by (simp_all add: utf16_of_def)

lemma scalar_encodes:
  assumes "scalar v"
  shows "encodeUTF8Codepoint v \<noteq> None" "encodeUTF16Codepoint l v \<noteq> None"
  using assms by (auto simp: scalar_def encodeUTF8Codepoint_def encodeUTF16Codepoint_def Let_def)

primrec fold_opt :: "(u32 \<Rightarrow> 'a \<Rightarrow> 'a option) \<Rightarrow> u32 list \<Rightarrow> 'a \<Rightarrow> 'a option" where
  "fold_opt step [] acc = Some acc"
| "fold_opt step (v # vs) acc = (case step v acc of None \<Rightarrow> None | Some a \<Rightarrow> fold_opt step vs a)"

lemma walk_nil [simp]: "walk_codepoints parse step [] acc = Some acc"
  by (simp add: walk_codepoints.simps)

lemma walk_one:
  assumes "parse (bs @ r) = Some (v, length bs)" "bs \<noteq> []"
  shows "walk_codepoints parse step (bs @ r) acc
    = (case step v acc of None \<Rightarrow> None | Some a \<Rightarrow> walk_codepoints parse step r a)"
  using assms by (simp add: walk_codepoints.simps [of parse step "bs @ r"] split: option.split)

lemma walk_utf8:
  "list_all scalar vs \<Longrightarrow> walk_codepoints parseUTF8Codepoint step (utf8_of vs) acc = fold_opt step vs acc"
proof (induction vs arbitrary: acc)
  case (Cons v vs)
  then obtain bs where "encodeUTF8Codepoint v = Some bs"
    using scalar_encodes(1) by fastforce
  then show ?case
    using Cons walk_one [of parseUTF8Codepoint bs "utf8_of vs" v step acc] encode_parse_UTF8 [of v bs] encodeUTF8_nonempty [of v bs]
    by (simp split: option.split)
qed simp

lemma walk_utf16:
  "list_all scalar vs \<Longrightarrow> walk_codepoints (parseUTF16Codepoint l) step (utf16_of l vs) acc = fold_opt step vs acc"
proof (induction vs arbitrary: acc)
  case (Cons v vs)
  then obtain bs where "encodeUTF16Codepoint l v = Some bs"
    using scalar_encodes(2) by fastforce
  then show ?case
    using Cons walk_one [of "parseUTF16Codepoint l" bs "utf16_of l vs" v step acc] encode_parse_UTF16 [of l v bs]
    by (simp split: option.split)
qed simp

lemma fold_utf8:
  "list_all scalar vs \<Longrightarrow>
    fold_opt (\<lambda>v acc. map_option (\<lambda>b. acc @ b) (encodeUTF8Codepoint v)) vs acc = Some (acc @ utf8_of vs)"
proof (induction vs arbitrary: acc)
  case (Cons v vs)
  then show ?case
    using scalar_encodes(1) [of v] by auto
qed simp

text \<open>Byte order marks inside the string are left out by \<open>toUTF16\<close>.\<close>

lemma fold_utf16:
  "list_all scalar vs \<Longrightarrow>
    fold_opt (\<lambda>v acc. if v = scm_unBOMMarker then Some acc
        else map_option (\<lambda>b. acc @ b) (encodeUTF16Codepoint False v)) vs acc
      = Some (acc @ utf16_of False [v \<leftarrow> vs. v \<noteq> scm_unBOMMarker])"
proof (induction vs arbitrary: acc)
  case (Cons v vs)
  then show ?case
    using scalar_encodes(2) [of v False] by auto
qed simp

lemma utf16_bytes_of:
  "list_all scalar vs \<Longrightarrow> utf16_bytes (utf8_of vs) = Some (utf16_of False [v \<leftarrow> vs. v \<noteq> scm_unBOMMarker])"
  unfolding utf16_bytes_def by (simp add: walk_utf8 fold_utf16)

lemma even_utf16_of [simp]: "list_all scalar vs \<Longrightarrow> even (length (utf16_of l vs))"
proof (induction vs)
  case (Cons v vs)
  then show ?case
    using scalar_encodes(2) [of v l] by (auto simp: encodeUTF16Codepoint_def Let_def split: if_splits)
qed simp

text \<open>Reading back: with or without a byte order mark in front.\<close>

lemma fromUTF16_utf16_of:
  assumes "list_all scalar vs" "vs \<noteq> []" "hd vs \<noteq> scm_unBOMMarker" "hd vs \<noteq> scm_unBOMMarkerSwapped"
  shows "fromUTF16 (utf16_of False vs)
    = (if length (utf8_of vs) \<le> scm_unMaxStringLen then Some (utf8_of vs) else None)"
proof -
  obtain v ws where vs: "vs = v # ws"
    using assms(2) by (cases vs) auto
  obtain bs where bs: "encodeUTF16Codepoint False v = Some bs"
    using assms(1) scalar_encodes(2) [of v False] by (auto simp: vs)
  have "parseUTF16Codepoint False (utf16_of False vs) = Some (v, length bs)" "utf16_of False vs \<noteq> []"
    using encode_parse_UTF16 [OF bs] by (simp_all add: vs bs)
  moreover have "v \<noteq> scm_unBOMMarker" "v \<noteq> scm_unBOMMarkerSwapped"
    using assms(3, 4) by (simp_all add: vs)
  ultimately show ?thesis
    using assms(1) by (simp add: fromUTF16_def walk_utf16 fold_utf8)
qed

lemma scalar_BOM: "scalar scm_unBOMMarker"
  by (simp add: scalar_def scm_unBOMMarker_def)

lemma fromUTF16_with_mark:
  assumes "list_all scalar vs"
  shows "fromUTF16 (word_bytes l 0xfeff @ utf16_of l vs)
    = (if length (utf8_of vs) \<le> scm_unMaxStringLen then Some (utf8_of vs) else None)"
proof -
  have "parseUTF16Codepoint False (word_bytes l 0xfeff @ utf16_of l vs)
      = Some (if l then scm_unBOMMarkerSwapped else scm_unBOMMarker, 2)"
    by (simp add: parseUTF16Codepoint_def word_bytes_def bytes_word_def scm_unBOMMarkerSwapped_def
        scm_unBOMMarker_def)
  moreover have "word_bytes l 0xfeff \<noteq> []"
    by (simp add: word_bytes_def)
  moreover have "scm_unBOMMarker \<noteq> scm_unBOMMarkerSwapped"
    by (simp add: scm_unBOMMarkerSwapped_def scm_unBOMMarker_def)
  ultimately show ?thesis
    using assms by (cases l) (simp_all add: fromUTF16_def walk_utf16 fold_utf8)
qed

section \<open>Properties\<close>

lemma toUTF16_utf8_of:
  assumes "list_all scalar vs" "scm_unBOMMarker \<notin> set vs" "int (length (utf16_of False vs)) \<le> n"
  shows "toUTF16 n (utf8_of vs) = Some (utf16_of False vs)"
proof -
  have "[v \<leftarrow> vs. v \<noteq> scm_unBOMMarker] = vs"
    using assms(2) by (auto simp: filter_id_conv)
  then show ?thesis
    using assms(3) utf16_bytes_of [OF assms(1)] by (simp add: toUTF16_def)
qed

text \<open>A code point both encodings have (at most 0x10FFFF and no surrogate) is encoded in UTF-8 and in
  UTF-16 of either byte order, and the parser gives it back with the number of bytes it took, whatever
  follows in the buffer.\<close>

theorem codepoint_roundtrip:
  assumes "scalar v"
  shows "\<exists>b8 b16. encodeUTF8Codepoint v = Some b8 \<and> encodeUTF16Codepoint l v = Some b16
    \<and> parseUTF8Codepoint (b8 @ rest) = Some (v, length b8)
    \<and> parseUTF16Codepoint l (b16 @ rest) = Some (v, length b16)"
  using scalar_encodes(1) [OF assms] scalar_encodes(2) [OF assms, of l] encode_parse_UTF8 encode_parse_UTF16(1) by fastforce

theorem codepoint_roundtrip_witness:
  "\<exists>b8 b16. encodeUTF8Codepoint 0x1f600 = Some b8 \<and> encodeUTF16Codepoint True 0x1f600 = Some b16
    \<and> parseUTF8Codepoint (b8 @ [7]) = Some (0x1f600, length b8)
    \<and> parseUTF16Codepoint True (b16 @ [7]) = Some (0x1f600, length b16)"
  by (rule codepoint_roundtrip) (simp add: scalar_def)

text \<open>C29. A wide string survives the wire: a string that is the UTF-8 encoding of code points without byte
  order marks is written as big-endian UTF-16, and reading those bytes gives the string back; so does
  reading them in either byte order behind a byte order mark.\<close>

theorem wide_string_roundtrip:
  assumes "list_all scalar vs" "scm_unBOMMarker \<notin> set vs" "vs \<noteq> []" "hd vs \<noteq> scm_unBOMMarkerSwapped"
    "length (utf8_of vs) \<le> scm_unMaxStringLen" "int (length (utf16_of False vs)) \<le> n"
  shows "toUTF16 n (utf8_of vs) = Some (utf16_of False vs)
    \<and> fromUTF16 (utf16_of False vs) = Some (utf8_of vs)
    \<and> fromUTF16 (word_bytes l 0xfeff @ utf16_of l vs) = Some (utf8_of vs)"
proof -
  have "hd vs \<noteq> scm_unBOMMarker"
    using assms(2, 3) by (metis list.set_sel(1))
  then show ?thesis
    using assms by (simp add: toUTF16_utf8_of fromUTF16_utf16_of fromUTF16_with_mark)
qed

theorem wide_string_roundtrip_witness:
  "toUTF16 100 (utf8_of [0x41, 0x20ac, 0x1f600]) = Some (utf16_of False [0x41, 0x20ac, 0x1f600])
    \<and> fromUTF16 (utf16_of False [0x41, 0x20ac, 0x1f600]) = Some (utf8_of [0x41, 0x20ac, 0x1f600])
    \<and> fromUTF16 (word_bytes True 0xfeff @ utf16_of True [0x41, 0x20ac, 0x1f600])
      = Some (utf8_of [0x41, 0x20ac, 0x1f600])"
proof -
  have e: "utf8_of [0x41, 0x20ac, 0x1f600] = [0x41, 0xe2, 0x82, 0xac, 0xf0, 0x9f, 0x98, 0x80]"
    "utf16_of False [0x41, 0x20ac, 0x1f600] = [0, 0x41, 0x20, 0xac, 0xd8, 0x3d, 0xde, 0x00]"
    by (simp_all add: encodeUTF8Codepoint_def encodeUTF16Codepoint_def cont_byte_def word_bytes_def Let_def)
  show ?thesis
    by (rule wide_string_roundtrip)
      (simp_all add: e scalar_def scm_unBOMMarker_def scm_unBOMMarkerSwapped_def scm_unMaxStringLen_def
        del: utf8_of_simps utf16_of_simps)
qed

text \<open>The receiver takes what the sender refuses: a low surrogate that stands alone is accepted by
  \<open>fromUTF16\<close> and kept as a three byte sequence, and a string that holds it can never be written again.\<close>

theorem lone_surrogate_is_stuck:
  assumes "0xdc00 \<le> w" "w < 0xe000"
  shows "\<exists>s. fromUTF16 (word_bytes False w) = Some s \<and> length s = 3 \<and> (\<forall>n. toUTF16 n s = None)"
proof -
  let ?v = "ucast w :: u32"
  have u: "unat ?v = unat w"
    by (simp add: unsigned_ucast_eq take_bit_nat_eq_self order.strict_trans [OF unsigned_less])
  then have v: "\<not> ?v < 0x800" "?v < 0x10000" "\<not> ?v < 0x80" "0xd800 \<le> ?v" "?v < 0xe000"
    using assms by (simp_all add: word_le_nat_alt word_less_nat_alt)
  obtain s where s: "encodeUTF8Codepoint ?v = Some s" "length s = 3"
    using v by (simp add: encodeUTF8Codepoint_def)
  have "w AND 0xfc00 \<noteq> 0xd800"
    using high_surrogate_range(2) [of w] assms(1) by auto
  then have p: "parseUTF16Codepoint False (word_bytes False w) = Some (?v, 2)"
    using word_bytes_nth [of False w "[]"] by (simp add: parseUTF16Codepoint_def)
  have ne: "word_bytes False w \<noteq> []"
    by (simp add: word_bytes_def)
  have mark: "?v \<noteq> scm_unBOMMarker" "?v \<noteq> scm_unBOMMarkerSwapped"
    using v by (auto simp: scm_unBOMMarker_def scm_unBOMMarkerSwapped_def)
  have "fromUTF16 (word_bytes False w) = Some s"
    using p s ne mark
    by (simp add: walk_one [of "parseUTF16Codepoint False" "word_bytes False w" "[]" ?v, simplified]
        fromUTF16_def scm_unMaxStringLen_def)
  moreover have "utf16_bytes s = None"
    using encode_parse_UTF8 [OF s(1), of "[]"] encodeUTF8_nonempty [OF s(1)] v mark
    by (simp add: walk_one [of parseUTF8Codepoint s "[]" ?v, simplified] utf16_bytes_def encodeUTF16Codepoint_def)
  ultimately show ?thesis
    using s(2) by (auto simp: toUTF16_def)
qed

theorem lone_surrogate_is_stuck_witness:
  "\<exists>s. fromUTF16 (word_bytes False 0xdc00) = Some s \<and> length s = 3 \<and> (\<forall>n. toUTF16 n s = None)"
  by (rule lone_surrogate_is_stuck) simp_all

end
