(* ===== verification/ASN1_Laws.thy ===== *)
theory ASN1_Laws
  imports ASN1_Layer Unicode_Laws
begin

text \<open>
  What the ASN.1 layer promises. \<open>wire\<close> and \<open>point\<close> are the encoding of a value and of a data point as plain
  functions; serialization writes exactly that (\<open>serializeValue_wire\<close>), deserialization into an object of
  the same layout undoes it (\<open>deserializeValue_wire\<close>) and never takes a proper part of an encoding for a value
  (\<open>deserializeValue_stuck\<close>). From these follow the properties of \<open>sendData\<close> and \<open>recvData\<close>, among them what
  the layer does with messages that arrive in several packets.
\<close>

section \<open>What goes over the wire\<close>

text \<open>The contents of an object erased: what a target has to share with the object that was sent.\<close>

primrec layout :: "iec_any \<Rightarrow> iec_any" where
  "layout (Elem t w) = Elem t 0"
| "layout (Str s) = Str []"
| "layout (WStr s) = WStr []"
| "layout (Arr r xs) = Arr r (map layout xs)"
| "layout (Struct n a ns xs) = Struct n a ns (map layout xs)"

definition bool_tag :: "iec_any \<Rightarrow> u8" where
  "bool_tag x = (if op_bool x then 65 else 64)"

definition obj_tag :: "iec_any \<Rightarrow> u8" where
  "obj_tag x = (if getDataTypeID x \<noteq> e_STRUCT then dt_tag (getDataTypeID x) else getASN1StructType x)"

text \<open>The encoding of a value and of a data point.\<close>

primrec wire :: "iec_any \<Rightarrow> u8 list" where
  "wire (Elem t w) =
     (if t = e_BOOL then [bool_tag (Elem t w)]
      else if simple_type t then be_bytes (dt_size t - 1) w else be_bytes 8 (getInMicroSeconds w))"
| "wire (Str s) = len_bytes (length s) @ s"
| "wire (WStr s) =
     (case utf16_bytes s of
        None \<Rightarrow> []
      | Some bs \<Rightarrow> [of_nat (length bs div 512), of_nat (length bs div 2)] @ bs)"
| "wire (Arr r xs) =
     len_bytes (length xs) @ (if getDataTypeID (hd xs) = e_BOOL then [] else [obj_tag (hd xs)]) @ concat (map wire xs)"
| "wire (Struct n a ns xs) = concat (map wire xs)"

definition point :: "iec_any \<Rightarrow> u8 list" where
  "point x = (if getDataTypeID x = e_BOOL then wire x else obj_tag x # wire x)"

text \<open>The objects the protocol can carry: the bits of an elementary value are those its type needs,
  a TIME is a whole number of microseconds, lengths fit into 16 bits, a wide string is one that has a
  UTF-16 form, arrays are uniform and structs are not empty.\<close>

primrec sendable :: "iec_any \<Rightarrow> bool" where
  "sendable (Elem t w) \<longleftrightarrow>
     (if t = e_BOOL then w = 0 \<or> w = 1
      else if t = e_TIME then setFromMicroSeconds (getInMicroSeconds w) = w
      else simple_type t \<and> snd (deserializeValueSimpleDataType (be_bytes (dt_size t - 1) w) t 0) = w)"
| "sendable (Str s) \<longleftrightarrow> length s < 65536"
| "sendable (WStr s) \<longleftrightarrow>
     (case utf16_bytes s of
        None \<Rightarrow> False
      | Some bs \<Rightarrow> length bs \<le> 131070 \<and> even (length bs) \<and> fromUTF16 bs = Some s)"
| "sendable (Arr r xs) \<longleftrightarrow>
     xs \<noteq> [] \<and> length xs < 65536 \<and> getDataTypeID r = getDataTypeID (hd xs) \<and> list_all sendable xs
       \<and> list_all (\<lambda>y. layout (hd xs) = layout y) xs"
| "sendable (Struct n a ns xs) \<longleftrightarrow> xs \<noteq> [] \<and> list_all sendable xs"

lemma layout_type: "layout x = layout y \<Longrightarrow> getDataTypeID x = getDataTypeID y"
  by (cases x; cases y) auto

lemma layout_tag: "layout x = layout y \<Longrightarrow> obj_tag x = obj_tag y"
  by (cases x; cases y) (auto simp: obj_tag_def)

lemma length_be_bytes [simp]: "length (be_bytes n w) = n"
  by (simp add: be_bytes_def)

lemma simple_type_size: "simple_type t \<Longrightarrow> dt_size t \<in> {2, 3, 5, 9}"
  by (cases t) (simp_all add: simple_type_def dt_size_def csm_aDataTags_def)

lemma not_simple [simp]: "\<not> simple_type e_BOOL" "\<not> simple_type e_TIME" "\<not> simple_type e_ANY"
  "\<not> simple_type e_STRUCT" "\<not> simple_type e_ARRAY" "\<not> simple_type e_STRING" "\<not> simple_type e_WSTRING"
  by (simp_all add: simple_type_def)

lemma wire_nonempty: "sendable x \<Longrightarrow> wire x \<noteq> []"
proof (induction x)
  case (Elem t w)
  then show ?case
    using simple_type_size [of t] by (auto simp: be_bytes_def split: if_splits)
next
  case (Struct n a ns xs)
  then show ?case
    by (cases xs) auto
qed (auto simp: len_bytes_def split: option.splits)

lemma obj_tag_points: "getDataTypeID x \<noteq> e_BOOL \<Longrightarrow> serializeTag buf x = buf @ [obj_tag x]"
  by (simp add: serializeTag_def obj_tag_def)

lemma ser_all_wire:
  assumes "\<And>x n buf. x \<in> set xs \<Longrightarrow> f n buf x = (if int (length (w x)) \<le> n then Some (buf @ w x) else None)"
  shows "ser_all f n buf xs
    = (if xs = [] \<or> int (length (concat (map w xs))) \<le> n then Some (buf @ concat (map w xs)) else None)"
  using assms
proof (induction xs arbitrary: n buf)
  case (Cons x xs)
  have f: "f n buf x = (if int (length (w x)) \<le> n then Some (buf @ w x) else None)"
    by (rule Cons.prems) simp
  have "ser_all f (n - int (length (w x))) (buf @ w x) xs = (if xs = [] \<or> int (length (concat (map w xs))) \<le> n - int (length (w x))
      then Some ((buf @ w x) @ concat (map w xs)) else None)"
    by (rule Cons.IH) (simp add: Cons.prems)
  with f show ?case
    by (cases "xs = []") auto
qed simp

lemma serialize_bool_point:
  assumes "getDataTypeID x = e_BOOL" "sendable x"
  shows "serializeDataPoint n buf x = (if int (length (wire x)) \<le> n then Some (buf @ wire x) else None)"
proof -
  obtain w where x: "x = Elem e_BOOL w"
    using assms by (cases x) auto
  show ?thesis
    by (simp add: x serializeDataPoint.simps serializeValue.simps serializeTag_def bool_tag_def dt_tag_def
        csm_aDataTags_def e_APPLICATION_def)
qed

text \<open>Serialization writes the encoding if it fits into the stream, and nothing otherwise.\<close>

lemma serializeValue_wire:
  "sendable x \<Longrightarrow> getDataTypeID x \<noteq> e_BOOL \<Longrightarrow>
    serializeValue n buf x = (if int (length (wire x)) \<le> n then Some (buf @ wire x) else None)"
proof (induction x arbitrary: n buf)
  case (Elem t w)
  then show ?case
    by (auto simp: serializeValue.simps serializeValueSimpleDataType_def serializeValueTime_def)
next
  case (Str s)
  then show ?case
    by (simp add: serializeValue.simps serializeValueString_def len_bytes_def)
next
  case (WStr s)
  then show ?case
    by (auto simp: serializeValue.simps serializeValueWString_def toUTF16_def split: option.splits)
next
  case (Arr r xs)
  have ne: "xs \<noteq> []" and all: "\<And>y. y \<in> set xs \<Longrightarrow> sendable y \<and> layout (hd xs) = layout y"
    using Arr.prems by (auto simp: list_all_iff)
  from ne obtain x0 ys where xs: "xs = x0 # ys"
    by (cases xs) auto
  show ?case
  proof (cases "getDataTypeID x0 = e_BOOL")
    case True
    then have "y \<in> set xs \<Longrightarrow> serializeDataPoint n buf y = (if int (length (wire y)) \<le> n then Some (buf @ wire y) else None)"
      for y n buf
      using all [of y] layout_type [of x0 y] by (intro serialize_bool_point) (auto simp: xs)
    from ser_all_wire [of xs serializeDataPoint wire, OF this] ne
    have "ser_all serializeDataPoint m b xs
        = (if int (length (concat (map wire xs))) \<le> m then Some (b @ concat (map wire xs)) else None)" for m b
      by simp
    moreover have "getDataTypeID (hd xs) = e_BOOL"
      using True xs by simp
    ultimately show ?thesis
      using ne by (simp add: serializeValue.simps serializeArray.simps list.case_eq_if len_bytes_def)
  next
    case False
    then have "y \<in> set xs \<Longrightarrow> serializeValue n buf y = (if int (length (wire y)) \<le> n then Some (buf @ wire y) else None)"
      for y n buf
      using all [of y] layout_type [of x0 y] Arr.IH(2) [of y n buf] by (auto simp: xs)
    from ser_all_wire [of xs serializeValue wire, OF this] ne
    have "ser_all serializeValue m b xs
        = (if int (length (concat (map wire xs))) \<le> m then Some (b @ concat (map wire xs)) else None)" for m b
      by simp
    moreover have "getDataTypeID (hd xs) \<noteq> e_BOOL"
      using False xs by simp
    ultimately show ?thesis
      using ne by (simp add: serializeValue.simps serializeArray.simps list.case_eq_if len_bytes_def obj_tag_points)
  qed
next
  case (Struct sn a ns xs)
  have "y \<in> set xs \<Longrightarrow> (if getDataTypeID y = e_BOOL then serializeDataPoint n buf y else serializeValue n buf y)
      = (if int (length (wire y)) \<le> n then Some (buf @ wire y) else None)" for y n buf
    using Struct.IH [of y n buf] Struct.prems serialize_bool_point [of y n buf] by (auto simp: list_all_iff)
  from ser_all_wire [of xs "\<lambda>n buf y. if getDataTypeID y = e_BOOL then serializeDataPoint n buf y
      else serializeValue n buf y" wire, OF this] show ?case
    using Struct.prems by (simp add: serializeValue.simps serializeValueStruct.simps)
qed

lemma serializeDataPoint_point:
  assumes "sendable x"
  shows "serializeDataPoint n buf x = (if int (length (point x)) \<le> n then Some (buf @ point x) else None)"
  using assms serialize_bool_point [of x n buf]
  by (auto simp: point_def serializeDataPoint.simps serializeValue_wire obj_tag_points)
section \<open>Reading it back\<close>

lemma be_bytes_Suc: "be_bytes (Suc n) v = ucast (drop_bit (8 * n) v) # be_bytes n v"
  by (simp add: be_bytes_def)

lemma be_word_fold:
  "foldl (\<lambda>a b. push_bit 8 a OR ucast b) a (be_bytes n v) = push_bit (8 * n) a OR take_bit (8 * n) (v :: u64)"
proof (induction n arbitrary: a)
  case 0
  then show ?case
    by (simp add: be_bytes_def)
next
  case (Suc n)
  have "push_bit (8 * n) (push_bit 8 a OR ucast (ucast (drop_bit (8 * n) v) :: u8)) OR take_bit (8 * n) v
      = push_bit (8 * Suc n) a OR take_bit (8 * Suc n) v"
    by (rule bit_word_eqI) (auto simp: bit_simps not_less less_diff_conv ac_simps)
  then show ?case
    by (simp add: be_bytes_Suc Suc del: mult_Suc_right)
qed

lemma be_word_be_bytes [simp]: "be_word (be_bytes 8 v) = v"
  unfolding be_word_def be_word_fold by (rule bit_word_eqI) (simp add: bit_simps)

lemma word_len_bytes [simp]: "k < 65536 \<Longrightarrow> word_len (len_bytes k @ rest) = k"
  by (simp add: word_len_def len_bytes_def unat_of_nat take_bit_eq_mod)

lemma length_len_bytes [simp]: "length (len_bytes k) = 2"
  by (simp add: len_bytes_def)

lemma byte_at_append_hd: "xs \<noteq> [] \<Longrightarrow> byte_at (xs @ ys) 0 = byte_at xs 0"
  by (cases xs) auto

lemma simple_rest:
  assumes "simple_type t" "length bs = dt_size t - 1"
  shows "deserializeValueSimpleDataType (bs @ rest) t w
    = (int (dt_size t - 1), snd (deserializeValueSimpleDataType bs t w'))"
proof -
  have "bs \<noteq> []"
    using assms simple_type_size [of t] by auto
  then show ?thesis
    using assms(2) by (simp add: deserializeValueSimpleDataType_def Let_def byte_at_append_hd)
qed

lemma des_all_wire:
  assumes "list_all2 (\<lambda>x y. w x \<noteq> [] \<and> (\<forall>rest. f (w x @ rest) y = (int (length (w x)), x))) xs ys"
  shows "des_all f (concat (map w xs) @ rest) ys = (True, int (length (concat (map w xs))), xs)"
  using assms
proof (induction xs arbitrary: ys)
  case (Cons x xs)
  then obtain y ys' where ys: "ys = y # ys'"
    by (cases ys) auto
  have "des_all f (concat (map w xs) @ rest) ys' = (True, int (length (concat (map w xs))), xs)"
    using Cons by (simp add: ys)
  then show ?case
    using Cons.prems by (simp add: ys)
qed simp

lemma bool_point_back:
  assumes "getDataTypeID x = e_BOOL" "sendable x" "getDataTypeID y = e_BOOL" "layout x = layout y"
  shows "deserializeDataPoint (wire x @ rest) y = (int (length (wire x)), x)"
proof -
  obtain w v where x: "x = Elem e_BOOL w" "w = 0 \<or> w = 1" "y = Elem e_BOOL v"
    using assms by (cases x; cases y) auto
  then show ?thesis
    by (auto simp: deserializeDataPoint.simps deserializeValue.simps bool_tag_def deserializeTag_def e_APPLICATION_def
        setTBOOL8_def setLargestUInt_def dt_tag_def csm_aDataTags_def op_bool_def elem_bits_def getTBOOL8_def)
qed

lemma deserializeTag_obj_tag:
  "getDataTypeID y \<noteq> e_BOOL \<Longrightarrow> deserializeTag b y = (b = obj_tag y, y)"
  by (auto simp: deserializeTag_def obj_tag_def)

lemma map_layout_rel:
  "map layout xs = map layout ys \<Longrightarrow> (\<And>x y. x \<in> set xs \<Longrightarrow> layout x = layout y \<Longrightarrow> P x y) \<Longrightarrow> list_all2 P xs ys"
  by (induction xs arbitrary: ys) (auto simp: Cons_eq_map_conv map_eq_Cons_conv)

text \<open>Reading the encoding of an object into any object of the same layout gives that object back and
  takes exactly the bytes of the encoding.\<close>

lemma deserializeValue_wire:
  "sendable x \<Longrightarrow> layout x = layout y \<Longrightarrow> getDataTypeID x \<noteq> e_BOOL \<Longrightarrow>
    deserializeValue (wire x @ rest) y = (int (length (wire x)), x)"
proof (induction x arbitrary: y rest)
  case (Elem t w)
  then obtain v where y: "y = Elem t v"
    by (cases y) auto
  show ?case
    using Elem.prems simple_rest [of t "be_bytes (dt_size t - 1) w" rest v 0]
    by (auto simp: y deserializeValue.simps deserializeValueTime_def apsnd_def map_prod_def)
next
  case (Str s)
  then show ?case
    by (cases y) (auto simp: deserializeValue.simps deserializeValueString_def)
next
  case (WStr s)
  then obtain bs where bs: "utf16_bytes s = Some bs" "length bs \<le> 131070" "even (length bs)" "fromUTF16 bs = Some s"
    by (auto split: option.splits)
  have "word_len (len_bytes (length bs div 2) @ bs @ rest) = length bs div 2"
    using bs(2) by (intro word_len_bytes) auto
  moreover have "len_bytes (length bs div 2) = [of_nat (length bs div 512), of_nat (length bs div 2)]"
    by (simp add: len_bytes_def div_mult2_eq [symmetric])
  ultimately show ?case
    using WStr.prems bs by (cases y) (auto simp: deserializeValue.simps deserializeValueWString_def)
next
  case (Arr r xs)
  then obtain ys where y: "y = Arr r ys" "map layout xs = map layout ys"
    by (cases y) auto
  have ne: "xs \<noteq> []" and all: "\<And>z. z \<in> set xs \<Longrightarrow> sendable z \<and> layout (hd xs) = layout z"
    and len: "length xs < 65536" "length ys = length xs"
    using Arr.prems y(2) by (auto simp: list_all_iff dest: map_eq_imp_length_eq)
  have ty: "getDataTypeID z = getDataTypeID (hd xs)" if "z \<in> set xs" for z
    using all [OF that] layout_type by metis
  have "layout (hd xs) = layout (hd ys)"
    using y(2) ne by (cases xs; cases ys) auto
  then have hd: "getDataTypeID (hd ys) = getDataTypeID (hd xs)" "obj_tag (hd ys) = obj_tag (hd xs)"
    using layout_type layout_tag by metis+
  have targets: "array_targets (length xs) c ys = ys" for c
    by (simp add: array_targets_def len)
  have ys: "ys \<noteq> []"
    using ne len by auto
  show ?case
  proof (cases "getDataTypeID (hd xs) = e_BOOL")
    case True
    have "list_all2 (\<lambda>x y. wire x \<noteq> [] \<and> (\<forall>rest. deserializeDataPoint (wire x @ rest) y = (int (length (wire x)), x))) xs ys"
      using True all ty layout_type by (intro map_layout_rel [OF y(2)]) (metis bool_point_back wire_nonempty)
    from des_all_wire [OF this, of rest] show ?thesis
      using True hd len ne ys
      by (simp add: y(1) deserializeValue.simps [of _ "Arr r ys"] deserializeArray.simps deserializeValueBoolArray.simps targets)
  next
    case False
    have "list_all2 (\<lambda>x y. wire x \<noteq> [] \<and> (\<forall>rest. deserializeValue (wire x @ rest) y = (int (length (wire x)), x))) xs ys"
      using False all ty Arr.IH(2) by (intro map_layout_rel [OF y(2)]) (metis wire_nonempty)
    from des_all_wire [OF this, of rest] show ?thesis
      using False hd len ne ys
      by (simp add: y(1) deserializeValue.simps [of _ "Arr r ys"] deserializeArray.simps targets deserializeTag_obj_tag
          byte_at_append [of "len_bytes (length xs)" 2 _ 0, simplified])
  qed
next
  case (Struct sn a ns xs)
  then obtain ys where y: "y = Struct sn a ns ys" "map layout xs = map layout ys"
    by (cases y) auto
  have "list_all2 (\<lambda>x y. wire x \<noteq> [] \<and> (\<forall>rest. (if getDataTypeID y = e_BOOL then deserializeDataPoint (wire x @ rest) y
      else deserializeValue (wire x @ rest) y) = (int (length (wire x)), x))) xs ys"
  proof (rule map_layout_rel [OF y(2)])
    fix x y assume *: "x \<in> set xs" "layout x = layout y"
    then have "sendable x" "getDataTypeID x = getDataTypeID y"
      using Struct.prems(1) layout_type [OF *(2)] by (auto simp: list_all_iff)
    then show "wire x \<noteq> [] \<and> (\<forall>rest. (if getDataTypeID y = e_BOOL then deserializeDataPoint (wire x @ rest) y
      else deserializeValue (wire x @ rest) y) = (int (length (wire x)), x))"
      using * Struct.IH [of x y] bool_point_back [of x y] wire_nonempty by simp
  qed
  from des_all_wire [where f = "\<lambda>b y. if getDataTypeID y = e_BOOL then deserializeDataPoint b y
      else deserializeValue b y", OF this, of rest] show ?case
    by (simp add: y(1) deserializeValue.simps [of _ "Struct sn a ns ys"] deserializeValueStruct.simps)
qed
text \<open>A data point of its own has to carry the application bit in its tag; only a struct can lack it.\<close>

definition app_tag :: "iec_any \<Rightarrow> bool" where
  "app_tag x \<longleftrightarrow> getDataTypeID x = e_STRUCT \<longrightarrow> getASN1StructType x AND e_APPLICATION = e_APPLICATION"

lemma app_tag_obj_tag:
  assumes "app_tag x" "sendable x"
  shows "obj_tag x AND e_APPLICATION = e_APPLICATION"
  using assms
proof (cases x)
  case (Elem t w)
  then show ?thesis
    using assms(2) by (cases t) (auto simp: obj_tag_def dt_tag_def csm_aDataTags_def e_APPLICATION_def simple_type_def)
qed (auto simp: app_tag_def obj_tag_def dt_tag_def csm_aDataTags_def e_APPLICATION_def e_CONSTRUCTED_def)

lemma deserializeDataPoint_point:
  assumes "sendable x" "layout x = layout y" "app_tag x"
  shows "deserializeDataPoint (point x @ rest) y = (int (length (point x)), x)"
proof (cases "getDataTypeID x = e_BOOL")
  case True
  then show ?thesis
    using assms layout_type [OF assms(2)] bool_point_back [of x y rest] by (simp add: point_def)
next
  case False
  then show ?thesis
    using assms layout_type [OF assms(2)] layout_tag [OF assms(2)] app_tag_obj_tag [of x]
    by (simp add: point_def deserializeDataPoint.simps deserializeTag_obj_tag deserializeValue_wire)
qed

section \<open>What a packet can never do\<close>

text \<open>Whatever arrives, an object keeps its layout.\<close>

lemma des_all_layout:
  assumes "\<And>b y. y \<in> set ys \<Longrightarrow> layout (snd (f b y)) = layout y"
  shows "map layout (snd (snd (des_all f bs ys))) = map layout ys"
  using assms
proof (induction ys arbitrary: bs)
  case (Cons y ys)
  have "layout (snd (f bs y)) = layout y"
    by (simp add: Cons.prems)
  moreover have "map layout (snd (snd (des_all f b ys))) = map layout ys" for b
    by (rule Cons.IH) (simp add: Cons.prems)
  ultimately show ?case
    by (simp add: split_beta)
qed simp

lemma map_take_targets:
  "map layout zs = map layout (array_targets k c xs) \<Longrightarrow>
    map layout (take (length xs) zs @ drop k xs) = map layout xs"
proof -
  assume "map layout zs = map layout (array_targets k c xs)"
  then have "map layout (take (length xs) zs) = take (length xs) (map layout (array_targets k c xs))"
    by (metis take_map)
  also have "\<dots> = map layout (take k xs)"
    by (cases "k \<le> length xs") (simp_all add: array_targets_def take_map [symmetric])
  finally show ?thesis
    by (metis append_take_drop_id map_append)
qed

lemma deserializeTag_layout [simp]: "layout (snd (deserializeTag b x)) = layout x"
  by (cases x) (auto simp: deserializeTag_def setTBOOL8_def setLargestUInt_def)

lemma deserialize_layout:
  "layout (snd (deserializeValue bs x)) = layout x"
  "layout (snd (deserializeDataPoint bs x)) = layout x"
  "map layout (snd (deserializeArray bs xs)) = map layout xs"
  "map layout (snd (deserializeValueBoolArray bs xs k)) = map layout xs"
  "map layout (snd (deserializeValueStruct bs xs)) = map layout xs"
proof (induction bs x and bs x and bs xs and bs xs k and bs xs
    rule: deserializeValue_deserializeDataPoint_deserializeArray_deserializeValueBoolArray_deserializeValueStruct.induct)
  case (1 bs x)
  then show ?case
    by (cases x) (auto simp: deserializeValue.simps [of _ "Elem _ _"] deserializeValue.simps [of _ "Str _"]
        deserializeValue.simps [of _ "WStr _"] deserializeValue.simps [of _ "Arr _ _"]
        deserializeValue.simps [of _ "Struct _ _ _ _"] apsnd_def map_prod_def split: prod.splits)
next
  case (2 bs x)
  then show ?case
    by (auto simp: deserializeDataPoint.simps [of bs x] split: prod.split)
next
  case (3 bs xs)
  let ?t = "array_targets (word_len bs) (hd xs) xs"
  show ?case
  proof (cases "length bs < 2 \<or> word_len bs = 0 \<or> xs = [] \<or> getDataTypeID (hd xs) = e_BOOL
      \<or> \<not> fst (deserializeTag (byte_at bs 2) (hd xs))")
    case False
    then have "map layout (snd (snd (des_all deserializeValue (drop 3 bs) ?t))) = map layout ?t"
      using 3 by (intro des_all_layout) auto
    from map_take_targets [OF this] False show ?thesis
      by (simp add: deserializeArray.simps [of bs xs] Let_def split_beta)
  qed (use 3 in \<open>auto simp: deserializeArray.simps [of bs xs] Let_def split_beta\<close>)
next
  case (4 bs xs k)
  let ?t = "array_targets k (Elem e_BOOL 0) xs"
  show ?case
  proof (cases "xs = []")
    case False
    then have "map layout (snd (snd (des_all deserializeDataPoint bs ?t))) = map layout ?t"
      using 4 by (intro des_all_layout) auto
    from map_take_targets [OF this] False show ?thesis
      by (simp add: deserializeValueBoolArray.simps [of bs xs k] split_beta)
  qed (simp add: deserializeValueBoolArray.simps [of bs "[]" k])
next
  case (5 bs xs)
  have "map layout (snd (snd (des_all (\<lambda>b y. if getDataTypeID y = e_BOOL then deserializeDataPoint b y
      else deserializeValue b y) bs xs))) = map layout xs"
    by (rule des_all_layout) (use 5 in auto)
  then show ?case
    by (auto simp: deserializeValueStruct.simps [of bs xs] split: prod.split)
qed
section \<open>Incomplete packets\<close>

definition strict_prefix_of :: "u8 list \<Rightarrow> u8 list \<Rightarrow> bool" where
  "strict_prefix_of p bs \<longleftrightarrow> (\<exists>q. q \<noteq> [] \<and> bs = p @ q)"

lemma strict_prefix_length: "strict_prefix_of p bs \<Longrightarrow> length p < length bs"
  by (auto simp: strict_prefix_of_def)

lemma strict_prefix_append:
  "strict_prefix_of p (a @ b) \<longleftrightarrow> strict_prefix_of p a \<or> (\<exists>q. p = a @ q \<and> strict_prefix_of q b)"
  by (auto simp: strict_prefix_of_def append_eq_append_conv2)

lemma des_all_stuck:
  assumes "list_all2 (\<lambda>x y. w x \<noteq> [] \<and> (\<forall>rest. f (w x @ rest) y = (int (length (w x)), x))
      \<and> (\<forall>p. strict_prefix_of p (w x) \<longrightarrow> fst (f p y) = -1)) xs ys"
    "strict_prefix_of p (concat (map w xs))"
  shows "fst (des_all f p ys) = False \<and> fst (snd (des_all f p ys)) = -1"
  using assms
proof (induction xs arbitrary: ys p)
  case (Cons x xs)
  then obtain y ys' where ys: "ys = y # ys'"
    by (cases ys) auto
  consider (here) "strict_prefix_of p (w x)"
    | (later) q where "p = w x @ q" "strict_prefix_of q (concat (map w xs))"
    using Cons.prems(2) by (auto simp: strict_prefix_append)
  then show ?case
  proof cases
    case here
    then have "fst (f p y) = -1"
      using Cons.prems(1) by (simp add: ys)
    then show ?thesis
      by (simp add: ys split_beta)
  next
    case later
    have "fst (des_all f q ys') = False \<and> fst (snd (des_all f q ys')) = -1"
      using Cons later(2) by (simp add: ys)
    then show ?thesis
      using Cons.prems(1) later(1) by (simp add: ys split_beta)
  qed
qed (simp add: strict_prefix_of_def)

lemma bool_point_stuck: "strict_prefix_of p (wire x) \<Longrightarrow> getDataTypeID x = e_BOOL \<Longrightarrow> fst (deserializeDataPoint p y) = -1"
  by (cases x) (auto simp: deserializeDataPoint.simps strict_prefix_of_def Cons_eq_append_conv)

lemma word_len_prefix: "2 \<le> length p \<Longrightarrow> word_len (p @ q) = word_len p"
  by (auto simp: word_len_def byte_at_def nth_append)

lemma simple_stuck: "length p < dt_size t - 1 \<Longrightarrow> fst (deserializeValueSimpleDataType p t w) = -1"
  by (simp add: deserializeValueSimpleDataType_def Let_def)

text \<open>A proper part of an encoding is never taken for a value.\<close>

lemma deserializeValue_stuck:
  "sendable x \<Longrightarrow> layout x = layout y \<Longrightarrow> getDataTypeID x \<noteq> e_BOOL \<Longrightarrow> strict_prefix_of p (wire x) \<Longrightarrow>
    fst (deserializeValue p y) = -1"
proof (induction x arbitrary: y p)
  case (Elem t w)
  then obtain v where y: "y = Elem t v"
    by (cases y) auto
  show ?case
    using Elem.prems strict_prefix_length [OF Elem.prems(4)] simple_stuck [of p t v]
    by (auto simp: y deserializeValue.simps deserializeValueTime_def apsnd_def map_prod_def split_beta)
next
  case (Str s)
  then obtain q where q: "len_bytes (length s) @ s = p @ q" "q \<noteq> []"
    by (auto simp: strict_prefix_of_def)
  have "length p < length s + 2"
    using strict_prefix_length [OF Str.prems(4)] by simp
  moreover have "2 \<le> length p \<Longrightarrow> word_len p = length s"
    using Str.prems(1) word_len_bytes [of "length s" s] word_len_prefix [of p q] by (simp add: q)
  ultimately show ?case
    using Str.prems by (cases y) (auto simp: deserializeValue.simps deserializeValueString_def)
next
  case (WStr s)
  then obtain bs where bs: "utf16_bytes s = Some bs" "length bs \<le> 131070" "even (length bs)"
    by (auto split: option.splits)
  have w: "wire (WStr s) = len_bytes (length bs div 2) @ bs"
    by (simp add: bs(1) len_bytes_def div_mult2_eq [symmetric])
  have pre: "strict_prefix_of p (len_bytes (length bs div 2) @ bs)"
    using WStr.prems(4) unfolding w .
  then obtain q where q: "len_bytes (length bs div 2) @ bs = p @ q" "q \<noteq> []"
    by (auto simp: strict_prefix_of_def)
  have "length p < length bs + 2"
    using strict_prefix_length [OF pre] by simp
  moreover have "length bs div 2 < 65536"
    using bs(2) by auto
  then have "2 \<le> length p \<Longrightarrow> word_len p = length bs div 2"
    using word_len_bytes [of "length bs div 2" bs] word_len_prefix [of p q] by (simp add: q)
  ultimately show ?case
    using WStr.prems(2) bs(3) by (cases y) (auto simp: deserializeValue.simps deserializeValueWString_def)
next
  case (Arr r xs)
  then obtain ys where y: "y = Arr r ys" "map layout xs = map layout ys"
    by (cases y) auto
  have ne: "xs \<noteq> []" and all: "\<And>z. z \<in> set xs \<Longrightarrow> sendable z \<and> layout (hd xs) = layout z"
    and len: "length xs < 65536" "length ys = length xs"
    using Arr.prems y(2) by (auto simp: list_all_iff dest: map_eq_imp_length_eq)
  have ty: "getDataTypeID z = getDataTypeID (hd xs)" if "z \<in> set xs" for z
    using all [OF that] layout_type by metis
  have "layout (hd xs) = layout (hd ys)"
    using y(2) ne by (cases xs; cases ys) auto
  then have hd: "getDataTypeID (hd ys) = getDataTypeID (hd xs)" "obj_tag (hd ys) = obj_tag (hd xs)"
    using layout_type layout_tag by metis+
  have targets: "array_targets (length xs) c ys = ys" for c
    by (simp add: array_targets_def len)
  have ys: "ys \<noteq> []"
    using ne len by auto
  show ?case
  proof (cases "length p < 2")
    case True
    then show ?thesis
      by (simp add: y(1) deserializeValue.simps [of _ "Arr r ys"] deserializeArray.simps)
  next
    case False
    from Arr.prems(4) obtain q where q: "len_bytes (length xs)
        @ ((if getDataTypeID (hd xs) = e_BOOL then [] else [obj_tag (hd xs)]) @ concat (map wire xs)) = p @ q" "q \<noteq> []"
      by (auto simp: strict_prefix_of_def)
    obtain p' where p: "p = len_bytes (length xs) @ p'"
      using q(1) False by (auto simp: append_eq_append_conv2 append_eq_conv_conj)
        (metis append_Nil2 append_take_drop_id length_len_bytes linorder_not_le order_le_less take_all_iff)
    have k: "word_len p = length xs" "drop 2 p = p'"
      using len(1) by (simp_all add: p)
    have p': "strict_prefix_of p' ((if getDataTypeID (hd xs) = e_BOOL then [] else [obj_tag (hd xs)]) @ concat (map wire xs))"
      using q by (auto simp: p strict_prefix_of_def)
    show ?thesis
    proof (cases "getDataTypeID (hd xs) = e_BOOL")
      case True
      have "list_all2 (\<lambda>x y. wire x \<noteq> [] \<and> (\<forall>rest. deserializeDataPoint (wire x @ rest) y = (int (length (wire x)), x))
          \<and> (\<forall>p. strict_prefix_of p (wire x) \<longrightarrow> fst (deserializeDataPoint p y) = -1)) xs ys"
        using True all ty layout_type
        by (intro map_layout_rel [OF y(2)]) (metis bool_point_back bool_point_stuck wire_nonempty)
      from des_all_stuck [OF this, of p'] show ?thesis
        using True hd len ne ys p' False k
        by (simp add: y(1) deserializeValue.simps [of _ "Arr r ys"] deserializeArray.simps
            deserializeValueBoolArray.simps targets split_beta)
    next
      case nb: False
      have "list_all2 (\<lambda>x y. wire x \<noteq> [] \<and> (\<forall>rest. deserializeValue (wire x @ rest) y = (int (length (wire x)), x))
          \<and> (\<forall>p. strict_prefix_of p (wire x) \<longrightarrow> fst (deserializeValue p y) = -1)) xs ys"
        using nb all ty Arr.IH(2) by (intro map_layout_rel [OF y(2)]) (metis wire_nonempty deserializeValue_wire)
      note stuck = des_all_stuck [OF this]
      have "strict_prefix_of (drop 3 p) (concat (map wire xs))"
        using p' nb ne all [of "hd xs"] wire_nonempty [of "hd xs"]
        by (cases p') (auto simp: p strict_prefix_of_def intro: bexI [of _ "hd xs"])
      from stuck [OF this] show ?thesis
        using nb hd len ne ys False k
        by (simp add: y(1) deserializeValue.simps [of _ "Arr r ys"] deserializeArray.simps targets split_beta
            deserializeTag_obj_tag Let_def)
    qed
  qed
next
  case (Struct sn a ns xs)
  then obtain ys where y: "y = Struct sn a ns ys" "map layout xs = map layout ys"
    by (cases y) auto
  let ?f = "\<lambda>b y. if getDataTypeID y = e_BOOL then deserializeDataPoint b y else deserializeValue b y"
  have "list_all2 (\<lambda>x y. wire x \<noteq> [] \<and> (\<forall>rest. ?f (wire x @ rest) y = (int (length (wire x)), x))
      \<and> (\<forall>p. strict_prefix_of p (wire x) \<longrightarrow> fst (?f p y) = -1)) xs ys"
  proof (rule map_layout_rel [OF y(2)])
    fix x y assume *: "x \<in> set xs" "layout x = layout y"
    then have "sendable x" "getDataTypeID x = getDataTypeID y"
      using Struct.prems(1) layout_type [OF *(2)] by (auto simp: list_all_iff)
    then show "wire x \<noteq> [] \<and> (\<forall>rest. ?f (wire x @ rest) y = (int (length (wire x)), x))
      \<and> (\<forall>p. strict_prefix_of p (wire x) \<longrightarrow> fst (?f p y) = -1)"
      using * Struct.IH [of x y] bool_point_back [of x y] bool_point_stuck [of _ x y] wire_nonempty
        deserializeValue_wire [of x y] by simp
  qed
  from des_all_stuck [OF this, of p] show ?case
    using Struct.prems(4) by (simp add: y(1) deserializeValue.simps [of _ "Struct sn a ns ys"] deserializeValueStruct.simps split_beta)
qed

lemma deserializeDataPoint_stuck:
  assumes "sendable x" "layout x = layout y" "app_tag x" "strict_prefix_of p (point x)"
  shows "fst (deserializeDataPoint p y) \<in> {-1, 0}"
proof (cases "getDataTypeID x = e_BOOL \<or> p = []")
  case True
  then show ?thesis
  proof (cases "p = []")
    case False
    with True assms(4) have "fst (deserializeDataPoint p y) = -1"
      by (intro bool_point_stuck [of p x]) (simp_all add: point_def)
    then show ?thesis
      by simp
  qed (simp add: deserializeDataPoint.simps)
next
  case False
  then obtain p' where p: "p = obj_tag x # p'" "strict_prefix_of p' (wire x)"
    using assms(4) by (cases p) (auto simp: point_def strict_prefix_of_def)
  show ?thesis
    using assms False layout_type [OF assms(2)] layout_tag [OF assms(2)] app_tag_obj_tag [of x]
      deserializeValue_stuck [OF assms(1, 2) _ p(2)]
    by (simp add: p(1) deserializeDataPoint.simps deserializeTag_obj_tag split_beta)
qed
section \<open>Sending\<close>

primrec no_structs :: "iec_any \<Rightarrow> bool" where
  "no_structs (Elem t w) \<longleftrightarrow> True"
| "no_structs (Str s) \<longleftrightarrow> True"
| "no_structs (WStr s) \<longleftrightarrow> True"
| "no_structs (Arr r xs) \<longleftrightarrow> list_all no_structs xs"
| "no_structs (Struct n a ns xs) \<longleftrightarrow> False"

lemma required_size_point:
  "sendable x \<Longrightarrow> no_structs x \<Longrightarrow> getRequiredSerializationSize x = int (length (point x))"
proof (induction x)
  case (Elem t w)
  have "dt_size e_BOOL = 1" "dt_size e_TIME = 9" "\<not> simple_type e_ARRAY"
    by (simp_all add: dt_size_def csm_aDataTags_def)
  then show ?case
    using Elem simple_type_size [of t] by (cases "t = e_ARRAY") (auto simp: point_def split: if_splits)
next
  case (Str s)
  then show ?case
    by (simp add: point_def)
next
  case (WStr s)
  then show ?case
    by (auto simp: point_def getRequiredWString_def split: option.splits)
next
  case (Arr r xs)
  have ne: "xs \<noteq> []" and all: "\<And>z. z \<in> set xs \<Longrightarrow> sendable z \<and> no_structs z \<and> layout (hd xs) = layout z"
    and r: "getDataTypeID r = getDataTypeID (hd xs)"
    using Arr.prems by (auto simp: list_all_iff)
  have ty: "getDataTypeID z = getDataTypeID (hd xs)" if "z \<in> set xs" for z
    using all [OF that] layout_type by metis
  have size: "getRequiredSerializationSize z = int (length (point z))" if "z \<in> set xs" for z
    using all [OF that] Arr.IH(2) [OF that] by blast
  show ?case
  proof (cases "getDataTypeID (hd xs) = e_BOOL")
    case True
    have "length (wire z) = 1" if "z \<in> set xs" for z
      using ty [OF that] all [OF that] True by (cases z) auto
    then have "length (concat (map wire xs)) = length xs"
      by (simp add: length_concat comp_def sum_list_triv cong: map_cong)
    then show ?thesis
      using True r by (simp add: point_def)
  next
    case False
    have "sum_list (map getRequiredSerializationSize ys) = int (length ys) + int (length (concat (map wire ys)))"
      if "set ys \<subseteq> set xs" for ys
      using that by (induction ys) (use False size ty in \<open>auto simp: point_def\<close>)
    from this [of xs] show ?thesis
      using False r ne by (cases xs) (auto simp: point_def)
  qed
qed simp

lemma serializeFB_points:
  assumes "list_all sendable xs" "xs \<noteq> []"
  shows "serializeFBDataPointArray n xs
    = (if int (length (concat (map point xs))) \<le> n then Some (concat (map point xs)) else None)"
  using ser_all_wire [of xs serializeDataPoint point n "[]"] assms serializeDataPoint_point
  by (simp add: serializeFBDataPointArray_def list_all_iff)

lemma sum_required:
  "list_all (\<lambda>x. sendable x \<and> no_structs x) xs \<Longrightarrow>
    sum_list (map getRequiredSerializationSize xs) = int (length (concat (map point xs)))"
  by (induction xs) (auto simp: required_size_point)

lemma points_nonempty: "xs \<noteq> [] \<Longrightarrow> list_all sendable xs \<Longrightarrow> concat (map point xs) \<noteq> []"
  by (cases xs) (auto simp: point_def dest: wire_nonempty)

lemma sendData_points:
  assumes "asn1_sendData bottom xs = (r, Some bs)" "list_all sendable xs" "xs \<noteq> []"
  shows "bs = concat (map point xs)"
  using assms serializeFB_points [OF assms(2, 3)]
  by (auto simp: asn1_sendData_def Let_def split: option.splits if_splits)



text \<open>A struct cannot be sent once its encoding is longer than 255 bytes: the required size of a struct
  is taken from the table, where 255 stands for "unknown", so the buffer is too small and the send fails
  with a data type error before the layer below is called.\<close>

theorem long_struct_is_never_sent:
  assumes "sendable x" "getDataTypeID x = e_STRUCT" "255 < length (point x)"
  shows "asn1_sendData (Some send) [x] = (e_ProcessDataDataTypeError, None)"
proof -
  obtain n a ns xs where x: "x = Struct n a ns xs"
    using assms(1, 2) by (cases x) auto
  have "getRequiredSerializationSize x = 255"
    by (simp add: x dt_size_def csm_aDataTags_def)
  then show ?thesis
    using serializeFB_points [of "[x]" 255] assms(1, 3) by (simp add: asn1_sendData_def)
qed

theorem long_struct_is_never_sent_witness:
  "asn1_sendData (Some (\<lambda>bs. e_ProcessDataOk)) [Struct ''Msg'' 72 [''text''] [Str (replicate 300 65)]]
    = (e_ProcessDataDataTypeError, None)"
  by (rule long_struct_is_never_sent) (simp_all add: point_def)
section \<open>Receiving\<close>

text \<open>The first \<open>j\<close> outputs have the values of this round, the others some value of the right layout.\<close>

definition received :: "asn1_layer \<Rightarrow> nat \<Rightarrow> iec_any list \<Rightarrow> bool" where
  "received L j xs \<longleftrightarrow> mDOPos L = j \<and> map layout (RDs L) = map layout xs \<and> take j (RDs L) = take j xs"

lemma received_nth:
  assumes "received L j xs" "j < length xs"
  shows "length (RDs L) = length xs" "layout (xs ! j) = layout (RDs L ! j)" "RDs L \<noteq> []"
proof -
  show "length (RDs L) = length xs"
    using assms(1) by (auto simp: received_def dest: map_eq_imp_length_eq)
  then show "RDs L \<noteq> []"
    using assms(2) by auto
  have "map layout (RDs L) ! j = map layout xs ! j"
    using assms(1) by (simp add: received_def)
  then show "layout (xs ! j) = layout (RDs L ! j)"
    using assms(2) \<open>length (RDs L) = length xs\<close> by simp
qed

lemma map_layout_update: "layout x = layout (ys ! j) \<Longrightarrow> map layout (ys[j := x]) = map layout ys"
  by (metis list_update_id map_update)

lemma received_update:
  assumes "received L j xs" "j < length xs" "RDs L' = (RDs L)[j := xs ! j]" "mDOPos L' = Suc j"
  shows "received L' (Suc j) xs"
  using assms received_nth [OF assms(1, 2)] map_layout_update [of "xs ! j" "RDs L" j]
  by (simp add: received_def take_Suc_conv_app_nth)

definition carried :: "iec_any list \<Rightarrow> bool" where
  "carried xs \<longleftrightarrow> list_all (\<lambda>x. sendable x \<and> app_tag x) xs"

lemma carried_nth: "carried xs \<Longrightarrow> j < length xs \<Longrightarrow> sendable (xs ! j) \<and> app_tag (xs ! j)"
  by (simp add: carried_def list_all_length)

lemma recv_loop_point:
  assumes "received L j xs" "j < length xs" "carried xs"
  shows "\<exists>L'. RDs L' = (RDs L)[j := xs ! j] \<and> mDOPos L' = Suc j \<and> mDeserBuf L' = [] \<and>
    recv_loop fresh (point (xs ! j) @ rest) e L =
      (if Suc j = length xs then recv_loop fresh rest e_ProcessDataOk (L'\<lparr>mDOPos := 0\<rparr>)
       else recv_loop fresh rest e L')"
proof -
  let ?L = "L\<lparr>RDs := (RDs L)[j := xs ! j], mDOPos := Suc j, mDeserBuf := []\<rparr>"
  have d: "deserializeDataPoint (point (xs ! j) @ rest) (RDs L ! mDOPos L) = (int (length (point (xs ! j))), xs ! j)"
    using deserializeDataPoint_point carried_nth [OF assms(3, 2)] received_nth(2) [OF assms(1, 2)] assms(1)
    by (simp add: received_def)
  have "point (xs ! j) \<noteq> []"
    using carried_nth [OF assms(3, 2)] wire_nonempty by (auto simp: point_def)
  then have "recv_loop fresh (point (xs ! j) @ rest) e L =
      (if Suc j = length xs then recv_loop fresh rest e_ProcessDataOk (?L\<lparr>mDOPos := 0\<rparr>)
       else recv_loop fresh rest e ?L)"
    using d received_nth [OF assms(1, 2)] assms(1, 2)
    by (subst recv_loop.simps) (auto simp: received_def Let_def)
  then show ?thesis
    by (intro exI [of _ ?L]) simp
qed

lemma recv_loop_rest:
  assumes "received L j xs" "j < length xs" "carried xs"
  shows "\<exists>L'. recv_loop fresh (concat (map point (drop j xs))) e L = (e_ProcessDataOk, L')
    \<and> RDs L' = xs \<and> mDOPos L' = 0 \<and> mDeserBuf L' = []"
  using assms(1, 2)
proof (induction "length xs - j" arbitrary: j L)
  case (Suc n)
  let ?rest = "concat (map point (drop (Suc j) xs))"
  have d: "concat (map point (drop j xs)) = point (xs ! j) @ ?rest"
    using Suc.prems(2) by (simp add: Cons_nth_drop_Suc [symmetric])
  obtain L' where L': "RDs L' = (RDs L)[j := xs ! j]" "mDOPos L' = Suc j" "mDeserBuf L' = []"
    "recv_loop fresh (point (xs ! j) @ ?rest) e L =
      (if Suc j = length xs then recv_loop fresh ?rest e_ProcessDataOk (L'\<lparr>mDOPos := 0\<rparr>)
       else recv_loop fresh ?rest e L')"
    using recv_loop_point [OF Suc.prems assms(3)] by blast
  have r: "received L' (Suc j) xs"
    using received_update [OF Suc.prems L'(1, 2)] .
  show ?case
  proof (cases "Suc j = length xs")
    case True
    then have "RDs L' = xs"
      using r by (auto simp: received_def dest: map_eq_imp_length_eq)
    then show ?thesis
      using True L' by (simp add: d recv_loop.simps)
  next
    case False
    then show ?thesis
      using Suc(1) [of "Suc j" L'] Suc(2) Suc.prems(2) r L'(4) by (simp add: d)
  qed
qed simp

lemma cut_point:
  assumes "p @ q = a @ (r :: u8 list)"
  shows "p = [] \<or> p \<noteq> [] \<and> strict_prefix_of p a \<or> (\<exists>p'. p = a @ p' \<and> p' @ q = r)"
proof -
  obtain us where "p = a @ us \<and> us @ q = r \<or> p @ us = a \<and> q = us @ r"
    using assms by (auto simp: append_eq_append_conv2)
  then show ?thesis
    by (cases "us = []") (auto simp: strict_prefix_of_def)
qed

lemma recv_loop_part:
  assumes "received L j xs" "j < length xs" "carried xs" "mDeserBuf L = []" "q \<noteq> []"
    "p @ q = concat (map point (drop j xs))"
  shows "\<exists>j' L'. recv_loop True p e L = (e, L') \<and> j' < length xs \<and> received L' j' xs
    \<and> mDeserBuf L' @ q = concat (map point (drop j' xs))"
  using assms(1, 2, 4, 6)
proof (induction "length xs - j" arbitrary: j L p)
  case (Suc n)
  let ?rest = "concat (map point (drop (Suc j) xs))"
  have d: "concat (map point (drop j xs)) = point (xs ! j) @ ?rest"
    using Suc.prems(2) by (simp add: Cons_nth_drop_Suc [symmetric])
  note c = carried_nth [OF assms(3) Suc.prems(2)] and nth = received_nth [OF Suc.prems(1, 2)]
  consider (empty) "p = []" | (stuck) "p \<noteq> []" "strict_prefix_of p (point (xs ! j))"
    | (more) p' where "p = point (xs ! j) @ p'" "p' @ q = ?rest"
    using cut_point [of p q "point (xs ! j)" ?rest] Suc.prems(4) unfolding d by blast
  then show ?case
  proof cases
    case empty
    then show ?thesis
      using Suc.prems by (intro exI [of _ j] exI [of _ L]) (simp add: recv_loop.simps)
  next
    case stuck
    obtain n x where des: "deserializeDataPoint p (RDs L ! j) = (n, x)"
      by fastforce
    have n: "n = -1 \<or> n = 0"
      using deserializeDataPoint_stuck [of "xs ! j" "RDs L ! j" p] c nth(2) stuck(2) des by auto
    let ?L = "(if mDeserBufSize L < length p then resizeDeserBuffer (length p) (L\<lparr>RDs := (RDs L)[j := x]\<rparr>)
        else L\<lparr>RDs := (RDs L)[j := x]\<rparr>)\<lparr>mDeserBuf := p\<rparr>"
    have x: "layout x = layout (RDs L ! j)"
      using deserialize_layout(2) [of p "RDs L ! j"] des by simp
    have "recv_loop True p e L = (e, ?L)"
      using stuck(1) des n nth Suc.prems(1, 2)
      by (subst recv_loop.simps) (auto simp: received_def Let_def resizeDeserBuffer_def)
    moreover have "received ?L j xs"
      using Suc.prems(1) map_layout_update [OF x] by (auto simp: received_def resizeDeserBuffer_def)
    ultimately show ?thesis
      using Suc.prems by (intro exI [of _ j] exI [of _ ?L]) simp
  next
    case more
    obtain L' where L': "RDs L' = (RDs L)[j := xs ! j]" "mDOPos L' = Suc j" "mDeserBuf L' = []"
      "recv_loop True (point (xs ! j) @ p') e L =
        (if Suc j = length xs then recv_loop True p' e_ProcessDataOk (L'\<lparr>mDOPos := 0\<rparr>)
         else recv_loop True p' e L')"
      using recv_loop_point [OF Suc.prems(1, 2) assms(3)] by blast
    have "Suc j < length xs"
      using more(2) assms(5) Suc.prems(2) by (cases "Suc j = length xs") auto
    then show ?thesis
      using Suc(1) [of "Suc j" L' p'] Suc(2) L' more received_update [OF Suc.prems(1, 2) L'(1, 2)] by simp
  qed
qed simp
lemma resizeDeserBuffer_keeps [simp]:
  "mDeserBuf (resizeDeserBuffer n L) = mDeserBuf L" "mDOPos (resizeDeserBuffer n L) = mDOPos L"
  "RDs (resizeDeserBuffer n L) = RDs L"
  by (simp_all add: resizeDeserBuffer_def)

lemma grown_buf [simp]: "mDeserBuf (if c then resizeDeserBuffer n L else L) = mDeserBuf L"
  by simp

lemma idle_received:
  "mDOPos L = 0 \<Longrightarrow> map layout (RDs L) = map layout xs \<Longrightarrow> received L 0 xs"
  by (simp add: received_def)

lemma recvData_whole:
  assumes "carried xs" "xs \<noteq> []" "received L 0 xs" "mDeserBuf L = []"
  shows "\<exists>L'. asn1_recvData (concat (map point xs)) L = (e_ProcessDataOk, L')
    \<and> RDs L' = xs \<and> mDOPos L' = 0 \<and> mDeserBuf L' = []"
  using recv_loop_rest [OF assms(3) _ assms(1), of True e_Nothing] assms(2, 4) by (simp add: asn1_recvData_def)


lemma sendable_int16: "sendable (Elem e_INT w) \<longleftrightarrow> snd (deserializeValueSimpleDataType (be_bytes 2 w) e_INT 0) = w"
  by (simp add: simple_type_def dt_size_def csm_aDataTags_def)

lemma example_carried: "carried [Elem e_INT 1, Elem e_INT 2]"
  by (simp add: carried_def sendable_int16 app_tag_def deserializeValueSimpleDataType_def dt_size_def csm_aDataTags_def
      be_bytes_def be_word_def upt_rec del: sendable.simps)

lemma example_points: "point (Elem e_INT 1) = [67, 0, 1]" "point (Elem e_INT 2) = [67, 0, 2]"
  by (simp_all add: point_def obj_tag_def dt_tag_def dt_size_def csm_aDataTags_def e_APPLICATION_def simple_type_def
      be_bytes_def upt_rec)


text \<open>C21. A message may be cut anywhere: whichever two packets it arrives in, the first is kept without an
  event (with the outputs that were already complete) and the second completes it, with the same outputs
  and the same waiting layer as if it had come in one piece.\<close>

theorem two_packets_reassemble:
  assumes "carried xs" "xs \<noteq> []" "p @ q = concat (map point xs)" "q \<noteq> []"
    "mDeserBuf L = []" "mDOPos L = 0" "map layout (RDs L) = map layout xs"
  shows "\<exists>L1 L2. asn1_recvData p L = (e_Nothing, L1) \<and> asn1_recvData q L1 = (e_ProcessDataOk, L2)
    \<and> RDs L2 = xs \<and> mDOPos L2 = 0 \<and> mDeserBuf L2 = []"
proof -
  obtain j L1 where L1: "recv_loop True p e_Nothing L = (e_Nothing, L1)" "j < length xs" "received L1 j xs"
    "mDeserBuf L1 @ q = concat (map point (drop j xs))"
    using recv_loop_part [OF idle_received _ assms(1), of L q p e_Nothing] assms by auto
  let ?M = "(if mDeserBufSize L1 < length q + length (mDeserBuf L1)
      then resizeDeserBuffer (length q + length (mDeserBuf L1)) L1 else L1)\<lparr>mDeserBuf := mDeserBuf L1 @ q\<rparr>"
  have "received ?M j xs"
    using L1(3) by (auto simp: received_def resizeDeserBuffer_def)
  then obtain L2 where L2: "recv_loop False (concat (map point (drop j xs))) e_Nothing ?M = (e_ProcessDataOk, L2)"
    "RDs L2 = xs" "mDOPos L2 = 0" "mDeserBuf L2 = []"
    using recv_loop_rest [OF _ L1(2) assms(1)] by blast
  obtain L3 where L3: "recv_loop True (concat (map point (drop j xs))) e_Nothing L1 = (e_ProcessDataOk, L3)"
    "RDs L3 = xs" "mDOPos L3 = 0" "mDeserBuf L3 = []"
    using recv_loop_rest [OF L1(3, 2) assms(1)] by blast
  show ?thesis
  proof (cases "mDeserBuf L1 = []")
    case True
    then show ?thesis
      using L1(1, 4) L3 assms(5) by (simp add: asn1_recvData_def)
  next
    case False
    then show ?thesis
      using L1(1, 4) L2 assms(5) by (simp add: asn1_recvData_def Let_def split del: if_split)
  qed
qed

theorem two_packets_reassemble_witness:
  "\<exists>L1 L2. asn1_recvData [67, 0, 1, 67] (CFBDKASN1ComLayer [] [Elem e_INT 0, Elem e_INT 0]) = (e_Nothing, L1)
    \<and> asn1_recvData [0, 2] L1 = (e_ProcessDataOk, L2)
    \<and> RDs L2 = [Elem e_INT 1, Elem e_INT 2] \<and> mDOPos L2 = 0 \<and> mDeserBuf L2 = []"
  by (rule two_packets_reassemble [OF example_carried]) (simp_all add: CFBDKASN1ComLayer_def example_points)

text \<open>With more packets the layer loses data: when a packet completes the data point that was waiting
  in \<open>mDeserBuf\<close> and brings the beginning \<open>r\<close> of the next one, \<open>r\<close> is not kept; the layer goes on as if the
  next packet started with that data point.\<close>

theorem third_packet_is_lost:
  assumes "carried xs" "2 \<le> length xs" "received L 0 xs"
    "mDeserBuf L @ q = point (xs ! 0)" "mDeserBuf L \<noteq> []" "r \<noteq> []" "strict_prefix_of r (point (xs ! 1))"
  shows "\<exists>L'. asn1_recvData (q @ r) L = (e_Nothing, L') \<and> mDOPos L' = 1 \<and> mDeserBuf L' = []"
proof -
  let ?M = "(if mDeserBufSize L < length (q @ r) + length (mDeserBuf L)
      then resizeDeserBuffer (length q + length r + length (mDeserBuf L)) L else L)\<lparr>mDeserBuf := point (xs ! 0) @ r\<rparr>"
  have M: "received ?M 0 xs"
    using assms(3) by (auto simp: received_def resizeDeserBuffer_def)
  have len: "0 < length xs" "1 < length xs"
    using assms(2) by auto
  obtain L' where L': "RDs L' = (RDs ?M)[0 := xs ! 0]" "mDOPos L' = Suc 0" "mDeserBuf L' = []"
    "recv_loop False (point (xs ! 0) @ r) e_Nothing ?M =
      (if Suc 0 = length xs then recv_loop False r e_ProcessDataOk (L'\<lparr>mDOPos := 0\<rparr>)
       else recv_loop False r e_Nothing L')"
    using recv_loop_point [OF M len(1) assms(1)] by blast
  have rec: "received L' 1 xs"
    using received_update [OF M len(1) L'(1, 2)] by simp
  note nth = received_nth [OF rec len(2)]
  obtain n x where des: "deserializeDataPoint r (RDs L' ! 1) = (n, x)"
    by fastforce
  have "n = -1 \<or> n = 0"
    using deserializeDataPoint_stuck [of "xs ! 1" "RDs L' ! 1" r] carried_nth [OF assms(1) len(2)] nth(2) assms(7) des
    by auto
  then have "recv_loop False r e_Nothing L' = (e_Nothing, L'\<lparr>RDs := (RDs L')[1 := x]\<rparr>)"
    using des assms(6) nth L'(2) len by (subst recv_loop.simps) (auto simp: Let_def)
  moreover have "asn1_recvData (q @ r) L = recv_loop False (point (xs ! 0) @ r) e_Nothing ?M"
    using assms(4, 5) by (simp add: asn1_recvData_def Let_def append_assoc [symmetric] del: append_assoc split del: if_split)
  ultimately show ?thesis
    using L' assms(2) by simp
qed

theorem third_packet_is_lost_witness:
  "\<exists>L'. asn1_recvData ([0, 1] @ [67])
      \<lparr>mStatSerBufSize = 0, mDeserBuf = [67], mDeserBufSize = 8, mDOPos = 0, RDs = [Elem e_INT 0, Elem e_INT 0]\<rparr>
    = (e_Nothing, L') \<and> mDOPos L' = 1 \<and> mDeserBuf L' = []"
  by (rule third_packet_is_lost [OF example_carried])
    (simp_all add: received_def example_points strict_prefix_of_def)

lemma recv_loop_layout: "map layout (RDs (snd (recv_loop f bs e L))) = map layout (RDs L)"
proof (induction f bs e L rule: recv_loop.induct)
  case (1 fresh bs e L)
  obtain n x where des: "deserializeDataPoint bs (RDs L ! mDOPos L) = (n, x)"
    by fastforce
  have "layout x = layout (RDs L ! mDOPos L)"
    using deserialize_layout(2) [of bs "RDs L ! mDOPos L"] des by simp
  then have "map layout ((RDs L)[mDOPos L := x]) = map layout (RDs L)"
    by (rule map_layout_update)
  then show ?case
    using 1 des
    by (cases "RDs L = []"; subst recv_loop.simps)
      (auto simp: Let_def)
qed


end
