(* ===== verification/String_Dict.thy ===== *)
theory String_Dict
  imports Forte_Prelude
begin

text \<open>
  The string dictionary, \<^verbatim>\<open>src/src/core/stringdict.{h,cpp}\<close>: all names of the runtime are offsets into one
  buffer of zero-terminated strings, found by binary search in an index that is sorted by the strings.
  The dictionary is built with growing buffers (\<open>FORTE_STRING_DICT_FIXED_MEMORY\<close> not set); whether memory
  can be allocated is a parameter. The generated constants are arguments of the constructor.

  The locale \<open>interning\<close> states what the rest of the runtime relies on when it compares ids instead of
  names, and is interpreted on the model.
\<close>

unbundle bit_operations_syntax

section \<open>The dictionary\<close>

text \<open>\<open>strcmp\<close> of the C library on strings without their terminator: -1, 0 or 1.\<close>

fun strcmp :: "u8 list \<Rightarrow> u8 list \<Rightarrow> int" where
  "strcmp [] [] = 0"
| "strcmp [] (b # t) = -1"
| "strcmp (a # s) [] = 1"
| "strcmp (a # s) (b # t) = (if a < b then -1 else if b < a then 1 else strcmp s t)"

text \<open>The bytes in use of the string buffer (there are \<open>m_nNextString\<close> of them), the ids in use of the
  index (\<open>m_nNrOfStrings\<close>), and the sizes of both buffers. An id is an offset into the buffer.\<close>

record string_dict =
  m_paStringBuf :: "u8 list"
  m_pnStringIdBuf :: "nat list"
  m_nStringBufSize :: nat
  m_nMaxNrOfStrings :: nat

definition m_nNextString :: "string_dict \<Rightarrow> nat" where
  "m_nNextString d = length (m_paStringBuf d)"

definition m_nNrOfStrings :: "string_dict \<Rightarrow> nat" where
  "m_nNrOfStrings d = length (m_pnStringIdBuf d)"

text \<open>The string that starts at an address.\<close>

definition string_at :: "string_dict \<Rightarrow> nat \<Rightarrow> u8 list" where
  "string_at d i = takeWhile (\<lambda>b. b \<noteq> 0) (drop i (m_paStringBuf d))"

text \<open>The constructor copies the generated constants; \<open>grow\<close> is the growth by one half.\<close>

definition grow :: "nat \<Rightarrow> nat" where
  "grow n = n * 3 div 2"

definition CStringDictionary :: "nat \<Rightarrow> nat \<Rightarrow> u8 list \<Rightarrow> nat list \<Rightarrow> string_dict" where
  "CStringDictionary initBuf initMax consts ids =
     \<lparr>m_paStringBuf = consts, m_pnStringIdBuf = ids,
      m_nStringBufSize = (if initBuf < length consts then grow (length consts) else initBuf),
      m_nMaxNrOfStrings = (if initMax < length ids then grow (length ids) else initMax)\<rparr>"

definition dict_clear :: "string_dict \<Rightarrow> string_dict" where
  "dict_clear d = \<lparr>m_paStringBuf = [], m_pnStringIdBuf = [], m_nStringBufSize = 0, m_nMaxNrOfStrings = 0\<rparr>"

definition dict_get :: "string_dict \<Rightarrow> nat \<Rightarrow> u8 list option" where
  "dict_get d i =
     (if m_nNextString d \<le> i then None
      else if 0 < i \<and> m_paStringBuf d ! (i - 1) \<noteq> 0 then None
      else Some (string_at d i))"

text \<open>\<open>findEntry\<close>: the binary search, with the last index looked at and the last comparison.\<close>

function find_loop :: "string_dict \<Rightarrow> u8 list \<Rightarrow> nat \<Rightarrow> nat \<Rightarrow> nat \<Rightarrow> int \<Rightarrow> nat option \<times> nat" where
  "find_loop d s low high idx r =
     (if low < high then
        let idx = (low + high) div 2;
            r = strcmp s (string_at d (m_pnStringIdBuf d ! idx))
        in if r = 0 then (Some (m_pnStringIdBuf d ! idx), idx)
           else if 0 < r then find_loop d s (idx + 1) high idx r
           else find_loop d s low idx idx r
      else (None, if 0 < r then idx + 1 else idx))"
  by pat_completeness auto
termination
  by (relation "measure (\<lambda>(d, s, low, high, idx, r). high - low)") auto

declare find_loop.simps [simp del]

definition findEntry :: "string_dict \<Rightarrow> u8 list \<Rightarrow> nat option \<times> nat" where
  "findEntry d s = (if m_nNrOfStrings d = 0 then (None, 0) else find_loop d s 0 (m_nNrOfStrings d) 0 0)"

definition getId :: "string_dict \<Rightarrow> u8 list \<Rightarrow> nat option" where
  "getId d s = fst (findEntry d s)"

text \<open>\<open>malloc n\<close> says whether \<open>forte_malloc\<close> finds \<open>n\<close> bytes. Both functions keep the contents.\<close>

definition reallocateStringIdBuf :: "(nat \<Rightarrow> bool) \<Rightarrow> nat \<Rightarrow> string_dict \<Rightarrow> bool \<times> string_dict" where
  "reallocateStringIdBuf malloc n d =
     (if m_nMaxNrOfStrings d < n
      then (if malloc (n * 4) then (True, d\<lparr>m_nMaxNrOfStrings := n\<rparr>) else (False, d))
      else (True, d))"

definition reallocateStringBuf :: "(nat \<Rightarrow> bool) \<Rightarrow> nat \<Rightarrow> string_dict \<Rightarrow> bool \<times> string_dict" where
  "reallocateStringBuf malloc n d =
     (if m_nStringBufSize d < n
      then (if malloc n then (True, d\<lparr>m_nStringBufSize := n\<rparr>) else (False, d))
      else (True, d))"

definition insertAt :: "u8 list \<Rightarrow> nat \<Rightarrow> string_dict \<Rightarrow> nat \<times> string_dict" where
  "insertAt s idx d =
     (let id = m_nNextString d; ids = m_pnStringIdBuf d
      in (id, d\<lparr>m_paStringBuf := m_paStringBuf d @ s @ [0], m_pnStringIdBuf := take idx ids @ id # drop idx ids\<rparr>))"

definition dict_insert :: "(nat \<Rightarrow> bool) \<Rightarrow> u8 list \<Rightarrow> string_dict \<Rightarrow> nat option \<times> string_dict" where
  "dict_insert malloc s d =
     (if s = [] then (None, d)
      else
        case findEntry d s of
          (Some i, idx) \<Rightarrow> (Some i, d)
        | (None, idx) \<Rightarrow>
            let nRequiredSize = m_nNextString d + length s + 1;
                (ok1, d1) = (if m_nMaxNrOfStrings d \<le> m_nNrOfStrings d
                             then reallocateStringIdBuf malloc (grow (m_nMaxNrOfStrings d)) d else (True, d))
            in if \<not> ok1 then (None, d1)
               else
                 let (ok2, d2) = (if m_nStringBufSize d1 < nRequiredSize
                                  then reallocateStringBuf malloc (grow nRequiredSize) d1 else (True, d1))
                 in if \<not> ok2 then (None, d2) else apfst Some (insertAt s idx d2))"
section \<open>The search\<close>

lemma strcmp_values: "strcmp s t \<in> {-1, 0, 1}"
  by (induction s t rule: strcmp.induct) auto

lemma strcmp_0 [simp]: "strcmp s t = 0 \<longleftrightarrow> s = t"
  by (induction s t rule: strcmp.induct) auto

lemma strcmp_same [simp]: "strcmp s s = 0"
  by simp

lemma strcmp_flip: "strcmp t s = - strcmp s t"
  by (induction s t rule: strcmp.induct) auto

lemma strcmp_pos: "0 < strcmp s t \<longleftrightarrow> strcmp t s < 0"
  using strcmp_flip [of s t] by auto

lemma strcmp_trans: "strcmp s t < 0 \<Longrightarrow> strcmp t v < 0 \<Longrightarrow> strcmp s v < 0"
proof (induction s t arbitrary: v rule: strcmp.induct)
  case (2 b t)
  then show ?case
    by (cases v) auto
next
  case (4 a s b t)
  then show ?case
    by (cases v) (auto split: if_splits)
qed auto

text \<open>The index is sorted by the strings it points at, its entries are exactly the offsets at which a
  string starts, no string is empty, and the buffers are large enough.\<close>

definition id_less :: "string_dict \<Rightarrow> nat \<Rightarrow> nat \<Rightarrow> bool" where
  "id_less d i j \<longleftrightarrow> strcmp (string_at d i) (string_at d j) < 0"

definition string_start :: "u8 list \<Rightarrow> nat \<Rightarrow> bool" where
  "string_start buf i \<longleftrightarrow> i < length buf \<and> (0 < i \<longrightarrow> buf ! (i - 1) = 0)"

definition dict_ok :: "string_dict \<Rightarrow> bool" where
  "dict_ok d \<longleftrightarrow>
     sorted_wrt (id_less d) (m_pnStringIdBuf d)
     \<and> (\<forall>i. i \<in> set (m_pnStringIdBuf d) \<longleftrightarrow> string_start (m_paStringBuf d) i)
     \<and> (\<forall>i \<in> set (m_pnStringIdBuf d). m_paStringBuf d ! i \<noteq> 0)
     \<and> (m_paStringBuf d \<noteq> [] \<longrightarrow> last (m_paStringBuf d) = 0)
     \<and> m_nNrOfStrings d \<le> m_nMaxNrOfStrings d \<and> m_nNextString d \<le> m_nStringBufSize d \<and> 2 \<le> m_nMaxNrOfStrings d"

text \<open>What the search promises: the id of the string, or the place where it belongs.\<close>

definition found :: "string_dict \<Rightarrow> u8 list \<Rightarrow> nat option \<times> nat \<Rightarrow> bool" where
  "found d s res \<longleftrightarrow>
     (case res of
        (Some i, idx) \<Rightarrow> i \<in> set (m_pnStringIdBuf d) \<and> string_at d i = s
      | (None, idx) \<Rightarrow>
          idx \<le> m_nNrOfStrings d
          \<and> (\<forall>k < idx. strcmp (string_at d (m_pnStringIdBuf d ! k)) s < 0)
          \<and> (\<forall>k. idx \<le> k \<longrightarrow> k < m_nNrOfStrings d \<longrightarrow> strcmp s (string_at d (m_pnStringIdBuf d ! k)) < 0))"

lemma find_loop_found:
  assumes "sorted_wrt (id_less d) (m_pnStringIdBuf d)"
    "low \<le> high" "high \<le> m_nNrOfStrings d"
    "\<forall>k < low. strcmp (string_at d (m_pnStringIdBuf d ! k)) s < 0"
    "\<forall>k. high \<le> k \<longrightarrow> k < m_nNrOfStrings d \<longrightarrow> strcmp s (string_at d (m_pnStringIdBuf d ! k)) < 0"
    "low = high \<longrightarrow> (if 0 < r then idx + 1 else idx) = low"
  shows "found d s (find_loop d s low high idx r)"
  using assms
proof (induction d s low high idx r rule: find_loop.induct)
  case (1 d s low high idx r)
  let ?ids = "m_pnStringIdBuf d"
  let ?m = "(low + high) div 2"
  let ?r = "strcmp s (string_at d (?ids ! ?m))"
  show ?case
  proof (cases "low < high")
    case False
    then show ?thesis
      using "1.prems" by (subst find_loop.simps) (auto simp: found_def)
  next
    case True
    then have m: "low \<le> ?m" "?m < high" "?m < length ?ids"
      using "1.prems"(3) by (auto simp: m_nNrOfStrings_def)
    have less: "strcmp (string_at d (?ids ! i)) (string_at d (?ids ! j)) < 0" if "i < j" "j < length ?ids" for i j
      using sorted_wrt_nth_less [OF "1.prems"(1) that] by (simp add: id_less_def)
    consider (eq) "?r = 0" | (gt) "0 < ?r" | (lt) "?r < 0"
      by linarith
    then show ?thesis
    proof cases
      case eq
      then show ?thesis
        using True m by (subst find_loop.simps) (auto simp: found_def Let_def)
    next
      case gt
      have "strcmp (string_at d (?ids ! k)) s < 0" if "k < ?m + 1" for k
        using that gt less [of k ?m] m strcmp_trans [of "string_at d (?ids ! k)" "string_at d (?ids ! ?m)" s]
        by (cases "k = ?m") (simp_all add: strcmp_pos)
      then have "found d s (find_loop d s (?m + 1) high ?m ?r)"
        using gt m True "1.prems" by (intro "1.IH"(1)) auto
      then show ?thesis
        using True gt by (subst find_loop.simps) (auto simp: Let_def)
    next
      case lt
      have "strcmp s (string_at d (?ids ! k)) < 0" if "?m \<le> k" "k < m_nNrOfStrings d" for k
        using that lt less [of ?m k] m strcmp_trans [of s "string_at d (?ids ! ?m)" "string_at d (?ids ! k)"]
        by (cases "k = ?m") (simp_all add: m_nNrOfStrings_def)
      moreover have "s \<noteq> string_at d (?ids ! ?m)" "\<not> 0 < ?r"
        using lt by auto
      ultimately have "found d s (find_loop d s low ?m ?m ?r)"
        using m True "1.prems" by (intro "1.IH"(2)) auto
      then show ?thesis
        using True lt by (subst find_loop.simps) (auto simp: Let_def)
    qed
  qed
qed

lemma findEntry_found:
  assumes "dict_ok d"
  shows "found d s (findEntry d s)"
proof (cases "m_nNrOfStrings d = 0")
  case True
  then show ?thesis
    by (simp add: findEntry_def found_def)
next
  case False
  then have "found d s (find_loop d s 0 (m_nNrOfStrings d) 0 0)"
    using assms by (intro find_loop_found) (auto simp: dict_ok_def)
  then show ?thesis
    using False by (simp add: findEntry_def)
qed
section \<open>Interning\<close>

text \<open>A dictionary of names as its clients see it: an id stands for its name, for ever.\<close>

locale interning =
  fixes ok :: "'d \<Rightarrow> bool"
    and put :: "'n \<Rightarrow> 'd \<Rightarrow> 'i option \<times> 'd"
    and look :: "'d \<Rightarrow> 'i \<Rightarrow> 'n option"
  assumes put_ok: "ok d \<Longrightarrow> ok (snd (put n d))"
    and put_look: "ok d \<Longrightarrow> fst (put n d) = Some i \<Longrightarrow> look (snd (put n d)) i = Some n"
    and put_keeps: "ok d \<Longrightarrow> look d i = Some m \<Longrightarrow> look (snd (put n d)) i = Some m"
    and look_inj: "ok d \<Longrightarrow> look d i = Some n \<Longrightarrow> look d j = Some n \<Longrightarrow> i = j"
begin

primrec put_all :: "'n list \<Rightarrow> 'd \<Rightarrow> 'd" where
  "put_all [] d = d"
| "put_all (n # ns) d = put_all ns (snd (put n d))"

lemma put_all_ok: "ok d \<Longrightarrow> ok (put_all ns d)"
  by (induction ns arbitrary: d) (auto simp: put_ok)

lemma put_all_keeps: "ok d \<Longrightarrow> look d i = Some m \<Longrightarrow> look (put_all ns d) i = Some m"
  by (induction ns arbitrary: d) (auto simp: put_ok put_keeps)

text \<open>Whatever is inserted in between, two insertions give the same id exactly for the same name.\<close>

lemma ids_are_names:
  assumes "ok d" "fst (put n d) = Some i" "fst (put m (put_all ns (snd (put n d)))) = Some j"
  shows "i = j \<longleftrightarrow> n = m"
proof -
  let ?d = "put_all ns (snd (put n d))"
  have d: "ok ?d" "look ?d i = Some n"
    using assms(1, 2) by (auto simp: put_ok put_all_ok put_look put_all_keeps)
  then have "look (snd (put m ?d)) i = Some n" "look (snd (put m ?d)) j = Some m" "ok (snd (put m ?d))"
    using assms(3) by (auto simp: put_keeps put_look put_ok)
  then show ?thesis
    using look_inj by fastforce
qed

end

text \<open>The names are the strings without zeros; the empty one is never stored.\<close>

definition c_string :: "u8 list \<Rightarrow> bool" where
  "c_string s \<longleftrightarrow> 0 \<notin> set s"

lemma takeWhile_sentinel:
  assumes "i < length buf" "last buf = 0"
  shows "takeWhile (\<lambda>b. b \<noteq> 0) (drop i (buf @ t)) = takeWhile (\<lambda>b. b \<noteq> (0 :: u8)) (drop i buf)"
proof -
  have "0 \<in> set (drop i buf)"
    using assms by (metis last_drop last_in_set drop_eq_Nil linorder_not_le)
  then show ?thesis
    using assms(1) by (simp add: takeWhile_append1)
qed

lemma string_at_old:
  assumes "i < length (m_paStringBuf d)" "last (m_paStringBuf d) = 0" "m_paStringBuf d' = m_paStringBuf d @ t"
  shows "string_at d' i = string_at d i"
  using takeWhile_sentinel [OF assms(1, 2)] by (simp add: string_at_def assms(3))

lemma string_at_new:
  assumes "m_paStringBuf d' = m_paStringBuf d @ s @ [0]" "c_string s"
  shows "string_at d' (m_nNextString d) = s"
proof -
  have "takeWhile (\<lambda>b. b \<noteq> 0) (s @ [0]) = s"
    using assms(2) by (subst takeWhile_append2) (auto simp: c_string_def)
  then show ?thesis
    by (simp add: string_at_def m_nNextString_def assms(1))
qed

lemma string_start_append:
  assumes "c_string s" "s \<noteq> []" "buf \<noteq> [] \<longrightarrow> last buf = 0"
  shows "string_start (buf @ s @ [0]) i \<longleftrightarrow> string_start buf i \<or> i = length buf"
proof -
  consider "i < length buf" | "i = length buf" | "length buf < i"
    by linarith
  then show ?thesis
  proof cases
    case 2
    then show ?thesis
      using assms(3) by (auto simp: string_start_def nth_append last_conv_nth)
  next
    case 3
    then have "i < length (buf @ s @ [0]) \<Longrightarrow> (buf @ s @ [0]) ! (i - 1) \<in> set s"
      by (auto simp: nth_append)
    then show ?thesis
      using 3 assms(1) by (auto simp: string_start_def c_string_def)
  qed (auto simp: string_start_def nth_append)
qed

lemma dict_lookup:
  assumes "dict_ok d"
  shows "dict_get d i = (if i \<in> set (m_pnStringIdBuf d) then Some (string_at d i) else None)"
  using assms by (auto simp: dict_get_def dict_ok_def string_start_def m_nNextString_def)

lemma dict_ok_inj:
  assumes "dict_ok d" "i \<in> set (m_pnStringIdBuf d)" "j \<in> set (m_pnStringIdBuf d)" "string_at d i = string_at d j"
  shows "i = j"
proof -
  obtain k l where kl: "k < length (m_pnStringIdBuf d)" "l < length (m_pnStringIdBuf d)"
    "m_pnStringIdBuf d ! k = i" "m_pnStringIdBuf d ! l = j"
    using assms(2, 3) by (auto simp: in_set_conv_nth)
  have "\<not> k < l" "\<not> l < k"
    using assms(1, 4) kl sorted_wrt_nth_less [of "id_less d" "m_pnStringIdBuf d" k l]
      sorted_wrt_nth_less [of "id_less d" "m_pnStringIdBuf d" l k] strcmp_same [of "string_at d j"]
    by (auto simp: dict_ok_def id_less_def)
  then show ?thesis
    using kl by (metis linorder_neqE_nat)
qed

text \<open>The growth of the buffers leaves room for one more entry.\<close>

lemma grow_larger: "2 \<le> n \<Longrightarrow> n < grow n"
  by (simp add: grow_def)

definition same_content :: "string_dict \<Rightarrow> string_dict \<Rightarrow> bool" where
  "same_content d d' \<longleftrightarrow> m_paStringBuf d' = m_paStringBuf d \<and> m_pnStringIdBuf d' = m_pnStringIdBuf d
    \<and> m_nMaxNrOfStrings d \<le> m_nMaxNrOfStrings d' \<and> m_nStringBufSize d \<le> m_nStringBufSize d'"

lemma same_content_ok: "dict_ok d \<Longrightarrow> same_content d d' \<Longrightarrow> dict_ok d'"
proof -
  assume "dict_ok d" "same_content d d'"
  moreover from this have "id_less d' = id_less d"
    by (simp add: fun_eq_iff id_less_def string_at_def same_content_def)
  ultimately show ?thesis
    by (auto simp: dict_ok_def same_content_def m_nNextString_def m_nNrOfStrings_def)
qed

lemma dict_insert_cases:
  assumes "dict_ok d" "s \<noteq> []"
  obtains (old) i where "dict_insert malloc s d = (Some i, d)" "i \<in> set (m_pnStringIdBuf d)" "string_at d i = s"
    | (fail) d' where "dict_insert malloc s d = (None, d')" "same_content d d'"
        "s \<notin> string_at d ` set (m_pnStringIdBuf d)"
    | (new) d' idx where "dict_insert malloc s d = (Some (m_nNextString d), snd (insertAt s idx d'))"
        "same_content d d'" "found d s (None, idx)"
        "m_nNrOfStrings d < m_nMaxNrOfStrings d'" "m_nNextString d + length s + 1 \<le> m_nStringBufSize d'"
proof -
  obtain r idx where f: "findEntry d s = (r, idx)"
    by fastforce
  have fd: "found d s (r, idx)"
    using findEntry_found [OF assms(1), of s] f by simp
  show ?thesis
  proof (cases r)
    case (Some i)
    then show ?thesis
      using fd f assms(2) by (intro old [of i]) (auto simp: dict_insert_def found_def)
  next
    case None
    have absent: "s \<notin> string_at d ` set (m_pnStringIdBuf d)"
    proof
      assume "s \<in> string_at d ` set (m_pnStringIdBuf d)"
      then obtain k where k: "k < m_nNrOfStrings d" "string_at d (m_pnStringIdBuf d ! k) = s"
        by (auto simp: in_set_conv_nth m_nNrOfStrings_def)
      then show False
        using fd None strcmp_same [of s] by (cases "k < idx") (auto simp: found_def not_less)
    qed
    let ?req = "Suc (m_nNextString d + length s)"
    obtain ok1 d1 where d1: "(if m_nMaxNrOfStrings d \<le> m_nNrOfStrings d
        then reallocateStringIdBuf malloc (grow (m_nMaxNrOfStrings d)) d else (True, d)) = (ok1, d1)"
      by fastforce
    obtain ok2 d2 where d2: "(if m_nStringBufSize d1 < ?req
        then reallocateStringBuf malloc (grow ?req) d1 else (True, d1)) = (ok2, d2)"
      by fastforce
    have ins: "dict_insert malloc s d = (if \<not> ok1 then (None, d1) else if \<not> ok2 then (None, d2) else apfst Some (insertAt s idx d2))"
      using f None assms(2) d1 d2 by (simp add: dict_insert_def Let_def)
    have 2: "2 \<le> m_nMaxNrOfStrings d" "m_nNrOfStrings d \<le> m_nMaxNrOfStrings d"
      using assms(1) by (auto simp: dict_ok_def)
    have s1: "same_content d d1" "ok1 \<Longrightarrow> m_nNrOfStrings d < m_nMaxNrOfStrings d1"
      using d1 2 grow_larger [OF 2(1)]
      by (auto simp: reallocateStringIdBuf_def same_content_def split: if_splits)
    have s2: "same_content d1 d2" "ok2 \<Longrightarrow> ?req \<le> m_nStringBufSize d2"
      using d2 by (auto simp: reallocateStringBuf_def same_content_def grow_def split: if_splits)
    have s12: "same_content d d2"
      using s1(1) s2(1) by (auto simp: same_content_def)
    show ?thesis
    proof (cases "ok1 \<and> ok2")
      case True
      then have "dict_insert malloc s d = (Some (m_nNextString d), snd (insertAt s idx d2))"
        using ins s12 by (simp add: insertAt_def Let_def m_nNextString_def same_content_def)
      moreover have "m_nNrOfStrings d < m_nMaxNrOfStrings d2"
        using True s1(2) s2(1) by (auto simp: same_content_def)
      ultimately show ?thesis
        using True s12 s2(2) fd None by (intro new [of idx d2]) auto
    next
      case False
      then show ?thesis
        using ins s1(1) s12 absent by (cases ok1) (auto intro: fail)
    qed
  qed
qed
lemma insertAt_ok:
  assumes "dict_ok d" "c_string s" "s \<noteq> []" "same_content d d'" "found d s (None, idx)"
    "m_nNrOfStrings d < m_nMaxNrOfStrings d'" "m_nNextString d + length s + 1 \<le> m_nStringBufSize d'"
  shows "dict_ok (snd (insertAt s idx d'))"
    "set (m_pnStringIdBuf (snd (insertAt s idx d'))) = insert (m_nNextString d) (set (m_pnStringIdBuf d))"
    "string_at (snd (insertAt s idx d')) (m_nNextString d) = s"
    "\<forall>i \<in> set (m_pnStringIdBuf d). string_at (snd (insertAt s idx d')) i = string_at d i"
proof -
  let ?e = "snd (insertAt s idx d')" and ?ids = "m_pnStringIdBuf d" and ?n = "m_nNextString d"
  note same = assms(4) [unfolded same_content_def]
  have e: "m_paStringBuf ?e = m_paStringBuf d @ s @ [0]" "m_pnStringIdBuf ?e = take idx ?ids @ ?n # drop idx ?ids"
    "m_nMaxNrOfStrings ?e = m_nMaxNrOfStrings d'" "m_nStringBufSize ?e = m_nStringBufSize d'"
    using same by (simp_all add: insertAt_def Let_def m_nNextString_def)
  have ids: "i \<in> set ?ids \<longleftrightarrow> string_start (m_paStringBuf d) i" for i
    using assms(1) by (simp add: dict_ok_def)
  have last: "m_paStringBuf d \<noteq> [] \<longrightarrow> last (m_paStringBuf d) = 0"
    using assms(1) by (simp add: dict_ok_def)
  have old: "string_at ?e i = string_at d i" if "i \<in> set ?ids" for i
    using that last e(1) by (intro string_at_old) (auto simp: ids string_start_def)
  then show "\<forall>i \<in> set ?ids. string_at ?e i = string_at d i"
    by blast
  show new: "string_at ?e ?n = s"
    by (rule string_at_new) (simp_all add: e(1) assms(2))
  have "set (take idx ?ids) \<union> set (drop idx ?ids) = set ?ids"
    by (metis append_take_drop_id set_append)
  then show set_e: "set (m_pnStringIdBuf ?e) = insert ?n (set ?ids)"
    by (auto simp: e(2))
  have fd: "idx \<le> length ?ids" "\<And>k. k < idx \<Longrightarrow> strcmp (string_at d (?ids ! k)) s < 0"
    "\<And>k. idx \<le> k \<Longrightarrow> k < length ?ids \<Longrightarrow> strcmp s (string_at d (?ids ! k)) < 0"
    using assms(5) by (auto simp: found_def m_nNrOfStrings_def)
  have srt: "sorted_wrt (id_less d) (take idx ?ids @ drop idx ?ids)"
    using assms(1) by (simp add: dict_ok_def)
  have less_new: "id_less ?e i ?n" if i: "i \<in> set (take idx ?ids)" for i
  proof -
    obtain k where "k < idx" "k < length ?ids" "i = ?ids ! k"
      using i by (auto simp: in_set_conv_nth)
    then show ?thesis
      using old [of i] new fd(2) [of k] by (simp add: id_less_def)
  qed
  have new_less: "id_less ?e ?n i" if i: "i \<in> set (drop idx ?ids)" for i
  proof -
    obtain m where "m < length ?ids - idx" "i = drop idx ?ids ! m"
      using i by (metis in_set_conv_nth length_drop)
    then have "idx + m < length ?ids" "i = ?ids ! (idx + m)"
      using fd(1) by simp_all
    then show ?thesis
      using old [of i] new fd(3) [of "idx + m"] by (simp add: id_less_def)
  qed
  have same_less: "id_less ?e i j \<longleftrightarrow> id_less d i j" if "i \<in> set ?ids" "j \<in> set ?ids" for i j
    using old that by (simp add: id_less_def)
  have parts: "sorted_wrt (id_less d) (take idx ?ids)" "sorted_wrt (id_less d) (drop idx ?ids)"
    "\<forall>i\<in>set (take idx ?ids). \<forall>j\<in>set (drop idx ?ids). id_less d i j"
    using srt unfolding sorted_wrt_append by blast+
  have "sorted_wrt (id_less ?e) (take idx ?ids)" "sorted_wrt (id_less ?e) (drop idx ?ids)"
    using parts(1, 2) same_less sorted_wrt_mono_rel [of _ "id_less d" "id_less ?e"]
    by (meson in_set_takeD in_set_dropD)+
  moreover have "\<forall>i\<in>set (take idx ?ids). \<forall>j\<in>set (drop idx ?ids). id_less ?e i j"
    using parts(3) same_less by (meson in_set_takeD in_set_dropD)
  ultimately have "sorted_wrt (id_less ?e) (m_pnStringIdBuf ?e)"
    using less_new new_less by (auto simp: e(2) sorted_wrt_append)
  moreover have "i \<in> set (m_pnStringIdBuf ?e) \<longleftrightarrow> string_start (m_paStringBuf ?e) i" for i
    using set_e ids string_start_append [OF assms(2, 3) last] by (auto simp: e(1) m_nNextString_def)
  moreover have "\<forall>i \<in> set (m_pnStringIdBuf ?e). m_paStringBuf ?e ! i \<noteq> 0"
  proof -
    have "m_paStringBuf ?e ! ?n = hd s"
      using assms(3) by (simp add: e(1) m_nNextString_def nth_append hd_conv_nth)
    then have "m_paStringBuf ?e ! ?n \<noteq> 0"
      using assms(2, 3) by (metis c_string_def hd_in_set)
    moreover have "m_paStringBuf ?e ! i \<noteq> 0" if "i \<in> set ?ids" for i
      using that assms(1) ids [of i] by (auto simp: e(1) nth_append dict_ok_def string_start_def)
    ultimately show ?thesis
      using set_e by auto
  qed
  ultimately show "dict_ok ?e"
    using assms(1, 6, 7) same fd(1) by (simp add: dict_ok_def e m_nNextString_def m_nNrOfStrings_def)
qed

lemma insert_interns:
  assumes "dict_ok d" "c_string s"
  shows "dict_ok (snd (dict_insert malloc s d))"
    "fst (dict_insert malloc s d) = Some i \<Longrightarrow> dict_get (snd (dict_insert malloc s d)) i = Some s"
    "dict_get d j = Some t \<Longrightarrow> dict_get (snd (dict_insert malloc s d)) j = Some t"
proof -
  have *: "dict_ok (snd (dict_insert malloc s d))
      \<and> (\<forall>i. fst (dict_insert malloc s d) = Some i \<longrightarrow> dict_get (snd (dict_insert malloc s d)) i = Some s)
      \<and> (\<forall>j t. dict_get d j = Some t \<longrightarrow> dict_get (snd (dict_insert malloc s d)) j = Some t)"
  proof (cases "s = []")
    case False
    with assms(1) show ?thesis
    proof (cases rule: dict_insert_cases [where malloc = malloc])
      case (old i)
      then show ?thesis
        using assms(1) by (auto simp: dict_lookup)
    next
      case (fail d')
      have "dict_ok d'" "string_at d' = string_at d" "set (m_pnStringIdBuf d') = set (m_pnStringIdBuf d)"
        using same_content_ok [OF assms(1) fail(2)] fail(2)
        by (auto simp: same_content_def fun_eq_iff string_at_def)
      then show ?thesis
        using fail(1) assms(1) by (auto simp: dict_lookup split: if_splits)
    next
      case (new d' idx)
      note ok = insertAt_ok [OF assms False new(2-5)]
      then show ?thesis
        using new(1) assms(1) by (auto simp: dict_lookup split: if_splits)
    qed
  qed (use assms in \<open>simp add: dict_insert_def\<close>)
  then show "dict_ok (snd (dict_insert malloc s d))"
    "fst (dict_insert malloc s d) = Some i \<Longrightarrow> dict_get (snd (dict_insert malloc s d)) i = Some s"
    "dict_get d j = Some t \<Longrightarrow> dict_get (snd (dict_insert malloc s d)) j = Some t"
    by blast+
qed

lemma get_inj: "dict_ok d \<Longrightarrow> dict_get d i = Some s \<Longrightarrow> dict_get d j = Some s \<Longrightarrow> i = j"
  by (auto simp: dict_lookup split: if_splits intro: dict_ok_inj)

text \<open>The dictionary on C strings is an interning dictionary, whatever the memory allocation does.\<close>

definition put_name :: "(nat \<Rightarrow> bool) \<Rightarrow> u8 list \<Rightarrow> string_dict \<Rightarrow> nat option \<times> string_dict" where
  "put_name malloc s d = (if c_string s then dict_insert malloc s d else (None, d))"

interpretation names: interning dict_ok "put_name malloc" dict_get for malloc
  by unfold_locales (auto simp: put_name_def insert_interns get_inj split: if_splits)
section \<open>Properties\<close>

text \<open>C28. Ids stand for names: two insertions return the same id exactly when they insert the same string,
  whatever was inserted in between and whatever the memory allocation answered then. So the ids that the rest of the
  runtime compares are equal exactly for equal names.\<close>

theorem ids_stand_for_names:
  assumes "dict_ok d" "c_string s" "c_string t" "fst (dict_insert malloc s d) = Some i"
    "fst (dict_insert malloc t (names.put_all malloc us (snd (dict_insert malloc s d)))) = Some j"
  shows "i = j \<longleftrightarrow> s = t"
  using names.ids_are_names [of d malloc s i t us j] assms by (simp add: put_name_def)

text \<open>The binary search of \<open>findEntry\<close> is a lookup by name: it returns an id exactly if the string with
  this id is the one searched for.\<close>

theorem getId_is_lookup:
  assumes "dict_ok d"
  shows "getId d s = Some i \<longleftrightarrow> dict_get d i = Some s"
proof -
  obtain r idx where f: "findEntry d s = (r, idx)"
    by fastforce
  have fd: "found d s (r, idx)"
    using findEntry_found [OF assms, of s] f by simp
  show ?thesis
  proof (cases r)
    case None
    have "string_at d k \<noteq> s" if k: "k \<in> set (m_pnStringIdBuf d)" for k
    proof -
      obtain n where n: "n < m_nNrOfStrings d" "k = m_pnStringIdBuf d ! n"
        using k by (auto simp: in_set_conv_nth m_nNrOfStrings_def)
      show ?thesis
        using fd None n strcmp_same [of s] by (cases "n < idx") (auto simp: found_def not_less)
    qed
    then show ?thesis
      using f None assms by (auto simp: getId_def dict_lookup)
  next
    case (Some k)
    then have k: "k \<in> set (m_pnStringIdBuf d)" "string_at d k = s"
      using fd by (simp_all add: found_def)
    have "dict_get d i = Some s \<longleftrightarrow> i = k"
    proof
      assume "dict_get d i = Some s"
      then have "i \<in> set (m_pnStringIdBuf d)" "string_at d i = s"
        using dict_lookup [OF assms, of i] by (simp_all split: if_splits)
      then show "i = k"
        using dict_ok_inj [OF assms] k by metis
    next
      assume "i = k"
      then show "dict_get d i = Some s"
        using dict_lookup [OF assms, of k] k by simp
    qed
    then show ?thesis
      using f Some by (auto simp: getId_def)
  qed
qed

text \<open>\<open>insert\<close> refines the extension of a finite map: a string that is there keeps its id and nothing changes; a
  new one gets an id of its own and every older id keeps its string; when the memory does not suffice
  nothing is added. The index stays sorted and the buffers large enough.\<close>

theorem insert_refines_map:
  assumes "dict_ok d" "c_string s" "s \<noteq> []"
  shows "case dict_insert malloc s d of
      (Some i, d') \<Rightarrow> dict_ok d' \<and> dict_get d' = (dict_get d)(i \<mapsto> s)
        \<and> (if s \<in> ran (dict_get d) then d' = d else i \<notin> dom (dict_get d))
    | (None, d') \<Rightarrow> dict_ok d' \<and> dict_get d' = dict_get d \<and> s \<notin> ran (dict_get d)"
  using assms(1, 3)
proof (cases rule: dict_insert_cases [where malloc = malloc])
  case (old i)
  then have "dict_get d i = Some s"
    using assms(1) by (simp add: dict_lookup)
  then have "dict_get d = (dict_get d)(i \<mapsto> s)" "s \<in> ran (dict_get d)"
    by (auto simp: ran_def)
  then show ?thesis
    using old(1) assms(1) by simp
next
  case (fail d')
  have ok: "dict_ok d'"
    using same_content_ok [OF assms(1) fail(2)] .
  have "dict_get d' = dict_get d"
    using fail(2) ok assms(1) by (auto simp: fun_eq_iff dict_lookup same_content_def string_at_def)
  moreover have "s \<notin> ran (dict_get d)"
    using fail(3) assms(1) by (auto simp: ran_def dict_lookup split: if_splits)
  ultimately show ?thesis
    using fail(1) ok by simp
next
  case (new d' idx)
  note ok = insertAt_ok [OF assms new(2-5)]
  have "s \<notin> ran (dict_get d)"
  proof
    assume "s \<in> ran (dict_get d)"
    then obtain i where i: "dict_get d i = Some s"
      by (auto simp: ran_def)
    then obtain k where "k < m_nNrOfStrings d" "string_at d (m_pnStringIdBuf d ! k) = s"
      using assms(1) by (auto simp: dict_lookup in_set_conv_nth m_nNrOfStrings_def split: if_splits)
    then show False
      using new(3) strcmp_same [of s] by (cases "k < idx") (auto simp: found_def not_less)
  qed
  moreover have "m_nNextString d \<notin> dom (dict_get d)"
    by (auto simp: dict_get_def)
  moreover have "dict_get (snd (insertAt s idx d')) = (dict_get d)(m_nNextString d \<mapsto> s)"
    using ok assms(1) by (auto simp: fun_eq_iff dict_lookup)
  ultimately show ?thesis
    using new(1) ok(1) by simp
qed

text \<open>The dictionary that is made from no constants, and what follows when a few names are inserted.\<close>

lemma empty_dict_ok: "dict_ok (CStringDictionary 20 2 [] [])"
  by (simp add: dict_ok_def CStringDictionary_def string_start_def m_nNrOfStrings_def m_nNextString_def)

definition example_dict :: string_dict where
  "example_dict = snd (dict_insert (\<lambda>n. True) [66, 67] (CStringDictionary 20 2 [] []))"

lemma example_dict_value:
  "example_dict = \<lparr>m_paStringBuf = [66, 67, 0], m_pnStringIdBuf = [0], m_nStringBufSize = 20, m_nMaxNrOfStrings = 2\<rparr>"
  by (simp add: example_dict_def dict_insert_def findEntry_def CStringDictionary_def m_nNrOfStrings_def
      m_nNextString_def insertAt_def Let_def)

lemma example_dict_ok: "dict_ok example_dict"
  unfolding example_dict_def by (rule insert_interns(1) [OF empty_dict_ok]) (simp add: c_string_def)

theorem ids_stand_for_names_witness:
  "\<exists>i j. fst (dict_insert (\<lambda>n. True) [65] example_dict) = Some i
    \<and> fst (dict_insert (\<lambda>n. True) [66, 67] (snd (dict_insert (\<lambda>n. True) [65] example_dict))) = Some j \<and> i \<noteq> j"
proof -
  have 1: "dict_insert (\<lambda>n. True) [65] example_dict = (Some 3,
    \<lparr>m_paStringBuf = [66, 67, 0, 65, 0], m_pnStringIdBuf = [3, 0], m_nStringBufSize = 20, m_nMaxNrOfStrings = 2\<rparr>)"
    by (simp add: example_dict_value dict_insert_def findEntry_def find_loop.simps m_nNrOfStrings_def m_nNextString_def
        insertAt_def Let_def string_at_def)
  have 2: "fst (dict_insert (\<lambda>n. True) [66, 67] (snd (dict_insert (\<lambda>n. True) [65] example_dict))) = Some 0"
    unfolding 1 by (simp add: dict_insert_def findEntry_def find_loop.simps m_nNrOfStrings_def string_at_def Let_def)
  have "(3 :: nat) = 0 \<longleftrightarrow> [65] = ([66, 67] :: u8 list)"
    by (rule ids_stand_for_names [OF example_dict_ok, of _ _ "\<lambda>n. True" _ "[]"])
      (use 1 2 in \<open>simp_all add: c_string_def\<close>)
  then show ?thesis
    using 1 2 by simp
qed

theorem getId_is_lookup_witness:
  "getId example_dict [66, 67] = Some 0 \<and> dict_get example_dict 0 = Some [66, 67]"
proof -
  have "dict_get example_dict 0 = Some [66, 67]"
    by (simp add: dict_get_def example_dict_value m_nNextString_def string_at_def)
  then show ?thesis
    using getId_is_lookup [OF example_dict_ok] by simp
qed

theorem insert_refines_map_witness:
  "case dict_insert (\<lambda>n. False) [65] example_dict of
      (Some i, d') \<Rightarrow> dict_ok d' \<and> dict_get d' = (dict_get example_dict)(i \<mapsto> [65])
        \<and> (if [65] \<in> ran (dict_get example_dict) then d' = example_dict else i \<notin> dom (dict_get example_dict))
    | (None, d') \<Rightarrow> dict_ok d' \<and> dict_get d' = dict_get example_dict \<and> [65] \<notin> ran (dict_get example_dict)"
  by (rule insert_refines_map [OF example_dict_ok]) (simp_all add: c_string_def)

text \<open>An index with room for one entry is never enlarged: half of one is nothing. The second insertion
  then writes behind it.\<close>

lemma one_entry_index_overflows:
  "m_nMaxNrOfStrings d = 1 \<Longrightarrow> m_nNrOfStrings d = 1 \<Longrightarrow> findEntry d s = (None, idx) \<Longrightarrow> s \<noteq> [] \<Longrightarrow>
    m_nNextString d + length s < m_nStringBufSize d \<Longrightarrow> idx \<le> 1 \<Longrightarrow>
    m_nMaxNrOfStrings (snd (dict_insert malloc s d)) < m_nNrOfStrings (snd (dict_insert malloc s d))"
  by (simp add: dict_insert_def grow_def reallocateStringIdBuf_def insertAt_def Let_def m_nNrOfStrings_def)

end
