(* ===== verification/Number_Text.thy ===== *)
theory Number_Text
  imports Forte_Prelude
begin

text \<open>
  The conversion of text to numbers, \<^verbatim>\<open>src/src/core/utils/string_utils.{h,cpp}\<close>, which replaces the
  functions of the same names of the C library. A text is the list of its characters up to the
  terminator; a function returns the number, the characters from \<open>endptr\<close> on, and whether \<open>errno\<close>
  is \<open>ERANGE\<close>. The accumulators are kept at 64 bits.
\<close>

section \<open>Characters\<close>

definition isDigit :: "u8 \<Rightarrow> bool" where
  "isDigit c \<longleftrightarrow> 48 \<le> c \<and> c \<le> 57"

definition toupper :: "u8 \<Rightarrow> u8" where
  "toupper c = (if 97 \<le> c \<and> c \<le> 122 then c - 32 else c)"

definition isAtoFChar :: "u8 \<Rightarrow> bool" where
  "isAtoFChar c \<longleftrightarrow> 65 \<le> toupper c \<and> toupper c \<le> 70"

definition isHexDigit :: "u8 \<Rightarrow> bool" where
  "isHexDigit c \<longleftrightarrow> isDigit c \<or> isAtoFChar c"

definition charAtoFToInt :: "u8 \<Rightarrow> u8" where
  "charAtoFToInt c = toupper c - 65 + 10"

definition charHexDigitToInt :: "u8 \<Rightarrow> u8" where
  "charHexDigitToInt c = (if isDigit c then c - 48 else charAtoFToInt c)"

section \<open>The loop over the digits\<close>

text \<open>
  \<open>wrap\<close> is the arithmetic of the accumulator. The two limits are the last value that may be
  multiplied by the base and the largest digit that may then follow; beyond them the number becomes
  \<open>hi\<close> and the loop stops.
\<close>

fun digit_loop ::
  "(int \<Rightarrow> int) \<Rightarrow> int \<Rightarrow> int \<Rightarrow> int \<Rightarrow> int \<Rightarrow> int \<Rightarrow> u8 list \<Rightarrow> int \<times> u8 list \<times> bool" where
  "digit_loop wrap base lim1 lim2 hi acc [] = (acc, [], False)"
| "digit_loop wrap base lim1 lim2 hi acc (c # cs) =
     (if \<not> isDigit c \<and> \<not> (base = 16 \<and> isAtoFChar c) then (acc, c # cs, False)
      else
        let v = uint (charHexDigitToInt c)
        in if lim1 < acc \<or> (acc = lim1 \<and> lim2 < v) then (hi, c # cs, True)
           else digit_loop wrap base lim1 lim2 hi (wrap (base * acc + v)) cs)"

definition skip_0x :: "int \<Rightarrow> u8 list \<Rightarrow> u8 list" where
  "skip_0x base s = (if base = 16 \<and> take 2 s = [48, 120] then drop 2 s else s)"

definition wrap64 :: "int \<Rightarrow> int" where
  "wrap64 x = take_bit 64 x"

definition swrap64 :: "int \<Rightarrow> int" where
  "swrap64 x = signed_take_bit 63 x"

text \<open>The unsigned and the signed conversion, for the largest and the smallest value of the type.\<close>

definition read_unsigned :: "int \<Rightarrow> int \<Rightarrow> u8 list \<Rightarrow> int \<times> u8 list \<times> bool" where
  "read_unsigned hi base s = digit_loop wrap64 base (hi div base) (hi mod base) hi 0 (skip_0x base s)"

definition read_signed :: "int \<Rightarrow> int \<Rightarrow> int \<Rightarrow> u8 list \<Rightarrow> int \<times> u8 list \<times> bool" where
  "read_signed low high base s =
     (let neg = (s \<noteq> [] \<and> hd s = 45);
          s1 = skip_0x base (if neg then tl s else s);
          lim1 = (if neg then - low div base else high div base);
          lim2 = (if neg then - low mod base else high mod base);
          r = digit_loop swrap64 base lim1 lim2 (if neg then low else high) 0 s1
      in (if neg \<and> \<not> snd (snd r) then swrap64 (- fst r) else fst r, snd r))"

definition strtol :: "int \<Rightarrow> u8 list \<Rightarrow> int \<times> u8 list \<times> bool" where
  "strtol base s = read_signed (- (2 ^ 31)) (2 ^ 31 - 1) base s"

definition strtoul :: "int \<Rightarrow> u8 list \<Rightarrow> int \<times> u8 list \<times> bool" where
  "strtoul base s = read_unsigned (2 ^ 32 - 1) base s"

definition strtoll :: "int \<Rightarrow> u8 list \<Rightarrow> int \<times> u8 list \<times> bool" where
  "strtoll base s = read_signed (- (2 ^ 63)) (2 ^ 63 - 1) base s"

definition strtoull :: "int \<Rightarrow> u8 list \<Rightarrow> int \<times> u8 list \<times> bool" where
  "strtoull base s = read_unsigned (2 ^ 64 - 1) base s"

section \<open>What the loop computes\<close>

text \<open>A digit of a base, and the number that a list of digits stands for.\<close>

definition is_digit_of :: "int \<Rightarrow> u8 \<Rightarrow> bool" where
  "is_digit_of base c \<longleftrightarrow> (isDigit c \<or> (base = 16 \<and> isAtoFChar c)) \<and> uint (charHexDigitToInt c) < base"

definition digits_value :: "int \<Rightarrow> int \<Rightarrow> u8 list \<Rightarrow> int" where
  "digits_value base acc ds = foldl (\<lambda>a c. base * a + uint (charHexDigitToInt c)) acc ds"

definition ends_number :: "int \<Rightarrow> u8 list \<Rightarrow> bool" where
  "ends_number base rest \<longleftrightarrow> rest = [] \<or> (\<not> isDigit (hd rest) \<and> \<not> (base = 16 \<and> isAtoFChar (hd rest)))"

lemma digits_value_Nil [simp]: "digits_value base acc [] = acc"
  by (simp add: digits_value_def)

lemma digits_value_Cons [simp]:
  "digits_value base acc (c # cs) = digits_value base (base * acc + uint (charHexDigitToInt c)) cs"
  by (simp add: digits_value_def)

lemma digits_value_ge: "0 < base \<Longrightarrow> 0 \<le> acc \<Longrightarrow> acc \<le> digits_value base acc ds"
proof (induction ds arbitrary: acc)
  case (Cons d ds)
  have "acc \<le> base * acc" using Cons.prems by (metis int_one_le_iff_zero_less mult.commute mult_left_mono mult.right_neutral)
  then have le: "acc \<le> base * acc + uint (charHexDigitToInt d)" by (simp add: add_increasing2)
  then show ?case using Cons.IH [of "base * acc + uint (charHexDigitToInt d)"] Cons.prems by force
qed simp

lemma limit_iff:
  fixes base acc v hi :: int
  assumes "0 < base" "0 \<le> v" "v < base"
  shows "hi div base < acc \<or> (acc = hi div base \<and> hi mod base < v) \<longleftrightarrow> hi < base * acc + v"
proof -
  have hi: "hi = base * (hi div base) + hi mod base" by simp
  have mod: "0 \<le> hi mod base" "hi mod base < base" using assms(1) by simp_all
  consider "acc < hi div base" | "acc = hi div base" | "hi div base < acc" by linarith
  then show ?thesis
  proof cases
    case 1
    then have "base * acc + base \<le> base * (hi div base)"
      using assms(1) mult_left_mono [of "acc + 1" "hi div base" base] by (simp add: algebra_simps)
    then show ?thesis using 1 hi mod assms by linarith
  next
    case 2
    show ?thesis unfolding 2 using hi by linarith
  next
    case 3
    then have "base * (hi div base) + base \<le> base * acc"
      using assms(1) mult_left_mono [of "hi div base + 1" acc base] by (simp add: algebra_simps)
    then show ?thesis using 3 hi mod assms by linarith
  qed
qed

lemma digit_loop_digit:
  assumes "is_digit_of base c" and "0 < base"
  shows "digit_loop wrap base (hi div base) (hi mod base) out acc (c # cs) =
    (if hi < base * acc + uint (charHexDigitToInt c) then (out, c # cs, True)
     else digit_loop wrap base (hi div base) (hi mod base) out (wrap (base * acc + uint (charHexDigitToInt c))) cs)"
proof -
  have "0 \<le> uint (charHexDigitToInt c)" "uint (charHexDigitToInt c) < base"
    "isDigit c \<or> base = 16 \<and> isAtoFChar c"
    using assms(1) by (auto simp: is_digit_of_def)
  then show ?thesis
    using limit_iff [OF assms(2), of "uint (charHexDigitToInt c)" hi acc] by (auto simp: Let_def)
qed

lemma digit_loop_end:
  "ends_number base rest \<Longrightarrow> digit_loop wrap base lim1 lim2 out acc rest = (acc, rest, False)"
  by (cases rest) (auto simp: ends_number_def)

text \<open>The digits of a number that fits are read to the end; only the last step may wrap.\<close>

lemma digit_loop_value:
  assumes "1 < base" and "ends_number base rest"
    and "wrap 0 = 0" and "\<And>x. 0 \<le> x \<Longrightarrow> x < bound \<Longrightarrow> wrap x = x" and "bound \<le> hi"
  shows "\<forall>d \<in> set ds. is_digit_of base d \<Longrightarrow> 0 \<le> acc \<Longrightarrow> wrap acc = acc \<Longrightarrow> digits_value base acc ds = bound \<Longrightarrow>
    digit_loop wrap base (hi div base) (hi mod base) out acc (ds @ rest) = (wrap bound, rest, False)"
proof (induction ds arbitrary: acc)
  case Nil
  then show ?case using assms(2) by (simp add: digit_loop_end)
next
  case (Cons d ds)
  define acc' where "acc' = base * acc + uint (charHexDigitToInt d)"
  have d: "is_digit_of base d" using Cons.prems(1) by simp
  have pos: "0 \<le> acc'" using Cons.prems(2) assms(1) by (simp add: acc'_def)
  have bound: "digits_value base acc' ds = bound" using Cons.prems(4) by (simp add: acc'_def)
  then have le: "acc' \<le> bound" using digits_value_ge [of base acc' ds] pos assms(1) by simp
  have step: "digit_loop wrap base (hi div base) (hi mod base) out acc ((d # ds) @ rest) =
      digit_loop wrap base (hi div base) (hi mod base) out (wrap acc') (ds @ rest)"
    using digit_loop_digit [OF d, of wrap hi out acc "ds @ rest"] assms(1,5) le by (simp add: acc'_def)
  show ?case
  proof (cases ds)
    case Nil
    then show ?thesis using step bound assms(2) by (simp add: digit_loop_end)
  next
    case (Cons e es)
    have "acc' = 0 \<or> acc' < bound"
    proof (rule ccontr)
      assume a: "\<not> (acc' = 0 \<or> acc' < bound)"
      then have "acc' < base * acc'" using pos assms(1) by auto
      also have "\<dots> \<le> base * acc' + uint (charHexDigitToInt e)" by simp
      also have "\<dots> \<le> bound"
        using bound digits_value_ge [of base "base * acc' + uint (charHexDigitToInt e)" es] assms(1) pos Cons by simp
      finally show False using a by simp
    qed
    then have "wrap acc' = acc'" using assms(3,4) pos by auto
    then show ?thesis
      using step Cons.IH [of acc'] \<open>\<forall>d \<in> set (d # ds). is_digit_of base d\<close> pos bound by simp
  qed
qed

text \<open>A number that is too large gives the limit and \<open>ERANGE\<close>.\<close>

lemma digit_loop_overflow:
  assumes "1 < base" and "\<And>x. 0 \<le> x \<Longrightarrow> x \<le> hi \<Longrightarrow> wrap x = x" and "0 \<le> hi"
  shows "\<forall>d \<in> set ds. is_digit_of base d \<Longrightarrow> 0 \<le> acc \<Longrightarrow> acc \<le> hi \<Longrightarrow> hi < digits_value base acc ds \<Longrightarrow>
    \<exists>rest'. digit_loop wrap base (hi div base) (hi mod base) out acc (ds @ rest) = (out, rest', True)"
proof (induction ds arbitrary: acc)
  case (Cons d ds)
  define acc' where "acc' = base * acc + uint (charHexDigitToInt d)"
  have d: "is_digit_of base d" using Cons.prems(1) by simp
  have pos: "0 \<le> acc'" using Cons.prems(2) assms(1) by (simp add: acc'_def)
  show ?case
  proof (cases "hi < acc'")
    case True
    then show ?thesis
      using digit_loop_digit [OF d, of wrap hi out acc "ds @ rest"] assms(1) by (simp add: acc'_def)
  next
    case False
    then show ?thesis
      using digit_loop_digit [OF d, of wrap hi out acc "ds @ rest"] assms(1,2) pos
        Cons.IH [of acc'] Cons.prems(1,4) by (simp add: acc'_def)
  qed
qed simp

lemma wrap64_id: "0 \<le> x \<Longrightarrow> x < 2 ^ 64 \<Longrightarrow> wrap64 x = x"
  by (simp add: wrap64_def take_bit_int_eq_self_iff)

lemma swrap64_id: "- (2 ^ 63) \<le> x \<Longrightarrow> x < 2 ^ 63 \<Longrightarrow> swrap64 x = x"
  by (simp add: swrap64_def signed_take_bit_int_eq_self_iff)

text \<open>Reading an unsigned number: the digits up to the first other character, and saturation.\<close>

lemma read_unsigned_digits:
  assumes "1 < base" and "base \<noteq> 16" and "\<forall>d \<in> set ds. is_digit_of base d" and "ends_number base rest"
    and "0 \<le> hi" and "hi < 2 ^ 64"
  shows "digits_value base 0 ds \<le> hi \<Longrightarrow> read_unsigned hi base (ds @ rest) = (digits_value base 0 ds, rest, False)"
    and "hi < digits_value base 0 ds \<Longrightarrow> \<exists>rest'. read_unsigned hi base (ds @ rest) = (hi, rest', True)"
proof -
  have skip: "skip_0x base s = s" for s using assms(2) by (simp add: skip_0x_def)
  have ge: "0 \<le> digits_value base 0 ds" using digits_value_ge [of base 0 ds] assms(1) by simp
  show "read_unsigned hi base (ds @ rest) = (digits_value base 0 ds, rest, False)" if "digits_value base 0 ds \<le> hi"
    using digit_loop_value [OF assms(1,4), of wrap64 "digits_value base 0 ds" hi ds 0 hi] that ge assms
    by (simp add: read_unsigned_def skip wrap64_id)
  show "\<exists>rest'. read_unsigned hi base (ds @ rest) = (hi, rest', True)" if "hi < digits_value base 0 ds"
    using digit_loop_overflow [OF assms(1), of hi wrap64 ds 0 hi rest] that assms
    by (simp add: read_unsigned_def skip wrap64_id)
qed

text \<open>Reading a signed number, with or without a sign.\<close>

lemma read_signed_digits:
  assumes "1 < base" and "base \<noteq> 16" and "\<forall>d \<in> set ds. is_digit_of base d" and "ends_number base rest"
    and "ds \<noteq> []" and "- (2 ^ 63) \<le> low" and "0 \<le> high" and "high < 2 ^ 63"
  shows "digits_value base 0 ds \<le> high \<Longrightarrow> read_signed low high base (ds @ rest) = (digits_value base 0 ds, rest, False)"
    and "digits_value base 0 ds \<le> - low \<Longrightarrow> read_signed low high base (45 # ds @ rest) = (- digits_value base 0 ds, rest, False)"
proof -
  let ?D = "digits_value base 0 ds"
  have skip: "skip_0x base s = s" for s using assms(2) by (simp add: skip_0x_def)
  have ge: "0 \<le> ?D" using digits_value_ge [of base 0 ds] assms(1) by simp
  have zero: "swrap64 0 = 0" by (rule swrap64_id) simp_all
  obtain d ds' where ds: "ds = d # ds'" using assms(5) by (cases ds) auto
  have "d \<noteq> 45" using assms(2,3) ds by (auto simp: is_digit_of_def isDigit_def)
  show "read_signed low high base (ds @ rest) = (?D, rest, False)" if D: "?D \<le> high"
  proof -
    have "digit_loop swrap64 base (high div base) (high mod base) high 0 (ds @ rest) = (swrap64 ?D, rest, False)"
      by (rule digit_loop_value [where wrap = swrap64 and bound = ?D and hi = high, OF assms(1,4) zero _ D assms(3)])
         (use D assms(8) in \<open>auto intro!: swrap64_id simp: zero\<close>)
    moreover have "swrap64 ?D = ?D" using ge D assms(8) by (intro swrap64_id) simp_all
    ultimately show ?thesis
      using ds \<open>d \<noteq> 45\<close> by (simp add: read_signed_def skip Let_def)
  qed
  show "read_signed low high base (45 # ds @ rest) = (- ?D, rest, False)" if D: "?D \<le> - low"
  proof -
    have "digit_loop swrap64 base (- low div base) (- low mod base) low 0 (ds @ rest) = (swrap64 ?D, rest, False)"
      by (rule digit_loop_value [where wrap = swrap64 and bound = ?D and hi = "- low", OF assms(1,4) zero _ D assms(3)])
         (use D assms(6) in \<open>auto intro!: swrap64_id simp: zero\<close>)
    moreover have "swrap64 (- swrap64 ?D) = - ?D"
    proof (cases "?D = 2 ^ 63")
      case True
      show ?thesis unfolding True by code_simp
    next
      case False
      then have "?D < 2 ^ 63" using D assms(6) by simp
      then show ?thesis using ge by (simp add: swrap64_id)
    qed
    ultimately show ?thesis
      by (simp add: read_signed_def skip Let_def)
  qed
qed

lemma read_signed_overflow:
  assumes "1 < base" and "base \<noteq> 16" and "\<forall>d \<in> set ds. is_digit_of base d"
    and "ds \<noteq> []" and "0 \<le> high" and "high < 2 ^ 63" and "high < digits_value base 0 ds"
  shows "\<exists>rest'. read_signed low high base (ds @ rest) = (high, rest', True)"
proof -
  have skip: "skip_0x base s = s" for s using assms(2) by (simp add: skip_0x_def)
  obtain d ds' where ds: "ds = d # ds'" using assms(4) by (cases ds) auto
  have "d \<noteq> 45" using assms(2,3) ds by (auto simp: is_digit_of_def isDigit_def)
  moreover obtain rest' where "digit_loop swrap64 base (high div base) (high mod base) high 0 (ds @ rest) = (high, rest', True)"
    using digit_loop_overflow [of base high swrap64 ds 0 high rest] assms by (auto simp: swrap64_id)
  ultimately show ?thesis
    using ds by (simp add: read_signed_def skip Let_def)
qed

section \<open>Where the conversions go wrong\<close>

text \<open>
  The smallest 64-bit number overflows the accumulator of \<open>strtoll\<close>, and if another digit follows,
  the check against the limit does not notice: the result is a small number and no error is reported.
\<close>

theorem strtoll_misses_overflow:
  "strtoll 10 (45 # map (\<lambda>d. 48 + of_nat d) [9,2,2,3,3,7,2,0,3,6,8,5,4,7,7,5,8,0,8,0]) = (0, [], False)"
  by code_simp

text \<open>The bases 2 and 8 accept all decimal digits.\<close>

lemma base_2_accepts_9: "strtoull 2 [57] = (9, [], False)"
  by code_simp

end
