(* ===== verification/String_Text.thy ===== *)
theory String_Text
  imports Unicode_Laws Number_Text
begin

text \<open>
  The textual form of strings: escapes, \<^verbatim>\<open>src/src/core/datatypes/forte_any_string.cpp\<close>, and the conversions from and
  to IEC 61131-3 literals and UTF-8 of \<^verbatim>\<open>forte_string.cpp\<close> and \<^verbatim>\<open>forte_wstring.cpp\<close>. The character classes are those of \<open>Number_Text\<close> (in
  the C locale).

  A source is a C string without its terminator, so it holds no 0 and a read behind its end gives 0; a
  value is a list of bytes. Allocation succeeds. A conversion returns the code's number and the value
  afterwards; for \<open>toString\<close> the second component is every byte that is written, from the start of the
  buffer on, so that its length can be compared with the size of the buffer.
\<close>

section \<open>Escapes\<close>

text \<open>The characters are written as their codes: \<open>$\<close> is 36, the quotes are 39 and 34.\<close>

text \<open>\<open>parseEscapedHexNum\<close> at the first digit: the number, and how far the pointer is moved (to the
  last digit).\<close>

definition parseEscapedHexNum :: "bool \<Rightarrow> u8 list \<Rightarrow> (u16 \<times> nat) option" where
  "parseEscapedHexNum wide s =
     (let d = (\<lambda>k. ucast (charHexDigitToInt (byte_at s k)) :: u16) in
      if isHexDigit (byte_at s 0) \<and> isHexDigit (byte_at s 1) then
        let v = push_bit 4 (d 0) OR d 1 in
        if \<not> wide then Some (v, 1)
        else if isHexDigit (byte_at s 2) \<and> isHexDigit (byte_at s 3)
        then Some (push_bit 8 v OR push_bit 4 (d 2) OR d 3, 3)
        else None
      else None)"

definition handleDollarEscapedChar :: "bool \<Rightarrow> u8 list \<Rightarrow> (u16 \<times> nat) option" where
  "handleDollarEscapedChar wide s =
     (let c = byte_at s 0 in
      if c = 39 \<or> c = 34 then Some (ucast c, 0)
      else if c = 76 \<or> c = 108 then Some (0x10, 0)
      else if c = 78 \<or> c = 110 then Some (10, 0)
      else if c = 80 \<or> c = 112 then Some (12, 0)
      else if c = 82 \<or> c = 114 then Some (13, 0)
      else if c = 84 \<or> c = 116 then Some (9, 0)
      else if c = 36 then Some (36, 0)
      else parseEscapedHexNum wide s)"

text \<open>\<open>dollarEscapeChar\<close>: what it writes into a buffer of the given size; -1 if that is too small.\<close>

definition escaped :: "u8 \<Rightarrow> u8 list" where
  "escaped c =
     (if c = 36 then [36, 36] else if c = 39 then [36, 39] else if c = 0x10 then [36, 108]
      else if c = 10 then [36, 110] else if c = 12 then [36, 112] else if c = 13 then [36, 114]
      else if c = 9 then [36, 116] else if c = 34 then [36, 34] else [c])"

definition dollarEscapeChar :: "nat \<Rightarrow> u8 \<Rightarrow> u8 list option" where
  "dollarEscapeChar n c = (if n < length (escaped c) then None else Some (escaped c))"

text \<open>The end of a literal that starts with its delimiter, as the number of characters with both
  delimiters; without a delimiter the whole C string is meant.\<close>

function literal_end :: "u8 \<Rightarrow> u8 list \<Rightarrow> nat \<Rightarrow> int" where
  "literal_end delim t k =
     (case t of
        [] \<Rightarrow> -1
      | c # t' \<Rightarrow>
          if c = delim then int (k + 1)
          else if c = 36 then
            (if t' = [] then -1
             else let n = (case handleDollarEscapedChar (delim = 34) t' of None \<Rightarrow> 0 | Some (v, n) \<Rightarrow> n)
                  in literal_end delim (drop (n + 1) t') (k + n + 2))
          else literal_end delim t' (k + 1))"
  by pat_completeness auto
termination
  by (relation "measure (\<lambda>(d, t, k). length t)") auto

declare literal_end.simps [simp del]

definition determineEscapedStringLength :: "u8 \<Rightarrow> u8 list \<Rightarrow> int" where
  "determineEscapedStringLength delim s =
     (if byte_at s 0 \<noteq> delim then int (length s) else literal_end delim (tl s) 1)"

text \<open>
  The loop of \<open>unescapeFromString\<close>: the characters written so far and the number of characters read. An
  invalid escape ends it with what has been written (\<open>Inl\<close>).
\<close>

function unescape_loop :: "u8 \<Rightarrow> u8 list \<Rightarrow> u8 list \<Rightarrow> nat \<Rightarrow> u8 list + (u8 list \<times> nat)" where
  "unescape_loop delim t out k =
     (if t = [] \<or> length out = scm_unMaxStringLen then Inr (out, k)
      else
        let c = hd t; t' = tl t in
        if c = 36 then
          (if t' = [] then Inr (out, k + 1)
           else case handleDollarEscapedChar (delim = 34) t' of
                  None \<Rightarrow> Inl out
                | Some (v, n) \<Rightarrow>
                    if delim \<noteq> 34 then unescape_loop delim (drop (n + 1) t') (out @ [ucast v]) (k + n + 2)
                    else (case encodeUTF8Codepoint (ucast v) of
                            None \<Rightarrow> Inl out
                          | Some bs \<Rightarrow> unescape_loop delim (drop (n + 1) t') (out @ bs) (k + n + 2)))
        else if c = delim then Inr (out, k + 1)
        else unescape_loop delim t' (out @ [c]) (k + 1))"
  by pat_completeness auto
termination
proof (relation "measure (\<lambda>(d, t, b, k). length t)", goal_cases)
  case (2 delim t out k c t' z v n)
  then show ?case
    by (cases t) auto
next
  case (3 delim t out k c t' z v n bs)
  then show ?case
    by (cases t) auto
next
  case (4 delim t out k c t')
  then show ?case
    by (cases t) auto
qed simp

declare unescape_loop.simps [simp del]

text \<open>\<open>unescapeFromString\<close> writes over the old value \<open>old\<close> of the string; a failure leaves the characters
  it has written and the old length.\<close>

definition unescapeFromString :: "u8 \<Rightarrow> u8 list \<Rightarrow> u8 list \<Rightarrow> int \<times> u8 list" where
  "unescapeFromString delim s old =
     (case unescape_loop delim (if byte_at s 0 = delim then tl s else s) [] (if byte_at s 0 = delim then 1 else 0) of
        Inl out \<Rightarrow> (-1, take (length old) (out @ drop (length out) old))
      | Inr (out, k) \<Rightarrow> (int (k mod 65536), out))"
section \<open>STRING\<close>

text \<open>\<open>CIEC_STRING::fromString\<close>: the length taken or -1, and the value afterwards. The source is a C string
  (without its terminator); a character of value 0 does not occur in it.\<close>

definition string_fromString :: "u8 list \<Rightarrow> u8 list \<Rightarrow> int \<times> u8 list" where
  "string_fromString s old =
     (let nSrcLen = determineEscapedStringLength 39 s in
      if nSrcLen \<le> 0 then (nSrcLen, old)
      else
        let prefix = 7 \<le> nSrcLen \<and> starts_with ''STRING#'' s;
            t = (if prefix then drop 7 s else s);
            nCapped = (if int scm_unMaxStringLen < nSrcLen then int scm_unMaxStringLen
                       else if prefix then nSrcLen - 7 else nSrcLen)
        in if byte_at t 0 = 39
           then (case unescapeFromString 39 t old of (r, v) \<Rightarrow> (if r < 0 then -1 else nSrcLen, v))
           else (nSrcLen, take (nat nCapped) t))"

text \<open>\<open>CIEC_STRING::toString\<close> with a buffer of \<open>n\<close> bytes: the return value, and every byte that is written from
  the start of the buffer on. Two bytes are granted to each character, however many are left.\<close>

primrec escape_loop :: "nat \<Rightarrow> u8 list \<Rightarrow> u8 list \<Rightarrow> bool \<times> u8 list" where
  "escape_loop n [] out = (True, out)"
| "escape_loop n (c # s) out = (if n \<le> length out then (False, out) else escape_loop n s (out @ escaped c))"

definition string_toString :: "nat \<Rightarrow> u8 list \<Rightarrow> int \<times> u8 list" where
  "string_toString n s =
     (if length s + 2 < n then
        (if s = [] then (2, [39] @ [39, 0])
         else case escape_loop (n - 2) s [] of
                (False, out) \<Rightarrow> (-1, [39] @ out)
              | (True, out) \<Rightarrow> (int (length out) + 2, [39] @ out @ [39, 0]))
      else (-1 + 2, []))"

text \<open>UTF-8: \<open>invalid_utf8\<close> is the value that a string gets when the source is not valid.\<close>

definition invalid_utf8 :: "u8 list" where
  "invalid_utf8 = bytes_of ''***INVALID UTF-8***''"

text \<open>The source as \<open>fromUTF8\<close> sees it: \<open>len\<close> is the given length, or none.\<close>

definition utf8_source_length :: "u8 \<Rightarrow> int \<Rightarrow> bool \<Rightarrow> u8 list \<Rightarrow> int" where
  "utf8_source_length delim len unescape s =
     (if 0 \<le> len then len else if unescape then determineEscapedStringLength delim s else int (length s))"

definition string_fromUTF8 :: "u8 list \<Rightarrow> int \<Rightarrow> bool \<Rightarrow> u8 list \<Rightarrow> int \<times> u8 list" where
  "string_fromUTF8 s len unescape old =
     (let nSrcLen = utf8_source_length 39 len unescape s in
      if nSrcLen < 0 then (nSrcLen, old)
      else if nSrcLen = 0 then (0, [])
      else
        let src = take (min (nat nSrcLen) scm_unMaxStringLen) s in
        case checkUTF8 src of
          None \<Rightarrow> (-1, invalid_utf8)
        | Some _ \<Rightarrow>
            let v = the (walk_codepoints parseUTF8Codepoint
                      (\<lambda>c acc. Some (if c = scm_unBOMMarker then acc
                                     else acc @ [if 0x100 \<le> c then 63 else ucast c]))
                      (c_str src) [])
            in if unescape
               then (case unescapeFromString 39 v v of (r, v') \<Rightarrow> (if r < 0 then -1 else nSrcLen, v'))
               else (nSrcLen, v))"

text \<open>\<open>CIEC_STRING::toUTF8\<close>: each byte is a code point below 256. With no buffer (\<open>None\<close>) only the length is
  computed.\<close>

definition latin1_utf8 :: "bool \<Rightarrow> u8 \<Rightarrow> u8 list" where
  "latin1_utf8 esc c =
     (let bs = the (encodeUTF8Codepoint (ucast c)) in if length bs = 1 \<and> esc then escaped c else bs)"

definition string_toUTF8 :: "nat option \<Rightarrow> bool \<Rightarrow> u8 list \<Rightarrow> int \<times> u8 list" where
  "string_toUTF8 buf esc s =
     (let body = concat (map (latin1_utf8 esc) (c_str s));
          out = (if esc then [39] @ body @ [39] else body)
      in case buf of
           None \<Rightarrow> (int (length out), [])
         | Some n \<Rightarrow> if n < length out + 1 then (-1, []) else (int (length out), out @ [0]))"

section \<open>WSTRING\<close>

definition wstring_fromUTF8 :: "u8 list \<Rightarrow> int \<Rightarrow> bool \<Rightarrow> u8 list \<Rightarrow> int \<times> u8 list" where
  "wstring_fromUTF8 s len unescape old =
     (let nSrcLen = utf8_source_length 34 len unescape s in
      if nSrcLen < 0 then (nSrcLen, old)
      else if byte_at s 0 = 0 \<or> nSrcLen = 0 then (0, [])
      else
        let src = take (min (nat nSrcLen) scm_unMaxStringLen) s in
        case checkUTF8 src of
          None \<Rightarrow> (-1, invalid_utf8)
        | Some (n, nMaxWidth) \<Rightarrow>
            let v = (if nMaxWidth \<le> 16 then src
                     else the (walk_codepoints parseUTF8Codepoint
                            (\<lambda>c acc. if c = scm_unBOMMarker then Some acc
                                     else map_option (\<lambda>bs. acc @ bs) (encodeUTF8Codepoint (if 0x10000 \<le> c then 63 else c)))
                            (c_str src) []))
            in if unescape
               then (case unescapeFromString 34 v v of (r, v') \<Rightarrow> (if r = -1 then -1 else nSrcLen, v'))
               else (nSrcLen, v))"

definition wstring_fromString :: "u8 list \<Rightarrow> u8 list \<Rightarrow> int \<times> u8 list" where
  "wstring_fromString s old =
     (let prefix = starts_with ''WSTRING#'' s;
          t = (if prefix then drop 8 s else s)
      in case wstring_fromUTF8 t (-1) (byte_at t 0 = 34) old of
           (r, v) \<Rightarrow> (if r = -1 then -1 else (if prefix then 8 else 0) + r, v))"

text \<open>The escaping of \<open>CIEC_WSTRING::toUTF8\<close>: the room that is left is passed to each step.\<close>

primrec wescape_loop :: "nat \<Rightarrow> u8 list \<Rightarrow> u8 list \<Rightarrow> u8 list option" where
  "wescape_loop n [] out = Some out"
| "wescape_loop n (c # s) out =
     (case dollarEscapeChar (n - length out) c of None \<Rightarrow> None | Some bs \<Rightarrow> wescape_loop n s (out @ bs))"

definition wstring_toUTF8 :: "nat \<Rightarrow> bool \<Rightarrow> u8 list \<Rightarrow> int \<times> u8 list" where
  "wstring_toUTF8 n esc s =
     (if n < length s + (if esc then 2 else 0) + 1 then (-1, [])
      else if \<not> esc then (int (length s), s @ [0])
      else
        case wescape_loop n (c_str s) [34] of
          None \<Rightarrow> (-1, [])
        | Some out \<Rightarrow> if n - length out < 2 then (-1, []) else (int (length out) + 1, out @ [34, 0]))"

definition wstring_toString :: "nat \<Rightarrow> u8 list \<Rightarrow> int \<times> u8 list" where
  "wstring_toString n s = wstring_toUTF8 n True s"
section \<open>What is escaped can be read back\<close>

text \<open>Either the character stands for itself, and then it is neither \<open>$\<close> nor a quote, or the character behind
  the \<open>$\<close> is one that the reader knows.\<close>

lemma escaped_cases:
  obtains (plain) "escaped c = [c]" "c \<noteq> 36" "c \<noteq> 39" "c \<noteq> 34"
    | (dollar) x where "escaped c = [36, x]" "c < 0x80"
        "\<And>wide rest. handleDollarEscapedChar wide (x # rest) = Some (ucast c, 0)"
proof (cases "escaped c = [c]")
  case True
  then show ?thesis
    by (intro plain) (auto simp: escaped_def)
next
  case False
  then have "c \<in> {36, 39, 0x10, 10, 12, 13, 9, 34}"
    by (simp add: escaped_def split: if_splits)
  then have "\<exists>x. escaped c = [36, x] \<and> c < 0x80
      \<and> (\<forall>wide rest. handleDollarEscapedChar wide (x # rest) = Some (ucast c, 0))"
    by (elim insertE emptyE) (simp_all add: escaped_def handleDollarEscapedChar_def)
  then show ?thesis
    using dollar by blast
qed

lemma ascii_utf8: "c < 0x80 \<Longrightarrow> encodeUTF8Codepoint (ucast (ucast (c :: u8) :: u16)) = Some [c]"
proof -
  assume c: "c < 0x80"
  have "\<not> bit c n" if "8 \<le> n" for n
    using that bit_imp_le_length [of c n] by auto
  then have "(ucast (ucast c :: u16) :: u32) = ucast c"
    by (intro u32_eqI) (simp add: bit_simps all_less_numeral)
  moreover have "(ucast c :: u32) < 0x80"
    using c by (simp add: word_less_nat_alt unsigned_ucast_eq take_bit_nat_eq_self
        order.strict_trans [OF unsigned_less])
  moreover have "ucast (ucast c :: u32) = c"
    by (rule u8_eqI) (simp add: bit_simps all_less_numeral)
  ultimately show ?thesis
    by (simp add: encodeUTF8Codepoint_def)
qed

lemma ucast_back_u8: "ucast (ucast (c :: u8) :: u16) = c"
  by (rule u8_eqI) (simp add: bit_simps all_less_numeral)

definition quotes :: "u8 \<Rightarrow> u8 list \<Rightarrow> u8 list" where
  "quotes delim s = [delim] @ concat (map escaped s) @ [delim]"

lemma literal_end_escaped:
  assumes "delim = 39 \<or> delim = 34"
  shows "literal_end delim (concat (map escaped s) @ delim # rest) k
    = int (k + length (concat (map escaped s)) + 1)"
proof (induction s arbitrary: k)
  case Nil
  show ?case
    by (simp add: literal_end.simps)
next
  case (Cons c s)
  show ?case
  proof (cases c rule: escaped_cases)
    case plain
    then show ?thesis
      using assms Cons [of "k + 1"] by (subst literal_end.simps) auto
  next
    case (dollar x)
    then show ?thesis
      using assms Cons [of "k + 2"] by (subst literal_end.simps) auto
  qed
qed

lemma unescape_escaped:
  assumes "delim = 39 \<or> delim = 34" "length out + length s < scm_unMaxStringLen"
  shows "unescape_loop delim (concat (map escaped s) @ delim # rest) out k
    = Inr (out @ s, k + length (concat (map escaped s)) + 1)"
  using assms(2)
proof (induction s arbitrary: out k)
  case Nil
  then show ?case
    using assms(1) by (subst unescape_loop.simps) auto
next
  case (Cons c s)
  show ?case
  proof (cases c rule: escaped_cases)
    case plain
    then show ?thesis
      using assms(1) Cons.IH [of "out @ [c]" "k + 1"] Cons.prems
      by (subst unescape_loop.simps) (auto simp: Let_def)
  next
    case (dollar x)
    then show ?thesis
      using assms(1) Cons.IH [of "out @ [c]" "k + 2"] Cons.prems ascii_utf8 [OF dollar(2)]
      by (subst unescape_loop.simps) (auto simp: Let_def ucast_back_u8)
  qed
qed

lemma length_escaped: "length (escaped c) \<in> {1, 2}"
  by (simp add: escaped_def)

lemma length_quotes: "length (quotes delim s) = length (concat (map escaped s)) + 2"
  by (simp add: quotes_def)

lemma escape_loop_fits:
  assumes "length out + 2 * length s \<le> n"
  shows "escape_loop n s out = (True, out @ concat (map escaped s))"
  using assms
proof (induction s arbitrary: out)
  case (Cons c s)
  then show ?case
    using length_escaped [of c] by auto
qed simp



text \<open>\<open>toString\<close> of a STRING writes behind its buffer: it only checks that the unescaped value fits and that
  there is room before each character, so for a string of dollar signs it writes two bytes more than the buffer has,
  and reports success.\<close>

theorem toString_overflows:
  assumes "n = 2 * k + 1" "2 \<le> k"
  shows "string_toString n (replicate k 36) = (int n + 1, quotes 39 (replicate k 36) @ [0])
    \<and> length (quotes 39 (replicate k 36) @ [0]) = n + 2"
proof -
  have len: "length (concat (map escaped (replicate j 36))) = 2 * j" for j
    by (induction j) (simp_all add: escaped_def)
  have snoc: "concat (map escaped (replicate m 36)) @ escaped 36 = concat (map escaped (replicate (Suc m) 36))" for m
    by (induction m) simp_all
  have "j \<le> k \<Longrightarrow> escape_loop (2 * k - 1) (replicate j 36) (concat (map escaped (replicate (k - j) 36)))
      = (True, concat (map escaped (replicate k 36)))" for j
  proof (induction j)
    case (Suc j)
    then have "Suc (k - Suc j) = k - j" "\<not> 2 * k - 1 \<le> length (concat (map escaped (replicate (k - Suc j) 36)))"
      unfolding len by auto
    moreover have "concat (map escaped (replicate (k - Suc j) 36)) @ escaped 36 = concat (map escaped (replicate (Suc (k - Suc j)) 36))"
      by (rule snoc)
    ultimately show ?case
      using Suc by simp
  qed simp
  from this [of k] have "escape_loop (n - 2) (replicate k 36) [] = (True, concat (map escaped (replicate k 36)))"
    using assms by simp
  then show ?thesis
    using assms len [of k] by (simp add: string_toString_def quotes_def)
qed

theorem toString_overflows_witness:
  "string_toString 5 [36, 36] = (6, [39, 36, 36, 36, 36, 39, 0])
    \<and> length (quotes 39 (replicate 2 36) @ [0]) = 5 + 2"
  using toString_overflows [of 5 2] by (simp add: quotes_def escaped_def numeral_2_eq_2)

text \<open>And when the buffer is too small from the beginning it returns 1, not the -1 it promises.\<close>

lemma toString_too_small: "n \<le> length s + 2 \<Longrightarrow> string_toString n s = (1, [])"
  by (simp add: string_toString_def)
section \<open>Wide strings as text\<close>

text \<open>The code points a WSTRING literal can hold: not 0, and in the basic plane.\<close>

definition bmp_text :: "u32 list \<Rightarrow> bool" where
  "bmp_text vs \<longleftrightarrow> list_all (\<lambda>v. scalar v \<and> v < 0x10000 \<and> v \<noteq> 0) vs"

lemma escaped_high: "bit b 7 \<Longrightarrow> escaped b = [b]"
  by (auto simp: escaped_def)

lemma high_bytes:
  assumes "encodeUTF8Codepoint v = Some bs" "\<not> v < 0x80" "b \<in> set bs"
  shows "bit b 7"
proof -
  have cont: "bit (cont_byte w) 7" for w
    by (simp add: cont_byte_def bit_simps)
  have first: "bit (ucast (0xc0 OR w :: u32) :: u8) 7" "bit (ucast (0xe0 OR w :: u32) :: u8) 7"
    "bit (ucast (0xf0 OR w :: u32) :: u8) 7" for w
    by (simp_all add: bit_simps)
  show ?thesis
    using assms(1)
  proof (cases rule: encodeUTF8_cases)
    case one
    then show ?thesis
      using assms(2) by simp
  next
    case two
    then show ?thesis
      using assms(3) cont first(1) by auto
  next
    case three
    then show ?thesis
      using assms(3) cont first(2) by auto
  next
    case four
    then show ?thesis
      using assms(3) cont first(3) by auto
  qed
qed

lemma escaped_code_point:
  assumes "scalar v" "v < 0x10000"
  shows "\<exists>us. concat (map escaped (the (encodeUTF8Codepoint v))) = utf8_of us \<and> list_all (\<lambda>u. scalar u \<and> u < 0x10000) us"
proof (cases "v < 0x80")
  case True
  then have v: "the (encodeUTF8Codepoint v) = [ucast v]"
    by (simp add: encodeUTF8Codepoint_def)
  have ascii: "the (encodeUTF8Codepoint (ucast x)) = [x]" "scalar (ucast x)" "(ucast x :: u32) < 0x10000"
    if "x < 0x80" for x :: u8
  proof -
    have "(ucast x :: u32) < 0x80" "ucast (ucast x :: u32) = x"
      using that by (simp add: word_less_nat_alt unsigned_ucast_eq take_bit_nat_eq_self order.strict_trans [OF unsigned_less],
          intro u8_eqI, simp add: bit_simps all_less_numeral)
    then show "the (encodeUTF8Codepoint (ucast x)) = [x]" "scalar (ucast x)" "(ucast x :: u32) < 0x10000"
      by (auto simp: encodeUTF8Codepoint_def scalar_def word_less_nat_alt word_le_nat_alt)
  qed
  have "unat (ucast v :: u8) < 0x80"
    using True by (simp add: word_less_nat_alt unsigned_ucast_eq take_bit_nat_eq_self)
  then have "(ucast v :: u8) < 0x80"
    by (simp add: word_less_nat_alt)
  then have "\<forall>x \<in> set (escaped (ucast v)). x < 0x80"
    by (auto simp: escaped_def)
  moreover have "utf8_of (map ucast bs) = bs \<and> list_all (\<lambda>u. scalar u \<and> u < 0x10000) (map ucast bs)"
    if "\<forall>x \<in> set bs. x < 0x80" for bs :: "u8 list"
    using that by (induction bs) (simp_all add: ascii)
  ultimately show ?thesis
    by (intro exI [of _ "map ucast (escaped (ucast v))"]) (simp add: v)
next
  case False
  obtain bs where bs: "encodeUTF8Codepoint v = Some bs"
    using scalar_encodes(1) [OF assms(1)] by auto
  have "map escaped bs = map (\<lambda>b. [b]) bs"
    using high_bytes [OF bs False] escaped_high by simp
  then have "concat (map escaped bs) = bs"
    by (induction bs) auto
  then show ?thesis
    using bs assms by (intro exI [of _ "[v]"]) simp
qed

lemma escaped_text:
  assumes "list_all (\<lambda>v. scalar v \<and> v < 0x10000) vs"
  shows "\<exists>us. concat (map escaped (utf8_of vs)) = utf8_of us \<and> list_all (\<lambda>u. scalar u \<and> u < 0x10000) us"
  using assms
proof (induction vs)
  case (Cons v vs)
  obtain us where us: "concat (map escaped (utf8_of vs)) = utf8_of us" "list_all (\<lambda>u. scalar u \<and> u < 0x10000) us"
    using Cons by auto
  obtain ws where ws: "concat (map escaped (the (encodeUTF8Codepoint v))) = utf8_of ws"
    "list_all (\<lambda>u. scalar u \<and> u < 0x10000) ws"
    using escaped_code_point [of v] Cons.prems by auto
  show ?case
    using us ws by (intro exI [of _ "ws @ us"]) (simp add: utf8_of_def)
qed (simp add: exI [of _ "[]"])

lemma checkUTF8_bmp:
  assumes "list_all (\<lambda>u. scalar u \<and> u < 0x10000) us"
  shows "\<exists>n w. checkUTF8 (utf8_of us) = Some (n, w) \<and> w \<le> 16"
proof -
  let ?f = "\<lambda>v (n, w). Some (Suc n, if v \<noteq> scm_unBOMMarker
    then (if 0x10000 \<le> v then 21 else if 0x100 \<le> v \<and> w < 16 then 16 else if 0x80 \<le> v \<and> w < 8 then 8 else w) else w)"
  have "w \<le> 16 \<Longrightarrow> \<exists>n' w'. fold_opt ?f us (n, w) = Some (n', w') \<and> w' \<le> 16" for n w :: nat
    using assms
  proof (induction us arbitrary: n w)
    case (Cons u us)
    then show ?case
      by (simp add: not_le)
  qed simp
  moreover have "list_all scalar us"
    using assms by (auto simp: list_all_iff)
  ultimately show ?thesis
    by (simp add: checkUTF8_def walk_utf8)
qed

lemma utf8_no_zero:
  assumes "bmp_text vs"
  shows "0 \<notin> set (utf8_of vs)"
proof -
  have "0 \<notin> set (the (encodeUTF8Codepoint v))" if v: "scalar v" "v < 0x10000" "v \<noteq> 0" for v
  proof (cases "v < 0x80")
    case True
    have "(ucast v :: u8) \<noteq> 0"
    proof
      assume "(ucast v :: u8) = 0"
      then have "unat (ucast v :: u8) = 0"
        by simp
      then show False
        using True v(3) by (simp add: unsigned_ucast_eq take_bit_nat_eq_self word_less_nat_alt unat_eq_0)
    qed
    then show ?thesis
      using True by (simp add: encodeUTF8Codepoint_def)
  next
    case False
    obtain bs where bs: "encodeUTF8Codepoint v = Some bs"
      using scalar_encodes(1) [OF v(1)] by auto
    then show ?thesis
      using high_bytes [OF bs False] by fastforce
  qed
  then show ?thesis
    using assms by (auto simp: bmp_text_def utf8_of_def list_all_iff)
qed

lemma wescape_loop_fits:
  assumes "length out + length (concat (map escaped s)) \<le> n"
  shows "wescape_loop n s out = Some (out @ concat (map escaped s))"
  using assms by (induction s arbitrary: out) (auto simp: dollarEscapeChar_def)

lemma length_escaped_ge: "length s \<le> length (concat (map escaped s))"
proof (induction s)
  case (Cons c s)
  then show ?case
    using length_escaped [of c] by auto
qed simp

text \<open>A WSTRING survives its textual form: the value is quoted, escaped and terminated inside a buffer that is just
  large enough, and \<open>fromString\<close> of that text takes all of it and gives the value back.\<close>

theorem wstring_text_roundtrip:
  assumes "bmp_text vs" "length (quotes 34 (utf8_of vs)) < n" "length (quotes 34 (utf8_of vs)) \<le> scm_unMaxStringLen"
  shows "wstring_toString n (utf8_of vs)
      = (int (length (quotes 34 (utf8_of vs))), quotes 34 (utf8_of vs) @ [0])
    \<and> wstring_fromString (quotes 34 (utf8_of vs)) old = (int (length (quotes 34 (utf8_of vs))), utf8_of vs)"
proof -
  let ?s = "utf8_of vs" let ?t = "quotes 34 ?s"
  have len: "length ?s + 2 \<le> length ?t"
    using length_escaped_ge [of ?s] by (simp add: length_quotes)
  have "\<forall>x \<in> set ?s. x \<noteq> 0"
    using utf8_no_zero [OF assms(1)] by blast
  then have "c_str ?s = ?s"
    unfolding c_str_def takeWhile_eq_all_conv .
  moreover have "wescape_loop n ?s [34] = Some ([34] @ concat (map escaped ?s))"
    using assms(2) by (intro wescape_loop_fits) (simp add: length_quotes)
  ultimately have to: "wstring_toString n ?s = (int (length ?t), ?t @ [0])"
    using assms(2) len by (simp add: wstring_toString_def wstring_toUTF8_def length_quotes quotes_def)
  have bmp: "list_all (\<lambda>v. scalar v \<and> v < 0x10000) vs"
    using assms(1) by (auto simp: bmp_text_def list_all_iff)
  obtain us where us: "concat (map escaped ?s) = utf8_of us" "list_all (\<lambda>u. scalar u \<and> u < 0x10000) us"
    using escaped_text [OF bmp] by blast
  have "?t = utf8_of (34 # us @ [34])" "list_all (\<lambda>u. scalar u \<and> u < 0x10000) (34 # us @ [34])"
    using us by (simp_all add: quotes_def utf8_of_def encodeUTF8Codepoint_def scalar_def)
  then obtain k w where check: "checkUTF8 ?t = Some (k, w)" "w \<le> 16"
    using checkUTF8_bmp [of "34 # us @ [34]"] by auto
  have det: "determineEscapedStringLength 34 ?t = int (length ?t)"
    using literal_end_escaped [of 34 ?s "[]" 1] by (simp add: determineEscapedStringLength_def quotes_def)
  have un: "unescape_loop 34 (tl ?t) [] 1 = Inr (?s, length (concat (map escaped ?s)) + 2)"
    using unescape_escaped [of 34 "[]" ?s "[]" 1] assms(3) len by (simp add: quotes_def)
  have b: "byte_at ?t 0 = 34" "\<not> starts_with ''WSTRING#'' ?t" "?t \<noteq> []"
    by (simp_all add: quotes_def starts_with_def bytes_of_def)
  have "wstring_fromUTF8 ?t (-1) True old = (int (length ?t), ?s)"
    using check det un b assms(3)
    by (simp add: wstring_fromUTF8_def utf8_source_length_def unescapeFromString_def Let_def)
  then show ?thesis
    using to b by (simp add: wstring_fromString_def)
qed

theorem wstring_text_roundtrip_witness:
  "wstring_toString 9 (utf8_of [0x24, 0x20ac])
      = (int (length (quotes 34 (utf8_of [0x24, 0x20ac]))), quotes 34 (utf8_of [0x24, 0x20ac]) @ [0])
    \<and> wstring_fromString (quotes 34 (utf8_of [0x24, 0x20ac])) [1]
      = (int (length (quotes 34 (utf8_of [0x24, 0x20ac]))), utf8_of [0x24, 0x20ac])"
proof (rule wstring_text_roundtrip)
  have "utf8_of [0x24, 0x20ac] = [0x24, 0xe2, 0x82, 0xac]"
    by (simp add: encodeUTF8Codepoint_def cont_byte_def)
  then have "length (quotes 34 (utf8_of [0x24, 0x20ac])) = 7"
    by (simp add: quotes_def escaped_def)
  then show "length (quotes 34 (utf8_of [0x24, 0x20ac])) < 9"
    "length (quotes 34 (utf8_of [0x24, 0x20ac])) \<le> scm_unMaxStringLen"
    by (simp_all add: scm_unMaxStringLen_def)
qed (simp add: bmp_text_def scalar_def)

end
