(* ===== verification/FB_Container.thy ===== *)
theory FB_Container
  imports Func_Block
begin

text \<open>
  Containers of function blocks, \<^verbatim>\<open>src/src/core/fbcontainer.{h,cpp}\<close>, and the creation and deletion of
  blocks by the type library, \<^verbatim>\<open>src/src/core/typelib.cpp\<close>.

  A container owns its blocks, given by their numbers in the resource, and its sub-containers. A
  sub-container is found by its position, which stands for the pointer the code passes around. The
  functions that create or delete blocks work on the tree and on the record \<open>runtime\<close>: the state of
  the resource, the number of the next block and the last error of the type library.

  The virtual \<open>changeFBExecutionState\<close> is the parameter \<open>chg\<close>, with \<open>None\<close> for a call that never
  returns; the type library is the parameter \<open>lib\<close>. Blocks with adapters are created elsewhere:
  the constructors of a library given to this model make blocks without adapters.
\<close>

section \<open>Name lists\<close>

text \<open>
  The iterator of a \<open>TNameIdentifier\<close>: the entries from its position on and, when the vector is
  empty, what happens to be in its first storage cell. \<open>operator++\<close> does not go past the end, and
  \<open>isLastEntry\<close> compares the position with \<open>size - 1\<close>, which is not 0 for an empty vector.
\<close>

record name_iterator =
  it_names :: "TStringId list"
  it_storage :: TStringId

definition isLastEntry :: "name_iterator \<Rightarrow> bool" where
  "isLastEntry it \<longleftrightarrow> length (it_names it) = 1"

definition it_deref :: "name_iterator \<Rightarrow> TStringId" where
  "it_deref it = (case it_names it of [] \<Rightarrow> it_storage it | n # _ \<Rightarrow> n)"

definition it_next :: "name_iterator \<Rightarrow> name_iterator" where
  "it_next it = it\<lparr>it_names := tl (it_names it)\<rparr>"

definition name_begin :: "TStringId list \<Rightarrow> TStringId \<Rightarrow> name_iterator" where
  "name_begin ns x = \<lparr>it_names = ns, it_storage = x\<rparr>"

lemma name_iterator_simps [simp]:
  "isLastEntry (name_begin [n] x)"
  "\<not> isLastEntry (name_begin [] x)"
  "\<not> isLastEntry (name_begin (n # m # ns) x)"
  "it_deref (name_begin (n # ns) x) = n"
  "it_deref (name_begin [] x) = x"
  "it_next (name_begin (n # ns) x) = name_begin ns x"
  "it_next (name_begin [] x) = name_begin [] x"
  by (simp_all add: isLastEntry_def it_deref_def it_next_def name_begin_def)

section \<open>The type library\<close>

text \<open>A type entry: the function that calls the constructor of the class, and \<open>configureFB\<close> of the
  class, which only generic types override.\<close>

record 'c fb_type =
  createFBInstance :: "TStringId \<Rightarrow> 'c fb option"
  configureFB :: "string \<Rightarrow> 'c fb \<Rightarrow> bool \<times> 'c fb"

type_synonym 'c fb_library = "(TStringId \<times> 'c fb_type) list"

record 'c runtime =
  rt_world :: "'c world"
  rt_next :: nat
  m_eLastErrorMSG :: EMGMResponse

definition cg_nIdentifierLength :: nat where
  "cg_nIdentifierLength = 32"

text \<open>The first underscore that is followed by a digit ends the name of a generic type.\<close>

definition is_digit_char :: "char \<Rightarrow> bool" where
  "is_digit_char c \<longleftrightarrow> 48 \<le> (of_char c :: nat) \<and> (of_char c :: nat) \<le> 57"

fun underscore_pos :: "nat \<Rightarrow> string \<Rightarrow> nat option" where
  "underscore_pos i [] = None"
| "underscore_pos i (c # cs) =
     (if c = CHR ''_'' \<and> (case cs of [] \<Rightarrow> False | d # _ \<Rightarrow> is_digit_char d) then Some i
      else underscore_pos (Suc i) cs)"

definition getFirstNonTypeNameUnderscorePos :: "string \<Rightarrow> nat option" where
  "getFirstNonTypeNameUnderscorePos t = underscore_pos 0 t"

definition generic_type_name :: "string \<Rightarrow> nat \<Rightarrow> string" where
  "generic_type_name t p = ''GEN_'' @ take (cg_nIdentifierLength - 4) (take p t)"

text \<open>The part of \<open>createFB\<close> that makes the object, or says why there is none.\<close>

definition new_instance :: "'c fb_library \<Rightarrow> TStringId \<Rightarrow> TStringId \<Rightarrow> EMGMResponse + 'c fb" where
  "new_instance lib n t =
     (let make = (\<lambda>e. case createFBInstance e n of None \<Rightarrow> Inl e_OVERFLOW | Some b \<Rightarrow> Inr b)
      in (case findType t lib of
            Some e \<Rightarrow> make e
          | None \<Rightarrow>
              (case getFirstNonTypeNameUnderscorePos t of
                 None \<Rightarrow> Inl e_UNSUPPORTED_TYPE
               | Some p \<Rightarrow>
                   (case findType (generic_type_name t p) lib of
                      None \<Rightarrow> Inl e_UNSUPPORTED_TYPE
                    | Some e \<Rightarrow> map_sum id (\<lambda>b. snd (configureFB e t b)) (make e)))))"

text \<open>\<open>CTypeLib::createFB\<close>: a new block is reset, whatever the answer.\<close>

definition typelib_createFB ::
  "(EMGMCommandType \<Rightarrow> nat \<Rightarrow> 'c world \<Rightarrow> (EMGMResponse \<times> 'c world) option) \<Rightarrow> 'c fb_library \<Rightarrow>
     TStringId \<Rightarrow> TStringId \<Rightarrow> 'c runtime \<Rightarrow> (nat option \<times> 'c runtime) option" where
  "typelib_createFB chg lib n t st =
     (case new_instance lib n t of
        Inl e \<Rightarrow> Some (None, st\<lparr>m_eLastErrorMSG := e\<rparr>)
      | Inr b \<Rightarrow>
          let i = rt_next st; w = rt_world st
          in map_option (\<lambda>r. (Some i, st\<lparr>rt_world := snd r, rt_next := Suc i\<rparr>))
               (chg cg_nMGM_CMD_Reset i (w\<lparr>w_fbs := (w_fbs w)(i \<mapsto> b)\<rparr>)))"

text \<open>Deleting a block: its destructor deletes its adapters and its connections with it. What other
  blocks know of it stays.\<close>

definition typelib_deleteFB :: "nat \<Rightarrow> 'c world \<Rightarrow> 'c world" where
  "typelib_deleteFB i w =
     (case w_fbs w i of
        None \<Rightarrow> w
      | Some b \<Rightarrow>
          w\<lparr>w_fbs := fold (\<lambda>a f. case a of None \<Rightarrow> f | Some j \<Rightarrow> f(j := None)) (m_apoAdapters b)
                       ((w_fbs w)(i := None))\<rparr>)"

definition deletable :: "'c world \<Rightarrow> nat \<Rightarrow> bool" where
  "deletable w i \<longleftrightarrow> (case w_fbs w i of None \<Rightarrow> False | Some b \<Rightarrow> isCurrentlyDeleteable b)"

section \<open>Containers\<close>

datatype fbcontainer =
  CFBContainer (mContainerName: TStringId) (mFunctionBlocks: "nat list") (mSubContainers: "fbcontainer list")

definition fb_name :: "'c world \<Rightarrow> nat \<Rightarrow> TStringId option" where
  "fb_name w i = map_option m_nFBInstanceName (w_fbs w i)"

definition scm_nInvalidStringId :: TStringId where
  "scm_nInvalidStringId = ''''"

definition getFB :: "'c world \<Rightarrow> TStringId \<Rightarrow> fbcontainer \<Rightarrow> nat option" where
  "getFB w n c =
     (if n \<noteq> scm_nInvalidStringId then find (\<lambda>i. fb_name w i = Some n) (mFunctionBlocks c) else None)"

definition getFBContainer :: "TStringId \<Rightarrow> fbcontainer \<Rightarrow> nat option" where
  "getFBContainer n c =
     (if n \<noteq> scm_nInvalidStringId
      then find (\<lambda>k. mContainerName (mSubContainers c ! k) = n) [0..<length (mSubContainers c)] else None)"

definition push_back_FB :: "nat \<Rightarrow> fbcontainer \<Rightarrow> fbcontainer" where
  "push_back_FB i c = CFBContainer (mContainerName c) (mFunctionBlocks c @ [i]) (mSubContainers c)"

definition addFB :: "nat option \<Rightarrow> fbcontainer \<Rightarrow> EMGMResponse \<times> fbcontainer" where
  "addFB fb c = (case fb of None \<Rightarrow> (e_INVALID_OBJECT, c) | Some i \<Rightarrow> (e_RDY, push_back_FB i c))"

definition set_sub :: "nat \<Rightarrow> fbcontainer \<Rightarrow> fbcontainer \<Rightarrow> fbcontainer" where
  "set_sub k d c = CFBContainer (mContainerName c) (mFunctionBlocks c) ((mSubContainers c)[k := d])"

definition findOrCreateContainer :: "'c world \<Rightarrow> TStringId \<Rightarrow> fbcontainer \<Rightarrow> nat option \<times> fbcontainer" where
  "findOrCreateContainer w n c =
     (case getFBContainer n c of
        Some k \<Rightarrow> (Some k, c)
      | None \<Rightarrow>
          if getFB w n c = None
          then (Some (length (mSubContainers c)),
                CFBContainer (mContainerName c) (mFunctionBlocks c) (mSubContainers c @ [CFBContainer n [] []]))
          else (None, c))"

text \<open>
  \<open>createFB\<close> and \<open>deleteFB\<close>. On the entry of an empty name list they go down for ever, which is the
  value \<open>None\<close>.
\<close>

partial_function (option) createFB ::
  "(EMGMCommandType \<Rightarrow> nat \<Rightarrow> 'c world \<Rightarrow> (EMGMResponse \<times> 'c world) option) \<Rightarrow> 'c fb_library \<Rightarrow>
     name_iterator \<Rightarrow> TStringId \<Rightarrow> fbcontainer \<Rightarrow> 'c runtime \<Rightarrow>
     (EMGMResponse \<times> fbcontainer \<times> 'c runtime) option" where
  "createFB chg lib it t c st =
     (if isLastEntry it then
        (if getFB (rt_world st) (it_deref it) c = None \<and> getFBContainer (it_deref it) c = None then
           (case typelib_createFB chg lib (it_deref it) t st of
              None \<Rightarrow> None
            | Some (fb, st1) \<Rightarrow>
                Some (case fb of Some i \<Rightarrow> (e_RDY, push_back_FB i c, st1)
                      | None \<Rightarrow> (m_eLastErrorMSG st1, c, st1)))
         else Some (e_INVALID_STATE, c, st))
      else
        (case findOrCreateContainer (rt_world st) (it_deref it) c of
           (None, c1) \<Rightarrow> Some (e_INVALID_STATE, c1, st)
         | (Some k, c1) \<Rightarrow>
             Option.bind (createFB chg lib (it_next it) t (mSubContainers c1 ! k) st)
               (\<lambda>(r, d, st1). Some (r, set_sub k d c1, st1))))"

partial_function (option) deleteFB ::
  "name_iterator \<Rightarrow> fbcontainer \<Rightarrow> 'c world \<Rightarrow> (EMGMResponse \<times> fbcontainer \<times> 'c world) option" where
  "deleteFB it c w =
     (if \<not> isLastEntry it then
        (case findOrCreateContainer w (it_deref it) c of
           (None, c1) \<Rightarrow> Some (e_NO_SUCH_OBJECT, c1, w)
         | (Some k, c1) \<Rightarrow>
             Option.bind (deleteFB (it_next it) (mSubContainers c1 ! k) w)
               (\<lambda>(r, d, w1). Some (r, set_sub k d c1, w1)))
      else if it_deref it \<noteq> scm_nInvalidStringId \<and> mFunctionBlocks c \<noteq> [] then
        (case find (\<lambda>i. fb_name w i = Some (it_deref it)) (mFunctionBlocks c) of
           None \<Rightarrow> Some (e_NO_SUCH_OBJECT, c, w)
         | Some i \<Rightarrow>
             if deletable w i
             then Some (e_RDY, CFBContainer (mContainerName c) (remove1 i (mFunctionBlocks c)) (mSubContainers c),
                        typelib_deleteFB i w)
             else Some (e_INVALID_STATE, c, w))
      else Some (e_NO_SUCH_OBJECT, c, w))"

text \<open>\<open>getContainedFB\<close> moves the iterator of its caller to the entry at which it found the block.\<close>

lemma getFBContainer_less: "getFBContainer n c = Some k \<Longrightarrow> k < length (mSubContainers c)"
  by (auto simp: getFBContainer_def find_Some_iff split: if_splits)

lemma size_sub:
  assumes "k < length (mSubContainers c)"
  shows "size (mSubContainers c ! k) < size c"
proof (cases c)
  case (CFBContainer n fs cs)
  then have "size (cs ! k) \<le> size_list size cs"
    using assms by (intro size_list_estimation' [of "cs ! k"]) auto
  then show ?thesis using CFBContainer by simp
qed

function getContainedFB :: "'c world \<Rightarrow> name_iterator \<Rightarrow> fbcontainer \<Rightarrow> nat option \<times> name_iterator" where
  "getContainedFB w it c =
     (case (if \<not> isLastEntry it then getFBContainer (it_deref it) c else None) of
        Some k \<Rightarrow> getContainedFB w (it_next it) (mSubContainers c ! k)
      | None \<Rightarrow> (getFB w (it_deref it) c, it))"
  by pat_completeness auto

termination getContainedFB
  by (relation "measure (\<lambda>(w, it, c). size c)") (auto split: if_splits dest!: getFBContainer_less intro: size_sub)

declare getContainedFB.simps [simp del]

text \<open>A loop over a list that ends with the first answer other than RDY.\<close>

fun until_error ::
  "('a \<Rightarrow> 'w \<Rightarrow> (EMGMResponse \<times> 'w) option) \<Rightarrow> 'a list \<Rightarrow> 'w \<Rightarrow> (EMGMResponse \<times> 'w) option" where
  "until_error f [] w = Some (e_RDY, w)"
| "until_error f (x # xs) w =
     (case f x w of
        None \<Rightarrow> None
      | Some (r, w1) \<Rightarrow> if r = e_RDY then until_error f xs w1 else Some (r, w1))"

lemma until_error_cong [fundef_cong]:
  "xs = ys \<Longrightarrow> w = v \<Longrightarrow> (\<And>x u. x \<in> set ys \<Longrightarrow> f x u = g x u) \<Longrightarrow> until_error f xs w = until_error g ys v"
proof (induction ys arbitrary: xs w v)
  case (Cons y ys)
  then show ?case by (auto split: option.split)
qed simp

lemma size_list_sub: "d \<in> set (mSubContainers c) \<Longrightarrow> size d < size c"
  by (cases c) (auto dest!: size_list_estimation' [OF _ order_refl, of _ _ size])

function changeContainedFBsExecutionState ::
  "(EMGMCommandType \<Rightarrow> nat \<Rightarrow> 'c world \<Rightarrow> (EMGMResponse \<times> 'c world) option) \<Rightarrow>
     EMGMCommandType \<Rightarrow> fbcontainer \<Rightarrow> 'c world \<Rightarrow> (EMGMResponse \<times> 'c world) option" where
  "changeContainedFBsExecutionState chg cmd c w =
     (case until_error (changeContainedFBsExecutionState chg cmd) (mSubContainers c) w of
        None \<Rightarrow> None
      | Some (r, w1) \<Rightarrow>
          if r = e_RDY then until_error (chg cmd) (mFunctionBlocks c) w1 else Some (r, w1))"
  by pat_completeness auto

termination changeContainedFBsExecutionState
  by (relation "measure (\<lambda>(chg, cmd, c, w). size c)") (auto intro: size_list_sub)

declare changeContainedFBsExecutionState.simps [simp del]

text \<open>The destructor: the blocks first, then the sub-containers.\<close>

function destroy_container :: "fbcontainer \<Rightarrow> 'c world \<Rightarrow> 'c world" where
  "destroy_container c w =
     fold destroy_container (mSubContainers c) (fold typelib_deleteFB (mFunctionBlocks c) w)"
  by pat_completeness auto

termination destroy_container
  by (relation "measure (\<lambda>(c, w). size c)") (auto intro: size_list_sub)

declare destroy_container.simps [simp del]

end
