(* ===== verification/Container_Laws.thy ===== *)
theory Container_Laws
  imports FB_Container "HOL-Library.Multiset"
begin

text \<open>
  What the containers of a resource promise: their tree is a finite map from paths of names to
  blocks, which creating and deleting a block update at one path. The abstract map is \<open>fb_at\<close>;
  \<open>tree_ok\<close> is the invariant of the tree.
\<close>

section \<open>The map that a tree of containers stands for\<close>

fun fb_at :: "(nat \<Rightarrow> TStringId option) \<Rightarrow> fbcontainer \<Rightarrow> TStringId list \<Rightarrow> nat option" where
  "fb_at nm c [] = None"
| "fb_at nm c [n] = find (\<lambda>i. nm i = Some n) (mFunctionBlocks c)"
| "fb_at nm c (n # m # ns) =
     (case find (\<lambda>d. mContainerName d = n) (mSubContainers c) of
        None \<Rightarrow> None
      | Some d \<Rightarrow> fb_at nm d (m # ns))"

text \<open>All blocks, in the order in which commands reach them.\<close>

function all_fbs :: "fbcontainer \<Rightarrow> nat list" where
  "all_fbs c = concat (map all_fbs (mSubContainers c)) @ mFunctionBlocks c"
  by pat_completeness auto

termination all_fbs
  by (relation "measure size") (auto intro: size_list_sub)

declare all_fbs.simps [simp del]

text \<open>In one container the names of blocks and sub-containers differ, and none is empty.\<close>

function names_ok :: "(nat \<Rightarrow> TStringId option) \<Rightarrow> fbcontainer \<Rightarrow> bool" where
  "names_ok nm c \<longleftrightarrow>
     distinct (map nm (mFunctionBlocks c) @ map (\<lambda>d. Some (mContainerName d)) (mSubContainers c)) \<and>
     None \<notin> nm ` set (mFunctionBlocks c) \<and> Some '''' \<notin> nm ` set (mFunctionBlocks c) \<and>
     '''' \<notin> mContainerName ` set (mSubContainers c) \<and> (\<forall>d \<in> set (mSubContainers c). names_ok nm d)"
  by pat_completeness auto

termination names_ok
  by (relation "measure (\<lambda>(nm, c). size c)") (auto intro: size_list_sub)

declare names_ok.simps [simp del]

definition tree_ok :: "'c world \<Rightarrow> fbcontainer \<Rightarrow> bool" where
  "tree_ok w c \<longleftrightarrow>
     names_ok (fb_name w) c \<and> distinct (all_fbs c) \<and>
     (\<forall>i j b. w_fbs w i = Some b \<and> Some j \<in> set (m_apoAdapters b) \<longrightarrow> j \<notin> set (all_fbs c))"

definition runtime_ok :: "'c runtime \<Rightarrow> bool" where
  "runtime_ok st \<longleftrightarrow>
     (\<forall>i b. w_fbs (rt_world st) i = Some b \<longrightarrow>
        i < rt_next st \<and> (\<forall>j. Some j \<in> set (m_apoAdapters b) \<longrightarrow> j < rt_next st))"

section \<open>Trees\<close>

lemma fbcontainer_induct [case_names sub]:
  assumes "\<And>c. (\<And>d. d \<in> set (mSubContainers c) \<Longrightarrow> P d) \<Longrightarrow> P c"
  shows "P c"
proof (induction c rule: measure_induct_rule [of size])
  case (less c)
  then show ?case by (meson assms size_list_sub)
qed

lemma set_all_fbs:
  "set (all_fbs c) = (\<Union>d \<in> set (mSubContainers c). set (all_fbs d)) \<union> set (mFunctionBlocks c)"
  by (subst all_fbs.simps) auto

lemma find_cong_set: "(\<And>x. x \<in> set xs \<Longrightarrow> P x = Q x) \<Longrightarrow> find P xs = find Q xs"
  by (induction xs) auto

lemma names_ok_cong:
  "(\<And>i. i \<in> set (all_fbs c) \<Longrightarrow> nm' i = nm i) \<Longrightarrow> names_ok nm' c = names_ok nm c"
proof (induction c rule: fbcontainer_induct)
  case (sub c)
  have fbs: "map nm' (mFunctionBlocks c) = map nm (mFunctionBlocks c)"
    "nm' ` set (mFunctionBlocks c) = nm ` set (mFunctionBlocks c)"
    using sub.prems by (auto simp: set_all_fbs [of c] intro!: image_cong)
  have subs: "(\<forall>d \<in> set (mSubContainers c). names_ok nm' d) = (\<forall>d \<in> set (mSubContainers c). names_ok nm d)"
    using sub.IH sub.prems by (auto simp: set_all_fbs [of c])
  show ?case
    unfolding names_ok.simps [of nm c] names_ok.simps [of nm' c] fbs subs ..
qed

lemma fb_at_cong:
  "(\<And>i. i \<in> set (all_fbs c) \<Longrightarrow> nm' i = nm i) \<Longrightarrow> fb_at nm' c p = fb_at nm c p"
proof (induction nm c p rule: fb_at.induct)
  case (2 nm c n)
  then show ?case by (auto intro!: find_cong_set simp: set_all_fbs [of c])
next
  case (3 nm c n m ns)
  have "fb_at nm' d (m # ns) = fb_at nm d (m # ns)"
    if "find (\<lambda>d. mContainerName d = n) (mSubContainers c) = Some d" for d
  proof (rule "3.IH" [OF that])
    have "d \<in> set (mSubContainers c)" using that by (auto simp: find_Some_iff)
    then show "nm' i = nm i" if "i \<in> set (all_fbs d)" for i
      using that "3.prems" by (auto simp: set_all_fbs [of c])
  qed
  then show ?case by (simp split: option.split)
qed simp

lemma fb_at_mem: "fb_at nm c p = Some i \<Longrightarrow> i \<in> set (all_fbs c)"
proof (induction nm c p rule: fb_at.induct)
  case (2 nm c n)
  then show ?case by (auto simp: find_Some_iff set_all_fbs [of c])
next
  case (3 nm c n m ns)
  from "3.prems" obtain d where d: "find (\<lambda>d. mContainerName d = n) (mSubContainers c) = Some d"
    "fb_at nm d (m # ns) = Some i" by (auto split: option.splits)
  then have "d \<in> set (mSubContainers c)" by (auto simp: find_Some_iff)
  moreover have "i \<in> set (all_fbs d)" using "3.IH" d by blast
  ultimately show ?case by (auto simp: set_all_fbs [of c])
qed simp

text \<open>Sub-containers by name and by position.\<close>

lemma find_upt_nth:
  "find (\<lambda>k. P (xs ! k)) [0..<length xs] = None \<longleftrightarrow> find P xs = None"
  by (auto simp: find_None_iff in_set_conv_nth)

lemma find_upt_Some:
  assumes "find (\<lambda>k. P (xs ! k)) [0..<length xs] = Some k"
  shows "k < length xs \<and> find P xs = Some (xs ! k) \<and> (\<forall>j<k. \<not> P (xs ! j)) \<and> P (xs ! k)"
  using assms by (fastforce simp: find_Some_iff)

lemma getFBContainer_find:
  "n \<noteq> '''' \<Longrightarrow> getFBContainer n c = None \<longleftrightarrow> find (\<lambda>d. mContainerName d = n) (mSubContainers c) = None"
  by (simp add: getFBContainer_def scm_nInvalidStringId_def find_upt_nth [of "\<lambda>d. mContainerName d = n"])

lemma getFBContainer_SomeD:
  assumes "getFBContainer n c = Some k"
  shows "k < length (mSubContainers c)" "mContainerName (mSubContainers c ! k) = n" "n \<noteq> ''''"
    "find (\<lambda>d. mContainerName d = n) (mSubContainers c) = Some (mSubContainers c ! k)"
    "\<forall>j<k. mContainerName (mSubContainers c ! j) \<noteq> n"
  using assms find_upt_Some [of "\<lambda>d. mContainerName d = n" "mSubContainers c" k]
  by (auto simp: getFBContainer_def scm_nInvalidStringId_def split: if_splits)

lemma find_update:
  assumes "k < length xs" "P (xs ! k)" "\<forall>j<k. \<not> P (xs ! j)" "P y"
  shows "find P (xs[k := y]) = Some y"
  using assms by (auto simp: find_Some_iff intro!: exI [of _ k])

lemma find_update_other:
  "\<not> P (xs ! k) \<Longrightarrow> \<not> P y \<Longrightarrow> find P (xs[k := y]) = find P xs"
proof (induction xs arbitrary: k)
  case (Cons x xs)
  then show ?case by (cases k) auto
qed simp

lemma find_set_sub:
  assumes "getFBContainer n c = Some k" and "mContainerName d = n"
  shows "find (\<lambda>d. mContainerName d = m) (mSubContainers (set_sub k d c)) =
    (if m = n then Some d else find (\<lambda>d. mContainerName d = m) (mSubContainers c))"
  using getFBContainer_SomeD [OF assms(1)] assms(2)
  by (auto simp: set_sub_def find_update find_update_other)

lemma set_sub_sel [simp]:
  "mContainerName (set_sub k d c) = mContainerName c"
  "mFunctionBlocks (set_sub k d c) = mFunctionBlocks c"
  "mSubContainers (set_sub k d c) = (mSubContainers c)[k := d]"
  by (simp_all add: set_sub_def)

lemma fb_at_set_sub:
  assumes "getFBContainer n c = Some k" and "mContainerName d = n"
  shows "fb_at nm (set_sub k d c) p =
    (case p of m # q # qs \<Rightarrow> if m = n then fb_at nm d (q # qs) else fb_at nm c p | _ \<Rightarrow> fb_at nm c p)"
  using find_set_sub [OF assms] by (auto split: list.split)

lemma names_ok_subD: "names_ok nm c \<Longrightarrow> d \<in> set (mSubContainers c) \<Longrightarrow> names_ok nm d"
  by (simp add: names_ok.simps [of nm c])

lemma names_ok_set_sub:
  assumes "names_ok nm c" and "getFBContainer n c = Some k" and "mContainerName d = n" and "names_ok nm d"
  shows "names_ok nm (set_sub k d c)"
proof -
  have names: "map mContainerName ((mSubContainers c)[k := d]) = map mContainerName (mSubContainers c)"
    using getFBContainer_SomeD [OF assms(2)] assms(3) by (simp add: map_update list_update_same_conv)
  have "map (\<lambda>d. Some (mContainerName d)) ys = map Some (map mContainerName ys)" for ys
    by simp
  then have "map (\<lambda>d. Some (mContainerName d)) ((mSubContainers c)[k := d]) =
      map (\<lambda>d. Some (mContainerName d)) (mSubContainers c)"
    by (simp only: names)
  moreover have "mContainerName ` set ((mSubContainers c)[k := d]) = mContainerName ` set (mSubContainers c)"
    by (metis names list.set_map)
  moreover have "\<forall>e \<in> set ((mSubContainers c)[k := d]). names_ok nm e"
    using set_update_subset_insert [of "mSubContainers c" k d] assms(4) names_ok_subD [OF assms(1)] by blast
  ultimately show ?thesis
    using assms(1) by (simp add: names_ok.simps [of nm c] names_ok.simps [of nm "set_sub k d c"])
qed

lemma mset_concat_update:
  "k < length xs \<Longrightarrow> mset (concat (map f (xs[k := y]))) + mset (f (xs ! k)) = mset (concat (map f xs)) + mset (f y)"
proof (induction xs arbitrary: k)
  case (Cons x xs)
  then show ?case
    by (cases k) (auto simp: add.assoc add.commute add.left_commute)
qed simp

lemma all_fbs_set_sub:
  "k < length (mSubContainers c) \<Longrightarrow>
    mset (all_fbs (set_sub k d c)) + mset (all_fbs (mSubContainers c ! k)) =
    mset (all_fbs c) + mset (all_fbs d)"
  using mset_concat_update [of k "mSubContainers c" all_fbs d]
  by (simp add: all_fbs.simps [of c] all_fbs.simps [of "set_sub k d c"] add.assoc add.commute add.left_commute)

lemma sub_all_fbs: "k < length (mSubContainers c) \<Longrightarrow> set (all_fbs (mSubContainers c ! k)) \<subseteq> set (all_fbs c)"
  unfolding set_all_fbs [of c] using nth_mem [of k "mSubContainers c"] by blast

lemma empty_container [simp]: "fb_at nm (CFBContainer n [] []) p = None"
  by (cases "(nm, CFBContainer n [] [], p)" rule: fb_at.cases) auto

lemma empty_container_ok [simp]: "names_ok nm (CFBContainer n [] [])" "all_fbs (CFBContainer n [] []) = []"
  by (simp_all add: names_ok.simps [of _ "CFBContainer n [] []"] all_fbs.simps [of "CFBContainer n [] []"])

lemma getFB_None: "n \<noteq> '''' \<Longrightarrow> getFB w n c = None \<longleftrightarrow> fb_at (fb_name w) c [n] = None"
  by (simp add: getFB_def scm_nInvalidStringId_def)

lemma find_append_one: "find P (xs @ [y]) = (case find P xs of Some x \<Rightarrow> Some x | None \<Rightarrow> if P y then Some y else None)"
  by (induction xs) auto

lemma new_container:
  assumes "getFBContainer n c = None" and "getFB w n c = None" and "n \<noteq> ''''" and "names_ok (fb_name w) c"
  defines "c1 \<equiv> CFBContainer (mContainerName c) (mFunctionBlocks c) (mSubContainers c @ [CFBContainer n [] []])"
  shows "getFBContainer n c1 = Some (length (mSubContainers c))" "names_ok (fb_name w) c1"
    "all_fbs c1 = all_fbs c" "fb_at nm c1 p = fb_at nm c p"
proof -
  have no: "\<forall>d \<in> set (mSubContainers c). mContainerName d \<noteq> n"
    using assms(1,3) by (auto simp: getFBContainer_find find_None_iff)
  show "getFBContainer n c1 = Some (length (mSubContainers c))"
    using assms(3) no
    by (auto simp: getFBContainer_def scm_nInvalidStringId_def c1_def find_Some_iff nth_append
        intro!: exI [of _ "length (mSubContainers c)"])
  show "all_fbs c1 = all_fbs c"
    by (simp add: c1_def all_fbs.simps [of "CFBContainer (mContainerName c) _ _"] all_fbs.simps [of c])
  have "\<forall>i \<in> set (mFunctionBlocks c). fb_name w i \<noteq> Some n"
    using assms(2,3) by (auto simp: getFB_None find_None_iff)
  then show "names_ok (fb_name w) c1"
    using assms(3,4) no
    by (auto simp: c1_def names_ok.simps [of _ "CFBContainer (mContainerName c) _ _"] names_ok.simps [of _ c])
  have "find (\<lambda>d. mContainerName d = n) (mSubContainers c) = None"
    using no by (auto simp: find_None_iff)
  then show "fb_at nm c1 p = fb_at nm c p"
    by (cases "(nm, c, p)" rule: fb_at.cases)
       (auto simp: c1_def find_append_one split: option.splits)
qed

lemma findOrCreate_found:
  assumes "findOrCreateContainer w n c = (Some k, c1)" and "n \<noteq> ''''" and "names_ok (fb_name w) c"
  shows "getFBContainer n c1 = Some k" "names_ok (fb_name w) c1" "all_fbs c1 = all_fbs c"
    "mContainerName c1 = mContainerName c" "fb_at nm c1 p = fb_at nm c p"
  using assms new_container [OF _ _ assms(2,3)]
  by (auto simp: findOrCreateContainer_def split: option.splits if_splits)

lemma findOrCreate_blocked:
  "findOrCreateContainer w n c = (None, c1) \<Longrightarrow> c1 = c \<and> getFB w n c \<noteq> None"
  by (auto simp: findOrCreateContainer_def split: option.splits if_splits)

section \<open>Creating a block\<close>

text \<open>A library whose constructors give a block the name they are called with.\<close>

definition entry_ok :: "'c fb_type \<Rightarrow> bool" where
  "entry_ok e \<longleftrightarrow>
     (\<forall>n b. createFBInstance e n = Some b \<longrightarrow>
        m_nFBInstanceName b = n \<and> set (m_apoAdapters b) \<subseteq> {None} \<and>
        (\<forall>t. m_nFBInstanceName (snd (configureFB e t b)) = n \<and>
             set (m_apoAdapters (snd (configureFB e t b))) \<subseteq> {None}))"

definition lib_ok :: "'c fb_library \<Rightarrow> bool" where
  "lib_ok lib \<longleftrightarrow> (\<forall>e \<in> snd ` set lib. entry_ok e)"

lemma findType_mem: "findType n lib = Some e \<Longrightarrow> e \<in> snd ` set lib"
  by (induction n lib rule: findType.induct) (auto split: if_splits)

lemma new_instance_ok:
  assumes "lib_ok lib" and "new_instance lib n t = Inr b"
  shows "m_nFBInstanceName b = n" "set (m_apoAdapters b) \<subseteq> {None}"
proof -
  have "\<exists>e \<in> snd ` set lib. \<exists>b0. createFBInstance e n = Some b0 \<and> (b = b0 \<or> (\<exists>t. b = snd (configureFB e t b0)))"
    using assms(2)
    by (fastforce simp: new_instance_def Let_def split: option.splits dest!: findType_mem)
  then show "m_nFBInstanceName b = n" "set (m_apoAdapters b) \<subseteq> {None}"
    using assms(1) unfolding lib_ok_def entry_ok_def by blast+
qed

lemma new_instance_error: "new_instance lib n t = Inl e \<Longrightarrow> e \<noteq> e_RDY"
  by (auto simp: new_instance_def Let_def split: option.splits)

text \<open>Two worlds of the same shape have the same blocks, with the same names and adapters.\<close>

lemma world_shape_fb:
  assumes "world_shape w' = world_shape w"
  shows "fb_name w' = fb_name w"
    "w_fbs w' i = Some b' \<Longrightarrow> \<exists>b. w_fbs w i = Some b \<and> m_apoAdapters b = m_apoAdapters b'"
proof -
  have s: "map_option fb_shape (w_fbs w' j) = map_option fb_shape (w_fbs w j)" for j
    using fun_cong [OF assms, of j] by (simp add: world_shape_def)
  show "fb_name w' = fb_name w"
  proof
    show "fb_name w' j = fb_name w j" for j
      using s [of j] by (auto simp: fb_name_def fb_shape_def map_option_case split: option.splits)
  qed
  show "\<exists>b. w_fbs w i = Some b \<and> m_apoAdapters b = m_apoAdapters b'" if "w_fbs w' i = Some b'"
    using s [of i] that by (auto simp: fb_shape_def map_option_case split: option.splits)
qed

text \<open>
  What the containers rely on in the virtual \<open>changeFBExecutionState\<close>: it changes states and values,
  but no interface, name, connection or adapter.
\<close>

locale state_changer =
  fixes chg :: "EMGMCommandType \<Rightarrow> nat \<Rightarrow> 'c world \<Rightarrow> (EMGMResponse \<times> 'c world) option"
  assumes chg_shape: "chg cmd i w = Some (r, w') \<Longrightarrow> world_shape w' = world_shape w"
begin

definition created :: "TStringId \<Rightarrow> 'c runtime \<Rightarrow> 'c runtime \<Rightarrow> bool" where
  "created n st st1 \<longleftrightarrow>
     fb_name (rt_world st1) = (fb_name (rt_world st))(rt_next st \<mapsto> n) \<and>
     rt_next st1 = Suc (rt_next st) \<and> runtime_ok st1 \<and>
     (\<forall>i b. w_fbs (rt_world st1) i = Some b \<longrightarrow> set (m_apoAdapters b) \<subseteq> {None} \<or>
        (\<exists>b0. w_fbs (rt_world st) i = Some b0 \<and> m_apoAdapters b0 = m_apoAdapters b))"

lemma typelib_createFB_cases:
  assumes "typelib_createFB chg lib n t st = Some (fb, st1)" and "lib_ok lib" and "runtime_ok st"
  obtains (refused) e where "new_instance lib n t = Inl e" "fb = None" "st1 = st\<lparr>m_eLastErrorMSG := e\<rparr>" "e \<noteq> e_RDY"
    | (made) b where "new_instance lib n t = Inr b" "fb = Some (rt_next st)" "created n st st1"
proof (cases "new_instance lib n t")
  case (Inl e)
  then show ?thesis
    using assms(1) new_instance_error [OF Inl] by (intro refused) (auto simp: typelib_createFB_def)
next
  case (Inr b)
  define w1 where "w1 = (rt_world st)\<lparr>w_fbs := (w_fbs (rt_world st))(rt_next st \<mapsto> b)\<rparr>"
  from assms(1) Inr obtain r w2 where chg: "chg cg_nMGM_CMD_Reset (rt_next st) w1 = Some (r, w2)"
    and st1: "st1 = st\<lparr>rt_world := w2, rt_next := Suc (rt_next st)\<rparr>" and fb: "fb = Some (rt_next st)"
    by (auto simp: typelib_createFB_def Let_def w1_def)
  note shape = world_shape_fb [OF chg_shape [OF chg]]
  note b = new_instance_ok [OF assms(2) Inr]
  have "fb_name w2 = (fb_name (rt_world st))(rt_next st \<mapsto> n)"
    unfolding shape(1) by (auto simp: fb_name_def w1_def b)
  moreover have "runtime_ok st1"
    unfolding runtime_ok_def st1
  proof (intro allI impI)
    fix i b'
    assume "w_fbs (rt_world (st\<lparr>rt_world := w2, rt_next := Suc (rt_next st)\<rparr>)) i = Some b'"
    then obtain b1 where "w_fbs w1 i = Some b1" "m_apoAdapters b1 = m_apoAdapters b'"
      using shape(2) by auto
    then show "i < rt_next (st\<lparr>rt_world := w2, rt_next := Suc (rt_next st)\<rparr>) \<and>
        (\<forall>j. Some j \<in> set (m_apoAdapters b') \<longrightarrow> j < rt_next (st\<lparr>rt_world := w2, rt_next := Suc (rt_next st)\<rparr>))"
      using assms(3) b(2) by (auto simp: w1_def runtime_ok_def less_Suc_eq split: if_splits)
  qed
  moreover have "set (m_apoAdapters b') \<subseteq> {None} \<or>
      (\<exists>b0. w_fbs (rt_world st) i = Some b0 \<and> m_apoAdapters b0 = m_apoAdapters b')"
    if b': "w_fbs w2 i = Some b'" for i b'
    using shape(2) [OF b'] b(2) by (auto simp: w1_def split: if_splits)
  ultimately have "created n st st1" by (simp add: created_def st1)
  then show ?thesis using made [OF Inr fb] by blast
qed

text \<open>What creating a block at a path does to the tree and to the map.\<close>

definition create_effect ::
  "TStringId list \<Rightarrow> fbcontainer \<Rightarrow> 'c runtime \<Rightarrow> EMGMResponse \<Rightarrow> fbcontainer \<Rightarrow> 'c runtime \<Rightarrow> bool" where
  "create_effect ns c st r c1 st1 \<longleftrightarrow>
     mContainerName c1 = mContainerName c \<and> names_ok (fb_name (rt_world st1)) c1 \<and>
     (if r = e_RDY
      then created (last ns) st st1 \<and> fb_at (fb_name (rt_world st)) c ns = None \<and>
           (\<forall>p. fb_at (fb_name (rt_world st1)) c1 p =
                 (if p = ns then Some (rt_next st) else fb_at (fb_name (rt_world st)) c p)) \<and>
           mset (all_fbs c1) = add_mset (rt_next st) (mset (all_fbs c))
      else rt_world st1 = rt_world st \<and> rt_next st1 = rt_next st \<and>
           (\<forall>p. fb_at (fb_name (rt_world st)) c1 p = fb_at (fb_name (rt_world st)) c p) \<and>
           mset (all_fbs c1) = mset (all_fbs c))"

lemma create_here:
  assumes "createFB chg lib (name_begin [n] x) t c st = Some (r, c1, st1)"
    and "n \<noteq> ''''" and "names_ok (fb_name (rt_world st)) c" and "\<forall>i \<in> set (all_fbs c). i < rt_next st"
    and "lib_ok lib" and "runtime_ok st"
  shows "create_effect [n] c st r c1 st1"
proof (cases "getFB (rt_world st) n c = None \<and> getFBContainer n c = None")
  case False
  then show ?thesis
    using assms(1,3) by (auto simp: createFB.simps [of _ _ "name_begin [n] x"] create_effect_def split: if_splits)
next
  case True
  from assms(1) True obtain fb where tl: "typelib_createFB chg lib n t st = Some (fb, st1)"
    and res: "(r, c1) = (case fb of Some i \<Rightarrow> (e_RDY, push_back_FB i c) | None \<Rightarrow> (m_eLastErrorMSG st1, c))"
    by (auto simp: createFB.simps [of _ _ "name_begin [n] x"] split: option.splits)
  from tl assms(5,6) show ?thesis
  proof (cases rule: typelib_createFB_cases)
    case refused
    then show ?thesis using res assms(3) by (auto simp: create_effect_def)
  next
    case made
    have nm: "fb_name (rt_world st1) i = fb_name (rt_world st) i" if "i \<in> set (all_fbs c)" for i
      using made(3) assms(4) that by (auto simp: created_def)
    then have nm': "fb_name (rt_world st1) i = fb_name (rt_world st) i" if "i \<in> set (mFunctionBlocks c)" for i
      using that by (auto simp: set_all_fbs [of c])
    have new: "fb_name (rt_world st1) (rt_next st) = Some n"
      using made(3) by (simp add: created_def)
    have none: "\<forall>i \<in> set (mFunctionBlocks c). fb_name (rt_world st) i \<noteq> Some n"
      "\<forall>d \<in> set (mSubContainers c). mContainerName d \<noteq> n"
      using True assms(2) by (auto simp: getFB_None getFBContainer_find find_None_iff)
    have "fb_at (fb_name (rt_world st1)) (push_back_FB (rt_next st) c) p =
        (if p = [n] then Some (rt_next st) else fb_at (fb_name (rt_world st)) c p)" for p
    proof (cases "(fb_name (rt_world st), c, p)" rule: fb_at.cases)
      case (2 nm c' m)
      have "find (\<lambda>i. fb_name (rt_world st1) i = Some m) (mFunctionBlocks c) =
          find (\<lambda>i. fb_name (rt_world st) i = Some m) (mFunctionBlocks c)"
        by (rule find_cong_set) (simp add: nm')
      moreover have "find (\<lambda>i. fb_name (rt_world st) i = Some n) (mFunctionBlocks c) = None"
        using none by (auto simp: find_None_iff)
      ultimately show ?thesis
        using 2 new by (auto simp: push_back_FB_def find_append_one split: option.split)
    next
      case (3 nm c' m q qs)
      then have "fb_at (fb_name (rt_world st1)) (push_back_FB (rt_next st) c) p = fb_at (fb_name (rt_world st1)) c p"
        by (simp add: push_back_FB_def)
      then show ?thesis
        using 3 fb_at_cong [of c "fb_name (rt_world st1)" "fb_name (rt_world st)" p] nm by auto
    qed (simp add: push_back_FB_def)
    moreover have "names_ok (fb_name (rt_world st1)) (push_back_FB (rt_next st) c)"
    proof -
      have "names_ok (fb_name (rt_world st1)) c"
        using names_ok_cong [of c "fb_name (rt_world st1)" "fb_name (rt_world st)"] nm assms(3) by blast
      then show ?thesis
        using none new nm' assms(2)
        by (auto simp: push_back_FB_def names_ok.simps [of _ c] names_ok.simps [of _ "CFBContainer (mContainerName c) _ _"])
    qed
    moreover have "mset (all_fbs (push_back_FB (rt_next st) c)) = add_mset (rt_next st) (mset (all_fbs c))"
      by (simp add: push_back_FB_def all_fbs.simps [of c] all_fbs.simps [of "CFBContainer (mContainerName c) _ _"])
    ultimately show ?thesis
      using res made True assms(2) by (simp add: create_effect_def push_back_FB_def getFB_None)
  qed
qed

end

text \<open>Replacing a sub-container, seen through the map.\<close>

lemma fb_at_replaced:
  assumes "getFBContainer n c = Some k" and "mContainerName d = n"
    and "\<And>i. i \<in> set (all_fbs c) \<Longrightarrow> nm1 i = nm i"
    and "\<And>p. fb_at nm1 d p = (if p = ns then v else fb_at nm (mSubContainers c ! k) p)" and "ns \<noteq> []"
  shows "fb_at nm1 (set_sub k d c) p = (if p = n # ns then v else fb_at nm c p)"
proof -
  have same: "fb_at nm1 c p = fb_at nm c p" by (rule fb_at_cong) (rule assms(3))
  show ?thesis
    using same assms(4,5) getFBContainer_SomeD(4) [OF assms(1)]
    by (auto simp: fb_at_set_sub [OF assms(1,2)] split: list.split)
qed

lemma mset_set_sub:
  assumes "k < length (mSubContainers c)" and "mset (all_fbs d) = M + mset (all_fbs (mSubContainers c ! k))"
  shows "mset (all_fbs (set_sub k d c)) = M + mset (all_fbs c)"
proof -
  have "mset (all_fbs (set_sub k d c)) + mset (all_fbs (mSubContainers c ! k)) =
      (M + mset (all_fbs c)) + mset (all_fbs (mSubContainers c ! k))"
    using all_fbs_set_sub [OF assms(1), of d] assms(2) by (simp add: ac_simps)
  then show ?thesis by simp
qed

context state_changer
begin

lemma createFB_step:
  "createFB chg lib (name_begin (n # m # ns) x) t c st =
     (case findOrCreateContainer (rt_world st) n c of
        (None, c1) \<Rightarrow> Some (e_INVALID_STATE, c1, st)
      | (Some k, c1) \<Rightarrow>
          Option.bind (createFB chg lib (name_begin (m # ns) x) t (mSubContainers c1 ! k) st)
            (\<lambda>(r, d, st1). Some (r, set_sub k d c1, st1)))"
  by (simp add: createFB.simps [of _ _ "name_begin (n # m # ns) x"] split: prod.split option.split)

lemma create_effect_sub:
  assumes "findOrCreateContainer (rt_world st) n c = (Some k, c2)" and "n \<noteq> ''''"
    and "names_ok (fb_name (rt_world st)) c" and "\<forall>i \<in> set (all_fbs c). i < rt_next st"
    and "create_effect (m # ns) (mSubContainers c2 ! k) st r d st1"
  shows "create_effect (n # m # ns) c st r (set_sub k d c2) st1"
proof -
  note foc = findOrCreate_found [OF assms(1-3)]
  note sub = getFBContainer_SomeD [OF foc(1)]
  note eff = assms(5) [unfolded create_effect_def]
  have name: "mContainerName d = n" using eff sub by simp
  have nm: "fb_name (rt_world st1) i = fb_name (rt_world st) i" if "i \<in> set (all_fbs c2)" for i
    using eff assms(4) that foc(3) by (auto simp: created_def split: if_splits)
  have "names_ok (fb_name (rt_world st1)) c2"
    using names_ok_cong [of c2 "fb_name (rt_world st1)" "fb_name (rt_world st)"] nm foc(2) by blast
  then have ok: "names_ok (fb_name (rt_world st1)) (set_sub k d c2)"
    using eff by (intro names_ok_set_sub [OF _ foc(1) name]) auto
  have sub_at: "fb_at (fb_name (rt_world st)) c (n # m # ns) = fb_at (fb_name (rt_world st)) (mSubContainers c2 ! k) (m # ns)"
    unfolding foc(5) [symmetric] using sub(4) by simp
  show ?thesis
  proof (cases "r = e_RDY")
    case True
    then have "fb_at (fb_name (rt_world st1)) (set_sub k d c2) p =
        (if p = n # m # ns then Some (rt_next st) else fb_at (fb_name (rt_world st)) c2 p)" for p
      using eff by (intro fb_at_replaced [OF foc(1) name nm]) auto
    moreover have "mset (all_fbs (set_sub k d c2)) = {#rt_next st#} + mset (all_fbs c2)"
      using True eff by (intro mset_set_sub [OF sub(1)]) simp
    ultimately show ?thesis
      using True eff ok sub_at foc by (simp add: create_effect_def)
  next
    case False
    then have "fb_at (fb_name (rt_world st)) (set_sub k d c2) p =
        (if p = n # m # ns then fb_at (fb_name (rt_world st)) (mSubContainers c2 ! k) (m # ns)
         else fb_at (fb_name (rt_world st)) c2 p)" for p
      using eff by (intro fb_at_replaced [OF foc(1) name refl]) auto
    moreover have "mset (all_fbs (set_sub k d c2)) = {#} + mset (all_fbs c2)"
      using False eff by (intro mset_set_sub [OF sub(1)]) simp
    ultimately show ?thesis
      using False eff ok sub_at foc by (auto simp: create_effect_def)
  qed
qed

lemma create_at_path:
  assumes "createFB chg lib (name_begin ns x) t c st = Some (r, c1, st1)"
    and "ns \<noteq> []" and "'''' \<notin> set ns" and "names_ok (fb_name (rt_world st)) c"
    and "\<forall>i \<in> set (all_fbs c). i < rt_next st" and "lib_ok lib" and "runtime_ok st"
  shows "create_effect ns c st r c1 st1"
  using assms(1-5)
proof (induction ns arbitrary: c c1)
  case (Cons n ns)
  show ?case
  proof (cases ns)
    case Nil
    then show ?thesis using Cons.prems create_here [OF _ _ _ _ assms(6,7)] by auto
  next
    case (Cons m ms)
    obtain fk c2 where foc: "findOrCreateContainer (rt_world st) n c = (fk, c2)" by fastforce
    show ?thesis
    proof (cases fk)
      case None
      then show ?thesis
        using Cons.prems(1,4) foc findOrCreate_blocked [of "rt_world st" n c c2]
        by (auto simp: createFB_step \<open>ns = m # ms\<close> create_effect_def)
    next
      case (Some k)
      then obtain d where rec: "createFB chg lib (name_begin ns x) t (mSubContainers c2 ! k) st = Some (r, d, st1)"
        and c1: "c1 = set_sub k d c2"
        using Cons.prems(1) foc \<open>ns = m # ms\<close> by (auto simp: createFB_step bind_eq_Some_conv)
      have n: "n \<noteq> ''''" using Cons.prems(3) by auto
      note found = findOrCreate_found [OF foc [unfolded Some] n Cons.prems(4)]
      note k = getFBContainer_SomeD(1) [OF found(1)]
      have "create_effect ns (mSubContainers c2 ! k) st r d st1"
        using Cons.prems(3,5) \<open>ns = m # ms\<close> names_ok_subD [OF found(2) nth_mem [OF k]] sub_all_fbs [OF k] found(3)
        by (intro Cons.IH [OF rec]) auto
      then show ?thesis
        unfolding c1 \<open>ns = m # ms\<close>
        using create_effect_sub [OF foc [unfolded Some] n Cons.prems(4,5)] by blast
    qed
  qed
qed simp

end

section \<open>Deleting a block\<close>

definition delete_effect ::
  "TStringId list \<Rightarrow> fbcontainer \<Rightarrow> 'c world \<Rightarrow> EMGMResponse \<Rightarrow> fbcontainer \<Rightarrow> 'c world \<Rightarrow> bool" where
  "delete_effect ns c w r c1 w1 \<longleftrightarrow>
     mContainerName c1 = mContainerName c \<and> names_ok (fb_name w) c1 \<and>
     (case fb_at (fb_name w) c ns of
        Some i \<Rightarrow>
          if deletable w i
          then r = e_RDY \<and> w1 = typelib_deleteFB i w \<and>
               (\<forall>p. fb_at (fb_name w) c1 p = (if p = ns then None else fb_at (fb_name w) c p)) \<and>
               mset (all_fbs c) = add_mset i (mset (all_fbs c1))
          else r = e_INVALID_STATE \<and> w1 = w \<and> c1 = c
      | None \<Rightarrow>
          r = e_NO_SUCH_OBJECT \<and> w1 = w \<and> (\<forall>p. fb_at (fb_name w) c1 p = fb_at (fb_name w) c p) \<and>
          mset (all_fbs c1) = mset (all_fbs c))"

lemma find_remove1_named:
  assumes "distinct (map f xs)" and "find (\<lambda>x. f x = v) xs = Some i"
  shows "find (\<lambda>x. f x = u) (remove1 i xs) = (if u = v then None else find (\<lambda>x. f x = u) xs)"
  using assms
proof (induction xs)
  case (Cons x xs)
  show ?case
  proof (cases "f x = v")
    case True
    then have "find (\<lambda>x. f x = v) xs = None"
      using Cons.prems(1) by (simp add: find_None_iff) (metis image_eqI)
    then show ?thesis using True Cons.prems(2) by auto
  next
    case False
    then have "i \<noteq> x" using Cons.prems(2) by (auto simp: find_Some_iff)
    then show ?thesis using False Cons by auto
  qed
qed simp

lemma names_ok_shrink:
  assumes "names_ok nm (CFBContainer n fs ds)" and "distinct (map nm gs)" and "set gs \<subseteq> set fs"
  shows "names_ok nm (CFBContainer n gs ds)"
proof -
  have "nm ` set gs \<subseteq> nm ` set fs" using assms(3) by blast
  moreover have "None \<notin> nm ` set fs" "Some '''' \<notin> nm ` set fs"
    "nm ` set fs \<inter> (\<lambda>d. Some (mContainerName d)) ` set ds = {}"
    using assms(1) by (simp_all add: names_ok.simps [of nm "CFBContainer n fs ds"])
  ultimately have "None \<notin> nm ` set gs" "Some '''' \<notin> nm ` set gs"
    "nm ` set gs \<inter> (\<lambda>d. Some (mContainerName d)) ` set ds = {}"
    by (meson subsetD disjoint_iff)+
  then show ?thesis
    using assms(1,2) by (simp add: names_ok.simps [of nm "CFBContainer n fs ds"] names_ok.simps [of nm "CFBContainer n gs ds"])
qed

lemma delete_here:
  assumes "deleteFB (name_begin [n] x) c w = Some (r, c1, w1)" and "n \<noteq> ''''" and "names_ok (fb_name w) c"
  shows "delete_effect [n] c w r c1 w1"
proof (cases "find (\<lambda>i. fb_name w i = Some n) (mFunctionBlocks c)")
  case None
  then show ?thesis
    using assms by (auto simp: deleteFB.simps [of "name_begin [n] x"] delete_effect_def scm_nInvalidStringId_def split: if_splits)
next
  case (Some i)
  then have i: "i \<in> set (mFunctionBlocks c)" by (auto simp: find_Some_iff)
  define c2 where "c2 = CFBContainer (mContainerName c) (remove1 i (mFunctionBlocks c)) (mSubContainers c)"
  have res: "(r, c1, w1) = (if deletable w i then (e_RDY, c2, typelib_deleteFB i w) else (e_INVALID_STATE, c, w))"
    using assms(1,2) Some i
    by (auto simp: deleteFB.simps [of "name_begin [n] x"] scm_nInvalidStringId_def c2_def split: if_splits)
  have dist: "distinct (map (fb_name w) (mFunctionBlocks c))"
    using assms(3) by (simp add: names_ok.simps [of _ c])
  have at: "fb_at (fb_name w) c2 p = (if p = [n] then None else fb_at (fb_name w) c p)" for p
    by (cases "(fb_name w, c, p)" rule: fb_at.cases)
       (auto simp: c2_def find_remove1_named [OF dist Some])
  have "mset (all_fbs c) = add_mset i (mset (all_fbs c2))"
    using i by (simp add: all_fbs.simps [of c] all_fbs.simps [of "CFBContainer (mContainerName c) _ _"] c2_def)
  moreover have "names_ok (fb_name w) c2"
  proof -
    have "distinct (map (fb_name w) (remove1 i (mFunctionBlocks c)))"
      using dist by (auto simp: distinct_map distinct_remove1 intro: inj_on_subset)
    then show ?thesis
      unfolding c2_def using names_ok_shrink [of _ _ "mFunctionBlocks c"] assms(3) set_remove1_subset
      by (metis fbcontainer.collapse)
  qed
  moreover have "mContainerName c2 = mContainerName c" by (simp add: c2_def)
  ultimately show ?thesis
    using res assms(3) Some at at [of "[n]"] by (auto simp: delete_effect_def split: if_splits)
qed

lemma deleteFB_step:
  "deleteFB (name_begin (n # m # ns) x) c w =
     (case findOrCreateContainer w n c of
        (None, c1) \<Rightarrow> Some (e_NO_SUCH_OBJECT, c1, w)
      | (Some k, c1) \<Rightarrow>
          Option.bind (deleteFB (name_begin (m # ns) x) (mSubContainers c1 ! k) w)
            (\<lambda>(r, d, w1). Some (r, set_sub k d c1, w1)))"
  by (simp add: deleteFB.simps [of "name_begin (n # m # ns) x"] split: prod.split option.split)

lemma delete_effect_sub:
  assumes "findOrCreateContainer w n c = (Some k, c2)" and "n \<noteq> ''''" and "names_ok (fb_name w) c"
    and "delete_effect (m # ns) (mSubContainers c2 ! k) w r d w1"
  shows "delete_effect (n # m # ns) c w r (set_sub k d c2) w1"
proof -
  note foc = findOrCreate_found [OF assms(1-3)]
  note sub = getFBContainer_SomeD [OF foc(1)]
  note eff = assms(4) [unfolded delete_effect_def]
  have name: "mContainerName d = n" using eff sub by simp
  have ok: "names_ok (fb_name w) (set_sub k d c2)"
    using eff by (intro names_ok_set_sub [OF foc(2) foc(1) name]) auto
  have sub_at: "fb_at (fb_name w) c (n # m # ns) = fb_at (fb_name w) (mSubContainers c2 ! k) (m # ns)"
    unfolding foc(5) [symmetric] using sub(4) by simp
  note replaced = fb_at_replaced [OF foc(1) name refl, where ns = "m # ns"]
  show ?thesis
  proof (cases "fb_at (fb_name w) (mSubContainers c2 ! k) (m # ns)")
    case None
    then have "fb_at (fb_name w) (set_sub k d c2) p =
        (if p = n # m # ns then None else fb_at (fb_name w) c2 p)" for p
      using eff by (intro replaced) auto
    moreover have "mset (all_fbs (set_sub k d c2)) = {#} + mset (all_fbs c2)"
      using None eff by (intro mset_set_sub [OF sub(1)]) simp
    ultimately show ?thesis
      using None eff ok sub_at foc by (auto simp: delete_effect_def)
  next
    case (Some i)
    show ?thesis
    proof (cases "deletable w i")
      case True
      then have "fb_at (fb_name w) (set_sub k d c2) p =
          (if p = n # m # ns then None else fb_at (fb_name w) c2 p)" for p
        using eff Some by (intro replaced) auto
      moreover have "mset (all_fbs c2) = add_mset i (mset (all_fbs (set_sub k d c2)))"
        using all_fbs_set_sub [OF sub(1), of d] eff Some True by simp
      ultimately show ?thesis
        using True Some eff ok sub_at foc by (simp add: delete_effect_def)
    next
      case False
      have "c2 = c"
        using assms(1) sub_at Some
        by (auto simp: findOrCreateContainer_def getFBContainer_find assms(2) split: option.splits if_splits)
      moreover have "d = mSubContainers c2 ! k" using eff Some False by simp
      then have "set_sub k d c2 = c2" by (cases c2) (simp add: set_sub_def)
      ultimately show ?thesis
        using False Some eff ok sub_at foc by (simp add: delete_effect_def)
    qed
  qed
qed

lemma delete_at_path:
  assumes "deleteFB (name_begin ns x) c w = Some (r, c1, w1)"
    and "ns \<noteq> []" and "'''' \<notin> set ns" and "names_ok (fb_name w) c"
  shows "delete_effect ns c w r c1 w1"
  using assms
proof (induction ns arbitrary: c c1)
  case (Cons n ns)
  show ?case
  proof (cases ns)
    case Nil
    have n: "n \<noteq> ''''" using Cons.prems(3) by auto
    show ?thesis
      using delete_here [OF Cons.prems(1) [unfolded Nil] n Cons.prems(4)] Nil by simp
  next
    case (Cons m ms)
    obtain fk c2 where foc: "findOrCreateContainer w n c = (fk, c2)" by fastforce
    have n: "n \<noteq> ''''" using Cons.prems(3) by auto
    show ?thesis
    proof (cases fk)
      case None
      have "find (\<lambda>d. mContainerName d = n) (mSubContainers c) = None"
        using foc None n by (auto simp: findOrCreateContainer_def getFBContainer_find split: option.splits if_splits)
      then show ?thesis
        using Cons.prems(1,4) foc None findOrCreate_blocked [of w n c c2]
        by (auto simp: deleteFB_step \<open>ns = m # ms\<close> delete_effect_def)
    next
      case (Some k)
      then obtain d where rec: "deleteFB (name_begin ns x) (mSubContainers c2 ! k) w = Some (r, d, w1)"
        and c1: "c1 = set_sub k d c2"
        using Cons.prems(1) foc \<open>ns = m # ms\<close> by (auto simp: deleteFB_step bind_eq_Some_conv)
      note found = findOrCreate_found [OF foc [unfolded Some] n Cons.prems(4)]
      note k = getFBContainer_SomeD(1) [OF found(1)]
      have "delete_effect ns (mSubContainers c2 ! k) w r d w1"
        using Cons.prems(3) \<open>ns = m # ms\<close> names_ok_subD [OF found(2) nth_mem [OF k]]
        by (intro Cons.IH [OF rec]) auto
      then show ?thesis
        unfolding c1 \<open>ns = m # ms\<close>
        using delete_effect_sub [OF foc [unfolded Some] n Cons.prems(4)] by blast
    qed
  qed
qed simp

lemma deleteFB_returns:
  "ns \<noteq> [] \<Longrightarrow> \<exists>r c1 w1. deleteFB (name_begin ns x) c w = Some (r, c1, w1)"
proof (induction ns arbitrary: c)
  case (Cons n ns)
  show ?case
  proof (cases ns)
    case Nil
    then show ?thesis
      by (auto simp: deleteFB.simps [of "name_begin [n] x"] split: option.split)
  next
    case (Cons m ms)
    obtain fk c2 where "findOrCreateContainer w n c = (fk, c2)" by fastforce
    then show ?thesis
      using Cons.IH \<open>ns = m # ms\<close>
      by (cases fk) (fastforce simp: deleteFB_step bind_eq_Some_conv)+
  qed
qed simp

lemma fold_None: "fold (\<lambda>a f. case a of None \<Rightarrow> f | Some j \<Rightarrow> f(j := None)) as f j =
    (if Some j \<in> set as then None else f j)"
  by (induction as arbitrary: f) (auto split: option.split)

lemma typelib_deleteFB_fbs:
  "w_fbs (typelib_deleteFB i w) j =
    (if j = i \<or> (\<exists>b. w_fbs w i = Some b \<and> Some j \<in> set (m_apoAdapters b)) then None else w_fbs w j)"
  by (auto simp: typelib_deleteFB_def fold_None split: option.split)

lemma delete_tree_ok:
  assumes "tree_ok w c" and "i \<in> set (all_fbs c)" and "mset (all_fbs c) = add_mset i (mset (all_fbs c1))"
    and "names_ok (fb_name w) c1"
  shows "tree_ok (typelib_deleteFB i w) c1"
    and "fb_at (fb_name (typelib_deleteFB i w)) c1 p = fb_at (fb_name w) c1 p"
proof -
  have dist: "distinct (all_fbs c1)" "i \<notin> set (all_fbs c1)"
    using assms(1,3) mset_eq_imp_distinct_iff [of "all_fbs c" "i # all_fbs c1"] by (auto simp: tree_ok_def)
  have sub: "set (all_fbs c1) \<subseteq> set (all_fbs c)"
    using mset_eq_setD [of "all_fbs c" "i # all_fbs c1"] assms(3) by auto
  have kept: "fb_name (typelib_deleteFB i w) j = fb_name w j" if "j \<in> set (all_fbs c1)" for j
    using assms(1) that dist(2) sub by (auto simp: fb_name_def typelib_deleteFB_fbs tree_ok_def)
  then show "fb_at (fb_name (typelib_deleteFB i w)) c1 p = fb_at (fb_name w) c1 p"
    by (rule fb_at_cong)
  show "tree_ok (typelib_deleteFB i w) c1"
    unfolding tree_ok_def
  proof (intro conjI allI impI)
    show "names_ok (fb_name (typelib_deleteFB i w)) c1"
      using names_ok_cong [of c1 "fb_name (typelib_deleteFB i w)" "fb_name w"] kept assms(4) by blast
    fix k j b
    assume "w_fbs (typelib_deleteFB i w) k = Some b \<and> Some j \<in> set (m_apoAdapters b)"
    then have "w_fbs w k = Some b \<and> Some j \<in> set (m_apoAdapters b)"
      by (auto simp: typelib_deleteFB_fbs split: if_splits)
    then have "j \<notin> set (all_fbs c)" using assms(1) unfolding tree_ok_def by blast
    then show "j \<notin> set (all_fbs c1)" using sub by blast
  qed (rule dist)
qed

text \<open>
  C8. Deleting a block refines the removal of one path from the map of the resource: the block at
  the path is removed if it is in a state that allows it, all other paths keep their blocks, the
  answer says which of the three cases it was, and the tree stays well formed.
\<close>

theorem deleteFB_refines_map:
  assumes "tree_ok w c" and "ns \<noteq> []" and "'''' \<notin> set ns"
  shows "\<exists>r c1 w1. deleteFB (name_begin ns x) c w = Some (r, c1, w1) \<and> tree_ok w1 c1 \<and>
    (r, fb_at (fb_name w1) c1, w1) =
      (case fb_at (fb_name w) c ns of
         None \<Rightarrow> (e_NO_SUCH_OBJECT, fb_at (fb_name w) c, w)
       | Some i \<Rightarrow>
           if deletable w i then (e_RDY, (fb_at (fb_name w) c)(ns := None), typelib_deleteFB i w)
           else (e_INVALID_STATE, fb_at (fb_name w) c, w))"
proof -
  obtain r c1 w1 where del: "deleteFB (name_begin ns x) c w = Some (r, c1, w1)"
    using deleteFB_returns assms(2) by blast
  have ok: "names_ok (fb_name w) c" using assms(1) by (simp add: tree_ok_def)
  note eff = delete_at_path [OF del assms(2,3) ok, unfolded delete_effect_def]
  show ?thesis
  proof (cases "fb_at (fb_name w) c ns")
    case None
    have "distinct (all_fbs c1)" "set (all_fbs c1) = set (all_fbs c)"
      using eff None assms(1) mset_eq_imp_distinct_iff [of "all_fbs c1" "all_fbs c"] mset_eq_setD [of "all_fbs c1"]
      by (auto simp: tree_ok_def)
    then have "tree_ok w c1" using eff assms(1) by (simp add: tree_ok_def)
    then show ?thesis using del eff None by auto
  next
    case (Some i)
    note i = fb_at_mem [OF Some]
    show ?thesis
    proof (cases "deletable w i")
      case True
      then have step: "mset (all_fbs c) = add_mset i (mset (all_fbs c1))" "names_ok (fb_name w) c1"
        "\<forall>p. fb_at (fb_name w) c1 p = (if p = ns then None else fb_at (fb_name w) c p)"
        "r = e_RDY" "w1 = typelib_deleteFB i w"
        using eff Some by simp_all
      note after = delete_tree_ok [OF assms(1) i step(1,2)]
      have "fb_at (fb_name w1) c1 = (fb_at (fb_name w) c)(ns := None)"
        unfolding step(5) using after(2) step(3) by (intro ext) simp
      then show ?thesis using del after(1) step Some True by simp
    next
      case False
      then show ?thesis using del eff Some assms(1) by simp
    qed
  qed
qed

section \<open>Names that do not exist\<close>

lemma create_empty_name:
  "createFB chg lib it t c st = Some r \<Longrightarrow>
    \<not> (it = name_begin [] x \<and> getFB (rt_world st) x c = None \<and> getFBContainer x c = None)"
proof (induction rule: createFB.raw_induct [rotated, consumes 1, case_names body])
  case (body createFB chg lib it t c st r)
  show ?case
  proof
    assume a: "it = name_begin [] x \<and> getFB (rt_world st) x c = None \<and> getFBContainer x c = None"
    have "getFB (rt_world st) x (CFBContainer x [] []) = None" "getFBContainer x (CFBContainer x [] []) = None"
      by (simp_all add: getFB_def getFBContainer_def)
    then have "createFB chg lib (name_begin [] x) t (CFBContainer x [] []) st \<noteq> Some q" for q
      using body(1) by blast
    then show False
      using body(2) a by (auto simp: findOrCreateContainer_def bind_eq_Some_conv)
  qed
qed

lemma delete_empty_name:
  "deleteFB it c w = Some r \<Longrightarrow>
    \<not> (it = name_begin [] x \<and> getFB w x c = None \<and> getFBContainer x c = None)"
proof (induction rule: deleteFB.raw_induct [rotated, consumes 1, case_names body])
  case (body deleteFB it c w r)
  show ?case
  proof
    assume a: "it = name_begin [] x \<and> getFB w x c = None \<and> getFBContainer x c = None"
    have "getFB w x (CFBContainer x [] []) = None" "getFBContainer x (CFBContainer x [] []) = None"
      by (simp_all add: getFB_def getFBContainer_def)
    then have "deleteFB (name_begin [] x) (CFBContainer x [] []) w \<noteq> Some q" for q
      using body(1) by blast
    then show False
      using body(2) a by (auto simp: findOrCreateContainer_def bind_eq_Some_conv)
  qed
qed

text \<open>
  A command to create or delete a block with the name \<open>*\<close> has an empty name list. If the resource
  has nothing under the name left in the storage of the list, neither call ever returns: each level
  creates a container and passes the same empty list on to it.
\<close>

theorem star_name_never_returns:
  assumes "getFB (rt_world st) x c = None" and "getFBContainer x c = None"
  shows "createFB chg lib (name_begin [] x) t c st = None \<and> deleteFB (name_begin [] x) c (rt_world st) = None"
  using create_empty_name [of chg lib "name_begin [] x" t c st] delete_empty_name [of "name_begin [] x" c "rt_world st"] assms
  by (metis option.exhaust)

text \<open>
  Deleting a block that does not exist leaves a container behind for the first name of its path,
  and no block with that name can be created afterwards, although nothing had it before.
\<close>

theorem failed_delete_blocks_name:
  assumes "getFB (rt_world st) n c = None" and "getFBContainer n c = None" and "n \<noteq> ''''"
  shows "\<exists>c1. deleteFB (name_begin [n, m] x) c (rt_world st) = Some (e_NO_SUCH_OBJECT, c1, rt_world st) \<and>
    createFB chg lib (name_begin [n] y) t c1 st = Some (e_INVALID_STATE, c1, st)"
proof -
  define c1 where "c1 = CFBContainer (mContainerName c) (mFunctionBlocks c) (mSubContainers c @ [CFBContainer n [] []])"
  have foc: "findOrCreateContainer (rt_world st) n c = (Some (length (mSubContainers c)), c1)"
    using assms by (simp add: findOrCreateContainer_def c1_def)
  have "deleteFB (name_begin [m] x) (CFBContainer n [] []) (rt_world st) =
      Some (e_NO_SUCH_OBJECT, CFBContainer n [] [], rt_world st)"
    by (simp add: deleteFB.simps [of "name_begin [m] x"])
  then have del: "deleteFB (name_begin [n, m] x) c (rt_world st) = Some (e_NO_SUCH_OBJECT, c1, rt_world st)"
    using foc by (simp add: deleteFB_step [of n m "[]"] c1_def set_sub_def)
  have "getFBContainer n c1 \<noteq> None"
    using assms(3) by (auto simp: getFBContainer_find find_None_iff c1_def intro: exI [of _ "CFBContainer n [] []"])
  then have "createFB chg lib (name_begin [n] y) t c1 st = Some (e_INVALID_STATE, c1, st)"
    by (auto simp: createFB.simps [of _ _ "name_begin [n] y"])
  with del show ?thesis by blast
qed

section \<open>The answers of creation\<close>

fun container_at :: "fbcontainer \<Rightarrow> TStringId list \<Rightarrow> bool" where
  "container_at c [] = True"
| "container_at c (n # ns) =
     (case find (\<lambda>d. mContainerName d = n) (mSubContainers c) of None \<Rightarrow> False | Some d \<Rightarrow> container_at d ns)"

text \<open>No block can be created at a path that a block or a container has, or below a block.\<close>

definition taken :: "(nat \<Rightarrow> TStringId option) \<Rightarrow> fbcontainer \<Rightarrow> TStringId list \<Rightarrow> bool" where
  "taken nm c ns \<longleftrightarrow> (\<exists>j. fb_at nm c (take j ns) \<noteq> None) \<or> container_at c ns"

lemma take_one: "(\<exists>j. P (take j [n])) \<longleftrightarrow> P [] \<or> P [n]"
proof
  show "P [] \<or> P [n]" if "\<exists>j. P (take j [n])"
    using that by (auto simp: take_Cons' split: if_splits)
  show "\<exists>j. P (take j [n])" if "P [] \<or> P [n]"
    using that exI [of "\<lambda>j. P (take j [n])" 0] exI [of "\<lambda>j. P (take j [n])" 1] by auto
qed

lemma taken_one:
  "n \<noteq> '''' \<Longrightarrow> taken (fb_name w) c [n] \<longleftrightarrow> getFB w n c \<noteq> None \<or> getFBContainer n c \<noteq> None"
  unfolding taken_def take_one [of "\<lambda>q. fb_at (fb_name w) c q \<noteq> None"]
  by (simp add: getFB_None getFBContainer_find split: option.split)

lemma taken_empty [simp]: "\<not> taken nm (CFBContainer n [] []) (m # ns)"
  by (simp add: taken_def)

lemma taken_sub:
  assumes "names_ok nm c" and "find (\<lambda>d. mContainerName d = n) (mSubContainers c) = Some d"
  shows "taken nm c (n # m # ns) \<longleftrightarrow> taken nm d (m # ns)"
proof -
  have d: "d \<in> set (mSubContainers c)" "mContainerName d = n"
    using assms(2) by (auto simp: find_Some_iff)
  then have "nm i \<noteq> Some n" if "i \<in> set (mFunctionBlocks c)" for i
    using assms(1) that by (auto simp: names_ok.simps [of nm c])
  then have none: "fb_at nm c [n] = None" by (auto simp: find_None_iff)
  have "fb_at nm c (take (Suc j) (n # m # ns)) = fb_at nm d (take j (m # ns))" for j
    using none assms(2) by (cases j) auto
  moreover have "fb_at nm c (take 0 (n # m # ns)) = None" by simp
  ultimately have "(\<exists>j. fb_at nm c (take j (n # m # ns)) \<noteq> None) \<longleftrightarrow> (\<exists>j. fb_at nm d (take j (m # ns)) \<noteq> None)"
    by (metis not0_implies_Suc)
  then show ?thesis
    using assms(2) by (simp add: taken_def)
qed

lemma taken_missing:
  assumes "find (\<lambda>d. mContainerName d = n) (mSubContainers c) = None"
  shows "taken nm c (n # m # ns) \<longleftrightarrow> fb_at nm c [n] \<noteq> None"
proof -
  have "fb_at nm c (take (Suc j) (n # m # ns)) = (if j = 0 then fb_at nm c [n] else None)" for j
    using assms by (cases j) auto
  moreover have "fb_at nm c (take 0 (n # m # ns)) = None" by simp
  ultimately have "(\<exists>j. fb_at nm c (take j (n # m # ns)) \<noteq> None) \<longleftrightarrow> fb_at nm c [n] \<noteq> None"
    by (metis not0_implies_Suc)
  then show ?thesis
    using assms by (simp add: taken_def)
qed

lemma taken_found:
  assumes "findOrCreateContainer w n c = (fk, c2)" and "n \<noteq> ''''" and "names_ok (fb_name w) c"
  shows "taken (fb_name w) c (n # m # ns) =
    (case fk of None \<Rightarrow> True | Some k \<Rightarrow> taken (fb_name w) (mSubContainers c2 ! k) (m # ns))"
proof (cases "getFBContainer n c")
  case None
  then have "find (\<lambda>d. mContainerName d = n) (mSubContainers c) = None"
    using assms(2) by (simp add: getFBContainer_find)
  then show ?thesis
    using assms(1,2) None taken_missing [of n c "fb_name w" m ns]
    by (auto simp: findOrCreateContainer_def getFB_None split: if_splits)
next
  case (Some k)
  then have "fk = Some k" "c2 = c"
    using assms(1) by (simp_all add: findOrCreateContainer_def)
  then show ?thesis
    using taken_sub [OF assms(3) getFBContainer_SomeD(4) [OF Some]] by simp
qed

context state_changer
begin

definition create_answer :: "'c fb_library \<Rightarrow> TStringId list \<Rightarrow> TStringId \<Rightarrow> 'c world \<Rightarrow> fbcontainer \<Rightarrow> EMGMResponse" where
  "create_answer lib ns t w c =
     (if taken (fb_name w) c ns then e_INVALID_STATE
      else case new_instance lib (last ns) t of Inl e \<Rightarrow> e | Inr b \<Rightarrow> e_RDY)"

lemma create_answers:
  assumes "createFB chg lib (name_begin ns x) t c st = Some (r, c1, st1)"
    and "ns \<noteq> []" and "'''' \<notin> set ns" and "names_ok (fb_name (rt_world st)) c"
    and "lib_ok lib" and "runtime_ok st"
  shows "r = create_answer lib ns t (rt_world st) c"
  using assms(1-4)
proof (induction ns arbitrary: c c1)
  case (Cons n ns)
  have n: "n \<noteq> ''''" using Cons.prems(3) by auto
  show ?case
  proof (cases ns)
    case Nil
    show ?thesis
    proof (cases "taken (fb_name (rt_world st)) c [n]")
      case True
      then show ?thesis
        using Cons.prems(1) Nil n
        by (auto simp: createFB.simps [of _ _ "name_begin [n] x"] create_answer_def taken_one split: if_splits)
    next
      case False
      then obtain fb where "typelib_createFB chg lib n t st = Some (fb, st1)"
        and "r = (case fb of Some i \<Rightarrow> e_RDY | None \<Rightarrow> m_eLastErrorMSG st1)"
        using Cons.prems(1) Nil n
        by (auto simp: createFB.simps [of _ _ "name_begin [n] x"] taken_one split: option.splits)
      then show ?thesis
        using False Nil by (cases rule: typelib_createFB_cases [OF _ assms(5,6)]) (auto simp: create_answer_def)
    qed
  next
    case (Cons m ms)
    obtain fk c2 where foc: "findOrCreateContainer (rt_world st) n c = (fk, c2)" by fastforce
    note tf = taken_found [OF foc n Cons.prems(4), of m ms]
    show ?thesis
    proof (cases fk)
      case None
      then show ?thesis
        using Cons.prems(1) foc tf \<open>ns = m # ms\<close> by (auto simp: createFB_step create_answer_def)
    next
      case (Some k)
      then obtain d where rec: "createFB chg lib (name_begin ns x) t (mSubContainers c2 ! k) st = Some (r, d, st1)"
        using Cons.prems(1) foc \<open>ns = m # ms\<close> by (auto simp: createFB_step bind_eq_Some_conv)
      note found = findOrCreate_found [OF foc [unfolded Some] n Cons.prems(4)]
      note k = getFBContainer_SomeD(1) [OF found(1)]
      have "r = create_answer lib ns t (rt_world st) (mSubContainers c2 ! k)"
        using Cons.prems(3) \<open>ns = m # ms\<close> names_ok_subD [OF found(2) nth_mem [OF k]]
        by (intro Cons.IH [OF rec]) auto
      then show ?thesis
        using tf Some \<open>ns = m # ms\<close> by (simp add: create_answer_def)
    qed
  qed
qed simp

lemma createFB_returns:
  assumes "\<And>i w. chg cg_nMGM_CMD_Reset i w \<noteq> None"
  shows "ns \<noteq> [] \<Longrightarrow> \<exists>r c1 st1. createFB chg lib (name_begin ns x) t c st = Some (r, c1, st1)"
proof (induction ns arbitrary: c)
  case (Cons n ns)
  show ?case
  proof (cases ns)
    case Nil
    have "typelib_createFB chg lib n t st \<noteq> None"
      using assms by (auto simp: typelib_createFB_def Let_def split: sum.split)
    then show ?thesis
      using Nil by (auto simp: createFB.simps [of _ _ "name_begin [n] x"] split: option.split)
  next
    case (Cons m ms)
    obtain fk c2 where "findOrCreateContainer (rt_world st) n c = (fk, c2)" by fastforce
    then show ?thesis
      using Cons.IH \<open>ns = m # ms\<close>
      by (cases fk) (fastforce simp: createFB_step bind_eq_Some_conv)+
  qed
qed simp

end

section \<open>Creation keeps the tree well formed\<close>

lemma names_ok_named: "names_ok nm c \<Longrightarrow> i \<in> set (all_fbs c) \<Longrightarrow> nm i \<noteq> None"
proof (induction c rule: fbcontainer_induct)
  case (sub c)
  then show ?case
    unfolding set_all_fbs [of c] names_ok.simps [of nm c] by (metis UN_E UnE image_eqI)
qed

lemma create_tree_ok:
  assumes "tree_ok w c" and "names_ok (fb_name w1) c1"
    and "mset (all_fbs c1) = M + mset (all_fbs c)" and "\<forall>i b j. w_fbs w i = Some b \<longrightarrow> Some j \<in> set (m_apoAdapters b) \<longrightarrow> j < k"
    and "M = {#} \<and> w1 = w \<or> M = {#k#} \<and> k \<notin> set (all_fbs c) \<and>
      (\<forall>i b. w_fbs w1 i = Some b \<longrightarrow> set (m_apoAdapters b) \<subseteq> {None} \<or>
         (\<exists>b0. w_fbs w i = Some b0 \<and> m_apoAdapters b0 = m_apoAdapters b))"
  shows "tree_ok w1 c1"
proof -
  have set1: "set (all_fbs c1) = set_mset M \<union> set (all_fbs c)"
    using arg_cong [OF assms(3), of set_mset] by simp
  show ?thesis
    using assms(5)
  proof
    assume M: "M = {#} \<and> w1 = w"
    then have "distinct (all_fbs c1)"
      using assms(1,3) mset_eq_imp_distinct_iff [of "all_fbs c1" "all_fbs c"] by (simp add: tree_ok_def)
    then show ?thesis using assms(1,2) set1 M by (simp add: tree_ok_def)
  next
    assume M: "M = {#k#} \<and> k \<notin> set (all_fbs c) \<and>
      (\<forall>i b. w_fbs w1 i = Some b \<longrightarrow> set (m_apoAdapters b) \<subseteq> {None} \<or>
         (\<exists>b0. w_fbs w i = Some b0 \<and> m_apoAdapters b0 = m_apoAdapters b))"
    then have "distinct (all_fbs c1)"
      using assms(1,3) mset_eq_imp_distinct_iff [of "all_fbs c1" "k # all_fbs c"] by (simp add: tree_ok_def)
    moreover have "j \<notin> set (all_fbs c1)" if b: "w_fbs w1 i = Some b" "Some j \<in> set (m_apoAdapters b)" for i j b
    proof -
      obtain b0 where b0: "w_fbs w i = Some b0" "Some j \<in> set (m_apoAdapters b0)"
        using M b by (metis empty_iff insert_iff option.distinct(1) subsetD)
      then have "j < k" "j \<notin> set (all_fbs c)" using assms(1,4) unfolding tree_ok_def by blast+
      then show ?thesis using set1 M by simp
    qed
    ultimately show ?thesis using assms(2) unfolding tree_ok_def by blast
  qed
qed

lemma tree_below_next:
  assumes "tree_ok (rt_world st) c" and "runtime_ok st"
  shows "\<forall>i \<in> set (all_fbs c). i < rt_next st"
proof
  fix i
  assume "i \<in> set (all_fbs c)"
  then have "fb_name (rt_world st) i \<noteq> None"
    using names_ok_named [of "fb_name (rt_world st)" c i] assms(1) by (simp add: tree_ok_def)
  then show "i < rt_next st"
    using assms(2) unfolding runtime_ok_def fb_name_def by auto
qed

context state_changer
begin

lemma create_refines:
  assumes "createFB chg lib (name_begin ns x) t c st = Some (r, c1, st1)"
    and "tree_ok (rt_world st) c" and "runtime_ok st" and "lib_ok lib" and "ns \<noteq> []" and "'''' \<notin> set ns"
  shows "r = create_answer lib ns t (rt_world st) c" "tree_ok (rt_world st1) c1" "runtime_ok st1"
    "fb_at (fb_name (rt_world st1)) c1 =
      (if r = e_RDY then (fb_at (fb_name (rt_world st)) c)(ns \<mapsto> rt_next st) else fb_at (fb_name (rt_world st)) c)"
    "r \<noteq> e_RDY \<Longrightarrow> rt_world st1 = rt_world st \<and> rt_next st1 = rt_next st"
    "r = e_RDY \<Longrightarrow> fb_name (rt_world st1) = (fb_name (rt_world st))(rt_next st \<mapsto> last ns)"
proof -
  have ok: "names_ok (fb_name (rt_world st)) c" using assms(2) by (simp add: tree_ok_def)
  note below = tree_below_next [OF assms(2,3)]
  note eff = create_at_path [OF assms(1,5,6) ok below assms(4,3), unfolded create_effect_def]
  show "r = create_answer lib ns t (rt_world st) c"
    by (rule create_answers [OF assms(1,5,6) ok assms(4,3)])
  show "fb_at (fb_name (rt_world st1)) c1 =
      (if r = e_RDY then (fb_at (fb_name (rt_world st)) c)(ns \<mapsto> rt_next st) else fb_at (fb_name (rt_world st)) c)"
    using eff by (intro ext) (auto split: if_splits)
  show "r \<noteq> e_RDY \<Longrightarrow> rt_world st1 = rt_world st \<and> rt_next st1 = rt_next st"
    "r = e_RDY \<Longrightarrow> fb_name (rt_world st1) = (fb_name (rt_world st))(rt_next st \<mapsto> last ns)"
    using eff by (auto simp: created_def split: if_splits)
  have adapters: "\<forall>i b j. w_fbs (rt_world st) i = Some b \<longrightarrow> Some j \<in> set (m_apoAdapters b) \<longrightarrow> j < rt_next st"
    using assms(3) by (auto simp: runtime_ok_def)
  show "tree_ok (rt_world st1) c1"
  proof (rule create_tree_ok [OF assms(2) _ _ adapters])
    show "names_ok (fb_name (rt_world st1)) c1" using eff by simp
    show "mset (all_fbs c1) = (if r = e_RDY then {#rt_next st#} else {#}) + mset (all_fbs c)"
      using eff by (simp split: if_splits)
    show "(if r = e_RDY then {#rt_next st#} else {#}) = {#} \<and> rt_world st1 = rt_world st \<or>
      (if r = e_RDY then {#rt_next st#} else {#}) = {#rt_next st#} \<and> rt_next st \<notin> set (all_fbs c) \<and>
      (\<forall>i b. w_fbs (rt_world st1) i = Some b \<longrightarrow> set (m_apoAdapters b) \<subseteq> {None} \<or>
         (\<exists>b0. w_fbs (rt_world st) i = Some b0 \<and> m_apoAdapters b0 = m_apoAdapters b))"
      using eff below by (auto simp: created_def split: if_splits)
  qed
  show "runtime_ok st1"
    using eff assms(3) by (auto simp: created_def runtime_ok_def split: if_splits)
qed

end

section \<open>Commands for all blocks of a container\<close>

lemma until_error_append:
  "until_error f (xs @ ys) w =
    (case until_error f xs w of
       None \<Rightarrow> None
     | Some (r, w1) \<Rightarrow> if r = e_RDY then until_error f ys w1 else Some (r, w1))"
  by (induction xs arbitrary: w) (auto split: option.split)

lemma until_error_concat:
  "until_error (\<lambda>d. until_error f (g d)) ds w = until_error f (concat (map g ds)) w"
  by (induction ds arbitrary: w) (auto simp: until_error_append split: option.split)

text \<open>A command to all blocks of a container is a loop over the list of all blocks below it, the
  blocks of sub-containers first, which stops at the first block that refuses.\<close>

lemma contained_loop:
  "changeContainedFBsExecutionState chg cmd c w = until_error (chg cmd) (all_fbs c) w"
proof (induction c arbitrary: w rule: fbcontainer_induct)
  case (sub c)
  have "until_error (changeContainedFBsExecutionState chg cmd) (mSubContainers c) w =
      until_error (\<lambda>d. until_error (chg cmd) (all_fbs d)) (mSubContainers c) w"
    by (rule until_error_cong) (simp_all add: sub.IH)
  then show ?case
    by (simp add: changeContainedFBsExecutionState.simps [of chg cmd c] all_fbs.simps [of c]
        until_error_append until_error_concat)
qed

end
