(* ===== verification/Resource.thy ===== *)
theory Resource
  imports Container_Laws Connection_Laws
begin

text \<open>
  Management of a resource, \<^verbatim>\<open>src/src/core/resource.{h,cpp}\<close>, \<^verbatim>\<open>device.{h,cpp}\<close> and
  \<^verbatim>\<open>mgmcmdstruct.h\<close>: the commands that create, delete, connect, read, write, start and stop blocks,
  built with monitoring and without \<open>FORTE_DYNAMIC_TYPE_LOAD\<close>.

  The resource is one without an interface of its own, like \<open>EMB_RES\<close>, and its blocks have no adapters:
  a source name with one entry then finds no connection and a Start has no inputs to sample. The
  virtual \<open>changeFBExecutionState\<close>, \<open>fromString\<close> and \<open>toString\<close> are parameters, and so is the
  handler of the monitoring commands.
\<close>

section \<open>State\<close>

record SManagementCMD =
  mCMD :: EMGMCommandType
  mDestination :: TStringId
  mFirstParam :: "TStringId list"
  mSecondParam :: "TStringId list"
  mAdditionalParams :: "u8 list"
  mMonitorResponse :: "u8 list"

text \<open>The watches of a resource: a watched data point or event is known by its name, its block, whether it is an
  input, and its port. The monitoring commands on them are in \<open>Monitoring\<close>.\<close>

record SDataWatchEntry =
  dw_PortId :: TStringId
  mDataValue :: "nat \<times> bool \<times> nat"

record SEventWatchEntry =
  ew_PortId :: TStringId
  m_roEventData :: "nat \<times> bool \<times> nat"

record SFBMonitoringEntry =
  m_poFB :: nat
  m_lstWatchedDataPoints :: "SDataWatchEntry list"
  m_lstWatchedEventPoints :: "SEventWatchEntry list"

text \<open>The block that the resource itself is has the number \<open>res_fb\<close>. \<open>mTriggerEvent\<close> is the event that was
  triggered last.\<close>

record 'c resource =
  res_rt :: "'c runtime"
  res_cont :: fbcontainer
  res_fb :: nat
  mFBMonitoringList :: "SFBMonitoringEntry list"
  mTriggerEvent :: "conn_point option"

type_synonym 'c changer = "EMGMCommandType \<Rightarrow> nat \<Rightarrow> 'c world \<Rightarrow> (EMGMResponse \<times> 'c world) option"

abbreviation res_world :: "'c resource \<Rightarrow> 'c world" where
  "res_world R \<equiv> rt_world (res_rt R)"

definition set_world :: "'c world \<Rightarrow> 'c resource \<Rightarrow> 'c resource" where
  "set_world w R = R\<lparr>res_rt := (res_rt R)\<lparr>rt_world := w\<rparr>\<rparr>"

section \<open>Finding things\<close>

text \<open>
  The block for a list of names, if the whole list was used. Taking the last name off a list leaves it
  in the storage, where the iterator of a list that has become empty finds it.
\<close>

definition contained_block :: "TStringId list \<Rightarrow> TStringId \<Rightarrow> 'c resource \<Rightarrow> nat option" where
  "contained_block ns x R =
     (let r = getContainedFB (res_world R) (name_begin ns x) (res_cont R)
      in if isLastEntry (snd r) then fst r else None)"

text \<open>The data point with a name: whether it is an input, and its port.\<close>

definition find_var :: "TStringId \<Rightarrow> 'c fb \<Rightarrow> (bool \<times> nat) option" where
  "find_var n b =
     (let p = getPortId n (m_aunDINames (fb_spec b)); q = getPortId n (m_aunDONames (fb_spec b))
      in if p \<noteq> cg_unInvalidPortId then Some (True, p)
         else if q \<noteq> cg_unInvalidPortId then Some (False, q) else None)"

definition var_value :: "bool \<times> nat \<Rightarrow> 'c fb \<Rightarrow> iec_any" where
  "var_value v b = dp_val ((if fst v then m_aoDIs b else m_aoDOs b) ! snd v)"

definition set_var :: "bool \<times> nat \<Rightarrow> iec_any \<Rightarrow> 'c fb \<Rightarrow> 'c fb" where
  "set_var v x b =
     (if fst v then b\<lparr>m_aoDIs := (m_aoDIs b)[snd v := (m_aoDIs b ! snd v)\<lparr>dp_val := x\<rparr>]\<rparr>
      else b\<lparr>m_aoDOs := (m_aoDOs b)[snd v := (m_aoDOs b ! snd v)\<lparr>dp_val := x\<rparr>]\<rparr>)"

text \<open>\<open>getVariable\<close>: a list of one name is meant for the resource, but \<open>isLastEntry\<close> is asked of the
  list that is empty then. The management parser gives at least one name.\<close>

definition getVariable :: "TStringId list \<Rightarrow> 'c resource \<Rightarrow> (nat \<times> bool \<times> nat) option" where
  "getVariable ns R =
     (if ns = [] then None
      else
        let port = last ns; path = butlast ns;
            r = (if 1 \<le> length path then getContainedFB (res_world R) (name_begin path port) (res_cont R)
                 else (Some (res_fb R), name_begin path port))
        in case fst r of
             None \<Rightarrow> None
           | Some i \<Rightarrow>
               if isLastEntry (snd r)
               then Option.bind (w_fbs (res_world R) i) (\<lambda>b. map_option (\<lambda>v. (i, v)) (find_var port b))
               else None)"

datatype connection_ref = EventCon nat nat | DataCon nat nat

definition getEOConnection :: "TStringId \<Rightarrow> nat \<Rightarrow> 'c fb \<Rightarrow> connection_ref option" where
  "getEOConnection n i b =
     (let p = getPortId n (m_aunEONames (fb_spec b))
      in if p \<noteq> cg_unInvalidPortId then Some (EventCon i p) else None)"

definition getDOConnection :: "TStringId \<Rightarrow> nat \<Rightarrow> 'c fb \<Rightarrow> connection_ref option" where
  "getDOConnection n i b =
     (let p = getPortId n (m_aunDONames (fb_spec b))
      in if p \<noteq> cg_unInvalidPortId then Some (DataCon i p) else None)"

definition getConnection :: "TStringId list \<Rightarrow> 'c resource \<Rightarrow> connection_ref option" where
  "getConnection ns R =
     (if 1 < length ns then
        (case contained_block (butlast ns) (last ns) R of
           None \<Rightarrow> None
         | Some i \<Rightarrow>
             Option.bind (w_fbs (res_world R) i)
               (\<lambda>b. case getEOConnection (last ns) i b of Some c \<Rightarrow> Some c | None \<Rightarrow> getDOConnection (last ns) i b))
      else None)"

section \<open>Commands\<close>

definition connection_command ::
  "(connection_ref \<Rightarrow> nat \<Rightarrow> TStringId \<Rightarrow> 'c world \<Rightarrow> EMGMResponse \<times> 'c world) \<Rightarrow>
     TStringId list \<Rightarrow> TStringId list \<Rightarrow> 'c resource \<Rightarrow> EMGMResponse \<times> 'c resource" where
  "connection_command f src dst R =
     (case getConnection src R of
        None \<Rightarrow> (e_NO_SUCH_OBJECT, R)
      | Some con \<Rightarrow>
          if dst = [] then (e_NO_SUCH_OBJECT, R)
          else
            (case contained_block (butlast dst) (last dst) R of
               None \<Rightarrow> (e_NO_SUCH_OBJECT, R)
             | Some i \<Rightarrow> let r = f con i (last dst) (res_world R) in (fst r, set_world (snd r) R)))"

definition con_connect :: "connection_ref \<Rightarrow> nat \<Rightarrow> TStringId \<Rightarrow> 'c world \<Rightarrow> EMGMResponse \<times> 'c world" where
  "con_connect con = (case con of EventCon i p \<Rightarrow> event_connect (i, p) | DataCon i p \<Rightarrow> data_connect (i, p))"

definition con_disconnect :: "connection_ref \<Rightarrow> nat \<Rightarrow> TStringId \<Rightarrow> 'c world \<Rightarrow> EMGMResponse \<times> 'c world" where
  "con_disconnect con = (case con of EventCon i p \<Rightarrow> event_disconnect (i, p) | DataCon i p \<Rightarrow> data_disconnect (i, p))"

definition createConnection :: "TStringId list \<Rightarrow> TStringId list \<Rightarrow> 'c resource \<Rightarrow> EMGMResponse \<times> 'c resource" where
  "createConnection = connection_command con_connect"

definition deleteConnection :: "TStringId list \<Rightarrow> TStringId list \<Rightarrow> 'c resource \<Rightarrow> EMGMResponse \<times> 'c resource" where
  "deleteConnection = connection_command con_disconnect"

definition writeValue ::
  "(u8 list \<Rightarrow> iec_any \<Rightarrow> int \<times> iec_any) \<Rightarrow> TStringId list \<Rightarrow> u8 list \<Rightarrow> 'c resource \<Rightarrow> EMGMResponse \<times> 'c resource" where
  "writeValue fromString ns text R =
     (case getVariable ns R of
        None \<Rightarrow> (e_NO_SUCH_OBJECT, R)
      | Some (i, v) \<Rightarrow>
          if text = [] then (e_BAD_PARAMS, R)
          else
            (case w_fbs (res_world R) i of
               None \<Rightarrow> (e_NO_SUCH_OBJECT, R)
             | Some b \<Rightarrow>
                 let r = fromString text (var_value v b)
                 in (if fst r = int (length text) then e_RDY else e_BAD_PARAMS,
                     set_world (upd_fb i (set_var v (snd r)) (res_world R)) R)))"

text \<open>\<open>readValue\<close> into a string with room for \<open>cap\<close> bytes; the text is what the string is set to.\<close>

definition readValue ::
  "(iec_any \<Rightarrow> nat \<Rightarrow> int \<times> u8 list) \<Rightarrow> nat \<Rightarrow> TStringId list \<Rightarrow> 'c resource \<Rightarrow> EMGMResponse \<times> u8 list option" where
  "readValue toString cap ns R =
     (case getVariable ns R of
        None \<Rightarrow> (e_NO_SUCH_OBJECT, None)
      | Some (i, v) \<Rightarrow>
          (case w_fbs (res_world R) i of
             None \<Rightarrow> (e_NO_SUCH_OBJECT, None)
           | Some b \<Rightarrow>
               let r = toString (var_value v b) cap
               in if fst r \<noteq> - 1 then (e_RDY, Some (take (nat (fst r)) (snd r))) else (e_INVALID_OBJECT, None)))"

text \<open>The state commands. (The resource has no inputs that a Start could sample.)\<close>

definition resource_changeFBExecutionState ::
  "'c changer \<Rightarrow> EMGMCommandType \<Rightarrow> 'c resource \<Rightarrow> (EMGMResponse \<times> 'c resource) option" where
  "resource_changeFBExecutionState chg cmd R =
     (let (r, w) = changeFBExecutionState (\<lambda>b. b) 1 cmd (res_fb R) (res_world R)
      in if r = e_RDY then
           (case changeContainedFBsExecutionState chg cmd (res_cont R) w of
              None \<Rightarrow> None
            | Some (r1, w1) \<Rightarrow>
                Some (r1, set_world (if r1 = e_RDY then ecet_changeExecutionState cmd w1 else w1) R))
         else Some (r, set_world w R))"

definition handleExecutionStateCmd ::
  "'c changer \<Rightarrow> EMGMCommandType \<Rightarrow> TStringId list \<Rightarrow> 'c resource \<Rightarrow> (EMGMResponse \<times> 'c resource) option" where
  "handleExecutionStateCmd chg cmd ns R =
     (if ns = [] then resource_changeFBExecutionState chg cmd R
      else
        (case fst (getContainedFB (res_world R) (name_begin ns '''') (res_cont R)) of
           None \<Rightarrow> Some (e_NO_SUCH_OBJECT, R)
         | Some i \<Rightarrow> map_option (\<lambda>r. (fst r, set_world (snd r) R)) (chg cmd i (res_world R))))"

text \<open>The names of all types, for the two libraries.\<close>

fun join_names :: "u8 list list \<Rightarrow> u8 list" where
  "join_names [] = []"
| "join_names [n] = n"
| "join_names (n # m # ns) = n @ [44, 32] @ join_names (m # ns)"

definition queryAllTypes :: "TStringId list \<Rightarrow> u8 list \<Rightarrow> EMGMResponse \<times> u8 list" where
  "queryAllTypes names out =
     (if names = [] then (e_UNSUPPORTED_TYPE, out)
      else (e_RDY, out @ join_names (map (map (\<lambda>c. of_nat (of_char c))) names)))"

text \<open>
  \<open>executeMGMCommand\<close>. What happens to be in the storage of an empty name list is \<open>x\<close>; a string for
  the answer has room for \<open>cap\<close> bytes. The answer carries the command with its additional parameter
  and without the names that \<open>getConnection\<close>, \<open>getVariable\<close> and the commands on connections take off
  its lists.
\<close>

definition pop_connection :: "SManagementCMD \<Rightarrow> 'c resource \<Rightarrow> SManagementCMD" where
  "pop_connection cmd R =
     cmd\<lparr>mFirstParam := (if 1 < length (mFirstParam cmd) then butlast (mFirstParam cmd) else mFirstParam cmd),
         mSecondParam := (if getConnection (mFirstParam cmd) R = None then mSecondParam cmd
                          else butlast (mSecondParam cmd))\<rparr>"

record 'c services =
  s_change :: "'c changer"
  s_lib :: "'c fb_library"
  s_adapter_types :: "TStringId list"
  s_fromString :: "u8 list \<Rightarrow> iec_any \<Rightarrow> int \<times> iec_any"
  s_toString :: "iec_any \<Rightarrow> nat \<Rightarrow> int \<times> u8 list"
  s_monitoring :: "SManagementCMD \<Rightarrow> 'c resource \<Rightarrow> (EMGMResponse \<times> SManagementCMD \<times> 'c resource) option"
  s_device_monitoring :: "(nat \<Rightarrow> 'c resource option) \<Rightarrow> SManagementCMD \<Rightarrow> 'c resource \<Rightarrow>
    (EMGMResponse \<times> SManagementCMD \<times> 'c resource) option"

definition executeMGMCommand ::
  "'c services \<Rightarrow> TStringId \<Rightarrow> nat \<Rightarrow> SManagementCMD \<Rightarrow> 'c resource \<Rightarrow>
     (EMGMResponse \<times> SManagementCMD \<times> 'c resource) option" where
  "executeMGMCommand S x cap cmd R =
     (if mDestination cmd \<noteq> scm_nInvalidStringId then Some (e_INVALID_DST, cmd, R)
      else case mCMD cmd of
        cg_nMGM_CMD_Create_FBInstance \<Rightarrow>
          map_option (\<lambda>(r, c, st). (r, cmd, R\<lparr>res_cont := c, res_rt := st\<rparr>))
            (createFB (s_change S) (s_lib S) (name_begin (mFirstParam cmd) x)
               (case mSecondParam cmd of [] \<Rightarrow> x | t # _ \<Rightarrow> t) (res_cont R) (res_rt R))
      | cg_nMGM_CMD_Create_FBType \<Rightarrow> Some (e_UNSUPPORTED_CMD, cmd, R)
      | cg_nMGM_CMD_Create_AdapterType \<Rightarrow> Some (e_UNSUPPORTED_CMD, cmd, R)
      | cg_nMGM_CMD_Delete_FBInstance \<Rightarrow>
          map_option (\<lambda>(r, c, w). (r, cmd, set_world w (R\<lparr>res_cont := c\<rparr>)))
            (deleteFB (name_begin (mFirstParam cmd) x) (res_cont R) (res_world R))
      | cg_nMGM_CMD_Create_Connection \<Rightarrow>
          (let r = createConnection (mFirstParam cmd) (mSecondParam cmd) R in Some (fst r, pop_connection cmd R, snd r))
      | cg_nMGM_CMD_Delete_Connection \<Rightarrow>
          (let r = deleteConnection (mFirstParam cmd) (mSecondParam cmd) R in Some (fst r, pop_connection cmd R, snd r))
      | cg_nMGM_CMD_Read \<Rightarrow>
          (let r = readValue (s_toString S) cap (mFirstParam cmd) R;
               cmd1 = cmd\<lparr>mFirstParam := butlast (mFirstParam cmd)\<rparr>
           in Some (fst r, (case snd r of None \<Rightarrow> cmd1 | Some t \<Rightarrow> cmd1\<lparr>mAdditionalParams := t\<rparr>), R))
      | cg_nMGM_CMD_Write \<Rightarrow>
          (let r = writeValue (s_fromString S) (mFirstParam cmd) (mAdditionalParams cmd) R
           in Some (fst r, cmd\<lparr>mFirstParam := butlast (mFirstParam cmd)\<rparr>, snd r))
      | cg_nMGM_CMD_Start \<Rightarrow> map_option (\<lambda>r. (fst r, cmd, snd r)) (handleExecutionStateCmd (s_change S) (mCMD cmd) (mFirstParam cmd) R)
      | cg_nMGM_CMD_Stop \<Rightarrow> map_option (\<lambda>r. (fst r, cmd, snd r)) (handleExecutionStateCmd (s_change S) (mCMD cmd) (mFirstParam cmd) R)
      | cg_nMGM_CMD_Kill \<Rightarrow> map_option (\<lambda>r. (fst r, cmd, snd r)) (handleExecutionStateCmd (s_change S) (mCMD cmd) (mFirstParam cmd) R)
      | cg_nMGM_CMD_Reset \<Rightarrow> map_option (\<lambda>r. (fst r, cmd, snd r)) (handleExecutionStateCmd (s_change S) (mCMD cmd) (mFirstParam cmd) R)
      | cg_nMGM_CMD_QUERY_FBTypes \<Rightarrow>
          (let r = queryAllTypes (map fst (s_lib S)) (mAdditionalParams cmd)
           in Some (fst r, cmd\<lparr>mAdditionalParams := snd r\<rparr>, R))
      | cg_nMGM_CMD_QUERY_AdapterTypes \<Rightarrow>
          (let r = queryAllTypes (s_adapter_types S) (mAdditionalParams cmd)
           in Some (fst r, cmd\<lparr>mAdditionalParams := snd r\<rparr>, R))
      | _ \<Rightarrow> s_monitoring S cmd R)"

section \<open>The device\<close>

text \<open>
  \<open>CDevice::executeMGMCommand\<close>. The resources of a device are blocks of its container; a block that is
  not a resource is cast to one, on which nothing can be said: \<open>None\<close>. The monitoring handler of the
  device also sees the resources.
\<close>

record 'c device =
  dev_self :: "'c resource"
  dev_resources :: "nat \<Rightarrow> 'c resource option"

definition device_executeMGMCommand ::
  "'c services \<Rightarrow> TStringId \<Rightarrow> nat \<Rightarrow> SManagementCMD \<Rightarrow> 'c device \<Rightarrow>
     (EMGMResponse \<times> SManagementCMD \<times> 'c device) option" where
  "device_executeMGMCommand S x cap cmd D =
     (if mDestination cmd = scm_nInvalidStringId then
        map_option (\<lambda>(r, c, R). (r, c, D\<lparr>dev_self := R\<rparr>)) 
          (executeMGMCommand (S\<lparr>s_monitoring := s_device_monitoring S (dev_resources D)\<rparr>) x cap cmd (dev_self D))
      else
        (case getFB (res_world (dev_self D)) (mDestination cmd) (res_cont (dev_self D)) of
           None \<Rightarrow> Some (e_INVALID_DST, cmd, D)
         | Some i \<Rightarrow>
             (case dev_resources D i of
                None \<Rightarrow> None
              | Some res \<Rightarrow>
                  map_option (\<lambda>(r, c, R). (r, c, D\<lparr>dev_resources := (dev_resources D)(i \<mapsto> R)\<rparr>))
                    (executeMGMCommand S x cap (cmd\<lparr>mDestination := scm_nInvalidStringId\<rparr>) res))))"

end
