(* ===== verification/Event_Types.thy ===== *)
theory Event_Types
  imports Event_FBs Container_Laws Number_Text
begin

text \<open>
  The type entries of the standard event blocks: the constructors and \<open>configureFB\<close> of the classes of
  \<^verbatim>\<open>src/src/stdfblib/events\<close>, the virtual \<open>changeFBExecutionState\<close> of these classes, and what the
  containers promise for them.
\<close>

section \<open>Changing the state of an event block\<close>

text \<open>The virtual call; for the Stop of \<open>E_RESTART\<close> it is the call up to its wait for the event
  thread.\<close>

definition event_changeFBExecutionState ::
  "EMGMCommandType \<Rightarrow> nat \<Rightarrow> rt \<Rightarrow> (EMGMResponse \<times> rt) option" where
  "event_changeFBExecutionState cmd i w =
     (case w_fbs w i of
        None \<Rightarrow> Some (changeFBExecutionState (\<lambda>b. b) 1 cmd i w)
      | Some b \<Rightarrow>
          (case fb_class b of
             C_Timed _ _ \<Rightarrow> timed_changeFBExecutionState cmd i w
           | C_E_RESTART _ _ \<Rightarrow> Some (restart_changeFBExecutionState cmd i w)
           | _ \<Rightarrow> Some (changeFBExecutionState (\<lambda>b. b) 1 cmd i w)))"

lemma base_change_shape: "world_shape (snd (changeFBExecutionState (\<lambda>b. b) n cmd i w)) = world_shape w"
  using benign_changeFBExecutionState [of "\<lambda>b. b" w w n cmd i] by (simp add: benign_def)

lemma set_class_shape [simp]: "world_shape (set_class i c w) = world_shape w"
  by (simp add: set_class_def world_shape_upd_fb)

lemma with_timer_shape: "with_timer f w = Some w' \<Longrightarrow> world_shape w' = world_shape w"
  by (auto simp: with_timer_def)

lemma startNewEventChain_shape [simp]: "world_shape (startNewEventChain i w) = world_shape w"
  by (simp add: startNewEventChain_def startEventChain_def externalEventOccured_def resumeSelfSuspend_def world_shape_def)

lemma timed_change_shape:
  "timed_changeFBExecutionState cmd i w = Some (r, w') \<Longrightarrow> world_shape w' = world_shape w"
proof -
  obtain r1 w1 where ch: "changeFBExecutionState (\<lambda>b. b) 1 cmd i w = (r1, w1)" by fastforce
  then have "world_shape w1 = world_shape w" using base_change_shape [of 1 cmd i w] by simp
  then show "timed_changeFBExecutionState cmd i w = Some (r, w') \<Longrightarrow> world_shape w' = world_shape w"
    using with_timer_shape [of "unregisterTimedFB i" w1]
    by (auto simp: timed_changeFBExecutionState_def Let_def ch [unfolded One_nat_def]
        split: if_splits option.splits fb_class_data.splits bool.splits)
qed

lemma restart_change_shape: "world_shape (snd (restart_changeFBExecutionState cmd i w)) = world_shape w"
  by (simp add: restart_changeFBExecutionState_def Let_def base_change_shape split: option.split)

interpretation event_states: state_changer event_changeFBExecutionState
proof
  fix cmd i r and w w' :: rt
  assume "event_changeFBExecutionState cmd i w = Some (r, w')"
  then show "world_shape w' = world_shape w"
    using base_change_shape [of 1 cmd i w] restart_change_shape [of cmd i w]
    by (auto simp: event_changeFBExecutionState_def dest: timed_change_shape
        split: option.splits fb_class_data.splits)
qed

lemma event_reset_returns: "event_changeFBExecutionState cg_nMGM_CMD_Reset i w \<noteq> None"
  by (simp add: event_changeFBExecutionState_def timed_changeFBExecutionState_def Let_def
     split: option.split fb_class_data.split)

section \<open>The type entries\<close>

text \<open>The constructor of a class with a fixed interface; such a class does not override
  \<open>configureFB\<close>.\<close>

definition fb_entry :: "(TStringId \<times> iec_any) list \<Rightarrow> SFBInterfaceSpec \<Rightarrow> 'c \<Rightarrow> 'c fb_type" where
  "fb_entry dtlib s c = \<lparr>createFBInstance = (\<lambda>n. new_FB dtlib s n c), configureFB = (\<lambda>t b. (True, b))\<rparr>"

text \<open>
  The generic classes have no interface until they are configured; an interface without ports stands
  for the null pointer. \<open>generateGenericInterfacePointNameArray\<close> ends the names with three digits only
  where the stack happens to hold a 0: \<open>junk\<close> is what follows them.
\<close>

definition digit_char :: "nat \<Rightarrow> char" where
  "digit_char n = char_of (48 + n)"

definition generic_point_name :: "string \<Rightarrow> string \<Rightarrow> nat \<Rightarrow> TStringId" where
  "generic_point_name prefix junk i =
     prefix @
       (if i < 10 then [digit_char i]
        else if i < 100 then [digit_char (i div 10), digit_char (i mod 10)]
        else [digit_char (i div 100), digit_char (i mod 100 div 10), digit_char (i mod 10)] @ junk)"

definition generateGenericInterfacePointNameArray :: "string \<Rightarrow> string \<Rightarrow> nat \<Rightarrow> TStringId list" where
  "generateGenericInterfacePointNameArray prefix junk n = map (generic_point_name prefix junk) [1..<Suc n]"

definition scm_nMaxInterfaceEvents :: int where
  "scm_nMaxInterfaceEvents = 255"

text \<open>What follows the last underscore.\<close>

definition after_last_underscore :: "string \<Rightarrow> string option" where
  "after_last_underscore t =
     (if CHR ''_'' \<in> set t then Some (rev (takeWhile (\<lambda>c. c \<noteq> CHR ''_'') (rev t))) else None)"

definition generic_number :: "string \<Rightarrow> int" where
  "generic_number s = fst (strtoul 10 (map (\<lambda>c. of_nat (of_char c)) s))"

text \<open>\<open>setupFBInterface\<close> of a block that has no interface yet.\<close>

definition setup_interface ::
  "(TStringId \<times> iec_any) list \<Rightarrow> SFBInterfaceSpec \<Rightarrow> 'c fb \<Rightarrow> bool \<times> 'c fb" where
  "setup_interface dtlib s b =
     (case new_FB dtlib s (m_nFBInstanceName b) (fb_class b) of
        None \<Rightarrow> (False, b)
      | Some b1 \<Rightarrow> (True, b1))"

definition GEN_E_MUX_configureFB ::
  "(TStringId \<times> iec_any) list \<Rightarrow> string \<Rightarrow> string \<Rightarrow> 'c fb \<Rightarrow> bool \<times> 'c fb" where
  "GEN_E_MUX_configureFB dtlib junk t b =
     (case after_last_underscore t of
        None \<Rightarrow> (False, b)
      | Some s \<Rightarrow>
          if s \<noteq> [] \<and> hd s = CHR ''M'' then (False, b)
          else
            let n = generic_number s
            in if n < scm_nMaxInterfaceEvents \<and> 2 \<le> n then
                 setup_interface dtlib
                   ((no_data_spec (generateGenericInterfacePointNameArray ''EI'' junk (nat n)) [''EO''])
                      \<lparr>m_anEOWith := [0, 255], m_anEOWithIndexes := Some [0],
                       m_aunDONames := [''K''], m_aunDODataTypeNames := [DT ''UINT'']\<rparr>) b
               else (False, b))"

definition GEN_E_DEMUX_configureFB ::
  "(TStringId \<times> iec_any) list \<Rightarrow> string \<Rightarrow> string \<Rightarrow> 'c fb \<Rightarrow> bool \<times> 'c fb" where
  "GEN_E_DEMUX_configureFB dtlib junk t b =
     (case after_last_underscore t of
        None \<Rightarrow> (False, b)
      | Some s \<Rightarrow>
          if s \<noteq> [] \<and> hd s = CHR ''D'' then (False, b)
          else
            let n = generic_number s
            in if n < scm_nMaxInterfaceEvents then
                 setup_interface dtlib
                   ((no_data_spec [''EI''] (generateGenericInterfacePointNameArray ''EO'' junk (nat n)))
                      \<lparr>m_anEIWith := [0, 255], m_anEIWithIndexes := Some [0],
                       m_aunDINames := [''K''], m_aunDIDataTypeNames := [DT ''UINT'']\<rparr>) b
               else (False, b))"

definition generic_entry ::
  "(TStringId \<times> iec_any) list \<Rightarrow> (string \<Rightarrow> 'c fb \<Rightarrow> bool \<times> 'c fb) \<Rightarrow> 'c \<Rightarrow> 'c fb_type" where
  "generic_entry dtlib cfg c =
     \<lparr>createFBInstance = (\<lambda>n. new_FB dtlib (no_data_spec [] []) n c), configureFB = cfg\<rparr>"

text \<open>The entries that the macros \<open>DEFINE_FIRMWARE_FB\<close> and \<open>DEFINE_GENERIC_FIRMWARE_FB\<close> register, with
  the initial values of the private members.\<close>

definition event_lib :: "(TStringId \<times> iec_any) list \<Rightarrow> string \<Rightarrow> fb_class_data fb_library" where
  "event_lib dtlib junk =
     [(''E_CTU'', fb_entry dtlib E_CTU_spec C_E_CTU),
      (''E_CTD'', fb_entry dtlib E_CTD_spec (C_E_CTD 0)),
      (''E_CTUD'', fb_entry dtlib E_CTUD_spec (C_E_CTUD 0)),
      (''E_SPLIT'', fb_entry dtlib E_SPLIT_spec C_E_SPLIT),
      (''E_MERGE'', fb_entry dtlib E_MERGE_spec C_E_MERGE),
      (''E_REND'', fb_entry dtlib E_REND_spec (C_E_REND False False)),
      (''E_SELECT'', fb_entry dtlib E_SELECT_spec C_E_SELECT),
      (''E_SWITCH'', fb_entry dtlib E_SWITCH_spec C_E_SWITCH),
      (''E_PERMIT'', fb_entry dtlib E_PERMIT_spec C_E_PERMIT),
      (''E_DEMUX'', fb_entry dtlib E_DEMUX_spec C_E_DEMUX),
      (''E_D_FF'', fb_entry dtlib E_D_FF_spec C_E_D_FF),
      (''E_R_TRIG'', fb_entry dtlib E_R_TRIG_spec (C_E_R_TRIG False)),
      (''E_F_TRIG'', fb_entry dtlib E_F_TRIG_spec (C_E_F_TRIG False)),
      (''E_RS'', fb_entry dtlib E_RS_spec C_E_RS),
      (''E_SR'', fb_entry dtlib E_SR_spec C_E_SR),
      (''E_CYCLE'', fb_entry dtlib CTimedFB_spec (C_Timed T_E_CYCLE False)),
      (''E_DELAY'', fb_entry dtlib CTimedFB_spec (C_Timed T_E_DELAY False)),
      (''E_RDELAY'', fb_entry dtlib CTimedFB_spec (C_Timed T_E_RDELAY False)),
      (''E_RESTART'', fb_entry dtlib E_RESTART_spec (C_E_RESTART cg_nInvalidEventID 0)),
      (''GEN_E_MUX'', generic_entry dtlib (GEN_E_MUX_configureFB dtlib junk) C_GEN_E_MUX),
      (''GEN_E_DEMUX'', generic_entry dtlib (GEN_E_DEMUX_configureFB dtlib junk) C_GEN_E_DEMUX)]"

lemma new_FB_named:
  "new_FB dtlib s n c = Some b \<Longrightarrow> m_pstAdapterInstanceDefinition s = [] \<Longrightarrow>
    m_nFBInstanceName b = n \<and> set (m_apoAdapters b) \<subseteq> {None}"
  by (auto simp: new_FB_def Let_def split: if_splits)

lemma setup_interface_named:
  "m_pstAdapterInstanceDefinition s = [] \<Longrightarrow> set (m_apoAdapters b) \<subseteq> {None} \<Longrightarrow>
    m_nFBInstanceName (snd (setup_interface dtlib s b)) = m_nFBInstanceName b \<and>
    set (m_apoAdapters (snd (setup_interface dtlib s b))) \<subseteq> {None}"
  by (auto simp: setup_interface_def dest!: new_FB_named split: option.split)

lemma no_adapters:
  "m_pstAdapterInstanceDefinition (no_data_spec a b) = []"
  "m_pstAdapterInstanceDefinition (one_di_spec x y z u v t) = []"
  by (simp_all add: no_data_spec_def one_di_spec_def)

lemma configure_named:
  assumes "set (m_apoAdapters b) \<subseteq> {None}"
  shows "m_nFBInstanceName (snd (GEN_E_MUX_configureFB dtlib junk t b)) = m_nFBInstanceName b"
    "set (m_apoAdapters (snd (GEN_E_MUX_configureFB dtlib junk t b))) \<subseteq> {None}"
    "m_nFBInstanceName (snd (GEN_E_DEMUX_configureFB dtlib junk t b)) = m_nFBInstanceName b"
    "set (m_apoAdapters (snd (GEN_E_DEMUX_configureFB dtlib junk t b))) \<subseteq> {None}"
  using assms
  by (auto simp: GEN_E_MUX_configureFB_def GEN_E_DEMUX_configureFB_def Let_def setup_interface_named no_adapters
     split: option.split)

lemma fb_entry_ok:
  "m_pstAdapterInstanceDefinition s = [] \<Longrightarrow> entry_ok (fb_entry dtlib s c)"
  by (auto simp: entry_ok_def fb_entry_def dest!: new_FB_named)

lemma generic_entries_ok:
  "entry_ok (generic_entry dtlib (GEN_E_MUX_configureFB dtlib junk) c)"
  "entry_ok (generic_entry dtlib (GEN_E_DEMUX_configureFB dtlib junk) c)"
proof -
  have "m_nFBInstanceName b = n \<and> set (m_apoAdapters b) \<subseteq> {None}"
    if "new_FB dtlib (no_data_spec [] []) n c = Some b" for n b
    using new_FB_named [OF that no_adapters(1)] .
  then show "entry_ok (generic_entry dtlib (GEN_E_MUX_configureFB dtlib junk) c)"
    "entry_ok (generic_entry dtlib (GEN_E_DEMUX_configureFB dtlib junk) c)"
    by (simp_all add: entry_ok_def generic_entry_def configure_named)
qed

lemma event_specs_no_adapters:
  "m_pstAdapterInstanceDefinition E_CTU_spec = []" "m_pstAdapterInstanceDefinition E_CTD_spec = []"
  "m_pstAdapterInstanceDefinition E_CTUD_spec = []" "m_pstAdapterInstanceDefinition E_SPLIT_spec = []"
  "m_pstAdapterInstanceDefinition E_MERGE_spec = []" "m_pstAdapterInstanceDefinition E_REND_spec = []"
  "m_pstAdapterInstanceDefinition E_SELECT_spec = []" "m_pstAdapterInstanceDefinition E_SWITCH_spec = []"
  "m_pstAdapterInstanceDefinition E_PERMIT_spec = []" "m_pstAdapterInstanceDefinition E_DEMUX_spec = []"
  "m_pstAdapterInstanceDefinition E_D_FF_spec = []" "m_pstAdapterInstanceDefinition E_R_TRIG_spec = []"
  "m_pstAdapterInstanceDefinition E_F_TRIG_spec = []" "m_pstAdapterInstanceDefinition E_RS_spec = []"
  "m_pstAdapterInstanceDefinition E_SR_spec = []" "m_pstAdapterInstanceDefinition CTimedFB_spec = []"
  "m_pstAdapterInstanceDefinition E_RESTART_spec = []"
  by (simp_all add: E_CTU_spec_def E_CTD_spec_def E_CTUD_spec_def E_SPLIT_spec_def E_MERGE_spec_def
        E_REND_spec_def E_SELECT_spec_def E_SWITCH_spec_def E_PERMIT_spec_def E_DEMUX_spec_def E_D_FF_spec_def
        E_R_TRIG_spec_def E_F_TRIG_spec_def E_RS_spec_def E_SR_spec_def CTimedFB_spec_def E_RESTART_spec_def
        no_adapters)

lemma event_lib_ok: "lib_ok (event_lib dtlib junk)"
  by (simp add: lib_ok_def event_lib_def fb_entry_ok generic_entries_ok event_specs_no_adapters)

section \<open>Creating and deleting event blocks\<close>

section \<open>Creating event blocks\<close>

text \<open>
  C7. Creating a block refines the update of the map of the resource at one path: the answer is that
  of the abstract rule (a path is refused if a block or container has it or a block is on the way to
  it, otherwise the type library decides), on success the new block is at its path and carries its
  name, on any other answer no path changes, and the tree stays well formed. The call always returns.
\<close>

theorem createFB_refines_map:
  assumes "tree_ok (rt_world st) c" and "runtime_ok st" and "ns \<noteq> []" and "'''' \<notin> set ns"
  shows "\<exists>r c1 st1. createFB event_changeFBExecutionState (event_lib dtlib junk) (name_begin ns x) t c st = Some (r, c1, st1) \<and>
    tree_ok (rt_world st1) c1 \<and> runtime_ok st1 \<and>
    r = (if taken (fb_name (rt_world st)) c ns then e_INVALID_STATE
         else case new_instance (event_lib dtlib junk) (last ns) t of Inl e \<Rightarrow> e | Inr b \<Rightarrow> e_RDY) \<and>
    (fb_at (fb_name (rt_world st1)) c1, fb_name (rt_world st1)) =
      (if r = e_RDY
       then ((fb_at (fb_name (rt_world st)) c)(ns \<mapsto> rt_next st), (fb_name (rt_world st))(rt_next st \<mapsto> last ns))
       else (fb_at (fb_name (rt_world st)) c, fb_name (rt_world st)))"
proof -
  obtain r c1 st1 where cr: "createFB event_changeFBExecutionState (event_lib dtlib junk) (name_begin ns x) t c st = Some (r, c1, st1)"
    using event_states.createFB_returns [OF event_reset_returns assms(3)] by blast
  note res = event_states.create_refines [OF cr assms(1,2) event_lib_ok assms(3,4)]
  show ?thesis
    using cr res by (cases "r = e_RDY") (simp_all add: event_states.create_answer_def)
qed

definition empty_runtime :: "fb_class_data runtime" where
  "empty_runtime =
     \<lparr>rt_world = \<lparr>mEventList = ring_clear 4, mExternalEventList = ring_clear 4, mProcessingEvents = False,
        mSuspendSemaphore = 0, mAlive = False, w_fbs = Map.empty, w_timer = two_timers, w_platform = plain_platform, w_com = com_start\<rparr>,
      rt_next = 0, m_eLastErrorMSG = e_RDY\<rparr>"

lemma empty_runtime_ok:
  "tree_ok (rt_world empty_runtime) (CFBContainer '''' [] [])" "runtime_ok empty_runtime"
  by (simp_all add: tree_ok_def runtime_ok_def empty_runtime_def)

lemma nothing_taken: "\<not> taken nm (CFBContainer n [] []) [a, b]"
  by simp

theorem createFB_refines_map_witness:
  "\<exists>c1 st1. createFB event_changeFBExecutionState (event_lib [] []) (name_begin [''A'', ''F''] []) ''E_SPLIT''
      (CFBContainer '''' [] []) empty_runtime = Some (e_RDY, c1, st1) \<and>
    fb_at (fb_name (rt_world st1)) c1 [''A'', ''F''] = Some 0"
proof -
  have "\<exists>b. new_instance (event_lib [] []) ''F'' ''E_SPLIT'' = Inr b"
    by (simp add: new_instance_def event_lib_def fb_entry_def new_FB_def E_SPLIT_spec_def no_data_spec_def)
  then show ?thesis
    using createFB_refines_map [OF empty_runtime_ok, of "[''A'', ''F'']" "[]" "[]" "[]" "''E_SPLIT''"]
    by (auto simp: empty_runtime_def simp del: fb_at.simps)
qed

section \<open>The other properties of the containers at a concrete tree\<close>

definition split_block :: "TStringId \<Rightarrow> conn_point list list \<Rightarrow> E_FBStates \<Rightarrow> fb_class_data fb" where
  "split_block n eos s =
     (the (new_FB [] E_SPLIT_spec n C_E_SPLIT))\<lparr>mEOConns := eos, m_enFBState := s\<rparr>"

lemma split_block_simps [simp]:
  "m_nFBInstanceName (split_block n eos s) = n" "m_apoAdapters (split_block n eos s) = []"
  "m_enFBState (split_block n eos s) = s" "mEOConns (split_block n eos s) = eos"
  "m_bDeletable (split_block n eos s) = True" "fb_class (split_block n eos s) = C_E_SPLIT"
  by (simp_all add: split_block_def new_FB_def E_SPLIT_spec_def no_data_spec_def)

text \<open>Block 0 feeds block 1, which is stopped and lies in the container A.\<close>

definition two_blocks :: rt where
  "two_blocks = (rt_world empty_runtime)\<lparr>w_fbs :=
     [0 \<mapsto> split_block ''F'' [[\<lparr>mFB = 1, mPortId = 0\<rparr>], []] e_RUNNING, 1 \<mapsto> split_block ''G'' [[], []] e_STOPPED]\<rparr>"

definition two_tree :: fbcontainer where
  "two_tree = CFBContainer '''' [0] [CFBContainer ''A'' [1] []]"

lemma two_names: "fb_name two_blocks = [0 \<mapsto> ''F'', 1 \<mapsto> ''G'']"
  by (auto simp: fb_name_def two_blocks_def)

lemma two_tree_ok: "tree_ok two_blocks two_tree"
  unfolding tree_ok_def two_names two_tree_def
  by (simp add: names_ok.simps [of _ "CFBContainer '''' _ _"] names_ok.simps [of _ "CFBContainer ''A'' _ _"]
      all_fbs.simps [of "CFBContainer '''' _ _"] all_fbs.simps [of "CFBContainer ''A'' _ _"])
     (auto simp: two_blocks_def split: if_splits)

theorem deleteFB_refines_map_witness:
  "\<exists>c1 w1. deleteFB (name_begin [''A'', ''G''] []) two_tree two_blocks = Some (e_RDY, c1, w1) \<and>
    fb_at (fb_name w1) c1 [''A'', ''G''] = None \<and> fb_at (fb_name w1) c1 [''F''] = Some 0"
proof -
  have at: "fb_at (fb_name two_blocks) two_tree [''A'', ''G''] = Some 1"
    "fb_at (fb_name two_blocks) two_tree [''F''] = Some 0"
    by (simp_all add: two_names two_tree_def)
  have "deletable two_blocks 1"
    by (simp add: deletable_def two_blocks_def isCurrentlyDeleteable_def)
  then show ?thesis
    using deleteFB_refines_map [OF two_tree_ok, of "[''A'', ''G'']" "[]"] at
    by (auto simp del: fb_at.simps)
qed

theorem star_name_never_returns_witness:
  "createFB event_changeFBExecutionState (event_lib [] []) (name_begin [] ''X'') ''E_SPLIT'' (CFBContainer '''' [] []) empty_runtime = None"
  using star_name_never_returns [of empty_runtime "''X''" "CFBContainer '''' [] []"]
  by (simp add: getFB_def getFBContainer_def)

theorem failed_delete_blocks_name_witness:
  "\<exists>c1. deleteFB (name_begin [''A'', ''F''] []) (CFBContainer '''' [] []) (rt_world empty_runtime) =
      Some (e_NO_SUCH_OBJECT, c1, rt_world empty_runtime) \<and>
    createFB event_changeFBExecutionState (event_lib [] []) (name_begin [''A''] []) ''E_SPLIT'' c1 empty_runtime =
      Some (e_INVALID_STATE, c1, empty_runtime)"
  by (rule failed_delete_blocks_name) (simp_all add: getFB_def getFBContainer_def)

end
