(* ===== verification/Resource_Laws.thy ===== *)
theory Resource_Laws
  imports Resource Event_Types
begin

text \<open>
  What a resource promises to its management: names find exactly the blocks of the map, a command to
  all blocks stops at the first refusal, connection commands keep the connections consistent; and
  where it breaks its promises.
\<close>

section \<open>Names\<close>

lemma contained_block_step:
  "getContainedFB w (name_begin (n # m # ns) x) c =
    (case getFBContainer n c of
       Some k \<Rightarrow> getContainedFB w (name_begin (m # ns) x) (mSubContainers c ! k)
     | None \<Rightarrow> (getFB w n c, name_begin (n # m # ns) x))"
  by (simp add: getContainedFB.simps [of w "name_begin (n # m # ns) x"] split: option.split)

lemma getContainedFB_lookup:
  assumes "ns \<noteq> []" and "'''' \<notin> set ns"
  shows "(if isLastEntry (snd (getContainedFB w (name_begin ns x) c)) then fst (getContainedFB w (name_begin ns x) c) else None) =
    fb_at (fb_name w) c ns"
  using assms
proof (induction ns arbitrary: c)
  case (Cons n ns)
  have n: "n \<noteq> ''''" using Cons.prems by auto
  show ?case
  proof (cases ns)
    case Nil
    then show ?thesis
      using n by (simp add: getContainedFB.simps [of w "name_begin [n] x"] getFB_def scm_nInvalidStringId_def)
  next
    case (Cons m ms)
    show ?thesis
    proof (cases "getFBContainer n c")
      case None
      then have "find (\<lambda>d. mContainerName d = n) (mSubContainers c) = None"
        using n by (simp add: getFBContainer_find)
      then show ?thesis
        using None by (simp add: Cons contained_block_step)
    next
      case (Some k)
      have "'''' \<notin> set ns" "ns \<noteq> []" using Cons.prems \<open>ns = m # ms\<close> by auto
      note ih = Cons.IH [OF this(2,1), of "mSubContainers c ! k", unfolded \<open>ns = m # ms\<close>]
      have "getContainedFB w (name_begin (n # m # ms) x) c =
          getContainedFB w (name_begin (m # ms) x) (mSubContainers c ! k)"
        using Some by (simp add: contained_block_step)
      moreover have "fb_at (fb_name w) c (n # m # ms) = fb_at (fb_name w) (mSubContainers c ! k) (m # ms)"
        using getFBContainer_SomeD(4) [OF Some] by simp
      ultimately show ?thesis unfolding \<open>ns = m # ms\<close> by (simp only: ih)
    qed
  qed
qed simp

text \<open>
  The search for a block by its names finds exactly the block that the map of the resource has at
  that path; this is the search that the connection and parameter commands use.
\<close>

theorem contained_block_is_lookup:
  assumes "ns \<noteq> []" and "'''' \<notin> set ns"
  shows "contained_block ns x R = fb_at (fb_name (res_world R)) (res_cont R) ns"
  using getContainedFB_lookup [OF assms, of "res_world R" x "res_cont R"]
  by (simp add: contained_block_def Let_def)

text \<open>
  A state command does not check that the whole path was used: when the first name is a block, the
  command for a path below it, where no block can be, is executed on that block.
\<close>

theorem wrong_path_acts_on_block:
  assumes "getFBContainer n (res_cont R) = None" and "n \<noteq> ''''"
  shows "handleExecutionStateCmd chg cmd (n # m # ns) R = handleExecutionStateCmd chg cmd [n] R \<and>
    fb_at (fb_name (res_world R)) (res_cont R) (n # m # ns) = None"
proof
  show "handleExecutionStateCmd chg cmd (n # m # ns) R = handleExecutionStateCmd chg cmd [n] R"
    using assms(1)
    by (simp add: handleExecutionStateCmd_def contained_block_step getContainedFB.simps [of _ "name_begin [n] _"])
  have "find (\<lambda>d. mContainerName d = n) (mSubContainers (res_cont R)) = None"
    using assms by (simp add: getFBContainer_find)
  then show "fb_at (fb_name (res_world R)) (res_cont R) (n # m # ns) = None" by simp
qed

section \<open>State commands\<close>

definition fb_state :: "'c world \<Rightarrow> nat \<Rightarrow> E_FBStates option" where
  "fb_state w i = map_option m_enFBState (w_fbs w i)"

definition accepts :: "EMGMCommandType \<Rightarrow> E_FBStates option \<Rightarrow> bool" where
  "accepts cmd s \<longleftrightarrow> (\<exists>st. s = Some st \<and> fst (fb_state_switch cmd st) = e_RDY)"

lemma until_error_states:
  assumes step: "\<And>i w. I w \<Longrightarrow> \<exists>r w'. f i w = Some (r, w') \<and> I w' \<and> (r = e_RDY \<longleftrightarrow> ok (g w i)) \<and>
      g w' = (g w)(i := (if ok (g w i) then upd (g w i) else g w i))"
  shows "I w \<Longrightarrow> distinct bs \<Longrightarrow> \<exists>r w'. until_error f bs w = Some (r, w') \<and>
    (r = e_RDY \<longleftrightarrow> (\<forall>i \<in> set bs. ok (g w i))) \<and>
    g w' = (\<lambda>i. if i \<in> set (takeWhile (\<lambda>j. ok (g w j)) bs) then upd (g w i) else g w i)"
proof (induction bs arbitrary: w)
  case (Cons b bs)
  from step [OF Cons.prems(1)] obtain r1 w1 where f: "f b w = Some (r1, w1)" "I w1"
    and s: "r1 = e_RDY \<longleftrightarrow> ok (g w b)" "g w1 = (g w)(b := (if ok (g w b) then upd (g w b) else g w b))"
    by blast
  show ?case
  proof (cases "ok (g w b)")
    case False
    then show ?thesis using f s by auto
  next
    case True
    obtain r w' where rest: "until_error f bs w1 = Some (r, w')"
      and ih: "r = e_RDY \<longleftrightarrow> (\<forall>i \<in> set bs. ok (g w1 i))"
        "g w' = (\<lambda>i. if i \<in> set (takeWhile (\<lambda>j. ok (g w1 j)) bs) then upd (g w1 i) else g w1 i)"
      using Cons.IH [OF f(2)] Cons.prems(2) by auto
    have same: "g w1 i = g w i" if "i \<in> set bs" for i using s that Cons.prems(2) by auto
    have tw: "takeWhile (\<lambda>j. ok (g w1 j)) bs = takeWhile (\<lambda>j. ok (g w j)) bs"
      by (rule takeWhile_cong) (simp_all add: same)
    have notin: "b \<notin> set (takeWhile (\<lambda>j. ok (g w j)) bs)"
      using Cons.prems(2) by (meson distinct.simps(2) set_takeWhileD)
    have "g w' i = (if i \<in> set (takeWhile (\<lambda>j. ok (g w j)) (b # bs)) then upd (g w i) else g w i)" for i
    proof (cases "i = b")
      case True
      then show ?thesis using ih tw notin s \<open>ok (g w b)\<close> by simp
    next
      case False
      then have "g w1 i = g w i" using s by simp
      then show ?thesis using ih tw False \<open>ok (g w b)\<close> by simp
    qed
    moreover have "r = e_RDY \<longleftrightarrow> (\<forall>i \<in> set bs. ok (g w i))" using ih same by simp
    ultimately show ?thesis using True f(1) s(1) rest by auto
  qed
qed simp

definition no_adapters_in :: "'c world \<Rightarrow> bool" where
  "no_adapters_in w \<longleftrightarrow> (\<forall>i b. w_fbs w i = Some b \<longrightarrow> set (m_apoAdapters b) \<subseteq> {None})"

lemma no_adapters_shape: "world_shape w' = world_shape w \<Longrightarrow> no_adapters_in w \<Longrightarrow> no_adapters_in w'"
  unfolding no_adapters_in_def by (metis world_shape_fb(2))

lemma switch_refused: "fst (fb_state_switch cmd st) \<noteq> e_RDY \<Longrightarrow> snd (fb_state_switch cmd st) = st"
  by (auto simp: fb_state_switch_def split: EMGMCommandType.split)

lemma fold_no_adapters: "set as \<subseteq> {None} \<Longrightarrow> fold (\<lambda>a v. case a of None \<Rightarrow> v | Some j \<Rightarrow> F j v) as w = w"
  by (induction as arbitrary: w) auto

lemma base_change_state:
  assumes "no_adapters_in w"
  shows "fst (changeFBExecutionState (\<lambda>b. b) 1 cmd i w) = e_RDY \<longleftrightarrow> accepts cmd (fb_state w i)"
    "fb_state (snd (changeFBExecutionState (\<lambda>b. b) 1 cmd i w)) =
      (fb_state w)(i := (if accepts cmd (fb_state w i) then map_option (\<lambda>st. snd (fb_state_switch cmd st)) (fb_state w i)
         else fb_state w i))"
proof -
  have "fst (changeFBExecutionState (\<lambda>b. b) 1 cmd i w) = e_RDY \<longleftrightarrow> accepts cmd (fb_state w i)"
    by (auto simp: changeFBExecutionState.simps [where n = "Suc 0"] Let_def accepts_def fb_state_def split: option.splits)
  then show "fst (changeFBExecutionState (\<lambda>b. b) 1 cmd i w) = e_RDY \<longleftrightarrow> accepts cmd (fb_state w i)" .
  show "fb_state (snd (changeFBExecutionState (\<lambda>b. b) 1 cmd i w)) =
      (fb_state w)(i := (if accepts cmd (fb_state w i) then map_option (\<lambda>st. snd (fb_state_switch cmd st)) (fb_state w i)
         else fb_state w i))"
  proof (cases "w_fbs w i")
    case None
    then show ?thesis
      by (auto simp: changeFBExecutionState.simps [where n = "Suc 0"] accepts_def fb_state_def)
  next
    case (Some b)
    then have "set (m_apoAdapters b) \<subseteq> {None}" using assms by (simp add: no_adapters_in_def)
    then show ?thesis
      using Some switch_refused [of cmd "m_enFBState b"]
      by (auto simp: changeFBExecutionState.simps [where n = "Suc 0"] Let_def accepts_def fb_state_def fold_no_adapters
          split: option.split intro!: ext)
  qed
qed

lemma fb_state_simps [simp]:
  "fb_state (set_class i c w) = fb_state w" "fb_state (startNewEventChain i w) = fb_state w"
  by (auto simp: fb_state_def set_class_def startNewEventChain_def startEventChain_def externalEventOccured_def
      resumeSelfSuspend_def option.map_comp o_def intro!: ext)

lemma restart_change_state:
  assumes "cmd = cg_nMGM_CMD_Start \<or> cmd = cg_nMGM_CMD_Reset"
  shows "fst (restart_changeFBExecutionState cmd i w) = fst (changeFBExecutionState (\<lambda>b. b) 1 cmd i w)"
    "fb_state (snd (restart_changeFBExecutionState cmd i w)) = fb_state (snd (changeFBExecutionState (\<lambda>b. b) 1 cmd i w))"
  using assms by (auto simp: restart_changeFBExecutionState_def Let_def split: option.split)

lemma event_change_state:
  assumes "no_adapters_in w" and "cmd = cg_nMGM_CMD_Start \<or> cmd = cg_nMGM_CMD_Reset"
  shows "\<exists>r w'. event_changeFBExecutionState cmd i w = Some (r, w') \<and> no_adapters_in w' \<and>
    (r = e_RDY \<longleftrightarrow> accepts cmd (fb_state w i)) \<and>
    fb_state w' = (fb_state w)(i := (if accepts cmd (fb_state w i)
      then map_option (\<lambda>st. snd (fb_state_switch cmd st)) (fb_state w i) else fb_state w i))"
proof -
  obtain r1 w1 where base: "changeFBExecutionState (\<lambda>b. b) 1 cmd i w = (r1, w1)" by fastforce
  obtain r2 w2 where restart: "restart_changeFBExecutionState cmd i w = (r2, w2)" by fastforce
  have timed: "timed_changeFBExecutionState cmd i w = Some (r1, w1)"
    using assms(2) base by (auto simp: timed_changeFBExecutionState_def Let_def)
  have "event_changeFBExecutionState cmd i w \<in> {Some (r1, w1), Some (r2, w2)}"
    using base timed restart
    by (auto simp: event_changeFBExecutionState_def split: option.split fb_class_data.split)
  moreover have "no_adapters_in w1" "no_adapters_in w2"
    using base_change_shape [of 1 cmd i w] restart_change_shape [of cmd i w] base restart
      no_adapters_shape assms(1) by auto
  moreover have "r2 = r1" "fb_state w2 = fb_state w1"
    using restart_change_state [OF assms(2), of i w] base restart by auto
  ultimately show ?thesis
    using base_change_state [OF assms(1), of cmd i] base by auto
qed

text \<open>
  Start and Reset for all blocks of a container work through the blocks in order up to the first
  that refuses: the answer is RDY exactly if all accept; the blocks before the first refusal have
  changed their state and stay changed, all others are as before. The command always returns.
\<close>

theorem command_stops_at_first_refusal:
  assumes "no_adapters_in w" and "distinct (all_fbs c)" and "cmd = cg_nMGM_CMD_Start \<or> cmd = cg_nMGM_CMD_Reset"
  shows "\<exists>r w'. changeContainedFBsExecutionState event_changeFBExecutionState cmd c w = Some (r, w') \<and>
    (r = e_RDY \<longleftrightarrow> (\<forall>i \<in> set (all_fbs c). accepts cmd (fb_state w i))) \<and>
    fb_state w' = (\<lambda>i. if i \<in> set (takeWhile (\<lambda>j. accepts cmd (fb_state w j)) (all_fbs c))
      then map_option (\<lambda>st. snd (fb_state_switch cmd st)) (fb_state w i) else fb_state w i)"
  unfolding contained_loop
  by (rule until_error_states [where I = no_adapters_in, OF _ assms(1,2)]) (rule event_change_state [OF _ assms(3)])

theorem command_stops_at_first_refusal_witness:
  "\<exists>r w'. changeContainedFBsExecutionState event_changeFBExecutionState cg_nMGM_CMD_Start two_tree two_blocks = Some (r, w') \<and>
    r \<noteq> e_RDY \<and> fb_state w' 1 = Some e_RUNNING"
proof -
  have all: "all_fbs two_tree = [1, 0]"
    by (simp add: two_tree_def all_fbs.simps [of "CFBContainer '''' _ _"] all_fbs.simps [of "CFBContainer ''A'' _ _"])
  have "no_adapters_in two_blocks" by (auto simp: no_adapters_in_def two_blocks_def split: if_splits)
  moreover have "fb_state two_blocks 0 = Some e_RUNNING" "fb_state two_blocks 1 = Some e_STOPPED"
    by (simp_all add: fb_state_def two_blocks_def)
  ultimately show ?thesis
    using command_stops_at_first_refusal [of two_blocks two_tree cg_nMGM_CMD_Start] all
    by (auto simp: accepts_def fb_state_switch_def)
qed

section \<open>Connection commands\<close>

lemma event_op_links:
  "same_links w (snd (event_conn_op f sp i n w)) \<and> (consistent (snd (event_conn_op f sp i n w)) \<longleftrightarrow> consistent w)"
proof -
  have "same_links w (upd_eo_conn sp g w)" for g
    unfolding upd_eo_conn_def by (rule same_links_upd_fb) (auto simp: fb_wf_def)
  moreover have "same_links w w" by (rule same_links_refl)
  ultimately have "same_links w (snd (event_conn_op f sp i n w))"
    by (auto simp: event_conn_op_def Let_def split: option.split)
  then show ?thesis using consistent_same_links by blast
qed

lemma getConnection_valid:
  assumes "wf_world (res_world R)" and "getConnection ns R = Some (DataCon i p)"
  shows "do_valid (res_world R) (i, p)"
proof -
  from assms(2) obtain b where b: "w_fbs (res_world R) i = Some b" and p: "p = getPortId (last ns) (m_aunDONames (fb_spec b))"
    "p \<noteq> cg_unInvalidPortId"
    by (auto simp: getConnection_def getEOConnection_def getDOConnection_def Let_def bind_eq_Some_conv
        split: if_splits option.splits)
  then have "p < m_nNumDOs (fb_spec b)" using getPortId_found by metis
  then show ?thesis using b assms(1) by (auto simp: do_valid_def wf_world_def fb_wf_def)
qed

lemma connection_command_world:
  assumes "connection_command f src dst R = (r, R')"
  obtains (none) "r = e_NO_SUCH_OBJECT" "R' = R"
    | (done_) con i where "getConnection src R = Some con" "fst (f con i (last dst) (res_world R)) = r"
        "res_world R' = snd (f con i (last dst) (res_world R))"
proof (cases "getConnection src R")
  case None
  then show ?thesis using assms none by (simp add: connection_command_def)
next
  case con: (Some con)
  show ?thesis
  proof (cases "dst = [] \<or> contained_block (butlast dst) (last dst) R = None")
    case True
    then have "connection_command f src dst R = (e_NO_SUCH_OBJECT, R)"
      using con by (auto simp: connection_command_def)
    then show ?thesis using assms none by simp
  next
    case False
    then obtain i where "dst \<noteq> []" "contained_block (butlast dst) (last dst) R = Some i" by auto
    then show ?thesis
      using assms con by (intro done_ [OF con, of i]) (auto simp: connection_command_def set_world_def Let_def)
  qed
qed

text \<open>
  C9. The commands that connect and disconnect keep both ends of all data connections of a resource in
  agreement; only a connect command that answers INVALID_STATE may not.
\<close>

theorem connection_commands_consistent:
  assumes "wf_world (res_world R)" and "consistent (res_world R)"
  shows "(fst (createConnection src dst R) \<noteq> e_INVALID_STATE \<longrightarrow> consistent (res_world (snd (createConnection src dst R)))) \<and>
    consistent (res_world (snd (deleteConnection src dst R)))"
proof
  show "fst (createConnection src dst R) \<noteq> e_INVALID_STATE \<longrightarrow> consistent (res_world (snd (createConnection src dst R)))"
  proof
    assume r: "fst (createConnection src dst R) \<noteq> e_INVALID_STATE"
    obtain r R' where cc: "createConnection src dst R = (r, R')" by fastforce
    from cc [unfolded createConnection_def] show "consistent (res_world (snd (createConnection src dst R)))"
    proof (cases rule: connection_command_world)
      case none
      then show ?thesis using assms(2) cc by (simp add: createConnection_def)
    next
      case (done_ con i)
      show ?thesis
      proof (cases con)
        case (EventCon j p)
        then show ?thesis
          using done_ cc event_op_links [of "res_world R" addDestination "(j, p)" i "last dst"] assms(2)
          by (simp add: con_connect_def event_connect_def createConnection_def)
      next
        case (DataCon j p)
        note valid = getConnection_valid [OF assms(1) done_(1) [unfolded DataCon]]
        show ?thesis
        proof (cases "w_fbs (res_world R) i")
          case None
          then show ?thesis
            using done_ cc DataCon assms(2) by (simp add: con_connect_def data_connect_def createConnection_def)
        next
          case (Some b)
          show ?thesis
            using data_connect_keeps [OF assms valid Some, of "last dst"] r done_ cc DataCon
            by (simp add: con_connect_def createConnection_def)
        qed
      qed
    qed
  qed
  obtain r R' where dc: "deleteConnection src dst R = (r, R')" by fastforce
  from dc [unfolded deleteConnection_def] show "consistent (res_world (snd (deleteConnection src dst R)))"
  proof (cases rule: connection_command_world)
    case none
    then show ?thesis using assms(2) dc by (simp add: deleteConnection_def)
  next
    case (done_ con i)
    show ?thesis
    proof (cases con)
      case (EventCon j p)
      then show ?thesis
        using done_ dc event_op_links [of "res_world R" removeDestination "(j, p)" i "last dst"] assms(2)
        by (simp add: con_disconnect_def event_disconnect_def deleteConnection_def)
    next
      case (DataCon j p)
      note valid = getConnection_valid [OF assms(1) done_(1) [unfolded DataCon]]
      show ?thesis
        using data_disconnect_keeps [OF assms valid, of i "last dst"] done_ dc DataCon
        by (simp add: con_disconnect_def deleteConnection_def)
    qed
  qed
qed

section \<open>Deleting a connected block\<close>

text \<open>
  Deleting a block leaves the connections of other blocks to it as they are: a source that had it
  as receiver of an event still has, and now refers to an object that is gone.
\<close>

theorem delete_leaves_dangling:
  assumes "tree_ok w c" and "ns \<noteq> []" and "'''' \<notin> set ns" and "fb_at (fb_name w) c ns = Some i" and "deletable w i"
    and "w_fbs w j = Some b" and "e < length (mEOConns b)" and "d \<in> set (mEOConns b ! e)" and "mFB d = i" and "j \<noteq> i"
    and "no_adapters_in w"
  shows "\<exists>c1 w1 b1. deleteFB (name_begin ns x) c w = Some (e_RDY, c1, w1) \<and>
    w_fbs w1 j = Some b1 \<and> d \<in> set (mEOConns b1 ! e) \<and> w_fbs w1 (mFB d) = None"
proof -
  obtain r c1 w1 where del: "deleteFB (name_begin ns x) c w = Some (r, c1, w1)"
    using deleteFB_returns [OF assms(2)] by blast
  have "names_ok (fb_name w) c" using assms(1) by (simp add: tree_ok_def)
  note eff = delete_at_path [OF del assms(2,3) this, unfolded delete_effect_def]
  have gone: "Some j \<notin> set (m_apoAdapters b0)" if "w_fbs w i = Some b0" for b0
    using assms(11) that unfolding no_adapters_in_def by blast
  show ?thesis
    using del eff assms(4-10) gone by (auto simp: typelib_deleteFB_fbs)
qed

definition two_resource :: "fb_class_data resource" where
  "two_resource = \<lparr>res_rt = \<lparr>rt_world = two_blocks, rt_next = 2, m_eLastErrorMSG = e_RDY\<rparr>, res_cont = two_tree, res_fb = 2,
     mFBMonitoringList = [], mTriggerEvent = None\<rparr>"

theorem delete_leaves_dangling_witness:
  "\<exists>c1 w1 b1. deleteFB (name_begin [''A'', ''G''] []) two_tree two_blocks = Some (e_RDY, c1, w1) \<and>
    w_fbs w1 0 = Some b1 \<and> \<lparr>mFB = 1, mPortId = 0\<rparr> \<in> set (mEOConns b1 ! 0) \<and> w_fbs w1 1 = None"
proof -
  have at: "fb_at (fb_name two_blocks) two_tree [''A'', ''G''] = Some 1"
    by (simp_all add: two_names two_tree_def)
  have b: "w_fbs two_blocks 0 = Some (split_block ''F'' [[\<lparr>mFB = 1, mPortId = 0\<rparr>], []] e_RUNNING)"
    by (simp add: two_blocks_def)
  have "deletable two_blocks 1" "no_adapters_in two_blocks"
    by (auto simp: deletable_def two_blocks_def isCurrentlyDeleteable_def no_adapters_in_def split: if_splits)
  then show ?thesis
    using delete_leaves_dangling [OF two_tree_ok _ _ at _ b, of 0 "\<lparr>mFB = 1, mPortId = 0\<rparr>" "[]"] by simp
qed

theorem contained_block_is_lookup_witness:
  "contained_block [''A'', ''G''] [] two_resource = Some 1"
  using contained_block_is_lookup [of "[''A'', ''G'']" "[]" two_resource]
  by (simp add: two_resource_def two_names two_tree_def)

theorem wrong_path_acts_on_block_witness:
  "handleExecutionStateCmd event_changeFBExecutionState cg_nMGM_CMD_Stop [''F'', ''nosuch''] two_resource =
     handleExecutionStateCmd event_changeFBExecutionState cg_nMGM_CMD_Stop [''F''] two_resource"
  using wrong_path_acts_on_block [of "''F''" two_resource event_changeFBExecutionState cg_nMGM_CMD_Stop "''nosuch''" "[]"]
  by (simp add: two_resource_def two_tree_def getFBContainer_def)

lemma two_resource_consistent: "wf_world (res_world two_resource)" "consistent (res_world two_resource)"
proof -
  have d: "mDOConns (split_block n eos s) = []" "m_apoDIConns (split_block n eos s) = []"
    "fb_spec (split_block n eos s) = E_SPLIT_spec" "m_aoDIs (split_block n eos s) = []" "m_aoDOs (split_block n eos s) = []"
    "length (m_nEIMonitorCount (split_block n eos s)) = 1" "length (m_nEOMonitorCount (split_block n eos s)) = 2" for n eos s
    by (simp_all add: split_block_def new_FB_def E_SPLIT_spec_def no_data_spec_def)
  show "wf_world (res_world two_resource)"
    by (auto simp: wf_world_def fb_wf_def two_resource_def two_blocks_def d E_SPLIT_spec_def no_data_spec_def split: if_splits)
  show "consistent (res_world two_resource)"
    by (auto simp: consistent_def dests_of_def di_source_def two_resource_def two_blocks_def d split: if_splits option.splits)
qed

theorem connection_commands_consistent_witness:
  "consistent (res_world (snd (deleteConnection [''F'', ''EO1''] [''A'', ''G'', ''EI''] two_resource)))"
  using connection_commands_consistent [OF two_resource_consistent] by blast

end
