(* ===== verification/Elementary_Text.thy ===== *)
theory Elementary_Text
  imports Number_Text Data_Types
begin

text \<open>
  The textual form of integers, bit strings and BOOL:
  \<^verbatim>\<open>src/src/core/datatypes/forte_any_elementary.cpp\<close> and \<^verbatim>\<open>forte_bool.cpp\<close>.

  A source is a C string without its terminator; a read behind its end gives 0. \<open>fromString\<close> returns
  the number of characters taken, or - 1, and the bits of the object afterwards; the second component
  of \<open>toString\<close> is every byte that is written, from the start of the buffer on. Buffers are smaller than
  $2^{31}$ bytes.
\<close>

section \<open>The types\<close>

text \<open>Whether the type is signed, its smallest and its largest number; \<open>None\<close> for all types that
  \<open>CIEC_ANY_ELEMENTARY\<close> does not convert itself.\<close>

fun int_range :: "EDataTypeID \<Rightarrow> (bool \<times> int \<times> int) option" where
  "int_range e_SINT = Some (True, - (2 ^ 7), 2 ^ 7 - 1)"
| "int_range e_INT = Some (True, - (2 ^ 15), 2 ^ 15 - 1)"
| "int_range e_DINT = Some (True, - (2 ^ 31), 2 ^ 31 - 1)"
| "int_range e_LINT = Some (True, - (2 ^ 63), 2 ^ 63 - 1)"
| "int_range e_USINT = Some (False, 0, 2 ^ 8 - 1)"
| "int_range e_BYTE = Some (False, 0, 2 ^ 8 - 1)"
| "int_range e_UINT = Some (False, 0, 2 ^ 16 - 1)"
| "int_range e_WORD = Some (False, 0, 2 ^ 16 - 1)"
| "int_range e_UDINT = Some (False, 0, 2 ^ 32 - 1)"
| "int_range e_DWORD = Some (False, 0, 2 ^ 32 - 1)"
| "int_range e_ULINT = Some (False, 0, 2 ^ 64 - 1)"
| "int_range e_LWORD = Some (False, 0, 2 ^ 64 - 1)"
| "int_range _ = None"

text \<open>The names of the types (\<open>scm_anTypeNameStringIds\<close>); a type without a name has the invalid id.\<close>

fun type_name_text :: "EDataTypeID \<Rightarrow> string" where
  "type_name_text e_ANY = ''ANY''" | "type_name_text e_BOOL = ''BOOL''"
| "type_name_text e_SINT = ''SINT''" | "type_name_text e_INT = ''INT''"
| "type_name_text e_DINT = ''DINT''" | "type_name_text e_LINT = ''LINT''"
| "type_name_text e_USINT = ''USINT''" | "type_name_text e_UINT = ''UINT''"
| "type_name_text e_UDINT = ''UDINT''" | "type_name_text e_ULINT = ''ULINT''"
| "type_name_text e_BYTE = ''BYTE''" | "type_name_text e_WORD = ''WORD''"
| "type_name_text e_DWORD = ''DWORD''" | "type_name_text e_LWORD = ''LWORD''"
| "type_name_text e_DATE = ''DATE''" | "type_name_text e_TIME_OF_DAY = ''TIME_OF_DAY''"
| "type_name_text e_DATE_AND_TIME = ''DATE_AND_TIME''" | "type_name_text e_TIME = ''TIME''"
| "type_name_text e_REAL = ''REAL''" | "type_name_text e_LREAL = ''LREAL''"
| "type_name_text e_STRING = ''STRING''" | "type_name_text e_WSTRING = ''WSTRING''"
| "type_name_text _ = ''''"

definition ascii :: "string \<Rightarrow> u8 list" where
  "ascii s = map (\<lambda>c. of_nat (of_char c)) s"

definition name_of :: "u8 list \<Rightarrow> TStringId" where
  "name_of s = map (\<lambda>b. char_of (unat b)) s"

definition char_at :: "u8 list \<Rightarrow> nat \<Rightarrow> u8" where
  "char_at s i = (if i < length s then s ! i else 0)"

section \<open>Reading\<close>

definition scm_nMaxTypeNameLength :: nat where
  "scm_nMaxTypeNameLength = 14"

text \<open>\<open>checkTypeSpec\<close> for the part before the hash: the number of characters to skip.\<close>

definition checkTypeSpec :: "EDataTypeID \<Rightarrow> u8 list \<Rightarrow> nat option" where
  "checkTypeSpec t s =
     (let name = takeWhile (\<lambda>c. c \<noteq> 35) s
      in if length name < scm_nMaxTypeNameLength \<and> name \<noteq> [] \<and> name = ascii (type_name_text t)
         then Some (length name) else None)"

text \<open>The prefix that names the base: the base, and the characters it takes.\<close>

definition base_prefix :: "u8 list \<Rightarrow> (int \<times> nat) option" where
  "base_prefix s =
     (if char_at s 1 = 35 then
        (if char_at s 0 = 50 then Some (2, 2) else if char_at s 0 = 56 then Some (8, 2) else None)
      else if char_at s 1 \<noteq> 0 \<and> char_at s 2 = 35 then
        (if char_at s 0 = 49 then
           (if char_at s 1 = 54 then Some (16, 3) else if char_at s 1 = 48 then Some (10, 3) else None)
         else None)
      else Some (10, 0))"

definition elem_fromString :: "EDataTypeID \<Rightarrow> u8 list \<Rightarrow> u64 \<Rightarrow> int \<times> u64" where
  "elem_fromString t s w =
     (if s = [] then (- 1, w)
      else case (if 35 \<in> set s \<and> \<not> isDigit (hd s) then map_option Suc (checkTypeSpec t s) else Some 0) of
        None \<Rightarrow> (- 1, w)
      | Some k \<Rightarrow>
          (case base_prefix (drop k s) of
             None \<Rightarrow> (- 1, w)
           | Some (base, j) \<Rightarrow>
               let s2 = drop j (drop k s);
                   used = (\<lambda>rest. if length s - length rest = 0 then - 1 else int (length s - length rest))
               in case int_range t of
                    None \<Rightarrow> (0, w)
                  | Some (sg, lo, hi) \<Rightarrow>
                      if sg \<and> base = 10 then
                        (case strtoll base s2 of (v, rest, err) \<Rightarrow>
                           if \<not> err \<and> v \<le> hi \<and> lo \<le> v then (used rest, word_of_int v) else (- 1, w))
                      else if char_at s2 0 \<noteq> 45 then
                        (case strtoull base s2 of (v, rest, err) \<Rightarrow>
                           if \<not> err \<and> v \<le> (if sg then 2 * hi + 1 else hi)
                           then (used rest, word_of_int v) else (- 1, w))
                      else (- 1, w)))"

definition lower :: "u8 \<Rightarrow> u8" where
  "lower c = (if 65 \<le> c \<and> c \<le> 90 then c + 32 else c)"

definition bool_fromString :: "u8 list \<Rightarrow> u64 \<Rightarrow> int \<times> u64" where
  "bool_fromString s w =
     (let k = (if take 5 s = ascii ''BOOL#'' then 5 else 0); s1 = drop k s
      in if char_at s1 0 = 49 then (int k + 1, 1)
         else if char_at s1 0 = 48 then (int k + 1, 0)
         else if map lower (take 4 s1) = ascii ''true'' then (int k + 4, 1)
         else if map lower (take 5 s1) = ascii ''false'' then (int k + 5, 0)
         else (- 1, w))"

section \<open>Writing\<close>

definition digit :: "nat \<Rightarrow> u8" where
  "digit n = 48 + of_nat n"

function print_digits :: "nat \<Rightarrow> nat \<Rightarrow> bool \<Rightarrow> u8 list \<Rightarrow> nat \<Rightarrow> int \<times> u8 list" where
  "print_digits n d leading out cap =
     (if d \<le> 1 then
        (if cap \<le> length out then (- 1, out)
         else if cap \<le> Suc (length out) then (- 1, out @ [digit (n div d)])
         else (int (Suc (length out)), out @ [digit (n div d), 0]))
      else if n div d = 0 \<and> leading then print_digits n (d div 10) True out cap
      else if cap \<le> length out then (- 1, out)
      else print_digits (n - (n div d) * d) (d div 10) False (out @ [digit (n div d)]) cap)"
  by pat_completeness auto

termination print_digits
  by (relation "measure (\<lambda>(n, d, leading, out, cap). d)") auto

declare print_digits.simps [simp del]

fun first_divisor :: "EDataTypeID \<Rightarrow> nat" where
  "first_divisor e_SINT = 10 ^ 2" | "first_divisor e_USINT = 10 ^ 2" | "first_divisor e_BYTE = 10 ^ 2"
| "first_divisor e_INT = 10 ^ 4" | "first_divisor e_UINT = 10 ^ 4" | "first_divisor e_WORD = 10 ^ 4"
| "first_divisor e_DINT = 10 ^ 9" | "first_divisor e_UDINT = 10 ^ 9" | "first_divisor e_DWORD = 10 ^ 9"
| "first_divisor e_LINT = 10 ^ 18"
| "first_divisor e_ULINT = 10 ^ 19" | "first_divisor e_LWORD = 10 ^ 19"
| "first_divisor _ = 0"

text \<open>The types that are left to \<open>CIEC_ANY\<close> write the text of an ANY object.\<close>

definition any_text :: "u8 list" where
  "any_text = ascii ''ND (ANY)''"

definition any_toString :: "nat \<Rightarrow> int \<times> u8 list" where
  "any_toString cap =
     (if length any_text + 1 \<le> cap then (int (length any_text), any_text @ [0]) else (- 1, []))"

definition elem_toString :: "EDataTypeID \<Rightarrow> u64 \<Rightarrow> nat \<Rightarrow> int \<times> u8 list" where
  "elem_toString t w cap =
     (case int_range t of
        None \<Rightarrow> any_toString cap
      | Some (sg, lo, hi) \<Rightarrow>
          let v = elem_int t w
          in if sg \<and> v < 0 then
               (if cap = 0 then (- 1, []) else print_digits (nat (- v)) (first_divisor t) True [45] cap)
             else print_digits (nat v) (first_divisor t) True [] cap)"

text \<open>The sizes of the buffers that callers use (\<open>csm_aStringBufferSize\<close>).\<close>

fun getToStringBufferSize :: "EDataTypeID \<Rightarrow> nat" where
  "getToStringBufferSize e_ANY = 9" | "getToStringBufferSize e_BOOL = 6"
| "getToStringBufferSize e_SINT = 5" | "getToStringBufferSize e_INT = 7"
| "getToStringBufferSize e_DINT = 12" | "getToStringBufferSize e_LINT = 21"
| "getToStringBufferSize e_USINT = 5" | "getToStringBufferSize e_UINT = 7"
| "getToStringBufferSize e_UDINT = 12" | "getToStringBufferSize e_ULINT = 22"
| "getToStringBufferSize e_BYTE = 9" | "getToStringBufferSize e_WORD = 17"
| "getToStringBufferSize e_DWORD = 33" | "getToStringBufferSize e_LWORD = 65"
| "getToStringBufferSize e_DATE = 11" | "getToStringBufferSize e_TIME_OF_DAY = 9"
| "getToStringBufferSize e_DATE_AND_TIME = 20" | "getToStringBufferSize e_TIME = 27"
| "getToStringBufferSize e_REAL = 14" | "getToStringBufferSize e_LREAL = 23"
| "getToStringBufferSize e_STRING = 8" | "getToStringBufferSize e_WSTRING = 16"
| "getToStringBufferSize _ = 0"


definition bool_toString :: "u64 \<Rightarrow> nat \<Rightarrow> int \<times> u8 list" where
  "bool_toString w cap =
     (if getToStringBufferSize e_BOOL \<le> cap then
        (if getTBOOL8 w then (4, ascii ''TRUE'' @ [0]) else (5, ascii ''FALSE'' @ [0]))
      else (- 1, []))"

section \<open>The digits of a number\<close>

text \<open>The last \<open>k + 1\<close> digits of a number, and the position of its first digit among them.\<close>

fun digits :: "nat \<Rightarrow> nat \<Rightarrow> u8 list" where
  "digits 0 n = [digit n]"
| "digits (Suc k) n = digit (n div 10 ^ Suc k) # digits k (n mod 10 ^ Suc k)"

fun first_digit :: "nat \<Rightarrow> nat \<Rightarrow> nat" where
  "first_digit 0 n = 0"
| "first_digit (Suc k) n = (if n div 10 ^ Suc k = 0 then first_digit k n else Suc k)"

lemma length_digits [simp]: "length (digits k n) = Suc k"
  by (induction k n rule: digits.induct) simp_all

lemma digit_char:
  assumes "n < 10"
  shows "isDigit (digit n)" "uint (charHexDigitToInt (digit n)) = int n"
    "digit n \<noteq> 35" "digit n \<noteq> 45"
proof -
  have "n = 0 \<or> n = 1 \<or> n = 2 \<or> n = 3 \<or> n = 4 \<or> n = 5 \<or> n = 6 \<or> n = 7 \<or> n = 8 \<or> n = 9"
    using assms by arith
  then show "isDigit (digit n)" "uint (charHexDigitToInt (digit n)) = int n"
    "digit n \<noteq> 35" "digit n \<noteq> 45"
    by (elim disjE; simp add: digit_def isDigit_def charHexDigitToInt_def)+
qed

lemma digits_are_digits:
  "n < 10 ^ Suc k \<Longrightarrow> \<forall>d \<in> set (digits k n). is_digit_of 10 d \<and> d \<noteq> 35 \<and> d \<noteq> 45"
proof (induction k n rule: digits.induct)
  case (1 n)
  then show ?case using digit_char [of n] by (simp add: is_digit_of_def)
next
  case (2 k n)
  have "n div 10 ^ Suc k < 10" using "2.prems" by (simp add: less_mult_imp_div_less ac_simps)
  moreover have "n mod 10 ^ Suc k < 10 ^ Suc k" by simp
  ultimately show ?case
    using "2.IH" digit_char [of "n div 10 ^ Suc k"] by (simp add: is_digit_of_def del: power_Suc)
qed

lemma digits_value_digits:
  "n < 10 ^ Suc k \<Longrightarrow> digits_value 10 acc (digits k n) = acc * 10 ^ Suc k + int n"
proof (induction k n arbitrary: acc rule: digits.induct)
  case (1 n)
  then show ?case by (simp add: digit_char)
next
  case (2 k n)
  define P q r where "P = (10::int) ^ Suc k" and "q = n div 10 ^ Suc k" and "r = n mod 10 ^ Suc k"
  have q: "q < 10" using "2.prems" by (simp add: q_def less_mult_imp_div_less ac_simps)
  have r: "r < 10 ^ Suc k" by (simp add: r_def)
  have "n = q * 10 ^ Suc k + r" by (simp add: q_def r_def div_mult_mod_eq del: power_Suc)
  then have n: "int n = int q * P + int r" by (simp add: P_def del: power_Suc)
  have "digits_value 10 acc (digits (Suc k) n) = digits_value 10 (10 * acc + int q) (digits k r)"
    using q by (simp add: digit_char q_def r_def del: power_Suc)
  also have "\<dots> = (10 * acc + int q) * P + int r"
    using "2.IH" [of "10 * acc + int q"] r by (simp add: P_def r_def del: power_Suc)
  also have "\<dots> = acc * (10 * P) + int n" by (simp add: n distrib_right)
  finally show ?case by (simp add: P_def)
qed

lemma print_digits_plain:
  assumes "n < 10 ^ Suc k" and "length out \<le> cap"
  shows "Suc (length out + k) < cap \<Longrightarrow>
      print_digits n (10 ^ k) False out cap = (int (Suc (length out + k)), out @ digits k n @ [0])"
    and "cap \<le> Suc (length out + k) \<Longrightarrow> fst (print_digits n (10 ^ k) False out cap) = - 1"
    and "length (snd (print_digits n (10 ^ k) False out cap)) \<le> cap"
proof -
  have "(Suc (length out + k) < cap \<longrightarrow>
      print_digits n (10 ^ k) False out cap = (int (Suc (length out + k)), out @ digits k n @ [0])) \<and>
    (cap \<le> Suc (length out + k) \<longrightarrow> fst (print_digits n (10 ^ k) False out cap) = - 1) \<and>
    length (snd (print_digits n (10 ^ k) False out cap)) \<le> cap"
    using assms
  proof (induction k arbitrary: n out)
    case 0
    then show ?case by (auto simp: print_digits.simps [of n "Suc 0"])
  next
    case (Suc k)
    have big: "\<not> (10::nat) ^ Suc k \<le> 1" using one_less_power [of "10::nat" "Suc k"] by simp
    have "n - n div 10 ^ Suc k * 10 ^ Suc k = n mod 10 ^ Suc k"
      by (simp add: minus_div_mult_eq_mod)
    then have step: "print_digits n (10 ^ Suc k) False out cap =
        (if cap \<le> length out then (- 1, out)
         else print_digits (n mod 10 ^ Suc k) (10 ^ k) False (out @ [digit (n div 10 ^ Suc k)]) cap)"
      using big by (subst print_digits.simps) (simp del: power_Suc add: power_Suc [of "10::nat" k, symmetric], simp)
    show ?case
    proof (cases "cap \<le> length out")
      case True
      then show ?thesis using step Suc.prems(2) by simp
    next
      case False
      then show ?thesis
        using step Suc.IH [of "n mod 10 ^ Suc k" "out @ [digit (n div 10 ^ Suc k)]"] by (simp del: power_Suc)
    qed
  qed
  then show "Suc (length out + k) < cap \<Longrightarrow>
      print_digits n (10 ^ k) False out cap = (int (Suc (length out + k)), out @ digits k n @ [0])"
    and "cap \<le> Suc (length out + k) \<Longrightarrow> fst (print_digits n (10 ^ k) False out cap) = - 1"
    and "length (snd (print_digits n (10 ^ k) False out cap)) \<le> cap" by blast+
qed

lemma print_digits_leading:
  "print_digits n (10 ^ k) True out cap = print_digits n (10 ^ first_digit k n) False out cap"
proof (induction k)
  case 0
  then show ?case by (simp add: print_digits.simps [of n "Suc 0"])
next
  case (Suc k)
  have big: "\<not> (10::nat) ^ Suc k \<le> 1" using one_less_power [of "10::nat" "Suc k"] by simp
  have div: "(10::nat) ^ Suc k div 10 = 10 ^ k" by simp
  show ?case
    using Suc big div by (simp add: print_digits.simps [of n "10 ^ Suc k"] del: power_Suc)
qed

lemma first_digit_bound: "n < 10 ^ Suc k \<Longrightarrow> n < 10 ^ Suc (first_digit k n) \<and> first_digit k n \<le> k"
proof (induction k)
  case (Suc k)
  then show ?case
    by (auto simp: div_eq_0_iff simp del: power_Suc)
qed simp


text \<open>A number never takes more digits than the first divisor stands for, and the buffers have room for them.\<close>

definition last_power :: "EDataTypeID \<Rightarrow> nat" where
  "last_power t = (if t \<in> {e_SINT, e_USINT, e_BYTE} then 2 else if t \<in> {e_INT, e_UINT, e_WORD} then 4
     else if t \<in> {e_DINT, e_UDINT, e_DWORD} then 9 else if t = e_LINT then 18 else 19)"

lemma type_digits:
  assumes "int_range t = Some (sg, lo, hi)"
  shows "first_divisor t = 10 ^ last_power t" and "hi < 10 ^ Suc (last_power t)" and "- lo < 10 ^ Suc (last_power t)"
    and "last_power t + (if sg then 3 else 2) \<le> getToStringBufferSize t" and "0 \<le> hi" and "\<not> sg \<Longrightarrow> lo = 0"
    and "hi < 2 ^ 64" and "sg \<Longrightarrow> lo < 0 \<and> - (2 ^ 63) \<le> lo \<and> hi < 2 ^ 63"
  using assms by (cases t; auto simp: last_power_def)+

lemma elem_int_range:
  assumes "int_range t = Some (sg, lo, hi)"
  shows "lo \<le> elem_int t w" and "elem_int t w \<le> hi"
  using assms sint_ge [of "ucast w :: u8"] sint_lt [of "ucast w :: u8"] sint_ge [of "ucast w :: u16"] sint_lt [of "ucast w :: u16"] sint_ge [of "ucast w :: u32"] sint_lt [of "ucast w :: u32"]
    sint_ge [of w] sint_lt [of w]
    uint_lt2p [of "ucast w :: u8"] uint_lt2p [of "ucast w :: u16"] uint_lt2p [of "ucast w :: u32"] uint_lt2p [of w]
  by (cases t; auto)+

lemma ucast_word_of_int:
  "ucast (word_of_int v :: u64) = (word_of_int v :: u8)" "ucast (word_of_int v :: u64) = (word_of_int v :: u16)"
  "ucast (word_of_int v :: u64) = (word_of_int v :: u32)"
  by (transfer; simp add: min_def)+

lemma elem_int_word_of_int:
  assumes "int_range t = Some (sg, lo, hi)" and "lo \<le> v" and "v \<le> hi"
  shows "elem_int t (word_of_int v) = v"
  using assms
  by (cases t; auto simp: ucast_word_of_int sint_sbintrunc' signed_take_bit_int_eq_self_iff uint_word_of_int)

section \<open>Numbers as text\<close>

definition number_text :: "EDataTypeID \<Rightarrow> int \<Rightarrow> u8 list" where
  "number_text t v = (if v < 0 then [45] else []) @ digits (first_digit (last_power t) (nat \<bar>v\<bar>)) (nat \<bar>v\<bar>)"

text \<open>The digits of a number that is in the range of its type.\<close>

lemma number_digits:
  assumes "int_range t = Some (sg, lo, hi)" and "lo \<le> v" and "v \<le> hi"
  defines "n \<equiv> nat \<bar>v\<bar>" and "k \<equiv> first_digit (last_power t) (nat \<bar>v\<bar>)"
  shows "n < 10 ^ Suc k" and "k \<le> last_power t" and "n < 10 ^ Suc (last_power t)"
proof -
  have "\<bar>v\<bar> < 10 ^ Suc (last_power t)"
    using type_digits(2,3) [OF assms(1)] assms(2,3) by linarith
  then show n: "n < 10 ^ Suc (last_power t)"
    unfolding n_def by (simp add: nat_less_iff del: power_Suc)
  show "n < 10 ^ Suc k" "k \<le> last_power t"
    using first_digit_bound [OF n] by (simp_all add: n_def k_def)
qed

text \<open>What \<open>toString\<close> writes into a buffer of any size.\<close>

lemma elem_toString_cap:
  assumes t: "int_range t = Some (sg, lo, hi)"
  shows "length (number_text t (elem_int t w)) < cap \<Longrightarrow> elem_toString t w cap =
      (int (length (number_text t (elem_int t w))), number_text t (elem_int t w) @ [0])" (is "?fits \<Longrightarrow> ?out")
    and "cap \<le> length (number_text t (elem_int t w)) \<Longrightarrow> fst (elem_toString t w cap) = - 1"
    and "length (snd (elem_toString t w cap)) \<le> cap"
proof -
  define v n k where "v = elem_int t w" and "n = nat \<bar>v\<bar>" and "k = first_digit (last_power t) n"
  define out where "out = (if v < 0 then [45::u8] else [])"
  note range = elem_int_range [OF t, of w, folded v_def]
  note nk = number_digits [OF t range, folded n_def, folded k_def]
  have tx: "number_text t v = out @ digits k n"
    by (simp add: number_text_def n_def k_def out_def)
  have sg: "0 \<le> v" if "\<not> sg" using type_digits(6) [OF t that] range by simp
  have run: "elem_toString t w cap = (if cap < length out then (- 1, []) else print_digits n (10 ^ k) False out cap)"
    using sg t by (auto simp: elem_toString_def v_def [symmetric] n_def out_def type_digits(1) [OF t] k_def print_digits_leading)
  note plain = print_digits_plain [OF nk(1), of out cap]
  show ?out if ?fits
    using that plain(1) by (simp add: run tx v_def [symmetric])
  show "fst (elem_toString t w cap) = - 1" if "cap \<le> length (number_text t (elem_int t w))"
    using that plain(2) by (simp add: run tx v_def [symmetric])
  show "length (snd (elem_toString t w cap)) \<le> cap"
    using plain(3) by (simp add: run)
qed

lemma number_text_fits:
  assumes t: "int_range t = Some (sg, lo, hi)"
  shows "length (number_text t (elem_int t w)) < getToStringBufferSize t"
  using number_digits(2) [OF t elem_int_range [OF t, of w]] type_digits(4,6) [OF t] elem_int_range(1) [OF t, of w]
  by (auto simp: number_text_def split: if_splits)

lemma base_prefix_none: "35 \<notin> set s \<Longrightarrow> base_prefix s = Some (10, 0)"
  by (auto simp: base_prefix_def char_at_def in_set_conv_nth)

lemma elem_fromString_number:
  assumes t: "int_range t = Some (sg, lo, hi)" and v: "lo \<le> v" "v \<le> hi"
    and rest: "ends_number 10 rest" "35 \<notin> set rest"
  shows "elem_fromString t (number_text t v @ rest) w = (int (length (number_text t v)), word_of_int v)"
proof -
  define n k where "n = nat \<bar>v\<bar>" and "k = first_digit (last_power t) n"
  note nk = number_digits [OF t v, folded n_def, folded k_def]
  have tx: "number_text t v = (if v < 0 then [45] else []) @ digits k n"
    by (simp add: number_text_def n_def k_def)
  have ds: "\<forall>d \<in> set (digits k n). is_digit_of 10 d" "35 \<notin> set (digits k n)" "45 \<notin> set (digits k n)"
    using digits_are_digits [OF nk(1)] by auto
  have hash: "35 \<notin> set (number_text t v @ rest)" using ds rest by (simp add: tx)
  have val: "digits_value 10 0 (digits k n) = \<bar>v\<bar>"
    using digits_value_digits [OF nk(1), of 0] by (simp add: n_def)
  have ne: "digits k n \<noteq> []" using length_digits [of k n] by (cases "digits k n") auto
  then have hd: "char_at (digits k n @ rest) 0 \<noteq> 45"
    using ds(3) by (cases "digits k n") (auto simp: char_at_def)
  show ?thesis
  proof (cases sg)
    case True
    note b = type_digits(8) [OF t True]
    have "strtoll 10 (number_text t v @ rest) = (v, rest, False)"
      using read_signed_digits [of 10 "digits k n" rest "- (2 ^ 63)" "2 ^ 63 - 1"] ds(1) rest(1) ne val v b
      by (auto simp: strtoll_def tx)
    then show ?thesis
      using True t v hash ne by (simp add: elem_fromString_def base_prefix_none tx)
  next
    case False
    then have pos: "0 \<le> v" using type_digits(6) [OF t False] v by simp
    have "strtoull 10 (digits k n @ rest) = (v, rest, False)"
      using read_unsigned_digits(1) [of 10 "digits k n" rest "2 ^ 64 - 1"] ds(1) rest(1) val v pos type_digits(7) [OF t]
      by (simp add: strtoull_def)
    then show ?thesis
      using False t v hash hd pos ne by (simp add: elem_fromString_def base_prefix_none tx)
  qed
qed

section \<open>The properties\<close>

text \<open>
  C31. \<open>toString\<close> of an integer or bit string writes the number into a buffer of the size that the type
  asks for, and \<open>fromString\<close> reads it back from there, whatever text follows, unless the text goes on
  with a digit or has a hash in it.
\<close>

theorem number_text_roundtrip:
  assumes "int_range t = Some r" and "getToStringBufferSize t \<le> cap"
    and "ends_number 10 rest" and "35 \<notin> set rest"
  shows "\<exists>txt. elem_toString t w cap = (int (length txt), txt @ [0]) \<and>
    (\<exists>w'. elem_fromString t (txt @ rest) w0 = (int (length txt), w') \<and> elem_int t w' = elem_int t w)"
proof -
  obtain sg lo hi where t: "int_range t = Some (sg, lo, hi)" using assms(1) by (cases r) auto
  note range = elem_int_range [OF t, of w]
  have "length (number_text t (elem_int t w)) < cap" using number_text_fits [OF t] assms(2) order_less_le_trans by blast
  then show ?thesis
    using elem_toString_cap(1) [OF t] elem_fromString_number [OF t range assms(3,4)] elem_int_word_of_int [OF t range] by metis
qed

theorem number_text_roundtrip_witness:
  "\<exists>txt. elem_toString e_INT (word_of_int (- 305)) 7 = (int (length txt), txt @ [0]) \<and>
    (\<exists>w'. elem_fromString e_INT (txt @ [44, 55]) 0 = (int (length txt), w') \<and> elem_int e_INT w' = - 305)"
proof -
  have "elem_int e_INT (word_of_int (- 305)) = - 305" by code_simp
  then show ?thesis
    using number_text_roundtrip [of e_INT _ 7 "[44, 55]" "word_of_int (- 305)" 0]
    by (simp add: ends_number_def isDigit_def)
qed

text \<open>
  Whatever the size of its buffer, \<open>toString\<close> never writes behind it; it answers - 1 exactly when the
  text and its terminator have no room.
\<close>

theorem toString_stays_in_buffer:
  "length (snd (elem_toString t w cap)) \<le> cap \<and> length (snd (bool_toString w cap)) \<le> cap \<and>
   (fst (elem_toString t w cap) = - 1 \<longleftrightarrow>
    cap \<le> length (if int_range t = None then any_text else number_text t (elem_int t w)))"
proof -
  have "length (snd (elem_toString t w cap)) \<le> cap \<and>
    (fst (elem_toString t w cap) = - 1 \<longleftrightarrow>
     cap \<le> length (if int_range t = None then any_text else number_text t (elem_int t w)))"
  proof (cases "int_range t")
    case None
    then show ?thesis by (auto simp: elem_toString_def any_toString_def)
  next
    case (Some r)
    obtain sg lo hi where t: "int_range t = Some (sg, lo, hi)" using Some by (cases r) auto
    have "fst (elem_toString t w cap) = - 1 \<longleftrightarrow> cap \<le> length (number_text t (elem_int t w))"
      using elem_toString_cap(1,2) [OF t, where w = w and cap = cap] by (cases "cap \<le> length (number_text t (elem_int t w))") auto
    then show ?thesis using elem_toString_cap(3) [OF t] t by simp
  qed
  moreover have "length (snd (bool_toString w cap)) \<le> cap"
    by (simp add: bool_toString_def ascii_def)
  ultimately show ?thesis by blast
qed

text \<open>
  A sequence of decimal digits is read as the number it stands for exactly when the type can hold
  this number; otherwise the answer is - 1 and the value is kept.
\<close>

theorem decimal_text_bounds:
  assumes t: "int_range t = Some (sg, lo, hi)" and ds: "ds \<noteq> []" "\<forall>d \<in> set ds. is_digit_of 10 d"
    and rest: "ends_number 10 rest" "35 \<notin> set rest"
  shows "elem_fromString t (ds @ rest) w =
    (if digits_value 10 0 ds \<le> hi then (int (length ds), word_of_int (digits_value 10 0 ds)) else (- 1, w))"
proof -
  let ?V = "digits_value 10 0 ds"
  have pos: "0 \<le> ?V" using digits_value_ge [of 10 0 ds] by simp
  have "\<forall>d \<in> set ds. d \<noteq> 35 \<and> d \<noteq> 45" using ds(2) by (auto simp: is_digit_of_def isDigit_def)
  then have hash: "35 \<notin> set (ds @ rest)" and hd: "char_at (ds @ rest) 0 \<noteq> 45"
    using rest ds(1) by (auto simp: char_at_def neq_Nil_conv)
  note b = type_digits(5,7) [OF t]
  show ?thesis
  proof (cases sg)
    case True
    note s = type_digits(8) [OF t True]
    show ?thesis
    proof (cases "?V \<le> 2 ^ 63 - 1")
      case True
      then have "strtoll 10 (ds @ rest) = (?V, rest, False)"
        using read_signed_digits(1) [of 10 ds rest "- (2 ^ 63)" "2 ^ 63 - 1"] ds rest by (simp add: strtoll_def)
      then show ?thesis
        using \<open>sg\<close> t hash ds pos s by (auto simp: elem_fromString_def base_prefix_none)
    next
      case False
      then obtain rest' where "strtoll 10 (ds @ rest) = (2 ^ 63 - 1, rest', True)"
        using read_signed_overflow [of 10 ds "2 ^ 63 - 1" "- (2 ^ 63)" rest] ds by (auto simp: strtoll_def)
      then show ?thesis
        using \<open>sg\<close> t hash ds s False by (auto simp: elem_fromString_def base_prefix_none)
    qed
  next
    case False
    show ?thesis
    proof (cases "?V \<le> 2 ^ 64 - 1")
      case True
      then have "strtoull 10 (ds @ rest) = (?V, rest, False)"
        using read_unsigned_digits(1) [of 10 ds rest "2 ^ 64 - 1"] ds rest by (simp add: strtoull_def)
      then show ?thesis
        using \<open>\<not> sg\<close> t hash hd ds pos by (auto simp: elem_fromString_def base_prefix_none)
    next
      case False
      then obtain rest' where "strtoull 10 (ds @ rest) = (2 ^ 64 - 1, rest', True)"
        using read_unsigned_digits(2) [of 10 ds rest "2 ^ 64 - 1"] ds rest by (auto simp: strtoull_def)
      then show ?thesis
        using \<open>\<not> sg\<close> t hash hd ds b False by (auto simp: elem_fromString_def base_prefix_none)
    qed
  qed
qed

theorem decimal_text_bounds_witness:
  "elem_fromString e_USINT [50, 53, 54, 44] 7 = (- 1, 7) \<and> elem_fromString e_USINT [50, 53, 53, 44] 7 = (3, 255)"
  using decimal_text_bounds [of e_USINT False 0 255 "[50, 53, 54]" "[44]" 7]
    decimal_text_bounds [of e_USINT False 0 255 "[50, 53, 53]" "[44]" 7]
  by (simp add: ends_number_def isDigit_def is_digit_of_def charHexDigitToInt_def)

text \<open>A negative number is refused when a hash follows somewhere behind it, and a prefix without a number
  is read as 0.\<close>

lemma hash_behind_number:
  "elem_fromString e_INT (ascii ''-5'') 7 = (2, word_of_int (- 5)) \<and>
   elem_fromString e_INT (ascii ''-5,16#A]'') 7 = (- 1, 7) \<and> elem_fromString e_INT (ascii ''16#'') 7 = (3, 0)"
  by code_simp

text \<open>BOOL values are read back from their text.\<close>

lemma bool_text_roundtrip:
  "6 \<le> cap \<Longrightarrow> \<exists>txt. bool_toString w cap = (int (length txt), txt @ [0]) \<and>
     (\<exists>w'. bool_fromString (txt @ rest) w0 = (int (length txt), w') \<and> getTBOOL8 w' = getTBOOL8 w)"
  by (cases "getTBOOL8 w")
     (auto simp: bool_toString_def bool_fromString_def ascii_def char_at_def lower_def getTBOOL8_def Let_def intro!: exI)

end
