(* ===== verification/Mgm_Parser.thy ===== *)
theory Mgm_Parser
  imports Resource Elementary_Text
begin

text \<open>
  The parser for the management commands, \<^verbatim>\<open>src/src/stdfblib/ita/DEV_MGR.{h,cpp}\<close>, built with
  \<open>FORTE_SUPPORT_QUERY_CMD\<close> and \<open>FORTE_SUPPORT_MONITORING\<close> and without \<open>FORTE_DYNAMIC_TYPE_LOAD\<close>.

  A request is a C string: the list of its characters up to the terminator. A position in it is the
  list of the characters from there on. A function that would look behind the terminator has the value
  \<open>None\<close>. Names stand for their ids; \<open>mx\<close> is the number of names that fit into a name list
  (\<open>FORTE_MGM_MAX_SUPPORTED_NAME_HIERARCHY\<close>).
\<close>

section \<open>C strings\<close>

definition has_prefix :: "string \<Rightarrow> u8 list \<Rightarrow> bool" where
  "has_prefix p s \<longleftrightarrow> take (length p) s = ascii p"

definition strchr :: "u8 \<Rightarrow> u8 list \<Rightarrow> u8 list option" where
  "strchr c s = (case dropWhile (\<lambda>x. x \<noteq> c) s of [] \<Rightarrow> None | t \<Rightarrow> Some t)"

definition strstr :: "u8 list \<Rightarrow> u8 list \<Rightarrow> u8 list option" where
  "strstr s p = map_option (\<lambda>n. drop n s) (find (\<lambda>n. take (length p) (drop n s) = p) [0..<Suc (length s)])"

text \<open>Moving a position forward by \<open>n\<close>; it may reach the terminator but not pass it.\<close>

definition advance :: "nat \<Rightarrow> u8 list \<Rightarrow> u8 list option" where
  "advance n s = (if n \<le> length s then Some (drop n s) else None)"

text \<open>\<open>assign\<close> takes the length as 16 bits.\<close>

definition assign_text :: "u8 list \<Rightarrow> nat \<Rightarrow> u8 list" where
  "assign_text s n = take (n mod 2 ^ 16) (s @ [0])"

section \<open>Names\<close>

text \<open>
  The names up to the closing quote are added to the list; the result is the position of the quote,
  or \<open>None\<close> when there is none or the list is full. \<open>cur\<close> is the part of a name that has been read.
\<close>

fun parse_names :: "nat \<Rightarrow> u8 list \<Rightarrow> u8 list \<Rightarrow> nat \<Rightarrow> TStringId list \<Rightarrow> nat option \<times> TStringId list" where
  "parse_names mx cur [] i ns = (None, ns)"
| "parse_names mx cur (c # cs) i ns =
     (if c = 46 then
        (if length ns < mx then parse_names mx [] cs (Suc i) (ns @ [name_of cur]) else (None, ns))
      else if c = 34 then (if length ns < mx then (Some i, ns @ [name_of cur]) else (None, ns))
      else parse_names mx (cur @ [c]) cs (Suc i) ns)"

definition parseIdentifier :: "nat \<Rightarrow> u8 list \<Rightarrow> TStringId list \<Rightarrow> nat option \<times> TStringId list" where
  "parseIdentifier mx s ns = parse_names mx [] s 0 ns"

section \<open>The head of a request\<close>

definition command_table :: "(string \<times> EMGMCommandType \<times> nat) list" where
  "command_table =
     [(''CREATE'', cg_nMGM_CMD_Create_Group, 7), (''DELETE'', cg_nMGM_CMD_Delete_Group, 7),
      (''START'', cg_nMGM_CMD_Start, 6), (''STOP'', cg_nMGM_CMD_Stop, 5), (''KILL'', cg_nMGM_CMD_Kill, 5),
      (''RESET'', cg_nMGM_CMD_Reset, 6), (''READ'', cg_nMGM_CMD_Read, 5), (''WRITE'', cg_nMGM_CMD_Write, 6),
      (''QUERY'', cg_nMGM_CMD_Query_Group, 6)]"

text \<open>The text of the ID, if \<open>mID\<close> is set, and the command with the text behind it. An ID has at most 7
  characters; one that is longer is not terminated.\<close>

definition parseRequest :: "u8 list \<Rightarrow> (u8 list option \<times> (EMGMCommandType \<times> u8 list) option) option" where
  "parseRequest s =
     (if has_prefix ''<Request ID=\"'' s then
        let b = drop 13 s; n = length (takeWhile (\<lambda>c. c \<noteq> 34) b)
        in if n = length b \<and> n < 7 then None
           else if n = length b \<or> 7 < n then Some (Some b, None)
           else
             (case strchr 34 (drop (Suc n) b) of
                None \<Rightarrow> Some (Some (take n b), None)
              | Some q \<Rightarrow>
                  (case find (\<lambda>(p, _). has_prefix p (tl q)) command_table of
                     None \<Rightarrow> Some (Some (take n b), None)
                   | Some (p, cmd, k) \<Rightarrow>
                       map_option (\<lambda>r. (Some (take n b), Some (cmd, r))) (advance k (tl q))))
      else Some (None, None))"

section \<open>The data of a command\<close>

text \<open>Each of these functions answers whether the text could be parsed, and what the command is then.\<close>

definition app_name :: "u8 list \<Rightarrow> u8 list" where
  "app_name a = assign_text a (length (takeWhile (\<lambda>c. c \<noteq> 34) a) + 1)"

definition parse_type :: "nat \<Rightarrow> u8 list \<Rightarrow> SManagementCMD \<Rightarrow> bool \<times> SManagementCMD" where
  "parse_type mx q cmd =
     (if char_at q 1 \<noteq> 42 then
        let r = parseIdentifier mx (tl q) (mSecondParam cmd); cmd1 = cmd\<lparr>mSecondParam := snd r\<rparr>
        in (case fst r of
              None \<Rightarrow> (False, cmd1)
            | Some i \<Rightarrow>
                (case strchr 34 (drop (i + 1) (tl q)) of
                   None \<Rightarrow> (True, cmd1)
                 | Some a \<Rightarrow> (True, cmd1\<lparr>mAdditionalParams := app_name (tl a)\<rparr>)))
      else (True, cmd))"

definition parseFBData :: "nat \<Rightarrow> u8 list \<Rightarrow> SManagementCMD \<Rightarrow> (bool \<times> SManagementCMD) option" where
  "parseFBData mx s cmd =
     (if has_prefix ''FB Name=\"'' s then
        if strstr (ascii ''EventIn=\"'') s \<noteq> None then Some (False, cmd)
        else
          let b = drop 9 s
          in if char_at b 0 \<noteq> 42 then
               let r = parseIdentifier mx b (mFirstParam cmd); cmd1 = cmd\<lparr>mFirstParam := snd r\<rparr>
               in (case fst r of
                     None \<Rightarrow> Some (False, cmd1)
                   | Some i \<Rightarrow>
                       (case strchr 34 (drop (i + 1) b) of
                          None \<Rightarrow> Some (False, cmd1)
                        | Some q \<Rightarrow> Some (parse_type mx q cmd1)))
             else
               (case advance 2 b of
                  None \<Rightarrow> None
                | Some b2 \<Rightarrow>
                    (case strchr 34 b2 of
                       None \<Rightarrow> Some (False, cmd)
                     | Some q \<Rightarrow> Some (parse_type mx q cmd)))
      else Some (False, cmd))"

text \<open>Two names in quotes behind a prefix; whether the second one could be parsed does not matter.\<close>

definition parse_pair :: "string \<Rightarrow> nat \<Rightarrow> u8 list \<Rightarrow> SManagementCMD \<Rightarrow> (bool \<times> SManagementCMD) option" where
  "parse_pair p mx s cmd =
     (if has_prefix p s then
        let b = drop (length p) s; r = parseIdentifier mx b (mFirstParam cmd);
            cmd1 = cmd\<lparr>mFirstParam := snd r\<rparr>
        in (case fst r of
              None \<Rightarrow> Some (False, cmd1)
            | Some i \<Rightarrow>
                (case advance (i + 2) b of
                   None \<Rightarrow> None
                 | Some b2 \<Rightarrow>
                     (case strchr 34 b2 of
                        None \<Rightarrow> Some (False, cmd1)
                      | Some q \<Rightarrow> Some (True, cmd1\<lparr>mSecondParam := snd (parseIdentifier mx (tl q) (mSecondParam cmd1))\<rparr>))))
      else Some (False, cmd))"

definition parseConnectionData :: "nat \<Rightarrow> u8 list \<Rightarrow> SManagementCMD \<Rightarrow> (bool \<times> SManagementCMD) option" where
  "parseConnectionData = parse_pair ''Connection Source=\"''"

definition parseMonitoringData :: "nat \<Rightarrow> u8 list \<Rightarrow> SManagementCMD \<Rightarrow> (bool \<times> SManagementCMD) option" where
  "parseMonitoringData = parse_pair ''Watch Source=\"''"

text \<open>The value of a Write: the text up to a quote or an ampersand. The inner \<open>None\<close> is a text that ends
  before; otherwise the length of the value and the position behind it.\<close>

fun write_value :: "u8 list \<Rightarrow> nat \<Rightarrow> (nat \<times> u8 list) option option" where
  "write_value [] i = Some None"
| "write_value (c # cs) i =
     (if c = 34 then Some (Some (i, c # cs))
      else if c = 38 then
        (case strchr 59 cs of
           None \<Rightarrow> None
         | Some t \<Rightarrow> map_option (\<lambda>p. Some (i, p)) (advance 2 t))
      else write_value cs (Suc i))"

definition skip_entity :: "u8 list \<Rightarrow> u8 list option" where
  "skip_entity s = (if char_at s 0 = 38 then map_option tl (strchr 59 s) else Some s)"

definition parseWriteConnectionData :: "nat \<Rightarrow> u8 list \<Rightarrow> SManagementCMD \<Rightarrow> (bool \<times> SManagementCMD) option" where
  "parseWriteConnectionData mx s cmd =
     (if has_prefix ''Connection Source=\"'' s then
        Option.bind (skip_entity (drop 19 s)) (\<lambda>b.
        Option.bind (write_value b 0) (\<lambda>v.
          case v of
            None \<Rightarrow> Some (False, cmd)
          | Some (i, p) \<Rightarrow>
              let cmd1 = cmd\<lparr>mAdditionalParams := assign_text b i\<rparr>
              in Option.bind (advance 1 p) (\<lambda>p1.
                   case strchr 34 p1 of
                     None \<Rightarrow> Some (False, cmd1)
                   | Some q \<Rightarrow>
                       let r = parseIdentifier mx (tl q) (mFirstParam cmd1)
                       in Some (fst r \<noteq> None, cmd1\<lparr>mFirstParam := snd r\<rparr>))))
      else Some (False, cmd))"

definition parseConnectionStarStarData :: "u8 list \<Rightarrow> SManagementCMD \<Rightarrow> bool \<times> SManagementCMD" where
  "parseConnectionStarStarData s cmd =
     (let v = drop 9 s
      in if has_prefix '' forced=\"'' s \<and> take 2 v = [42, 34] then (True, cmd\<lparr>mAdditionalParams := ascii ''*''\<rparr>)
         else if has_prefix '' forced=\"'' s \<and> has_prefix ''true'' v then (True, cmd\<lparr>mAdditionalParams := ascii ''true''\<rparr>)
         else if has_prefix '' forced=\"'' s \<and> has_prefix ''false'' v then (True, cmd\<lparr>mAdditionalParams := ascii ''false''\<rparr>)
         else (False, cmd\<lparr>mAdditionalParams := []\<rparr>))"

definition parseTypeListData :: "u8 list \<Rightarrow> bool" where
  "parseTypeListData s =
     (if has_prefix ''DataType Name=\"'' s then char_at s 15 = 42
      else if has_prefix ''FBType Name=\"'' s then char_at s 13 = 42
      else if has_prefix ''AdapterType Name=\"'' s then char_at s 18 = 42
      else True)"

text \<open>The command that is set when the data could be parsed.\<close>

definition command_if :: "EMGMCommandType \<Rightarrow> (bool \<times> SManagementCMD) option \<Rightarrow> SManagementCMD option" where
  "command_if c r = map_option (\<lambda>(ok, cmd). if ok then cmd\<lparr>mCMD := c\<rparr> else cmd) r"

definition invalid :: "SManagementCMD \<Rightarrow> SManagementCMD" where
  "invalid cmd = cmd\<lparr>mCMD := cg_nMGM_CMD_INVALID\<rparr>"

text \<open>The text is \<open>None\<close> for the null pointer.\<close>

definition parseCreateData :: "nat \<Rightarrow> u8 list option \<Rightarrow> SManagementCMD \<Rightarrow> SManagementCMD option" where
  "parseCreateData mx left cmd =
     (case left of
        None \<Rightarrow> Some (invalid cmd)
      | Some s \<Rightarrow>
          if char_at s 0 = 70 then command_if cg_nMGM_CMD_Create_FBInstance (parseFBData mx s (invalid cmd))
          else if char_at s 0 = 67 then command_if cg_nMGM_CMD_Create_Connection (parseConnectionData mx s (invalid cmd))
          else if char_at s 0 = 87 then command_if cg_nMGM_CMD_Monitoring_Add_Watch (parseMonitoringData mx s (invalid cmd))
          else Some (invalid cmd))"

definition parseDeleteData :: "nat \<Rightarrow> u8 list option \<Rightarrow> SManagementCMD \<Rightarrow> SManagementCMD option" where
  "parseDeleteData mx left cmd =
     (case left of
        None \<Rightarrow> Some (invalid cmd)
      | Some s \<Rightarrow>
          if char_at s 0 = 70 then command_if cg_nMGM_CMD_Delete_FBInstance (parseFBData mx s (invalid cmd))
          else if char_at s 0 = 67 then command_if cg_nMGM_CMD_Delete_Connection (parseConnectionData mx s (invalid cmd))
          else if char_at s 0 = 87 then command_if cg_nMGM_CMD_Monitoring_Remove_Watch (parseMonitoringData mx s (invalid cmd))
          else Some (invalid cmd))"

definition parseAdditionalStateCommandData :: "nat \<Rightarrow> u8 list option \<Rightarrow> SManagementCMD \<Rightarrow> SManagementCMD option" where
  "parseAdditionalStateCommandData mx left cmd =
     (case left of
        None \<Rightarrow> Some cmd
      | Some s \<Rightarrow>
          if char_at s 0 \<noteq> 47
          then map_option (\<lambda>(ok, cmd1). if ok then cmd1 else invalid cmd1) (parseFBData mx s cmd)
          else Some cmd)"

definition parseReadData :: "nat \<Rightarrow> u8 list option \<Rightarrow> SManagementCMD \<Rightarrow> SManagementCMD option" where
  "parseReadData mx left cmd =
     (case left of
        None \<Rightarrow> Some (invalid cmd)
      | Some s \<Rightarrow>
          if char_at s 0 = 87 then Some (cmd\<lparr>mCMD := cg_nMGM_CMD_Monitoring_Read_Watches\<rparr>)
          else if has_prefix ''Connection Source=\"*\" Destination=\"*\"'' s
          then command_if cg_nMGM_CMD_Monitoring_Get_Watches (Some (parseConnectionStarStarData (drop 37 s) (invalid cmd)))
          else command_if cg_nMGM_CMD_Read (parseConnectionData mx s (invalid cmd)))"

definition parseWriteData :: "nat \<Rightarrow> u8 list option \<Rightarrow> SManagementCMD \<Rightarrow> SManagementCMD option" where
  "parseWriteData mx left cmd =
     (case left of
        None \<Rightarrow> Some (invalid cmd)
      | Some s \<Rightarrow>
          map_option (\<lambda>(ok, cmd1).
            if ok then
              (case strstr s (ascii ''force=\"'') of
                 Some f \<Rightarrow>
                   if has_prefix ''true'' (drop 7 f) then cmd1\<lparr>mCMD := cg_nMGM_CMD_Monitoring_Force\<rparr>
                   else if has_prefix ''false'' (drop 7 f) then cmd1\<lparr>mCMD := cg_nMGM_CMD_Monitoring_ClearForce\<rparr>
                   else cmd1
               | None \<Rightarrow>
                   let t = map lower (mAdditionalParams cmd1)
                   in if t = ascii ''$e'' then cmd1\<lparr>mCMD := cg_nMGM_CMD_Monitoring_Trigger_Event\<rparr>
                      else if t = ascii ''$er'' then cmd1\<lparr>mCMD := cg_nMGM_CMD_Monitoring_Reset_Event_Count\<rparr>
                      else cmd1\<lparr>mCMD := cg_nMGM_CMD_Write\<rparr>)
            else cmd1)
            (parseWriteConnectionData mx s (invalid cmd)))"

definition parseQueryData :: "nat \<Rightarrow> u8 list option \<Rightarrow> SManagementCMD \<Rightarrow> SManagementCMD option" where
  "parseQueryData mx left cmd =
     (case left of
        None \<Rightarrow> Some (invalid cmd)
      | Some s \<Rightarrow>
          let types = (\<lambda>c. Some (cmd\<lparr>mCMD := if parseTypeListData s then c else cg_nMGM_CMD_Query_Group\<rparr>))
          in if char_at s 0 = 70 then
               (if has_prefix ''FBT'' s then types cg_nMGM_CMD_QUERY_FBTypes
                else command_if cg_nMGM_CMD_QUERY_FB (parseFBData mx s (invalid cmd)))
             else if char_at s 0 = 67 then command_if cg_nMGM_CMD_QUERY_Connection (parseConnectionData mx s (invalid cmd))
             else if char_at s 0 = 68 then
               (if has_prefix ''DataType'' s then types cg_nMGM_CMD_QUERY_DTTypes else Some (invalid cmd))
             else if char_at s 0 = 65 then
               (if has_prefix ''AdapterT'' s then types cg_nMGM_CMD_QUERY_AdapterTypes else Some (invalid cmd))
             else Some (invalid cmd))"

text \<open>The dispatch of \<open>parseAndExecuteMGMCommand\<close>.\<close>

definition parse_data :: "nat \<Rightarrow> u8 list option \<Rightarrow> SManagementCMD \<Rightarrow> SManagementCMD option" where
  "parse_data mx left cmd =
     (case mCMD cmd of
        cg_nMGM_CMD_Create_Group \<Rightarrow> parseCreateData mx left cmd
      | cg_nMGM_CMD_Delete_Group \<Rightarrow> parseDeleteData mx left cmd
      | cg_nMGM_CMD_Start \<Rightarrow> parseAdditionalStateCommandData mx left cmd
      | cg_nMGM_CMD_Stop \<Rightarrow> parseAdditionalStateCommandData mx left cmd
      | cg_nMGM_CMD_Kill \<Rightarrow> parseAdditionalStateCommandData mx left cmd
      | cg_nMGM_CMD_Reset \<Rightarrow> parseAdditionalStateCommandData mx left cmd
      | cg_nMGM_CMD_Read \<Rightarrow> parseReadData mx left cmd
      | cg_nMGM_CMD_Write \<Rightarrow> parseWriteData mx left cmd
      | cg_nMGM_CMD_Query_Group \<Rightarrow> parseQueryData mx left cmd
      | _ \<Rightarrow> Some cmd)"

end
