(* ===== verification/Mgm_Handler.thy ===== *)
theory Mgm_Handler
  imports Mgm_Parser
begin

text \<open>
  The device manager: execution of requests and their responses, \<^verbatim>\<open>src/src/stdfblib/ita/DEV_MGR.cpp\<close>,
  and the loader of boot files, \<^verbatim>\<open>ForteBootFileLoader.cpp\<close>.

  The outputs DST and RQST of the block are arguments and the input RESP is a result; the communication
  that fills and sends them is not part of this theory. Texts are shorter than the longest STRING.
  \<open>None\<close> stands for a call that does not return or reads memory that it must not read.
\<close>

section \<open>State\<close>

text \<open>\<open>mID\<close> points into the last request, up to the end of its ID. While it is set, a request that is
  refused before it is parsed is answered with whatever the pointer then points to.\<close>

record dev_mgr =
  m_stCommand :: SManagementCMD
  mID :: "u8 list option"

text \<open>The fixed surroundings of a device manager.\<close>

record 'c mgr_env =
  env_services :: "'c services"
  env_storage :: TStringId
  env_capacity :: nat
  env_max_names :: nat

section \<open>Execution\<close>

text \<open>
  \<open>parseAndExecuteMGMCommand\<close>: the answer, the manager and the device. The last component tells whether
  the answer can be given with the ID of this request.
\<close>

definition parseAndExecuteMGMCommand ::
  "'c mgr_env \<Rightarrow> u8 list \<Rightarrow> u8 list \<Rightarrow> dev_mgr \<Rightarrow> 'c device \<Rightarrow> (EMGMResponse \<times> dev_mgr \<times> 'c device \<times> bool) option" where
  "parseAndExecuteMGMCommand E dst request M D =
     (if strchr 62 request = None then Some (e_INVALID_OBJECT, M, D, False)
      else
        let cmd0 = (m_stCommand M)\<lparr>mDestination := (if dst = [] then scm_nInvalidStringId else name_of dst),
                     mFirstParam := [], mSecondParam := [], mMonitorResponse := []\<rparr>
        in (case parseRequest request of
              None \<Rightarrow> None
            | Some (idt, None) \<Rightarrow> Some (e_UNSUPPORTED_CMD, \<lparr>m_stCommand = cmd0, mID = idt\<rparr>, D, True)
            | Some (idt, Some (c, rest)) \<Rightarrow>
                Option.bind (parse_data (env_max_names E) (map_option tl (strchr 60 rest)) (cmd0\<lparr>mCMD := c\<rparr>)) (\<lambda>cmd.
                  if mCMD cmd \<noteq> cg_nMGM_CMD_INVALID then
                    map_option (\<lambda>(r, cmd1, D1). (r, \<lparr>m_stCommand = cmd1, mID = idt\<rparr>, D1, True))
                      (device_executeMGMCommand (env_services E) (env_storage E) (env_capacity E) cmd D)
                  else Some (e_INVALID_OBJECT, \<lparr>m_stCommand = cmd, mID = idt\<rparr>, D, True))))"

section \<open>Responses\<close>

fun scm_sMGMResponseTexts :: "EMGMResponse \<Rightarrow> string" where
  "scm_sMGMResponseTexts e_RDY = ''RDY''"
| "scm_sMGMResponseTexts e_BAD_PARAMS = ''BAD_PARAMS''"
| "scm_sMGMResponseTexts e_LOCAL_TERMINATION = ''LOCAL_TERMINATION''"
| "scm_sMGMResponseTexts e_SYSTEM_TERMINATION = ''SYSTEM_TERMINATION''"
| "scm_sMGMResponseTexts e_NOT_READY = ''NOT_READY''"
| "scm_sMGMResponseTexts e_UNSUPPORTED_CMD = ''UNSUPPORTED_CMD''"
| "scm_sMGMResponseTexts e_UNSUPPORTED_TYPE = ''UNSUPPORTED_TYPE''"
| "scm_sMGMResponseTexts e_NO_SUCH_OBJECT = ''NO_SUCH_OBJECT''"
| "scm_sMGMResponseTexts e_INVALID_OBJECT = ''INVALID_OBJECT''"
| "scm_sMGMResponseTexts e_INVALID_OPERATION = ''INVALID_OPERATION''"
| "scm_sMGMResponseTexts e_INVALID_STATE = ''INVALID_STATE''"
| "scm_sMGMResponseTexts e_OVERFLOW = ''OVERFLOW''"
| "scm_sMGMResponseTexts e_INVALID_DST = ''INVALID_DST''"

definition c_text :: "u8 list \<Rightarrow> u8 list" where
  "c_text s = takeWhile (\<lambda>c. c \<noteq> 0) s"

definition newline :: "u8 list" where
  "newline = [10]"

definition response_head :: "u8 list option \<Rightarrow> u8 list" where
  "response_head idt = ascii ''<Response ID=\"'' @ (case idt of None \<Rightarrow> [] | Some t \<Rightarrow> c_text t) @ ascii ''\"''"

definition generateResponse :: "u8 list option \<Rightarrow> EMGMResponse \<Rightarrow> u8 list" where
  "generateResponse idt r =
     response_head idt @
     (if r \<noteq> e_RDY then ascii '' Reason=\"'' @ ascii (scm_sMGMResponseTexts r) @ ascii ''\"'' else []) @ ascii '' />''"

definition appedIdentifierName :: "TStringId list \<Rightarrow> u8 list" where
  "appedIdentifierName ns =
     (if ns = [] then [] else concat (map (\<lambda>n. ascii n @ ascii ''.'') ns) @ ascii (last ns))"

definition in_list :: "string \<Rightarrow> u8 list \<Rightarrow> u8 list" where
  "in_list tag t = ascii ''<'' @ ascii tag @ ascii ''>'' @ newline @ ascii ''    '' @ t @ newline @ ascii ''  </'' @ ascii tag @ ascii ''>''"

definition generateLongResponse :: "u8 list option \<Rightarrow> EMGMResponse \<Rightarrow> SManagementCMD \<Rightarrow> u8 list" where
  "generateLongResponse idt r cmd =
     (let t = c_text (mAdditionalParams cmd)
      in response_head idt @
         (if r \<noteq> e_RDY then ascii '' Reason=\"'' @ ascii (scm_sMGMResponseTexts r) @ ascii ''\">'' @ newline @ ascii ''  ''
          else
            ascii ''>'' @ newline @ ascii ''  '' @
            (case mCMD cmd of
               cg_nMGM_CMD_Read \<Rightarrow>
                 ascii ''<Connection Source=\"'' @ appedIdentifierName (mFirstParam cmd) @ ascii ''\" Destination=\"'' @ t @ ascii ''\" />''
             | cg_nMGM_CMD_QUERY_Connection \<Rightarrow>
                 (if mFirstParam cmd = [] \<and> mSecondParam cmd = [] then t else in_list ''EndpointList'' t)
             | cg_nMGM_CMD_QUERY_FB \<Rightarrow>
                 (if mFirstParam cmd = [] then in_list ''FBList'' t
                  else if mSecondParam cmd = []
                  then ascii ''<FB Name=\"'' @ appedIdentifierName (mFirstParam cmd) @ ascii ''\" Type=\"'' @ t @ ascii ''\" />''
                  else ascii ''<FBStatus Status=\"'' @ t @ ascii ''\" />'')
             | cg_nMGM_CMD_QUERY_FBTypes \<Rightarrow> in_list ''NameList'' t
             | cg_nMGM_CMD_QUERY_DTTypes \<Rightarrow> in_list ''DTList'' t
             | cg_nMGM_CMD_QUERY_AdapterTypes \<Rightarrow> in_list ''NameList'' t
             | _ \<Rightarrow> [])) @
         newline @ ascii ''</Response>'')"

definition generateMonitorResponse :: "u8 list option \<Rightarrow> EMGMResponse \<Rightarrow> SManagementCMD \<Rightarrow> u8 list" where
  "generateMonitorResponse idt r cmd =
     response_head idt @
     (if r \<noteq> e_RDY then ascii '' Reason=\"'' @ ascii (scm_sMGMResponseTexts r) @ ascii ''\">'' @ newline @ ascii ''  ''
      else
        ascii ''>'' @ newline @ ascii ''  '' @
        (if mCMD cmd = cg_nMGM_CMD_Monitoring_Read_Watches \<or> mCMD cmd = cg_nMGM_CMD_Monitoring_Get_Watches
         then in_list ''Watches'' (c_text (mMonitorResponse cmd)) else [])) @
     newline @ ascii ''</Response>''"

text \<open>\<open>executeRQST\<close>: the answer to a request, with the value that RESP then has.\<close>

definition executeRQST ::
  "'c mgr_env \<Rightarrow> u8 list \<Rightarrow> u8 list \<Rightarrow> dev_mgr \<Rightarrow> 'c device \<Rightarrow> (u8 list \<times> dev_mgr \<times> 'c device) option" where
  "executeRQST E dst request M D =
     Option.bind (parseAndExecuteMGMCommand E dst request (M\<lparr>m_stCommand := (m_stCommand M)\<lparr>mAdditionalParams := []\<rparr>\<rparr>) D)
       (\<lambda>(r, M1, D1, own).
          if \<not> own \<and> mID M1 \<noteq> None then None
          else
            let cmd = m_stCommand M1
            in if mMonitorResponse cmd \<noteq> [] then
                 Some (generateMonitorResponse (mID M1) r cmd, M1\<lparr>m_stCommand := cmd\<lparr>mMonitorResponse := []\<rparr>\<rparr>, D1)
               else if mAdditionalParams cmd \<noteq> [] then Some (generateLongResponse (mID M1) r cmd, M1, D1)
               else Some (generateResponse (mID M1) r, M1, D1))"

text \<open>\<open>executeCommand\<close> for the loader of boot files; the additional parameter is not cleared before.\<close>

definition executeCommand ::
  "'c mgr_env \<Rightarrow> u8 list \<Rightarrow> u8 list \<Rightarrow> dev_mgr \<Rightarrow> 'c device \<Rightarrow> (bool \<times> dev_mgr \<times> 'c device) option" where
  "executeCommand E dst request M D =
     map_option (\<lambda>(r, M1, D1, _). (r = e_RDY, M1, D1)) (parseAndExecuteMGMCommand E dst request M D)"

section \<open>Boot files\<close>

text \<open>What \<open>fgets\<close> takes from a file: at most 99 characters, and no more than the rest of a line.\<close>

definition fgets :: "u8 list \<Rightarrow> u8 list" where
  "fgets src = take 99 (take (Suc (length (takeWhile (\<lambda>c. c \<noteq> 10) src))) src)"

definition ends_with :: "u8 list \<Rightarrow> u8 list \<Rightarrow> bool" where
  "ends_with p s \<longleftrightarrow> p = drop (length s - length p) s"

text \<open>\<open>hasCommandEnded\<close> looks at the last 11 characters of a line, whether there are as many or not.\<close>

definition hasCommandEnded :: "u8 list \<Rightarrow> bool option" where
  "hasCommandEnded line =
     (if length line < 11 then None
      else Some (ends_with (ascii ''</Request>'' @ newline) line \<or> ends_with (ascii ''/>'' @ newline) line))"

text \<open>The line that was read, if any, and the rest of the file. The file has no zero bytes.\<close>

function readLine :: "u8 list \<Rightarrow> u8 list \<Rightarrow> (u8 list option \<times> u8 list) option" where
  "readLine line src =
     (if src = [] then Some (if line = [] then None else Some line, [])
      else
        let line1 = line @ fgets src; rest = drop (length (fgets src)) src
        in case hasCommandEnded line1 of
             None \<Rightarrow> None
           | Some True \<Rightarrow> Some (Some line1, rest)
           | Some False \<Rightarrow> readLine line1 rest)"
  by pat_completeness auto

lemma fgets_pos: "src \<noteq> [] \<Longrightarrow> 0 < length (fgets src)"
  by (cases src) (auto simp: fgets_def)

lemma fgets_less: "src \<noteq> [] \<Longrightarrow> length src - length (fgets src) < length src"
  using fgets_pos [of src] by (cases src) auto

termination readLine
  by (relation "measure (\<lambda>(line, src). length src)") (auto intro: fgets_less)

declare readLine.simps [simp del]

datatype LoadBootResult = LOAD_RESULT_OK | FILE_NOT_OPENED | MISSING_COLON | EXTERNAL_ERROR

lemma readLine_shorter:
  "readLine line src = Some (Some l, rest) \<Longrightarrow> length rest < length src \<or> (src = [] \<and> rest = [] \<and> l = line \<and> line \<noteq> [])"
proof (induction line src rule: readLine.induct)
  case (1 line src)
  show ?case
  proof (cases "src = []")
    case True
    then show ?thesis using "1.prems" by (auto simp: readLine.simps [of line "[]"] split: if_splits)
  next
    case False
    then have pos: "0 < length (fgets src)" by (rule fgets_pos)
    show ?thesis
    proof (cases "hasCommandEnded (line @ fgets src) = Some False")
      case True
      then have rec: "readLine (line @ fgets src) (drop (length (fgets src)) src) = Some (Some l, rest)"
        using "1.prems" False by (simp add: readLine.simps [of line src] Let_def)
      have "length rest < length (drop (length (fgets src)) src) \<or> (drop (length (fgets src)) src = [] \<and> rest = [])"
        using "1.IH" [OF False refl refl True _ rec] by auto
      then show ?thesis using pos False by (cases "src") auto
    next
      case other: False
      then have "rest = drop (length (fgets src)) src"
        using "1.prems" False by (auto simp: readLine.simps [of line src] Let_def split: option.splits bool.splits)
      then show ?thesis using pos False by simp
    qed
  qed
qed

text \<open>The loop of \<open>loadBootFile\<close> over the lines; a file that could not be opened is \<open>None\<close>.\<close>

function load_lines ::
  "'c mgr_env \<Rightarrow> u8 list \<Rightarrow> dev_mgr \<Rightarrow> 'c device \<Rightarrow> (LoadBootResult \<times> dev_mgr \<times> 'c device) option" where
  "load_lines E src M D =
     (case readLine [] src of
        None \<Rightarrow> None
      | Some (None, _) \<Rightarrow> Some (LOAD_RESULT_OK, M, D)
      | Some (Some line, rest) \<Rightarrow>
          (case strchr 59 line of
             None \<Rightarrow> Some (MISSING_COLON, M, D)
           | Some t \<Rightarrow>
               (case executeCommand E (takeWhile (\<lambda>c. c \<noteq> 59) line) (tl t) M D of
                  None \<Rightarrow> None
                | Some (ok, M1, D1) \<Rightarrow>
                    if ok then load_lines E rest M1 D1 else Some (EXTERNAL_ERROR, M1, D1))))"
  by pat_completeness auto

termination load_lines
  by (relation "measure (\<lambda>(E, src, M, D). length src)") (auto dest: readLine_shorter)

declare load_lines.simps [simp del]

definition loadBootFile ::
  "'c mgr_env \<Rightarrow> u8 list option \<Rightarrow> dev_mgr \<Rightarrow> 'c device \<Rightarrow> (LoadBootResult \<times> dev_mgr \<times> 'c device) option" where
  "loadBootFile E src M D =
     (case src of None \<Rightarrow> Some (FILE_NOT_OPENED, M, D) | Some f \<Rightarrow> load_lines E f M D)"

end
