(* ===== verification/Mgm_Laws.thy ===== *)
theory Mgm_Laws
  imports Mgm_Handler
begin

text \<open>
  What the device manager does with well-formed requests: a request is written as the tools write it,
  and its execution is the execution of the command it stands for.
\<close>

section \<open>Requests\<close>

datatype mgm_request =
    CreateFB "TStringId list" TStringId
  | DeleteFB "TStringId list" TStringId
  | CreateConnection "TStringId list" "TStringId list"
  | DeleteConnection "TStringId list" "TStringId list"
  | ReadValue "TStringId list" "TStringId list"
  | ChangeState EMGMCommandType
  | ChangeStateFB EMGMCommandType "TStringId list" TStringId

fun names_text :: "TStringId list \<Rightarrow> u8 list" where
  "names_text [] = []"
| "names_text [n] = ascii n"
| "names_text (n # m # ns) = ascii n @ 46 # names_text (m # ns)"

definition fb_text :: "TStringId list \<Rightarrow> TStringId \<Rightarrow> u8 list" where
  "fb_text ns t = ascii ''FB Name=\"'' @ names_text ns @ ascii ''\" Type=\"'' @ ascii t @ ascii ''\" />''"

definition con_text :: "TStringId list \<Rightarrow> TStringId list \<Rightarrow> u8 list" where
  "con_text ns ms = ascii ''Connection Source=\"'' @ names_text ns @ ascii ''\" Destination=\"'' @ names_text ms @ ascii ''\" />''"

definition state_name :: "EMGMCommandType \<Rightarrow> string" where
  "state_name c = (if c = cg_nMGM_CMD_Start then ''START'' else if c = cg_nMGM_CMD_Stop then ''STOP''
     else if c = cg_nMGM_CMD_Kill then ''KILL'' else ''RESET'')"

fun action_name :: "mgm_request \<Rightarrow> string" where
  "action_name (CreateFB _ _) = ''CREATE''"
| "action_name (CreateConnection _ _) = ''CREATE''"
| "action_name (DeleteFB _ _) = ''DELETE''"
| "action_name (DeleteConnection _ _) = ''DELETE''"
| "action_name (ReadValue _ _) = ''READ''"
| "action_name (ChangeState c) = state_name c"
| "action_name (ChangeStateFB c _ _) = state_name c"

fun body_text :: "mgm_request \<Rightarrow> u8 list" where
  "body_text (CreateFB ns t) = fb_text ns t"
| "body_text (DeleteFB ns t) = fb_text ns t"
| "body_text (ChangeStateFB _ ns t) = fb_text ns t"
| "body_text (CreateConnection ns ms) = con_text ns ms"
| "body_text (DeleteConnection ns ms) = con_text ns ms"
| "body_text (ReadValue ns ms) = con_text ns ms"
| "body_text (ChangeState _) = []"

definition request_text :: "u8 list \<Rightarrow> mgm_request \<Rightarrow> u8 list" where
  "request_text idt r =
     ascii ''<Request ID=\"'' @ idt @ ascii ''\" Action=\"'' @ ascii (action_name r) @ ascii ''\">'' @
     (if body_text r = [] then [] else 60 # body_text r) @ ascii ''</Request>''"

text \<open>The command that a request stands for.\<close>

fun command_of :: "mgm_request \<Rightarrow> SManagementCMD \<Rightarrow> SManagementCMD" where
  "command_of (CreateFB ns t) cmd = cmd\<lparr>mCMD := cg_nMGM_CMD_Create_FBInstance, mFirstParam := ns, mSecondParam := [t]\<rparr>"
| "command_of (DeleteFB ns t) cmd = cmd\<lparr>mCMD := cg_nMGM_CMD_Delete_FBInstance, mFirstParam := ns, mSecondParam := [t]\<rparr>"
| "command_of (CreateConnection ns ms) cmd = cmd\<lparr>mCMD := cg_nMGM_CMD_Create_Connection, mFirstParam := ns, mSecondParam := ms\<rparr>"
| "command_of (DeleteConnection ns ms) cmd = cmd\<lparr>mCMD := cg_nMGM_CMD_Delete_Connection, mFirstParam := ns, mSecondParam := ms\<rparr>"
| "command_of (ReadValue ns ms) cmd = cmd\<lparr>mCMD := cg_nMGM_CMD_Read, mFirstParam := ns, mSecondParam := ms\<rparr>"
| "command_of (ChangeState c) cmd = cmd\<lparr>mCMD := c, mFirstParam := [], mSecondParam := []\<rparr>"
| "command_of (ChangeStateFB c ns t) cmd = cmd\<lparr>mCMD := c, mFirstParam := ns, mSecondParam := [t]\<rparr>"

text \<open>Names that can be written: no quote, no dot and no zero in them, and no star at the start of a list.\<close>

definition plain_name :: "string \<Rightarrow> bool" where
  "plain_name n \<longleftrightarrow> (\<forall>c \<in> set (ascii n). c \<noteq> 34 \<and> c \<noteq> 46 \<and> c \<noteq> 0)"

definition plain_names :: "nat \<Rightarrow> string list \<Rightarrow> bool" where
  "plain_names mx ns \<longleftrightarrow> ns \<noteq> [] \<and> length ns \<le> mx \<and> (\<forall>n \<in> set ns. plain_name n) \<and> char_at (ascii (hd ns)) 0 \<noteq> 42"

definition state_command :: "EMGMCommandType \<Rightarrow> bool" where
  "state_command c \<longleftrightarrow> c \<in> {cg_nMGM_CMD_Start, cg_nMGM_CMD_Stop, cg_nMGM_CMD_Kill, cg_nMGM_CMD_Reset}"

fun plain_request :: "nat \<Rightarrow> mgm_request \<Rightarrow> bool" where
  "plain_request mx (CreateFB ns t) = (plain_names mx ns \<and> plain_names mx [t])"
| "plain_request mx (DeleteFB ns t) = (plain_names mx ns \<and> plain_names mx [t])"
| "plain_request mx (CreateConnection ns ms) = (plain_names mx ns \<and> plain_names mx ms)"
| "plain_request mx (DeleteConnection ns ms) = (plain_names mx ns \<and> plain_names mx ms)"
| "plain_request mx (ReadValue ns ms) = (plain_names mx ns \<and> plain_names mx ms)"
| "plain_request mx (ChangeState c) = state_command c"
| "plain_request mx (ChangeStateFB c ns t) = (state_command c \<and> plain_names mx ns \<and> plain_names mx [t])"

definition plain_id :: "u8 list \<Rightarrow> bool" where
  "plain_id idt \<longleftrightarrow> length idt \<le> 7 \<and> 34 \<notin> set idt \<and> 0 \<notin> set idt"

section \<open>Texts\<close>

lemma ascii_simps [simp]: "ascii [] = []" "ascii (c # cs) = of_nat (of_char c) # ascii cs"
  "ascii (s @ t) = ascii s @ ascii t" "length (ascii s) = length s"
  by (simp_all add: ascii_def)

lemma name_of_ascii [simp]: "name_of (ascii n) = n"
proof (induction n)
  case (Cons c cs)
  have "unat (of_nat (of_char c) :: u8) = of_char c"
    by (simp add: unat_of_nat)
  then show ?case using Cons by (simp add: name_of_def)
qed (simp add: name_of_def)

lemma has_prefix_append [simp]: "has_prefix p (ascii p @ s)"
  by (simp add: has_prefix_def)

lemma strchr_skip: "c \<notin> set s \<Longrightarrow> strchr c (s @ t) = strchr c t"
  proof -
  assume "c \<notin> set s"
  then have "dropWhile (\<lambda>x. x \<noteq> c) (s @ t) = dropWhile (\<lambda>x. x \<noteq> c) t" by (intro dropWhile_append2) auto
  then show ?thesis by (simp add: strchr_def)
qed

lemma strchr_Cons: "strchr c (x # t) = (if x = c then Some (x # t) else strchr c t)"
  by (simp add: strchr_def)

lemma char_at_0 [simp]: "char_at (c # s) 0 = c" "char_at [] i = 0"
  by (simp_all add: char_at_def)

lemma parse_names_name:
  "plain_name n \<Longrightarrow> parse_names mx cur (ascii n @ s) i ns = parse_names mx (cur @ ascii n) s (i + length n) ns"
proof (induction n arbitrary: cur i)
  case (Cons c cs)
  then show ?case by (simp add: plain_name_def)
qed simp

lemma parse_names_text:
  "ns \<noteq> [] \<Longrightarrow> \<forall>n \<in> set ns. plain_name n \<Longrightarrow> length acc + length ns \<le> mx \<Longrightarrow>
    parse_names mx [] (names_text ns @ 34 # s) i acc = (Some (i + length (names_text ns)), acc @ ns)"
proof (induction ns arbitrary: i acc rule: names_text.induct)
  case (3 n m ns)
  have "parse_names mx [] (names_text (n # m # ns) @ 34 # s) i acc =
      parse_names mx [] (names_text (m # ns) @ 34 # s) (Suc (i + length n)) (acc @ [n])"
    using "3.prems" by (simp add: parse_names_name)
  also have "\<dots> = (Some (Suc (i + length n) + length (names_text (m # ns))), (acc @ [n]) @ (m # ns))"
    by (rule "3.IH") (use "3.prems" in auto)
  finally show ?case by simp
qed (simp_all add: parse_names_name)

lemma parseIdentifier_text:
  "plain_names mx ns \<Longrightarrow> parseIdentifier mx (names_text ns @ 34 # s) [] = (Some (length (names_text ns)), ns)"
  by (simp add: parseIdentifier_def plain_names_def parse_names_text)

lemma names_text_set: "\<forall>n \<in> set ns. plain_name n \<Longrightarrow> 34 \<notin> set (names_text ns)"
  by (induction ns rule: names_text.induct) (auto simp: plain_name_def)

lemma char_at_names: "plain_names mx ns \<Longrightarrow> char_at (names_text ns @ 34 # s) 0 \<noteq> 42"
  by (cases ns rule: names_text.cases) (auto simp: plain_names_def char_at_def nth_append split: if_splits)

text \<open>The data of a command, followed by the end of the request.\<close>

lemma strstr_long: "length s < length p \<Longrightarrow> strstr s p = None"
proof -
  assume "length s < length p"
  then have "take (length p) (drop n s) \<noteq> p" for n
    by (metis diff_le_self leD length_drop length_take min.cobounded1 order_less_le_trans)
  then show ?thesis by (auto simp: strstr_def find_None_iff)
qed

lemma parse_type_text:
  assumes "plain_names mx [t]" and "mSecondParam cmd = []" and "34 \<notin> set s"
  shows "parse_type mx (34 # ascii t @ 34 # s) cmd = (True, cmd\<lparr>mSecondParam := [t]\<rparr>)"
proof -
  have "char_at (34 # ascii t @ 34 # s) 1 \<noteq> 42"
    using char_at_names [OF assms(1), of s] by (simp add: char_at_def)
  moreover have "strchr 34 s = None" using assms(3) strchr_skip [of 34 s "[]"] by (simp add: strchr_def)
  ultimately show ?thesis
    using parseIdentifier_text [OF assms(1), of s] assms(2) by (simp add: parse_type_def)
qed

lemma parseFBData_text:
  assumes "plain_names mx ns" and "plain_names mx [t]" and "mFirstParam cmd = []" "mSecondParam cmd = []" and "34 \<notin> set s"
  shows "parseFBData mx (fb_text ns t @ s) cmd = Some (True, cmd\<lparr>mFirstParam := ns, mSecondParam := [t]\<rparr>)"
proof -
  define b where "b = names_text ns @ 34 # ascii '' Type='' @ 34 # ascii t @ 34 # ascii '' />'' @ s"
  have tx: "fb_text ns t @ s = ascii ''FB Name=\"'' @ b" by (simp add: fb_text_def b_def)
  have "strstr (ascii ''EventIn=\"'') (fb_text ns t @ s) = None"
    by (rule strstr_long) (simp add: tx b_def)
  moreover have "strchr 34 (drop (Suc (length (names_text ns))) b) = Some (34 # ascii t @ 34 # ascii '' />'' @ s)"
    by (simp add: b_def strchr_def)
  ultimately show ?thesis
    using parseIdentifier_text [OF assms(1)] char_at_names [OF assms(1)] assms(3,4,5)
      parse_type_text [OF assms(2), of "cmd\<lparr>mFirstParam := ns\<rparr>" "ascii '' />'' @ s"]
    by (simp add: parseFBData_def tx Let_def has_prefix_def) (simp add: b_def)
qed

lemma parse_pair_text:
  assumes "plain_names mx ns" and "plain_names mx ms" and "mFirstParam cmd = []" "mSecondParam cmd = []"
    and "34 \<notin> set u" and "2 \<le> length u"
  shows "parse_pair p mx (ascii p @ names_text ns @ 34 # u @ 34 # names_text ms @ 34 # s) cmd =
    Some (True, cmd\<lparr>mFirstParam := ns, mSecondParam := ms\<rparr>)"
proof -
  let ?b = "names_text ns @ 34 # u @ 34 # names_text ms @ 34 # s"
  obtain x y v where u: "u = x # y # v" using assms(6) by (metis Suc_le_length_iff numeral_2_eq_2)
  have "strchr 34 (y # v @ 34 # names_text ms @ 34 # s) = Some (34 # names_text ms @ 34 # s)"
    using assms(5) strchr_skip [of 34 "y # v" "34 # names_text ms @ 34 # s"] by (simp add: u strchr_Cons)
  moreover have "advance (Suc (Suc (length (names_text ns)))) ?b = Some (y # v @ 34 # names_text ms @ 34 # s)"
    by (simp add: advance_def u)
  ultimately show ?thesis
    using parseIdentifier_text [OF assms(1)] parseIdentifier_text [OF assms(2)] assms(3,4)
    by (simp add: parse_pair_def Let_def)
qed

lemma con_text_pair:
  "con_text ns ms @ s = ascii ''Connection Source=\"'' @ names_text ns @ 34 # ascii '' Destination='' @ 34 # names_text ms @ 34 # ascii '' />'' @ s"
  by (simp add: con_text_def)

lemma parseConnectionData_text:
  assumes "plain_names mx ns" and "plain_names mx ms" and "mFirstParam cmd = []" "mSecondParam cmd = []"
  shows "parseConnectionData mx (con_text ns ms @ s) cmd = Some (True, cmd\<lparr>mFirstParam := ns, mSecondParam := ms\<rparr>)"
  unfolding parseConnectionData_def con_text_pair by (rule parse_pair_text [OF assms]) simp_all

text \<open>The head of a request.\<close>

lemma parseRequest_text:
  assumes "plain_id idt" and "find (\<lambda>(p, _). has_prefix p (ascii a @ 34 # s)) command_table = Some (a, c, Suc (length a))"
  shows "parseRequest (ascii ''<Request ID=\"'' @ idt @ ascii ''\" Action=\"'' @ ascii a @ 34 # s) = Some (Some idt, Some (c, s))"
proof -
  define b where "b = idt @ 34 # ascii '' Action='' @ 34 # ascii a @ 34 # s"
  have tx: "ascii ''<Request ID=\"'' @ idt @ ascii ''\" Action=\"'' @ ascii a @ 34 # s = ascii ''<Request ID=\"'' @ b"
    by (simp add: b_def)
  have n: "takeWhile (\<lambda>c. c \<noteq> 34) b = idt"
    using assms(1) by (auto simp: b_def plain_id_def takeWhile_append)
  have q: "strchr 34 (drop (Suc (length idt)) b) = Some (34 # ascii a @ 34 # s)" by (simp add: b_def strchr_def)
  show ?thesis
    unfolding tx
    using n q assms by (simp add: parseRequest_def has_prefix_def plain_id_def Let_def advance_def) (simp add: b_def)
qed

lemma command_found:
  "find (\<lambda>(p, _). has_prefix p (ascii ''CREATE'' @ 34 # s)) command_table = Some (''CREATE'', cg_nMGM_CMD_Create_Group, Suc (length ''CREATE''))"
  "find (\<lambda>(p, _). has_prefix p (ascii ''DELETE'' @ 34 # s)) command_table = Some (''DELETE'', cg_nMGM_CMD_Delete_Group, Suc (length ''DELETE''))"
  "find (\<lambda>(p, _). has_prefix p (ascii ''START'' @ 34 # s)) command_table = Some (''START'', cg_nMGM_CMD_Start, Suc (length ''START''))"
  "find (\<lambda>(p, _). has_prefix p (ascii ''STOP'' @ 34 # s)) command_table = Some (''STOP'', cg_nMGM_CMD_Stop, Suc (length ''STOP''))"
  "find (\<lambda>(p, _). has_prefix p (ascii ''KILL'' @ 34 # s)) command_table = Some (''KILL'', cg_nMGM_CMD_Kill, Suc (length ''KILL''))"
  "find (\<lambda>(p, _). has_prefix p (ascii ''RESET'' @ 34 # s)) command_table = Some (''RESET'', cg_nMGM_CMD_Reset, Suc (length ''RESET''))"
  "find (\<lambda>(p, _). has_prefix p (ascii ''READ'' @ 34 # s)) command_table = Some (''READ'', cg_nMGM_CMD_Read, Suc (length ''READ''))"
  "find (\<lambda>(p, _). has_prefix p (ascii ''WRITE'' @ 34 # s)) command_table = Some (''WRITE'', cg_nMGM_CMD_Write, Suc (length ''WRITE''))"
  by (simp_all add: command_table_def has_prefix_def)

fun group_of :: "mgm_request \<Rightarrow> EMGMCommandType" where
  "group_of (CreateFB _ _) = cg_nMGM_CMD_Create_Group"
| "group_of (CreateConnection _ _) = cg_nMGM_CMD_Create_Group"
| "group_of (DeleteFB _ _) = cg_nMGM_CMD_Delete_Group"
| "group_of (DeleteConnection _ _) = cg_nMGM_CMD_Delete_Group"
| "group_of (ReadValue _ _) = cg_nMGM_CMD_Read"
| "group_of (ChangeState c) = c"
| "group_of (ChangeStateFB c _ _) = c"

lemma action_found:
  assumes "plain_request mx r"
  shows "find (\<lambda>(p, _). has_prefix p (ascii (action_name r) @ 34 # s)) command_table =
    Some (action_name r, group_of r, Suc (length (action_name r)))"
proof (cases r)
  case (ChangeState c)
  then have "c \<in> {cg_nMGM_CMD_Start, cg_nMGM_CMD_Stop, cg_nMGM_CMD_Kill, cg_nMGM_CMD_Reset}"
    using assms by (simp add: state_command_def)
  then show ?thesis using ChangeState command_found by (auto simp: state_name_def simp del: ascii_simps)
next
  case (ChangeStateFB c ns t)
  then have "c \<in> {cg_nMGM_CMD_Start, cg_nMGM_CMD_Stop, cg_nMGM_CMD_Kill, cg_nMGM_CMD_Reset}"
    using assms by (simp add: state_command_def)
  then show ?thesis using ChangeStateFB command_found by (auto simp: state_name_def simp del: ascii_simps)
qed (use command_found in \<open>simp_all del: ascii_simps\<close>)

definition request_end :: "u8 list" where
  "request_end = ascii ''</Request>''"

lemma parseRequest_request:
  assumes "plain_id idt" and "plain_request mx r"
  shows "parseRequest (request_text idt r) =
    Some (Some idt, Some (group_of r, 62 # (if body_text r = [] then [] else 60 # body_text r) @ request_end))"
proof -
  have tx: "request_text idt r = ascii ''<Request ID=\"'' @ idt @ ascii ''\" Action=\"'' @ ascii (action_name r) @
      34 # 62 # (if body_text r = [] then [] else 60 # body_text r) @ request_end"
    by (simp add: request_text_def request_end_def)
  show ?thesis
    unfolding tx by (rule parseRequest_text [OF assms(1) action_found [OF assms(2)]])
qed

lemma body_after_bracket:
  "map_option tl (strchr 60 (62 # (if body_text r = [] then [] else 60 # body_text r) @ request_end)) =
    Some (if body_text r = [] then tl request_end else body_text r @ request_end)"
  by (simp add: strchr_Cons request_end_def)

lemma request_end_plain: "34 \<notin> set request_end"
  by (simp add: request_end_def)

lemma fb_text_start: "char_at (fb_text ns t @ s) 0 = 70" "fb_text ns t \<noteq> []"
  by (simp_all add: fb_text_def)

lemma con_text_start: "char_at (con_text ns ms @ s) 0 = 67" "con_text ns ms \<noteq> []"
  by (simp_all add: con_text_def)

lemma has_prefix_char:
  assumes "has_prefix p s" and "i < length p"
  shows "char_at s i = ascii p ! i"
proof -
  have *: "take (length p) s = ascii p" using assms(1) by (simp add: has_prefix_def)
  then have "length p \<le> length s" by (metis ascii_simps(4) length_take min.cobounded1)
  then show ?thesis using assms(2) * by (metis char_at_def nth_take order_less_le_trans)
qed

text \<open>The text of a Read is not that of the command that reads all watches.\<close>

lemma star_star_text:
  assumes "plain_names mx ns"
  shows "\<not> has_prefix ''Connection Source=\"*\" Destination=\"*\"'' (con_text ns ms @ s)"
proof -
  have "char_at (con_text ns ms @ s) 19 \<noteq> 42"
    using char_at_names [OF assms, of "ascii '' Destination=\"'' @ names_text ms @ ascii ''\" />'' @ s"]
    by (simp add: con_text_def char_at_def numeral_eq_Suc)
  moreover have "ascii ''Connection Source=\"*\" Destination=\"*\"'' ! 19 = 42" by (simp add: numeral_eq_Suc)
  ultimately show ?thesis
    using has_prefix_char [of "''Connection Source=\"*\" Destination=\"*\"''" _ 19] by fastforce
qed

lemma request_data:
  assumes "plain_request mx r" and "mFirstParam cmd = []" "mSecondParam cmd = []"
  shows "parse_data mx (Some (if body_text r = [] then tl request_end else body_text r @ request_end)) (cmd\<lparr>mCMD := group_of r\<rparr>) =
    Some (command_of r cmd)"
proof (cases r)
  case (ReadValue ns ms)
  then show ?thesis
    using assms star_star_text [of mx ns ms request_end]
    by (simp add: parse_data_def parseReadData_def con_text_start parseConnectionData_text command_if_def invalid_def)
next
  case (ChangeState c)
  then have "c \<in> {cg_nMGM_CMD_Start, cg_nMGM_CMD_Stop, cg_nMGM_CMD_Kill, cg_nMGM_CMD_Reset}"
    using assms by (simp add: state_command_def)
  then show ?thesis
    using ChangeState assms by (auto simp: parse_data_def parseAdditionalStateCommandData_def request_end_def)
next
  case (ChangeStateFB c ns t)
  then have "c \<in> {cg_nMGM_CMD_Start, cg_nMGM_CMD_Stop, cg_nMGM_CMD_Kill, cg_nMGM_CMD_Reset}"
    using assms by (simp add: state_command_def)
  then show ?thesis
    using ChangeStateFB assms
    by (auto simp: parse_data_def parseAdditionalStateCommandData_def fb_text_start parseFBData_text request_end_plain)
qed (use assms in \<open>simp_all add: parse_data_def parseCreateData_def parseDeleteData_def fb_text_start con_text_start
  parseFBData_text parseConnectionData_text request_end_plain command_if_def invalid_def\<close>)

section \<open>Execution\<close>

definition base_command :: "u8 list \<Rightarrow> dev_mgr \<Rightarrow> SManagementCMD" where
  "base_command dst M = (m_stCommand M)\<lparr>mDestination := (if dst = [] then scm_nInvalidStringId else name_of dst),
     mFirstParam := [], mSecondParam := [], mMonitorResponse := []\<rparr>"

lemma bracket_in_request: "strchr 62 (request_text idt r) \<noteq> None"
proof -
  have "62 \<in> set (request_text idt r)" by (simp add: request_text_def)
  then show ?thesis by (auto simp: strchr_def dropWhile_eq_Nil_conv split: list.splits)
qed

lemma command_of_valid: "plain_request mx r \<Longrightarrow> mCMD (command_of r cmd) \<noteq> cg_nMGM_CMD_INVALID"
  by (cases r) (auto simp: state_command_def)

lemma request_executed:
  assumes "plain_id idt" and "plain_request (env_max_names E) r"
  shows "parseAndExecuteMGMCommand E dst (request_text idt r) M D =
    map_option (\<lambda>(x, c, D1). (x, \<lparr>m_stCommand = c, mID = Some idt\<rparr>, D1, True))
      (device_executeMGMCommand (env_services E) (env_storage E) (env_capacity E) (command_of r (base_command dst M)) D)"
proof -
  define rest where "rest = 62 # (if body_text r = [] then [] else 60 # body_text r) @ request_end"
  have "parse_data (env_max_names E) (map_option tl (strchr 60 rest)) ((base_command dst M)\<lparr>mCMD := group_of r\<rparr>) =
      Some (command_of r (base_command dst M))"
    unfolding rest_def body_after_bracket by (rule request_data [OF assms(2)]) (simp_all add: base_command_def)
  then show ?thesis
    using bracket_in_request [of idt r] command_of_valid [OF assms(2)] parseRequest_request [OF assms]
    by (auto simp: parseAndExecuteMGMCommand_def base_command_def [symmetric] rest_def [symmetric])
qed



lemma appedIdentifierName_names:
  "ns \<noteq> [] \<Longrightarrow> appedIdentifierName ns = names_text ns @ 46 # ascii (last ns)"
  by (induction ns rule: names_text.induct) (simp_all add: appedIdentifierName_def)

text \<open>
  The response to a Read carries the text of the variable, but it does not name the variable: where
  its name should be, it repeats the last name of the path to the block.
\<close>

theorem read_response_names_block:
  assumes "plain_id idt" and "plain_names (env_max_names E) (p @ [v])" and "plain_names (env_max_names E) ms" and "p \<noteq> []"
    and "readValue (s_toString (env_services E)) (env_capacity E) (p @ [v]) (dev_self D) = (e_RDY, Some t)" and "t \<noteq> []"
  shows "\<exists>M1. executeRQST E [] (request_text idt (ReadValue (p @ [v]) ms)) M D =
    Some (ascii ''<Response ID=\"'' @ idt @ ascii ''\">'' @ newline @
          ascii ''  <Connection Source=\"'' @ names_text p @ 46 # ascii (last p) @ ascii ''\" Destination=\"'' @ c_text t @
          ascii ''\" />'' @ newline @ ascii ''</Response>'', M1, D)"
proof -
  have "c_text idt = idt"
    using assms(1) by (auto simp: plain_id_def c_text_def takeWhile_eq_all_conv)
  then show ?thesis
    using assms(4,5,6)
    by (simp add: executeRQST_def request_executed [OF assms(1)] assms(2,3) device_executeMGMCommand_def
      executeMGMCommand_def base_command_def Let_def generateLongResponse_def response_head_def
      appedIdentifierName_names)
qed

text \<open>
  An ID of more than seven characters is not cut off: the response repeats the whole rest of the
  request in its place.
\<close>

theorem long_id_echoes_request:
  assumes "7 < length idt" and "34 \<notin> set idt" and "0 \<notin> set idt \<union> set rest" and "62 \<in> set rest"
  shows "\<exists>M1. executeRQST E dst (ascii ''<Request ID=\"'' @ idt @ 34 # rest) M D =
    Some (ascii ''<Response ID=\"'' @ (idt @ 34 # rest) @ ascii ''\" Reason=\"UNSUPPORTED_CMD\" />'', M1, D)"
proof -
  define b req where "b = idt @ 34 # rest" and "req = ascii ''<Request ID=\"'' @ b"
  have "62 \<in> set req" using assms(4) by (simp add: req_def b_def)
  then have "strchr 62 req \<noteq> None" by (auto simp: strchr_def dropWhile_eq_Nil_conv split: list.splits)
  moreover have "takeWhile (\<lambda>c. c \<noteq> 34) b = idt" using assms(2) by (auto simp: b_def takeWhile_append)
  then have "parseRequest req = Some (Some b, None)"
    using assms(1) by (simp add: req_def parseRequest_def has_prefix_def Let_def b_def)
  moreover have "c_text b = b" using assms(3) by (auto simp: b_def c_text_def takeWhile_eq_all_conv)
  ultimately have "\<exists>M1. executeRQST E dst req M D =
    Some (ascii ''<Response ID=\"'' @ b @ ascii ''\" Reason=\"UNSUPPORTED_CMD\" />'', M1, D)"
    by (auto simp: executeRQST_def parseAndExecuteMGMCommand_def Let_def generateResponse_def response_head_def)
  then show ?thesis by (simp add: req_def b_def)
qed

end
