(* ===== verification/Value_Laws.thy ===== *)
theory Value_Laws
  imports Resource_Laws Mgm_Laws
begin

text \<open>
  Writing and reading the variables of blocks as text, through a resource and through the requests of
  the device manager.
\<close>

section \<open>The conversions that a resource uses\<close>

text \<open>The virtual functions \<open>fromString\<close> and \<open>toString\<close> on the types whose text is modelled; \<open>P\<close> and \<open>Q\<close>
  are the conversions of the other types.\<close>

definition number_fromString :: "(u8 list \<Rightarrow> iec_any \<Rightarrow> int \<times> iec_any) \<Rightarrow> u8 list \<Rightarrow> iec_any \<Rightarrow> int \<times> iec_any" where
  "number_fromString P txt x =
     (case x of
        Elem t w \<Rightarrow>
          if t = e_BOOL then map_prod id (Elem t) (bool_fromString txt w)
          else if int_range t \<noteq> None then map_prod id (Elem t) (elem_fromString t txt w)
          else P txt x
      | _ \<Rightarrow> P txt x)"

definition number_toString :: "(iec_any \<Rightarrow> nat \<Rightarrow> int \<times> u8 list) \<Rightarrow> iec_any \<Rightarrow> nat \<Rightarrow> int \<times> u8 list" where
  "number_toString Q x cap =
     (case x of
        Elem t w \<Rightarrow>
          if t = e_BOOL then bool_toString w cap
          else if int_range t \<noteq> None then elem_toString t w cap
          else Q x cap
      | _ \<Rightarrow> Q x cap)"

section \<open>Writing does not move variables\<close>

lemma set_var_simps [simp]:
  "m_nFBInstanceName (set_var v x b) = m_nFBInstanceName b" "fb_spec (set_var v x b) = fb_spec b"
  by (simp_all add: set_var_def)

lemma find_var_set_var [simp]: "find_var n (set_var v x b) = find_var n b"
  by (simp add: find_var_def)

lemma fb_name_set_var [simp]: "fb_name (upd_fb i (set_var v x) w) = fb_name w"
  by (auto simp: fb_name_def upd_fb_def split: option.splits)

lemma getContainedFB_names:
  "fb_name w1 = fb_name w \<Longrightarrow> getContainedFB w1 it c = getContainedFB w it c"
proof (induction w it c rule: getContainedFB.induct)
  case (1 w it c)
  have "getFB w1 n c = getFB w n c" for n using "1.prems" by (simp add: getFB_def)
  then show ?case
    using "1.IH" [OF _ "1.prems"]
    by (subst (1 2) getContainedFB.simps) (simp split: option.split)
qed

lemma getVariable_set_var:
  "getVariable ns (set_world (upd_fb i (set_var v x) (res_world R)) R) = getVariable ns R"
proof -
  have "Option.bind (w_fbs (upd_fb i (set_var v x) (res_world R)) j) (\<lambda>b. map_option (Pair j) (find_var n b)) =
      Option.bind (w_fbs (res_world R) j) (\<lambda>b. map_option (Pair j) (find_var n b))" for j n
    by (auto simp: upd_fb_def split: option.splits)
  then show ?thesis
    by (simp add: getVariable_def set_world_def getContainedFB_names [OF fb_name_set_var] Let_def cong: option.case_cong if_cong)
qed

lemma getVariable_port:
  assumes "getVariable ns R = Some (i, v)" and "wf_world (res_world R)"
  shows "\<exists>b. w_fbs (res_world R) i = Some b \<and> snd v < length (if fst v then m_aoDIs b else m_aoDOs b)"
proof -
  from assms(1) obtain b n where b: "w_fbs (res_world R) i = Some b" "find_var n b = Some v"
    by (auto simp: getVariable_def Let_def bind_eq_Some_conv split: if_splits option.splits)
  then have "fb_wf b" using assms(2) by (auto simp: wf_world_def)
  then show ?thesis
    using b getPortId_found [of n "m_aunDINames (fb_spec b)"] getPortId_found [of n "m_aunDONames (fb_spec b)"]
    by (auto simp: find_var_def fb_wf_def Let_def split: if_splits)
qed

lemma var_value_set_var:
  "snd v < length (if fst v then m_aoDIs b else m_aoDOs b) \<Longrightarrow> var_value v (set_var v x b) = x"
  by (auto simp: var_value_def set_var_def)

text \<open>
  C11. A value that is written to a variable of a number type is the value that the next Read of the
  variable gives, in the same text.
\<close>

theorem written_value_is_read_back:
  assumes "wf_world (res_world R)" and "getVariable ns R = Some (i, v)"
    and "\<forall>b. w_fbs (res_world R) i = Some b \<longrightarrow> (\<exists>w. var_value v b = Elem t w)"
    and t: "int_range t = Some (sg, lo, hi)" and n: "lo \<le> n" "n \<le> hi" and cap: "getToStringBufferSize t \<le> cap"
  shows "\<exists>R1. writeValue (number_fromString P) ns (number_text t n) R = (e_RDY, R1) \<and>
    readValue (number_toString Q) cap ns R1 = (e_RDY, Some (number_text t n))"
proof -
  obtain b where b: "w_fbs (res_world R) i = Some b" "snd v < length (if fst v then m_aoDIs b else m_aoDOs b)"
    using getVariable_port [OF assms(2,1)] by blast
  obtain w where w: "var_value v b = Elem t w" using assms(3) b(1) by blast
  have bool: "t \<noteq> e_BOOL" using t by auto
  have ne: "number_text t n \<noteq> []" using length_digits by (auto simp: number_text_def dest: arg_cong [of _ "[]" length])
  let ?x = "Elem t (word_of_int n)"
  let ?R = "set_world (upd_fb i (set_var v ?x) (res_world R)) R"
  have "elem_fromString t (number_text t n @ []) w = (int (length (number_text t n)), word_of_int n)"
    by (rule elem_fromString_number [OF t n]) (simp_all add: ends_number_def)
  then have "writeValue (number_fromString P) ns (number_text t n) R = (e_RDY, ?R)"
    using assms(2) b(1) w bool t ne by (simp add: writeValue_def number_fromString_def Let_def)
  moreover have "w_fbs (res_world ?R) i = Some (set_var v ?x b)"
    using b(1) by (simp add: set_world_def upd_fb_def)
  moreover have "elem_toString t (word_of_int n) cap = (int (length (number_text t n)), number_text t n @ [0])"
    using elem_toString_cap(1) [OF t, of "word_of_int n" cap] number_text_fits [OF t, of "word_of_int n"] cap
      elem_int_word_of_int [OF t n] by simp
  ultimately show ?thesis
    using assms(2) bool t var_value_set_var [OF b(2)]
    by (simp add: readValue_def getVariable_set_var number_toString_def Let_def)
qed

section \<open>A resource with a counter\<close>

definition counter_fb :: "fb_class_data fb" where
  "counter_fb = the (new_FB [(''UINT'', Elem e_UINT 0), (''BOOL'', Elem e_BOOL 0)] E_CTU_spec ''Cnt'' C_E_CTU)"

definition counter_resource :: "fb_class_data resource" where
  "counter_resource =
     \<lparr>res_rt = \<lparr>rt_world = two_blocks\<lparr>w_fbs := [0 \<mapsto> counter_fb]\<rparr>, rt_next = 1, m_eLastErrorMSG = e_RDY\<rparr>,
      res_cont = CFBContainer '''' [0] [], res_fb = 1,
      mFBMonitoringList = [], mTriggerEvent = None\<rparr>"

lemma counter_fb_simps:
  "fb_spec counter_fb = E_CTU_spec" "m_nFBInstanceName counter_fb = ''Cnt''"
  "map dp_val (m_aoDIs counter_fb) = [Elem e_UINT 0]" "fb_wf counter_fb"
  unfolding counter_fb_def by (code_simp, code_simp, code_simp) (simp add: fb_wf_def new_FB_def E_CTU_spec_def createDataPoint_def)

lemma counter_wf: "wf_world (res_world counter_resource)"
  by (simp add: wf_world_def counter_resource_def counter_fb_simps)

lemma counter_variable:
  "getVariable [''Cnt'', ''PV''] counter_resource = Some (0, True, 0)"
  "w_fbs (res_world counter_resource) 0 = Some counter_fb"
  "var_value (True, 0) counter_fb = Elem e_UINT 0"
proof -
  have "dp_val (m_aoDIs counter_fb ! 0) = map dp_val (m_aoDIs counter_fb) ! 0"
    using counter_fb_simps(3) by (metis length_0_conv list.simps(3) map_is_Nil_conv nth_map neq0_conv)
  then show "var_value (True, 0) counter_fb = Elem e_UINT 0"
    by (simp add: var_value_def counter_fb_simps)
  show w: "w_fbs (res_world counter_resource) 0 = Some counter_fb" by (simp add: counter_resource_def)
  have "getContainedFB (res_world counter_resource) (name_begin [''Cnt''] ''PV'') (res_cont counter_resource) =
      (Some 0, name_begin [''Cnt''] ''PV'')"
    by (subst getContainedFB.simps)
       (simp add: counter_resource_def getFB_def fb_name_def counter_fb_simps scm_nInvalidStringId_def)
  moreover have "find_var ''PV'' counter_fb = Some (True, 0)"
    by (simp add: find_var_def counter_fb_simps) code_simp
  ultimately show "getVariable [''Cnt'', ''PV''] counter_resource = Some (0, True, 0)"
    using w by (simp add: getVariable_def)
qed

theorem written_value_is_read_back_witness:
  "\<exists>R1. writeValue (number_fromString undefined) [''Cnt'', ''PV''] (ascii ''305'') counter_resource = (e_RDY, R1) \<and>
    readValue (number_toString undefined) 255 [''Cnt'', ''PV''] R1 = (e_RDY, Some (ascii ''305''))"
proof -
  have "number_text e_UINT 305 = ascii ''305''" by code_simp
  then show ?thesis
    using written_value_is_read_back [OF counter_wf counter_variable(1), where t = e_UINT and sg = False and n = 305 and cap = 255
        and P = undefined and Q = undefined] counter_variable by simp
qed

definition counter_device :: "fb_class_data device" where
  "counter_device = \<lparr>dev_self = counter_resource, dev_resources = Map.empty\<rparr>"

definition reading_env :: "fb_class_data mgr_env \<Rightarrow> fb_class_data mgr_env" where
  "reading_env F = F\<lparr>env_max_names := 30, env_capacity := 256,
     env_services := (env_services F)\<lparr>s_toString := number_toString undefined\<rparr>\<rparr>"

theorem read_response_names_block_witness:
  "\<forall>F M. \<exists>M1. executeRQST (reading_env F) [] (request_text (ascii ''1'') (ReadValue [''Cnt'', ''PV''] [''x''])) M counter_device =
      Some (ascii ''<Response ID=\"1\">'' @ newline @ ascii ''  <Connection Source=\"Cnt.Cnt\" Destination=\"0\" />'' @
            newline @ ascii ''</Response>'', M1, counter_device)"
proof (intro allI)
  fix F M
  have "first_digit k 0 = 0" for k by (induction k) simp_all
  then have "number_text e_UINT (elem_int e_UINT 0) = [48]" by (simp add: number_text_def digit_def)
  then have "elem_toString e_UINT 0 256 = (1, [48, 0])"
    using elem_toString_cap(1) [of e_UINT False 0 65535 0 256] by simp
  then have zero: "number_toString undefined (Elem e_UINT 0) 256 = (1, [48, 0])" by (simp add: number_toString_def)
  let ?E = "reading_env F"
  have "readValue (s_toString (env_services ?E)) (env_capacity ?E) ([''Cnt''] @ [''PV'']) (dev_self counter_device) = (e_RDY, Some [48])"
    using counter_variable zero by (simp add: readValue_def counter_device_def reading_env_def)
  moreover have "plain_id (ascii ''1'')" by (simp add: plain_id_def)
  moreover have "plain_names (env_max_names ?E) ([''Cnt''] @ [''PV''])" "plain_names (env_max_names ?E) [''x'']"
    by (simp_all add: plain_names_def plain_name_def reading_env_def)
  ultimately show "\<exists>M1. executeRQST ?E [] (request_text (ascii ''1'') (ReadValue [''Cnt'', ''PV''] [''x''])) M counter_device =
      Some (ascii ''<Response ID=\"1\">'' @ newline @ ascii ''  <Connection Source=\"Cnt.Cnt\" Destination=\"0\" />'' @
            newline @ ascii ''</Response>'', M1, counter_device)"
    using read_response_names_block [of "ascii ''1''" ?E "[''Cnt'']" "''PV''" "[''x'']" counter_device "[48]" M]
    by (simp add: c_text_def)
qed

theorem long_id_echoes_request_witness:
  "\<forall>(E :: fb_class_data mgr_env) M D. \<exists>M1. executeRQST E [] (ascii ''<Request ID=\"12345678\" Action=\"STOP\"/>'') M D =
    Some (ascii ''<Response ID=\"12345678\" Action=\"STOP\"/>\" Reason=\"UNSUPPORTED_CMD\" />'', M1, D)"
proof (intro allI)
  fix E :: "fb_class_data mgr_env" and M D
  show "\<exists>M1. executeRQST E [] (ascii ''<Request ID=\"12345678\" Action=\"STOP\"/>'') M D =
    Some (ascii ''<Response ID=\"12345678\" Action=\"STOP\"/>\" Reason=\"UNSUPPORTED_CMD\" />'', M1, D)"
    using long_id_echoes_request [of "ascii ''12345678''" "ascii '' Action=\"STOP\"/>''" E "[]" M D] by simp
qed

end
