(* ===== verification/Boot_Laws.thy ===== *)
theory Boot_Laws
  imports Mgm_Laws "HOL-Library.Sublist"
begin

text \<open>
  Boot files: a file of commands, one in each line, is the sequence of its commands; and a file whose
  lines end with a carriage return is not.
\<close>

section \<open>The commands of a file\<close>

definition line_text :: "u8 list \<times> u8 list \<Rightarrow> u8 list" where
  "line_text c = fst c @ 59 # snd c @ newline"

definition plain_line :: "u8 list \<times> u8 list \<Rightarrow> bool" where
  "plain_line c \<longleftrightarrow> 59 \<notin> set (fst c) \<and> 10 \<notin> set (fst c) \<and> 10 \<notin> set (snd c) \<and> suffix (ascii ''</Request>'') (snd c)"

text \<open>What a sequence of commands does: up to the first that is not answered with RDY.\<close>

fun run_commands ::
  "'c mgr_env \<Rightarrow> (u8 list \<times> u8 list) list \<Rightarrow> dev_mgr \<Rightarrow> 'c device \<Rightarrow> (LoadBootResult \<times> dev_mgr \<times> 'c device) option" where
  "run_commands E [] M D = Some (LOAD_RESULT_OK, M, D)"
| "run_commands E (c # cs) M D =
     (case executeCommand E (fst c) (snd c @ newline) M D of
        None \<Rightarrow> None
      | Some (ok, M1, D1) \<Rightarrow> if ok then run_commands E cs M1 D1 else Some (EXTERNAL_ERROR, M1, D1))"

section \<open>Lines\<close>

lemma ends_with_suffix: "ends_with p s \<longleftrightarrow> suffix p s"
  unfolding ends_with_def suffix_def
  by (metis append_take_drop_id append_eq_conv_conj diff_diff_cancel length_append length_drop nle_le diff_le_self add_diff_cancel_right')

lemma ended_last:
  assumes "hasCommandEnded l = Some True"
  shows "suffix [62, 10] l"
proof -
  have "suffix [62, 10] (ascii ''</Request>'' @ newline)" "suffix [62, 10] (ascii ''/>'' @ newline)"
    by (simp_all add: newline_def suffix_def)
  then show ?thesis
    using assms by (auto simp: hasCommandEnded_def ends_with_suffix split: if_splits dest: suffix_order.trans)
qed

lemma ended_False:
  "11 \<le> length l \<Longrightarrow> \<not> suffix [62, 10] l \<Longrightarrow> hasCommandEnded l = Some False"
  using ended_last [of l] by (auto simp: hasCommandEnded_def)

lemma fgets_line:
  assumes "10 \<notin> set b"
  shows "fgets (b @ 10 # s) = (if length b < 99 then b @ [10] else take 99 b)"
proof -
  have "takeWhile (\<lambda>c. c \<noteq> 10) (b @ 10 # s) = b" using assms by (auto simp: takeWhile_append)
  then show ?thesis by (simp add: fgets_def)
qed

lemma fgets_drop: "fgets s @ drop (length (fgets s)) s = s"
proof -
  obtain k where "fgets s = take k s" by (auto simp: fgets_def take_take)
  then show ?thesis by (cases "k \<le> length s") simp_all
qed

lemma readLine_line:
  "10 \<notin> set acc \<Longrightarrow> 10 \<notin> set b \<Longrightarrow> suffix (ascii ''</Request>'') (acc @ b) \<Longrightarrow>
    readLine acc (b @ 10 # s) = Some (Some (acc @ b @ [10]), s)"
proof (induction "length b" arbitrary: acc b rule: less_induct)
  case less
  note fg = fgets_line [OF less.prems(2), of s]
  show ?case
  proof (cases "length b < 99")
    case True
    have "suffix (ascii ''</Request>'' @ newline) (acc @ b @ newline)"
      using less.prems(3) by (auto simp: suffix_def simp del: ascii_simps)
    moreover from this have "length (ascii ''</Request>'' @ newline) \<le> length (acc @ b @ newline)" by (rule suffix_length_le)
    then have "11 \<le> length (acc @ b @ newline)" by (simp add: newline_def)
    ultimately have "hasCommandEnded (acc @ b @ [10]) = Some True"
      by (simp add: hasCommandEnded_def ends_with_suffix newline_def del: ascii_simps)
    then show ?thesis using fg True by (simp add: readLine.simps [of acc])
  next
    case False
    have ne: "take 99 b \<noteq> []" using False by auto
    have "10 \<notin> set (acc @ take 99 b)" using less.prems(1,2) by (auto dest: in_set_takeD)
    then have "\<not> suffix [62, 10] (acc @ take 99 b)" by (metis insertI1 insert_commute list.set(2) set_mono_suffix subsetD)
    then have "hasCommandEnded (acc @ take 99 b) = Some False" using False by (intro ended_False) simp_all
    then have "readLine acc (b @ 10 # s) = readLine (acc @ take 99 b) (drop 99 b @ 10 # s)"
      using fg False by (simp add: readLine.simps [of acc])
    also have "\<dots> = Some (Some ((acc @ take 99 b) @ drop 99 b @ [10]), s)"
      using less.prems False by (intro less.hyps) (auto dest: in_set_takeD in_set_dropD)
    finally show ?thesis by simp
  qed
qed


text \<open>
  In a file in which no line ends directly behind a tag, as when the lines end with a carriage return
  and a newline, all lines together are taken for one command, which is the only one that is executed.
\<close>

theorem crlf_file_is_one_command:
  assumes "\<not> sublist [62, 10] src" and "11 \<le> length (fgets src)" and "strchr 59 src = Some t"
  shows "loadBootFile E (Some src) M D =
    map_option (\<lambda>(ok, M1, D1). (if ok then LOAD_RESULT_OK else EXTERNAL_ERROR, M1, D1))
      (executeCommand E (takeWhile (\<lambda>c. c \<noteq> 59) src) (tl t) M D)"
proof -
  have line: "readLine acc s = Some (Some (acc @ s), [])"
    if "\<not> sublist [62, 10] (acc @ s)" "acc \<noteq> [] \<or> s \<noteq> []" "11 \<le> length (acc @ fgets s)" for acc s
    using that
  proof (induction acc s rule: readLine.induct)
    case (1 acc s)
    show ?case
    proof (cases "s = []")
      case True
      then show ?thesis using "1.prems" by (simp add: readLine.simps [of acc "[]"])
    next
      case False
      define l where "l = acc @ fgets s"
      have s: "acc @ s = l @ drop (length (fgets s)) s"
        using fgets_drop [of s] by (simp add: l_def)
      then have "sublist l (acc @ s)" by simp
      then have "\<not> suffix [62, 10] l"
        using "1.prems"(1) by (meson sublist_order.order_trans suffix_imp_sublist)
      then have open_line: "hasCommandEnded l = Some False" using "1.prems"(3) by (intro ended_False) (simp_all add: l_def)
      have "readLine l (drop (length (fgets s)) s) = Some (Some (l @ drop (length (fgets s)) s), [])"
        using "1.IH" [OF False refl refl] open_line "1.prems" s by (simp add: l_def)
      then show ?thesis using False open_line s by (simp add: readLine.simps [of acc s] l_def)
    qed
  qed
  have "src \<noteq> []" using assms(3) by (auto simp: strchr_def)
  then have "readLine [] src = Some (Some src, [])" using line [of "[]" src] assms by simp
  then show ?thesis
    using assms(3)
    by (simp add: loadBootFile_def load_lines.simps [of E src] load_lines.simps [of E "[]"] readLine.simps [of "[]" "[]"]
      split: option.split)
qed


theorem crlf_file_is_one_command_witness:
  "\<forall>(E :: 'c mgr_env) M D. loadBootFile E (Some (ascii '';<a></Request>'' @ [13, 10] @ ascii '';<b></Request>'' @ [13, 10])) M D =
    map_option (\<lambda>(ok, M1, D1). (if ok then LOAD_RESULT_OK else EXTERNAL_ERROR, M1, D1))
      (executeCommand E [] (ascii ''<a></Request>'' @ [13, 10] @ ascii '';<b></Request>'' @ [13, 10]) M D)"
proof (intro allI)
  fix E :: "'c mgr_env" and M D
  let ?s = "ascii '';<a></Request>'' @ [13, 10] @ ascii '';<b></Request>'' @ [13, 10]"
  have "\<not> sublist [62, 10] ?s" "11 \<le> length (fgets ?s)"
    by (simp_all add: sublist_Cons_right fgets_def)
  then show "loadBootFile E (Some ?s) M D =
    map_option (\<lambda>(ok, M1, D1). (if ok then LOAD_RESULT_OK else EXTERNAL_ERROR, M1, D1))
      (executeCommand E [] (ascii ''<a></Request>'' @ [13, 10] @ ascii '';<b></Request>'' @ [13, 10]) M D)"
    using crlf_file_is_one_command [of ?s "?s" E M D] by (simp add: strchr_def)
qed

end
