(* ===== verification/Convert_Functions.thy ===== *)
theory Convert_Functions
  imports Elementary_Text Timer_Handler
begin

text \<open>
  The conversion functions of IEC 61131-3 between BOOL, bit strings, integers, strings and TIME,
  \<^verbatim>\<open>src/src/core/convert_functions.h\<close>. All functions with one source type are one definition, \<open>s_TO\<close>, on
  the target type and the bits of the value; a target without a function is \<open>None\<close>. The result has the
  type that the function returns, which is not always the target. Conversions from REAL, LREAL, TIME
  and dates are not modelled.
\<close>

unbundle bit_operations_syntax

section \<open>What the functions are made of\<close>

text \<open>A static cast to the type, and the largest and the smallest value of a type.\<close>

definition cast_to :: "EDataTypeID \<Rightarrow> int \<Rightarrow> iec_any" where
  "cast_to d v = Elem d (elem_store d v)"

definition scm_nMaxVal :: "EDataTypeID \<Rightarrow> int" where
  "scm_nMaxVal d = (case int_range d of None \<Rightarrow> 0 | Some (sg, lo, hi) \<Rightarrow> hi)"

definition scm_nMinVal :: "EDataTypeID \<Rightarrow> int" where
  "scm_nMinVal d = (case int_range d of None \<Rightarrow> 0 | Some (sg, lo, hi) \<Rightarrow> lo)"

text \<open>The three forms of checks: for both limits, for the upper one only, and for negative values.\<close>

definition limit_both :: "EDataTypeID \<Rightarrow> int \<Rightarrow> iec_any" where
  "limit_both d v =
     (if scm_nMaxVal d < v then cast_to d (scm_nMaxVal d)
      else if v < scm_nMinVal d then cast_to d (scm_nMinVal d) else cast_to d v)"

definition limit_max :: "EDataTypeID \<Rightarrow> int \<Rightarrow> iec_any" where
  "limit_max d v = (if v \<le> scm_nMaxVal d then cast_to d v else cast_to d (scm_nMaxVal d))"

definition limit_min :: "EDataTypeID \<Rightarrow> int \<Rightarrow> iec_any" where
  "limit_min d v = (if 0 < v then cast_to d v else cast_to d (scm_nMinVal d))"

definition bool_value :: "bool \<Rightarrow> iec_any" where
  "bool_value b = Elem e_BOOL (if b then 1 else 0)"

text \<open>A number of seconds as TIME; for some types only when it is positive.\<close>

definition time_value :: "int \<Rightarrow> iec_any" where
  "time_value v = Elem e_TIME (word_of_int (v * FORTE_TIME_BASE_UNITS_PER_SECOND))"

definition positive_time :: "int \<Rightarrow> iec_any" where
  "positive_time v = (if 0 < v then time_value v else Elem e_TIME 0)"

definition real_value :: "platform \<Rightarrow> EDataTypeID \<Rightarrow> u64 \<Rightarrow> iec_any" where
  "real_value P t w =
     Elem e_REAL (ucast (if is_signed_dt t then f32_of_i64 P (word_of_int (elem_int t w))
                         else f32_of_u64 P (word_of_int (elem_int t w))))"

definition lreal_value :: "platform \<Rightarrow> EDataTypeID \<Rightarrow> u64 \<Rightarrow> iec_any" where
  "lreal_value P t w =
     Elem e_LREAL (if is_signed_dt t then f64_of_i64 P (word_of_int (elem_int t w))
                   else f64_of_u64 P (word_of_int (elem_int t w)))"

text \<open>\<open>stringConverter\<close>: the text of the value in a buffer of the size for its type.\<close>

definition stringConverter :: "EDataTypeID \<Rightarrow> u64 \<Rightarrow> u8 list" where
  "stringConverter t w =
     (let cap = getToStringBufferSize t;
          r = (if t = e_BOOL then bool_toString w cap else elem_toString t w cap)
      in if - 1 < fst r then take (nat (fst r)) (snd r) else [])"

text \<open>The conversions from strings: whether the text was understood is not looked at.\<close>

definition STRING_TO :: "EDataTypeID \<Rightarrow> u8 list \<Rightarrow> iec_any option" where
  "STRING_TO d s =
     (let chars = takeWhile (\<lambda>c. c \<noteq> 0) s
      in if d = e_BOOL then Some (Elem d (snd (bool_fromString chars 0)))
         else if int_range d \<noteq> None then Some (Elem d (snd (elem_fromString d chars 0))) else None)"

section \<open>The functions\<close>

definition BOOL_TO :: "platform \<Rightarrow> EDataTypeID \<Rightarrow> u64 \<Rightarrow> iec_any option" where
  "BOOL_TO P d w =
     (let v = getTBOOL8 w
      in case d of
        e_BYTE \<Rightarrow> Some (cast_to e_BYTE (if v then 1 else 0))
      | e_DINT \<Rightarrow> Some (cast_to e_DINT (if v then 1 else 0))
      | e_DWORD \<Rightarrow> Some (cast_to e_DWORD (if v then 1 else 0))
      | e_INT \<Rightarrow> Some (cast_to e_INT (if v then 1 else 0))
      | e_LINT \<Rightarrow> Some (cast_to e_LINT (if v then 1 else 0))
      | e_LREAL \<Rightarrow> Some (Elem e_LREAL (if v then 0x3FF0000000000000 else 0))
      | e_LWORD \<Rightarrow> Some (cast_to e_LWORD (if v then 1 else 0))
      | e_REAL \<Rightarrow> Some (Elem e_REAL (if v then 0x3F800000 else 0))
      | e_SINT \<Rightarrow> Some (cast_to e_SINT (if v then 1 else 0))
      | e_UDINT \<Rightarrow> Some (cast_to e_UDINT (if v then 1 else 0))
      | e_UINT \<Rightarrow> Some (cast_to e_UINT (if v then 1 else 0))
      | e_ULINT \<Rightarrow> Some (cast_to e_ULINT (if v then 1 else 0))
      | e_USINT \<Rightarrow> Some (cast_to e_USINT (if v then 1 else 0))
      | e_WORD \<Rightarrow> Some (cast_to e_WORD (if v then 1 else 0))
      | e_STRING \<Rightarrow> Some (Str (stringConverter e_BOOL w))
      | e_WSTRING \<Rightarrow> Some (WStr (stringConverter e_BOOL w))
      | e_TIME \<Rightarrow> Some (time_value (if v then 1 else 0))
      | _ \<Rightarrow> None)"

definition BYTE_TO :: "platform \<Rightarrow> EDataTypeID \<Rightarrow> u64 \<Rightarrow> iec_any option" where
  "BYTE_TO P d w =
     (let v = elem_int e_BYTE w
      in case d of
        e_BOOL \<Rightarrow> Some (bool_value (v \<noteq> 0))
      | e_DINT \<Rightarrow> Some (cast_to e_DINT v)
      | e_DWORD \<Rightarrow> Some (cast_to e_DWORD v)
      | e_INT \<Rightarrow> Some (cast_to e_INT v)
      | e_LINT \<Rightarrow> Some (cast_to e_LINT v)
      | e_LREAL \<Rightarrow> Some (lreal_value P e_BYTE w)
      | e_LWORD \<Rightarrow> Some (cast_to e_LWORD v)
      | e_REAL \<Rightarrow> Some (real_value P e_BYTE w)
      | e_SINT \<Rightarrow> Some (limit_max e_SINT v)
      | e_UDINT \<Rightarrow> Some (cast_to e_UDINT v)
      | e_UINT \<Rightarrow> Some (cast_to e_UINT v)
      | e_ULINT \<Rightarrow> Some (cast_to e_ULINT v)
      | e_USINT \<Rightarrow> Some (cast_to e_USINT v)
      | e_WORD \<Rightarrow> Some (cast_to e_WORD v)
      | e_STRING \<Rightarrow> Some (Str (stringConverter e_BYTE w))
      | e_WSTRING \<Rightarrow> Some (WStr (stringConverter e_BYTE w))
      | e_TIME \<Rightarrow> Some (time_value v)
      | _ \<Rightarrow> None)"

definition DINT_TO :: "platform \<Rightarrow> EDataTypeID \<Rightarrow> u64 \<Rightarrow> iec_any option" where
  "DINT_TO P d w =
     (let v = elem_int e_DINT w
      in case d of
        e_BOOL \<Rightarrow> Some (bool_value (v \<noteq> 0))
      | e_BYTE \<Rightarrow> Some (limit_both e_BYTE v)
      | e_DWORD \<Rightarrow> Some (limit_min e_DWORD v)
      | e_INT \<Rightarrow> Some (limit_both e_INT v)
      | e_LINT \<Rightarrow> Some (cast_to e_LINT v)
      | e_LREAL \<Rightarrow> Some (lreal_value P e_DINT w)
      | e_LWORD \<Rightarrow> Some (limit_min e_LWORD v)
      | e_REAL \<Rightarrow> Some (real_value P e_DINT w)
      | e_SINT \<Rightarrow> Some (limit_both e_SINT v)
      | e_UDINT \<Rightarrow> Some (limit_min e_UDINT v)
      | e_UINT \<Rightarrow> Some (limit_both e_UINT v)
      | e_ULINT \<Rightarrow> Some (limit_min e_ULINT v)
      | e_USINT \<Rightarrow> Some (limit_both e_USINT v)
      | e_WORD \<Rightarrow> Some (limit_both e_WORD v)
      | e_STRING \<Rightarrow> Some (Str (stringConverter e_DINT w))
      | e_WSTRING \<Rightarrow> Some (WStr (stringConverter e_DINT w))
      | e_TIME \<Rightarrow> Some (positive_time v)
      | _ \<Rightarrow> None)"

definition DWORD_TO :: "platform \<Rightarrow> EDataTypeID \<Rightarrow> u64 \<Rightarrow> iec_any option" where
  "DWORD_TO P d w =
     (let v = elem_int e_DWORD w
      in case d of
        e_BOOL \<Rightarrow> Some (bool_value (v \<noteq> 0))
      | e_DINT \<Rightarrow> Some (cast_to e_DINT v)
      | e_BYTE \<Rightarrow> Some (limit_max e_BYTE v)
      | e_INT \<Rightarrow> Some (limit_max e_INT v)
      | e_LINT \<Rightarrow> Some (cast_to e_LINT v)
      | e_LREAL \<Rightarrow> Some (lreal_value P e_DWORD w)
      | e_LWORD \<Rightarrow> Some (cast_to e_LWORD v)
      | e_REAL \<Rightarrow> Some (real_value P e_DWORD w)
      | e_SINT \<Rightarrow> Some (limit_max e_SINT v)
      | e_UDINT \<Rightarrow> Some (cast_to e_UDINT v)
      | e_UINT \<Rightarrow> Some (limit_max e_UINT v)
      | e_ULINT \<Rightarrow> Some (cast_to e_ULINT v)
      | e_USINT \<Rightarrow> Some (limit_max e_USINT v)
      | e_WORD \<Rightarrow> Some (limit_max e_WORD v)
      | e_TIME \<Rightarrow> Some (time_value v)
      | e_STRING \<Rightarrow> Some (Str (stringConverter e_DWORD w))
      | e_WSTRING \<Rightarrow> Some (WStr (stringConverter e_DWORD w))
      | _ \<Rightarrow> None)"

definition LWORD_TO :: "platform \<Rightarrow> EDataTypeID \<Rightarrow> u64 \<Rightarrow> iec_any option" where
  "LWORD_TO P d w =
     (let v = elem_int e_LWORD w
      in case d of
        e_BOOL \<Rightarrow> Some (bool_value (v \<noteq> 0))
      | e_DINT \<Rightarrow> Some (limit_max e_DINT v)
      | e_BYTE \<Rightarrow> Some (limit_max e_BYTE v)
      | e_INT \<Rightarrow> Some (limit_max e_INT v)
      | e_LINT \<Rightarrow> Some (cast_to e_LINT v)
      | e_LREAL \<Rightarrow> Some (lreal_value P e_LWORD w)
      | e_DWORD \<Rightarrow> Some (limit_max e_DWORD v)
      | e_REAL \<Rightarrow> Some (real_value P e_LWORD w)
      | e_SINT \<Rightarrow> Some (limit_max e_SINT v)
      | e_UDINT \<Rightarrow> Some (limit_max e_UDINT v)
      | e_UINT \<Rightarrow> Some (limit_max e_UINT v)
      | e_ULINT \<Rightarrow> Some (cast_to e_ULINT v)
      | e_USINT \<Rightarrow> Some (limit_max e_USINT v)
      | e_WORD \<Rightarrow> Some (limit_max e_WORD v)
      | e_STRING \<Rightarrow> Some (Str (stringConverter e_LWORD w))
      | e_WSTRING \<Rightarrow> Some (WStr (stringConverter e_LWORD w))
      | e_TIME \<Rightarrow> Some (time_value v)
      | _ \<Rightarrow> None)"

definition UDINT_TO :: "platform \<Rightarrow> EDataTypeID \<Rightarrow> u64 \<Rightarrow> iec_any option" where
  "UDINT_TO P d w =
     (let v = elem_int e_UDINT w
      in case d of
        e_BOOL \<Rightarrow> Some (bool_value (v \<noteq> 0))
      | e_DINT \<Rightarrow> Some (limit_max e_DINT v)
      | e_BYTE \<Rightarrow> Some (limit_max e_BYTE v)
      | e_INT \<Rightarrow> Some (limit_max e_INT v)
      | e_LINT \<Rightarrow> Some (cast_to e_LINT v)
      | e_LREAL \<Rightarrow> Some (lreal_value P e_UDINT w)
      | e_LWORD \<Rightarrow> Some (cast_to e_LWORD v)
      | e_REAL \<Rightarrow> Some (real_value P e_UDINT w)
      | e_SINT \<Rightarrow> Some (limit_max e_SINT v)
      | e_DWORD \<Rightarrow> Some (cast_to e_UDINT v)
      | e_UINT \<Rightarrow> Some (limit_max e_UINT v)
      | e_ULINT \<Rightarrow> Some (cast_to e_ULINT v)
      | e_USINT \<Rightarrow> Some (limit_max e_USINT v)
      | e_WORD \<Rightarrow> Some (limit_max e_WORD v)
      | e_STRING \<Rightarrow> Some (Str (stringConverter e_UDINT w))
      | e_WSTRING \<Rightarrow> Some (WStr (stringConverter e_UDINT w))
      | e_TIME \<Rightarrow> Some (time_value v)
      | _ \<Rightarrow> None)"

definition UINT_TO :: "platform \<Rightarrow> EDataTypeID \<Rightarrow> u64 \<Rightarrow> iec_any option" where
  "UINT_TO P d w =
     (let v = elem_int e_UINT w
      in case d of
        e_BOOL \<Rightarrow> Some (bool_value (v \<noteq> 0))
      | e_DINT \<Rightarrow> Some (cast_to e_DINT v)
      | e_INT \<Rightarrow> Some (limit_max e_INT v)
      | e_BYTE \<Rightarrow> Some (limit_max e_BYTE v)
      | e_LINT \<Rightarrow> Some (cast_to e_LINT v)
      | e_LREAL \<Rightarrow> Some (lreal_value P e_UINT w)
      | e_LWORD \<Rightarrow> Some (cast_to e_LWORD v)
      | e_REAL \<Rightarrow> Some (real_value P e_UINT w)
      | e_SINT \<Rightarrow> Some (limit_max e_SINT v)
      | e_DWORD \<Rightarrow> Some (cast_to e_DWORD v)
      | e_UDINT \<Rightarrow> Some (cast_to e_UINT v)
      | e_ULINT \<Rightarrow> Some (cast_to e_ULINT v)
      | e_USINT \<Rightarrow> Some (limit_max e_USINT v)
      | e_WORD \<Rightarrow> Some (cast_to e_WORD v)
      | e_STRING \<Rightarrow> Some (Str (stringConverter e_UINT w))
      | e_WSTRING \<Rightarrow> Some (WStr (stringConverter e_UINT w))
      | e_TIME \<Rightarrow> Some (time_value v)
      | _ \<Rightarrow> None)"

definition ULINT_TO :: "platform \<Rightarrow> EDataTypeID \<Rightarrow> u64 \<Rightarrow> iec_any option" where
  "ULINT_TO P d w =
     (let v = elem_int e_ULINT w
      in case d of
        e_BOOL \<Rightarrow> Some (bool_value (v \<noteq> 0))
      | e_DINT \<Rightarrow> Some (limit_max e_DINT v)
      | e_BYTE \<Rightarrow> Some (limit_max e_BYTE v)
      | e_INT \<Rightarrow> Some (limit_max e_INT v)
      | e_LINT \<Rightarrow> Some (cast_to e_LINT v)
      | e_LREAL \<Rightarrow> Some (lreal_value P e_ULINT w)
      | e_DWORD \<Rightarrow> Some (limit_max e_DWORD v)
      | e_REAL \<Rightarrow> Some (real_value P e_ULINT w)
      | e_SINT \<Rightarrow> Some (limit_max e_SINT v)
      | e_UDINT \<Rightarrow> Some (limit_max e_UDINT v)
      | e_UINT \<Rightarrow> Some (limit_max e_UINT v)
      | e_LWORD \<Rightarrow> Some (cast_to e_LWORD v)
      | e_USINT \<Rightarrow> Some (limit_max e_USINT v)
      | e_WORD \<Rightarrow> Some (limit_max e_WORD v)
      | e_STRING \<Rightarrow> Some (Str (stringConverter e_ULINT w))
      | e_WSTRING \<Rightarrow> Some (WStr (stringConverter e_ULINT w))
      | e_TIME \<Rightarrow> Some (positive_time v)
      | _ \<Rightarrow> None)"

definition USINT_TO :: "platform \<Rightarrow> EDataTypeID \<Rightarrow> u64 \<Rightarrow> iec_any option" where
  "USINT_TO P d w =
     (let v = elem_int e_USINT w
      in case d of
        e_BOOL \<Rightarrow> Some (bool_value (v \<noteq> 0))
      | e_DINT \<Rightarrow> Some (cast_to e_DINT v)
      | e_BYTE \<Rightarrow> Some (cast_to e_BYTE v)
      | e_INT \<Rightarrow> Some (cast_to e_INT v)
      | e_LINT \<Rightarrow> Some (cast_to e_LINT v)
      | e_LREAL \<Rightarrow> Some (lreal_value P e_USINT w)
      | e_LWORD \<Rightarrow> Some (cast_to e_LWORD v)
      | e_REAL \<Rightarrow> Some (real_value P e_USINT w)
      | e_SINT \<Rightarrow> Some (limit_max e_SINT v)
      | e_DWORD \<Rightarrow> Some (cast_to e_DWORD v)
      | e_UDINT \<Rightarrow> Some (cast_to e_USINT v)
      | e_ULINT \<Rightarrow> Some (cast_to e_ULINT v)
      | e_UINT \<Rightarrow> Some (cast_to e_UINT v)
      | e_WORD \<Rightarrow> Some (cast_to e_WORD v)
      | e_STRING \<Rightarrow> Some (Str (stringConverter e_USINT w))
      | e_WSTRING \<Rightarrow> Some (WStr (stringConverter e_USINT w))
      | e_TIME \<Rightarrow> Some (time_value v)
      | _ \<Rightarrow> None)"

definition WORD_TO :: "platform \<Rightarrow> EDataTypeID \<Rightarrow> u64 \<Rightarrow> iec_any option" where
  "WORD_TO P d w =
     (let v = elem_int e_WORD w
      in case d of
        e_BOOL \<Rightarrow> Some (bool_value (v \<noteq> 0))
      | e_DINT \<Rightarrow> Some (cast_to e_DINT v)
      | e_BYTE \<Rightarrow> Some (limit_max e_BYTE v)
      | e_INT \<Rightarrow> Some (cast_to e_INT v)
      | e_LINT \<Rightarrow> Some (cast_to e_LINT v)
      | e_LREAL \<Rightarrow> Some (lreal_value P e_WORD w)
      | e_LWORD \<Rightarrow> Some (cast_to e_LWORD v)
      | e_REAL \<Rightarrow> Some (real_value P e_WORD w)
      | e_SINT \<Rightarrow> Some (limit_max e_SINT v)
      | e_DWORD \<Rightarrow> Some (cast_to e_DWORD v)
      | e_UDINT \<Rightarrow> Some (cast_to e_WORD v)
      | e_ULINT \<Rightarrow> Some (cast_to e_ULINT v)
      | e_USINT \<Rightarrow> Some (limit_max e_USINT v)
      | e_UINT \<Rightarrow> Some (cast_to e_UINT v)
      | e_STRING \<Rightarrow> Some (Str (stringConverter e_WORD w))
      | e_WSTRING \<Rightarrow> Some (WStr (stringConverter e_WORD w))
      | e_TIME \<Rightarrow> Some (time_value v)
      | _ \<Rightarrow> None)"

definition INT_TO :: "platform \<Rightarrow> EDataTypeID \<Rightarrow> u64 \<Rightarrow> iec_any option" where
  "INT_TO P d w =
     (let v = elem_int e_INT w
      in case d of
        e_BOOL \<Rightarrow> Some (bool_value (v \<noteq> 0))
      | e_BYTE \<Rightarrow> Some (limit_both e_BYTE v)
      | e_DWORD \<Rightarrow> Some (limit_min e_DWORD v)
      | e_DINT \<Rightarrow> Some (cast_to e_DINT v)
      | e_LINT \<Rightarrow> Some (cast_to e_LINT v)
      | e_LREAL \<Rightarrow> Some (lreal_value P e_INT w)
      | e_LWORD \<Rightarrow> Some (limit_min e_LWORD v)
      | e_REAL \<Rightarrow> Some (real_value P e_INT w)
      | e_SINT \<Rightarrow> Some (limit_both e_SINT v)
      | e_UDINT \<Rightarrow> Some (limit_min e_UDINT v)
      | e_UINT \<Rightarrow> Some (limit_min e_UINT v)
      | e_ULINT \<Rightarrow> Some (limit_min e_ULINT v)
      | e_USINT \<Rightarrow> Some (limit_both e_USINT v)
      | e_WORD \<Rightarrow> Some (cast_to e_WORD v)
      | e_STRING \<Rightarrow> Some (Str (stringConverter e_INT w))
      | e_TIME \<Rightarrow> Some (positive_time v)
      | e_WSTRING \<Rightarrow> Some (WStr (stringConverter e_INT w))
      | _ \<Rightarrow> None)"

definition LINT_TO :: "platform \<Rightarrow> EDataTypeID \<Rightarrow> u64 \<Rightarrow> iec_any option" where
  "LINT_TO P d w =
     (let v = elem_int e_LINT w
      in case d of
        e_BOOL \<Rightarrow> Some (bool_value (v \<noteq> 0))
      | e_BYTE \<Rightarrow> Some (limit_both e_BYTE v)
      | e_DWORD \<Rightarrow> Some (limit_min e_DWORD v)
      | e_DINT \<Rightarrow> Some (cast_to e_DINT v)
      | e_INT \<Rightarrow> Some (limit_both e_INT v)
      | e_LREAL \<Rightarrow> Some (lreal_value P e_LINT w)
      | e_LWORD \<Rightarrow> Some (limit_min e_LWORD v)
      | e_REAL \<Rightarrow> Some (real_value P e_LINT w)
      | e_SINT \<Rightarrow> Some (limit_both e_SINT v)
      | e_UDINT \<Rightarrow> Some (limit_both e_UDINT v)
      | e_UINT \<Rightarrow> Some (limit_both e_UINT v)
      | e_ULINT \<Rightarrow> Some (limit_min e_ULINT v)
      | e_USINT \<Rightarrow> Some (limit_both e_USINT v)
      | e_WORD \<Rightarrow> Some (limit_both e_WORD v)
      | e_STRING \<Rightarrow> Some (Str (stringConverter e_LINT w))
      | e_WSTRING \<Rightarrow> Some (WStr (stringConverter e_LINT w))
      | e_TIME \<Rightarrow> Some (positive_time v)
      | _ \<Rightarrow> None)"

definition SINT_TO :: "platform \<Rightarrow> EDataTypeID \<Rightarrow> u64 \<Rightarrow> iec_any option" where
  "SINT_TO P d w =
     (let v = elem_int e_SINT w
      in case d of
        e_BOOL \<Rightarrow> Some (bool_value (v \<noteq> 0))
      | e_BYTE \<Rightarrow> Some (limit_min e_BYTE v)
      | e_DWORD \<Rightarrow> Some (limit_min e_DWORD v)
      | e_DINT \<Rightarrow> Some (cast_to e_DINT v)
      | e_TIME \<Rightarrow> Some (positive_time v)
      | e_LINT \<Rightarrow> Some (cast_to e_LINT v)
      | e_LREAL \<Rightarrow> Some (lreal_value P e_SINT w)
      | e_LWORD \<Rightarrow> Some (limit_min e_LWORD v)
      | e_REAL \<Rightarrow> Some (real_value P e_SINT w)
      | e_INT \<Rightarrow> Some (cast_to e_INT v)
      | e_UDINT \<Rightarrow> Some (limit_min e_UDINT v)
      | e_UINT \<Rightarrow> Some (limit_min e_UINT v)
      | e_ULINT \<Rightarrow> Some (limit_min e_ULINT v)
      | e_USINT \<Rightarrow> Some (limit_min e_USINT v)
      | e_WORD \<Rightarrow> Some (limit_min e_WORD v)
      | e_STRING \<Rightarrow> Some (Str (stringConverter e_SINT w))
      | e_WSTRING \<Rightarrow> Some (WStr (stringConverter e_SINT w))
      | _ \<Rightarrow> None)"

section \<open>Binary coded decimals\<close>

text \<open>The arithmetic is that of the C++ types: a product of a UDINT and a constant has 32 bits.\<close>

definition BYTE_BCD_TO_USINT :: "u8 \<Rightarrow> u8" where
  "BYTE_BCD_TO_USINT v = v div 16 * 10 + v mod 16"

definition WORD_BCD_TO_UINT :: "u16 \<Rightarrow> u16" where
  "WORD_BCD_TO_UINT v =
     ucast (BYTE_BCD_TO_USINT (ucast (drop_bit 8 v))) * 100 + ucast (BYTE_BCD_TO_USINT (ucast (v AND 0xff)))"

definition DWORD_BCD_TO_UDINT :: "u32 \<Rightarrow> u32" where
  "DWORD_BCD_TO_UDINT v =
     ucast (WORD_BCD_TO_UINT (ucast (drop_bit 16 v))) * 10000 + ucast (WORD_BCD_TO_UINT (ucast (v AND 0xffff)))"

definition LWORD_BCD_TO_ULINT :: "u64 \<Rightarrow> u64" where
  "LWORD_BCD_TO_ULINT v =
     ucast (DWORD_BCD_TO_UDINT (ucast (drop_bit 32 v)) * 100000000 + DWORD_BCD_TO_UDINT (ucast (v AND 0xffffffff)))"

definition USINT_TO_BCD_BYTE :: "u8 \<Rightarrow> u8" where
  "USINT_TO_BCD_BYTE v = v div 10 * 16 + v mod 10"

definition UINT_TO_BCD_WORD :: "u16 \<Rightarrow> u16" where
  "UINT_TO_BCD_WORD v =
     push_bit 8 (ucast (USINT_TO_BCD_BYTE (ucast (v div 100)))) + ucast (USINT_TO_BCD_BYTE (ucast (v mod 100)))"

definition UDINT_TO_BCD_DWORD :: "u32 \<Rightarrow> u32" where
  "UDINT_TO_BCD_DWORD v =
     push_bit 16 (ucast (UINT_TO_BCD_WORD (ucast (v div 10000)))) + ucast (UINT_TO_BCD_WORD (ucast (v mod 10000)))"

definition ULINT_TO_BCD_LWORD :: "u64 \<Rightarrow> u64" where
  "ULINT_TO_BCD_LWORD v =
     push_bit 32 (ucast (UDINT_TO_BCD_DWORD (ucast (v div 100000000)))) + ucast (UDINT_TO_BCD_DWORD (ucast (v mod 100000000)))"

section \<open>Conversions between integers\<close>

fun convert :: "EDataTypeID \<Rightarrow> platform \<Rightarrow> EDataTypeID \<Rightarrow> u64 \<Rightarrow> iec_any option" where
  "convert e_BYTE = BYTE_TO" | "convert e_WORD = WORD_TO" | "convert e_DWORD = DWORD_TO" | "convert e_LWORD = LWORD_TO"
| "convert e_USINT = USINT_TO" | "convert e_UINT = UINT_TO" | "convert e_UDINT = UDINT_TO" | "convert e_ULINT = ULINT_TO"
| "convert e_SINT = SINT_TO" | "convert e_INT = INT_TO" | "convert e_DINT = DINT_TO" | "convert e_LINT = LINT_TO"
| "convert e_BOOL = BOOL_TO"
| "convert _ = (\<lambda>_ _ _. None)"

text \<open>The conversions that only cast although the source has values that the target has not.\<close>

definition only_cast :: "(EDataTypeID \<times> EDataTypeID) list" where
  "only_cast =
     [(e_DWORD, e_DINT), (e_WORD, e_INT), (e_INT, e_WORD), (e_LWORD, e_LINT), (e_ULINT, e_LINT), (e_LINT, e_DINT), (e_LINT, e_DWORD)]"

lemma elem_int_store:
  assumes "int_range d = Some (sg, lo, hi)"
  shows "elem_int d (elem_store d v) = elem_int d (word_of_int v)"
  using assms by (cases d; simp add: ucast_word_of_int sint_ucast_scast uint_ucast_ucast)

text \<open>What the checks give in the range of a type.\<close>

lemma limits:
  assumes "int_range d = Some (sg, lo, hi)"
  shows "lo \<le> v \<Longrightarrow> v \<le> hi \<Longrightarrow> elem_int d (elem_store d v) = v"
    and "scm_nMaxVal d = hi" "scm_nMinVal d = lo" "lo \<le> hi"
proof -
  show "lo \<le> v \<Longrightarrow> v \<le> hi \<Longrightarrow> elem_int d (elem_store d v) = v"
    using elem_int_word_of_int [OF assms] by (simp add: elem_int_store [OF assms])
  show "scm_nMaxVal d = hi" "scm_nMinVal d = lo" by (simp_all add: scm_nMaxVal_def scm_nMinVal_def assms)
  show "lo \<le> hi" using type_digits(5,6,8) [OF assms] by (cases sg) auto
qed

definition reads :: "iec_any \<Rightarrow> int option" where
  "reads x = (case x of Elem t w \<Rightarrow> Some (elem_int t w) | _ \<Rightarrow> None)"

lemma reads_forms:
  assumes "int_range d = Some (sg, lo, hi)"
  shows "lo \<le> v \<Longrightarrow> v \<le> hi \<Longrightarrow> reads (cast_to d v) = Some (max lo (min hi v))"
    and "reads (limit_both d v) = Some (max lo (min hi v))"
    and "lo \<le> v \<Longrightarrow> reads (limit_max d v) = Some (max lo (min hi v))"
    and "lo = 0 \<Longrightarrow> v \<le> hi \<Longrightarrow> reads (limit_min d v) = Some (max lo (min hi v))"
  using limits(4) [OF assms]
  by (auto simp: reads_def cast_to_def limit_both_def limit_max_def limit_min_def limits(1-3) [OF assms] max_def min_def)

definition int_types :: "EDataTypeID list" where
  "int_types = [e_BYTE, e_WORD, e_DWORD, e_LWORD, e_USINT, e_UINT, e_UDINT, e_ULINT, e_SINT, e_INT, e_DINT, e_LINT]"

lemma int_types_range: "s \<in> set int_types \<longleftrightarrow> (\<exists>r. int_range s = Some r)"
  by (cases s) (auto simp: int_types_def)

text \<open>The same for each type.\<close>

lemma ranges:
  "int_range e_BYTE = Some (False, 0, 255)"
  "int_range e_WORD = Some (False, 0, 65535)"
  "int_range e_DWORD = Some (False, 0, 4294967295)"
  "int_range e_LWORD = Some (False, 0, 18446744073709551615)"
  "int_range e_USINT = Some (False, 0, 255)"
  "int_range e_UINT = Some (False, 0, 65535)"
  "int_range e_UDINT = Some (False, 0, 4294967295)"
  "int_range e_ULINT = Some (False, 0, 18446744073709551615)"
  "int_range e_SINT = Some (True, - 128, 127)"
  "int_range e_INT = Some (True, - 32768, 32767)"
  "int_range e_DINT = Some (True, - 2147483648, 2147483647)"
  "int_range e_LINT = Some (True, - 9223372036854775808, 9223372036854775807)"
  by simp_all

lemmas forms =
  reads_forms [OF ranges(1)] limits(2,3) [OF ranges(1)]
  reads_forms [OF ranges(2)] limits(2,3) [OF ranges(2)]
  reads_forms [OF ranges(3)] limits(2,3) [OF ranges(3)]
  reads_forms [OF ranges(4)] limits(2,3) [OF ranges(4)]
  reads_forms [OF ranges(5)] limits(2,3) [OF ranges(5)]
  reads_forms [OF ranges(6)] limits(2,3) [OF ranges(6)]
  reads_forms [OF ranges(7)] limits(2,3) [OF ranges(7)]
  reads_forms [OF ranges(8)] limits(2,3) [OF ranges(8)]
  reads_forms [OF ranges(9)] limits(2,3) [OF ranges(9)]
  reads_forms [OF ranges(10)] limits(2,3) [OF ranges(10)]
  reads_forms [OF ranges(11)] limits(2,3) [OF ranges(11)]
  reads_forms [OF ranges(12)] limits(2,3) [OF ranges(12)]

definition saturates :: "EDataTypeID \<Rightarrow> platform \<Rightarrow> u64 \<Rightarrow> EDataTypeID \<Rightarrow> bool" where
  "saturates s P w d \<longleftrightarrow>
     (case int_range d of
        None \<Rightarrow> True
      | Some (sg, lo, hi) \<Rightarrow>
          d = s \<or> (s, d) \<in> set only_cast \<or>
          Option.bind (convert s P d w) reads = Some (max lo (min hi (elem_int s w))))"

lemma saturates_BYTE: "list_all (saturates e_BYTE P w) int_types"
  using elem_int_range [OF ranges(1), of w]
  by (simp add: saturates_def int_types_def only_cast_def BYTE_TO_def forms ranges del: int_range.simps elem_int.simps)

lemma saturates_WORD: "list_all (saturates e_WORD P w) int_types"
  using elem_int_range [OF ranges(2), of w]
  by (simp add: saturates_def int_types_def only_cast_def WORD_TO_def forms ranges del: int_range.simps elem_int.simps)

lemma saturates_DWORD: "list_all (saturates e_DWORD P w) int_types"
  using elem_int_range [OF ranges(3), of w]
  by (simp add: saturates_def int_types_def only_cast_def DWORD_TO_def forms ranges del: int_range.simps elem_int.simps)

lemma saturates_LWORD: "list_all (saturates e_LWORD P w) int_types"
  using elem_int_range [OF ranges(4), of w]
  by (simp add: saturates_def int_types_def only_cast_def LWORD_TO_def forms ranges del: int_range.simps elem_int.simps)

lemma saturates_USINT: "list_all (saturates e_USINT P w) int_types"
  using elem_int_range [OF ranges(5), of w]
  by (simp add: saturates_def int_types_def only_cast_def USINT_TO_def forms ranges del: int_range.simps elem_int.simps)

lemma saturates_UINT: "list_all (saturates e_UINT P w) int_types"
  using elem_int_range [OF ranges(6), of w]
  by (simp add: saturates_def int_types_def only_cast_def UINT_TO_def forms ranges del: int_range.simps elem_int.simps)

lemma saturates_UDINT: "list_all (saturates e_UDINT P w) int_types"
  using elem_int_range [OF ranges(7), of w]
  by (simp add: saturates_def int_types_def only_cast_def UDINT_TO_def forms ranges del: int_range.simps elem_int.simps)

lemma saturates_ULINT: "list_all (saturates e_ULINT P w) int_types"
  using elem_int_range [OF ranges(8), of w]
  by (simp add: saturates_def int_types_def only_cast_def ULINT_TO_def forms ranges del: int_range.simps elem_int.simps)

lemma saturates_SINT: "list_all (saturates e_SINT P w) int_types"
  using elem_int_range [OF ranges(9), of w]
  by (simp add: saturates_def int_types_def only_cast_def SINT_TO_def forms ranges del: int_range.simps elem_int.simps)

lemma saturates_INT: "list_all (saturates e_INT P w) int_types"
  using elem_int_range [OF ranges(10), of w]
  by (simp add: saturates_def int_types_def only_cast_def INT_TO_def forms ranges del: int_range.simps elem_int.simps)

lemma saturates_DINT: "list_all (saturates e_DINT P w) int_types"
  using elem_int_range [OF ranges(11), of w]
  by (simp add: saturates_def int_types_def only_cast_def DINT_TO_def forms ranges del: int_range.simps elem_int.simps)

lemma saturates_LINT: "list_all (saturates e_LINT P w) int_types"
  using elem_int_range [OF ranges(12), of w]
  by (simp add: saturates_def int_types_def only_cast_def LINT_TO_def forms ranges del: int_range.simps elem_int.simps)

text \<open>The others do not.\<close>

lemma only_cast_wraps:
  assumes "(s, d) \<in> set only_cast" and "int_range d = Some (sg, lo, hi)"
  shows "\<exists>w. Option.bind (convert s P d w) reads \<noteq> Some (max lo (min hi (elem_int s w)))"
proof -
  have "(s, d) = (e_DWORD, e_DINT) \<or> (s, d) = (e_WORD, e_INT) \<or> (s, d) = (e_INT, e_WORD) \<or> (s, d) = (e_LWORD, e_LINT) \<or>
      (s, d) = (e_ULINT, e_LINT) \<or> (s, d) = (e_LINT, e_DINT) \<or> (s, d) = (e_LINT, e_DWORD)"
    using assms(1) by (auto simp: only_cast_def)
  then show ?thesis
    using assms(2)
    by (elim disjE; intro exI [of _ "if s = e_INT then 65534 else if d = e_DWORD then 4294967296
        else if d = e_DINT then 2147483648 else if d = e_INT then 32768 else 9223372036854775808"])
       (auto simp: reads_def DWORD_TO_def WORD_TO_def INT_TO_def LWORD_TO_def ULINT_TO_def LINT_TO_def cast_to_def limit_min_def)
qed

text \<open>
  C32. A conversion between two different integer or bit string types always gives the nearest value that
  the target type has, but for seven of the 132 conversions, which only cast: DWORD to DINT, WORD to
  INT, INT to WORD, LWORD to LINT, ULINT to LINT, LINT to DINT and LINT to DWORD.
\<close>

theorem conversions_saturate:
  assumes "s \<in> set int_types" and "int_range d = Some (sg, lo, hi)" and "s \<noteq> d"
  shows "(\<forall>w. Option.bind (convert s P d w) reads = Some (max lo (min hi (elem_int s w)))) \<longleftrightarrow> (s, d) \<notin> set only_cast"
proof -
  have "list_all (saturates s P w) int_types" for w
    using assms(1) [unfolded int_types_def]
    by (auto intro: saturates_BYTE saturates_WORD saturates_DWORD saturates_LWORD saturates_USINT saturates_UINT
      saturates_UDINT saturates_ULINT saturates_SINT saturates_INT saturates_DINT saturates_LINT)
  then show ?thesis
    using assms int_types_range [of d] only_cast_wraps [of s d] by (fastforce simp: list_all_iff saturates_def)
qed

theorem conversions_saturate_witness:
  "\<forall>P w. Option.bind (convert e_DINT P e_USINT w) reads = Some (max 0 (min 255 (elem_int e_DINT w)))"
  using conversions_saturate [of e_DINT e_USINT False 0 255] by (simp add: int_types_def only_cast_def del: elem_int.simps)

section \<open>Conversions to strings and back\<close>

lemma number_text_plain: "int_range t = Some r \<Longrightarrow> 0 \<notin> set (number_text t (elem_int t w))"
proof -
  assume "int_range t = Some r"
  then obtain sg lo hi where t: "int_range t = Some (sg, lo, hi)" by (cases r) auto
  have "\<forall>d \<in> set (digits (first_digit (last_power t) (nat \<bar>elem_int t w\<bar>)) (nat \<bar>elem_int t w\<bar>)). isDigit d"
    using digits_are_digits [OF number_digits(1) [OF t elem_int_range [OF t, of w]]] by (auto simp: is_digit_of_def)
  then show ?thesis by (auto simp: number_text_def isDigit_def)
qed

lemma stringConverter_text:
  assumes "int_range t = Some r"
  shows "stringConverter t w = number_text t (elem_int t w)"
proof -
  obtain sg lo hi where t: "int_range t = Some (sg, lo, hi)" using assms by (cases r) auto
  have "t \<noteq> e_BOOL" using t by auto
  then show ?thesis
    using elem_toString_cap(1) [OF t number_text_fits [OF t]] by (simp add: stringConverter_def Let_def)
qed

lemma convert_to_string:
  assumes "int_range t = Some r"
  shows "convert t P e_STRING w = Some (Str (number_text t (elem_int t w)))"
proof -
  have "convert t P e_STRING w = Some (Str (stringConverter t w))"
    using assms by (cases t) (simp_all add: BYTE_TO_def WORD_TO_def DWORD_TO_def LWORD_TO_def USINT_TO_def UINT_TO_def
      UDINT_TO_def ULINT_TO_def SINT_TO_def INT_TO_def DINT_TO_def LINT_TO_def)
  then show ?thesis using stringConverter_text [OF assms] by simp
qed

text \<open>
  A number that is converted to STRING and back is the same number.
\<close>

theorem string_conversion_roundtrip:
  assumes "t \<in> set int_types"
  shows "\<exists>txt x. convert t P e_STRING w = Some (Str txt) \<and> STRING_TO t txt = Some x \<and> reads x = Some (elem_int t w)"
proof -
  obtain sg lo hi where t: "int_range t = Some (sg, lo, hi)" using assms by (auto simp: int_types_range)
  note range = elem_int_range [OF t, of w]
  let ?s = "number_text t (elem_int t w)"
  have plain: "takeWhile (\<lambda>c. c \<noteq> 0) ?s = ?s"
    using number_text_plain [OF t, of w] by (auto simp: takeWhile_eq_all_conv)
  have "t \<noteq> e_BOOL" using t by auto
  moreover have "elem_fromString t ?s 0 = (int (length ?s), word_of_int (elem_int t w))"
    using elem_fromString_number [OF t range, of "[]" 0] by (simp add: ends_number_def)
  ultimately show ?thesis
    using convert_to_string [OF t, of P w] t elem_int_word_of_int [OF t range]
    by (simp add: plain STRING_TO_def reads_def del: elem_int.simps)
qed

theorem string_conversion_roundtrip_witness:
  "\<forall>P. \<exists>txt x. convert e_DINT P e_STRING 305 = Some (Str txt) \<and> STRING_TO e_DINT txt = Some x \<and> reads x = Some 305"
proof
  fix P
  have "elem_int e_DINT 305 = 305" by simp
  then show "\<exists>txt x. convert e_DINT P e_STRING 305 = Some (Str txt) \<and> STRING_TO e_DINT txt = Some x \<and> reads x = Some 305"
    using string_conversion_roundtrip [of e_DINT P 305] by (simp add: int_types_def del: elem_int.simps)
qed

section \<open>Binary coded decimals and back\<close>

text \<open>The functions on natural numbers.\<close>

lemma byte_to_bcd: "unat n < 100 \<Longrightarrow> unat (USINT_TO_BCD_BYTE n) = unat n div 10 * 16 + unat n mod 10"
  by (simp add: USINT_TO_BCD_BYTE_def unat_word_ariths unat_div unat_mod)

lemma bcd_to_byte: "unat (BYTE_BCD_TO_USINT b) = unat b div 16 * 10 + unat b mod 16"
proof -
  have "unat b < 256" using unsigned_less [where ?'a = nat, of b] by simp
  then have "unat b div 16 * 10 + unat b mod 16 < 256" by arith
  then show ?thesis by (simp add: BYTE_BCD_TO_USINT_def unat_word_ariths unat_div unat_mod)
qed

lemma byte_roundtrip: "unat n < 100 \<Longrightarrow> BYTE_BCD_TO_USINT (USINT_TO_BCD_BYTE n) = n"
  by (rule word_unat_eq_iff [THEN iffD2]) (simp add: byte_to_bcd bcd_to_byte)

text \<open>Two halves of a word.\<close>

lemma unat_join:
  "unat (push_bit 8 (ucast (h8 :: u8)) + ucast (l8 :: u8) :: u16) = unat h8 * 2 ^ 8 + unat l8"
  "unat (push_bit 16 (ucast (h16 :: u16)) + ucast (l16 :: u16) :: u32) = unat h16 * 2 ^ 16 + unat l16"
  "unat (push_bit 32 (ucast (h32 :: u32)) + ucast (l32 :: u32) :: u64) = unat h32 * 2 ^ 32 + unat l32"
  using unsigned_less [where ?'a = nat, of h8] unsigned_less [where ?'a = nat, of l8]
    unsigned_less [where ?'a = nat, of h16] unsigned_less [where ?'a = nat, of l16]
    unsigned_less [where ?'a = nat, of h32] unsigned_less [where ?'a = nat, of l32]
  by (simp_all add: push_bit_eq_mult unat_word_ariths unsigned_ucast_eq take_bit_nat_eq_self)

lemma word_halves:
  "ucast (drop_bit 8 (push_bit 8 (ucast (h8 :: u8)) + ucast (l8 :: u8) :: u16)) = h8"
  "ucast ((push_bit 8 (ucast h8) + ucast l8 :: u16) AND 0xff) = l8"
  "ucast (drop_bit 16 (push_bit 16 (ucast (h16 :: u16)) + ucast (l16 :: u16) :: u32)) = h16"
  "ucast ((push_bit 16 (ucast h16) + ucast l16 :: u32) AND 0xffff) = l16"
  "ucast (drop_bit 32 (push_bit 32 (ucast (h32 :: u32)) + ucast (l32 :: u32) :: u64)) = h32"
  "ucast ((push_bit 32 (ucast h32) + ucast l32 :: u64) AND 0xffffffff) = l32"
proof -
  have masks: "(0xff :: u16) = mask 8" "(0xffff :: u32) = mask 16" "(0xffffffff :: u64) = mask 32"
    by (simp_all add: mask_eq_exp_minus_1)
  note bounds = unsigned_less [where ?'a = nat, of h8] unsigned_less [where ?'a = nat, of l8]
    unsigned_less [where ?'a = nat, of h16] unsigned_less [where ?'a = nat, of l16]
    unsigned_less [where ?'a = nat, of h32] unsigned_less [where ?'a = nat, of l32]
  show "ucast (drop_bit 8 (push_bit 8 (ucast (h8 :: u8)) + ucast (l8 :: u8) :: u16)) = h8"
    "ucast ((push_bit 8 (ucast h8) + ucast l8 :: u16) AND 0xff) = l8"
    "ucast (drop_bit 16 (push_bit 16 (ucast (h16 :: u16)) + ucast (l16 :: u16) :: u32)) = h16"
    "ucast ((push_bit 16 (ucast h16) + ucast l16 :: u32) AND 0xffff) = l16"
    "ucast (drop_bit 32 (push_bit 32 (ucast (h32 :: u32)) + ucast (l32 :: u32) :: u64)) = h32"
    "ucast ((push_bit 32 (ucast h32) + ucast l32 :: u64) AND 0xffffffff) = l32"
    using bounds unfolding masks take_bit_eq_mask [symmetric]
    by (simp_all add: word_unat_eq_iff unsigned_ucast_eq unat_drop_bit_eq unsigned_take_bit_eq unat_join drop_bit_eq_div take_bit_eq_mod unat_div unat_mod)
qed

lemma word_roundtrip:
  assumes "unat n < 10000"
  shows "WORD_BCD_TO_UINT (UINT_TO_BCD_WORD n) = n"
proof -
  define h l where "h = (ucast (n div 100) :: u8)" and "l = (ucast (n mod 100) :: u8)"
  have h: "unat h = unat n div 100" "unat l = unat n mod 100"
    using assms by (simp_all add: h_def l_def unsigned_ucast_eq unat_div unat_mod take_bit_nat_eq_self)
  then have "WORD_BCD_TO_UINT (UINT_TO_BCD_WORD n) = ucast h * 100 + ucast l"
    using assms by (simp add: WORD_BCD_TO_UINT_def UINT_TO_BCD_WORD_def word_halves h_def [symmetric] l_def [symmetric] byte_roundtrip)
  also have "\<dots> = n"
    using assms h by (simp add: word_unat_eq_iff unat_word_ariths unsigned_ucast_eq take_bit_nat_eq_self)
  finally show ?thesis .
qed

lemma dword_roundtrip:
  assumes "unat n < 100000000"
  shows "DWORD_BCD_TO_UDINT (UDINT_TO_BCD_DWORD n) = n"
proof -
  define h l where "h = (ucast (n div 10000) :: u16)" and "l = (ucast (n mod 10000) :: u16)"
  have h: "unat h = unat n div 10000" "unat l = unat n mod 10000"
    using assms by (simp_all add: h_def l_def unsigned_ucast_eq unat_div unat_mod take_bit_nat_eq_self)
  then have "DWORD_BCD_TO_UDINT (UDINT_TO_BCD_DWORD n) = ucast h * 10000 + ucast l"
    using assms by (simp add: DWORD_BCD_TO_UDINT_def UDINT_TO_BCD_DWORD_def word_halves h_def [symmetric] l_def [symmetric] word_roundtrip)
  also have "\<dots> = n"
    using assms h by (simp add: word_unat_eq_iff unat_word_ariths unsigned_ucast_eq take_bit_nat_eq_self)
  finally show ?thesis .
qed

lemma lword_roundtrip:
  assumes "unat n < 10000000000000000"
  shows "unat (LWORD_BCD_TO_ULINT (ULINT_TO_BCD_LWORD n)) = unat n mod 2 ^ 32"
proof -
  let ?h = "ucast (n div 100000000) :: u32" and ?l = "ucast (n mod 100000000) :: u32"
  have h: "unat ?h = unat n div 100000000" "unat ?l = unat n mod 100000000"
    using assms by (simp_all add: unsigned_ucast_eq unat_div unat_mod take_bit_nat_eq_self)
  then have "LWORD_BCD_TO_ULINT (ULINT_TO_BCD_LWORD n) = ucast (?h * 100000000 + ?l)"
    using assms by (simp add: LWORD_BCD_TO_ULINT_def ULINT_TO_BCD_LWORD_def word_halves dword_roundtrip)
  then have "unat (LWORD_BCD_TO_ULINT (ULINT_TO_BCD_LWORD n)) = unat (?h * 100000000 + ?l)"
    using unsigned_less [where ?'a = nat, of "?h * 100000000 + ?l"]
    by (simp add: unsigned_ucast_eq take_bit_nat_eq_self)
  also have "\<dots> = (unat n div 100000000 * 100000000 + unat n mod 100000000) mod 2 ^ 32"
    using h by (simp add: unat_word_ariths mod_simps)
  finally show ?thesis by simp
qed

text \<open>
  Numbers of up to 2, 4 and 8 digits are read back from their binary coded decimals; numbers of up
  to 16 digits only modulo $2^{32}$, because the product in \<open>LWORD_BCD_TO_ULINT\<close> has 32 bits.
\<close>

theorem bcd_roundtrip:
  "(unat (n8 :: u8) < 10 ^ 2 \<longrightarrow> BYTE_BCD_TO_USINT (USINT_TO_BCD_BYTE n8) = n8) \<and>
   (unat (n16 :: u16) < 10 ^ 4 \<longrightarrow> WORD_BCD_TO_UINT (UINT_TO_BCD_WORD n16) = n16) \<and>
   (unat (n32 :: u32) < 10 ^ 8 \<longrightarrow> DWORD_BCD_TO_UDINT (UDINT_TO_BCD_DWORD n32) = n32) \<and>
   (unat (n64 :: u64) < 10 ^ 16 \<longrightarrow> unat (LWORD_BCD_TO_ULINT (ULINT_TO_BCD_LWORD n64)) = unat n64 mod 2 ^ 32)"
  using byte_roundtrip word_roundtrip dword_roundtrip lword_roundtrip by simp

theorem bcd_roundtrip_witness:
  "BYTE_BCD_TO_USINT (USINT_TO_BCD_BYTE 42) = 42 \<and> WORD_BCD_TO_UINT (UINT_TO_BCD_WORD 9876) = 9876 \<and>
   DWORD_BCD_TO_UDINT (UDINT_TO_BCD_DWORD 12345678) = 12345678 \<and>
   unat (LWORD_BCD_TO_ULINT (ULINT_TO_BCD_LWORD 4300000000)) = 5032704"
  using bcd_roundtrip [of 42 9876 12345678 4300000000] by simp

end
