(* ===== verification/Comm_FB.thy ===== *)
theory Comm_FB
  imports Event_FBs ASN1_Layer Elementary_Text
begin

text \<open>
  Communication function blocks and their stacks of layers: \<^verbatim>\<open>src/src/core/cominfra/basecommfb.{h,cpp}\<close>,
  \<^verbatim>\<open>commfb.{h,cpp}\<close>, \<^verbatim>\<open>comlayer.{h,cpp}\<close>, \<^verbatim>\<open>localcomlayer.cpp\<close>, \<^verbatim>\<open>ipcomlayer.cpp\<close>, \<^verbatim>\<open>rawdatacomlayer.cpp\<close>, the
  blocks of \<^verbatim>\<open>src/src/stdfblib/net\<close>, and the delivery of \<^verbatim>\<open>src/src/arch/fdselecthand.cpp\<close>.

  The stack of a block is the list of its layers, the top first. Layers send downwards and receive
  upwards; the bottom layer is called when a socket has data, or by a publisher of its group.
  \<open>None\<close> stands for a call whose effect is not defined: a null pointer, a layer that has been
  deleted, or an object taken for another; and for the wait of the socket thread for room in a full buffer.
\<close>

section \<open>Types of \<open>comtypes.h\<close>\<close>

datatype EComServiceType = e_Publisher | e_Subscriber | e_Server | e_Client

datatype EComConnectionState = e_Disconnected | e_Listening | e_ConnectedAndListening | e_Connected

definition com_num :: "EComResponse \<Rightarrow> nat" where
  "com_num r = (case r of
      e_Nothing \<Rightarrow> 0 | e_InitOk \<Rightarrow> 0x10 | e_ProcessDataOk \<Rightarrow> 0x20 | e_InitInvalidId \<Rightarrow> 0x51 | e_InitTerminated \<Rightarrow> 0x52
    | e_ProcessDataInvalidObject \<Rightarrow> 0x63 | e_ProcessDataDataTypeError \<Rightarrow> 0x64 | e_ProcessDataInhibited \<Rightarrow> 0x65
    | e_ProcessDataNoSocket \<Rightarrow> 0x66 | e_ProcessDataSendFailed \<Rightarrow> 0x67 | e_ProcessDataRecvFaild \<Rightarrow> 0x68)"

lemma com_num_eq: "com_num r = com_num s \<longleftrightarrow> r = s"
  by (cases r; cases s) (simp_all add: com_num_def)

instantiation EComResponse :: linorder
begin

definition less_eq_EComResponse :: "EComResponse \<Rightarrow> EComResponse \<Rightarrow> bool" where
  "r \<le> s \<longleftrightarrow> com_num r \<le> com_num s"

definition less_EComResponse :: "EComResponse \<Rightarrow> EComResponse \<Rightarrow> bool" where
  "r < s \<longleftrightarrow> com_num r < com_num s"

instance
  by standard (auto simp: less_eq_EComResponse_def less_EComResponse_def antisym_conv com_num_eq)

end

text \<open>The masks \<open>e_Terminated\<close> (2), \<open>scg_unINIT\<close> (0x10) and \<open>scg_unComNegative\<close> (0x40).\<close>

definition masks_terminated :: "EComResponse \<Rightarrow> bool" where
  "masks_terminated r = bit (com_num r) 1"

definition masks_INIT :: "EComResponse \<Rightarrow> bool" where
  "masks_INIT r = bit (com_num r) 4"

definition masks_negative :: "EComResponse \<Rightarrow> bool" where
  "masks_negative r = bit (com_num r) 6"

definition scm_sResponseTexts :: "string list" where
  "scm_sResponseTexts =
     [''OK'', ''INVALID_ID'', ''TERMINATED'', ''INVALID_OBJECT'', ''DATA_TYPE_ERROR'', ''INHIBITED'', ''NO_SOCKET'',
      ''SEND_FAILED'', ''RECV_FAILED'']"

text \<open>The configured sizes of the queue and of the buffer.\<close>

definition cg_unCommunicationInterruptQueueSize :: nat where
  "cg_unCommunicationInterruptQueueSize = 10"

definition cg_unIPLayerRecvBufferSize :: nat where
  "cg_unIPLayerRecvBufferSize = 1500"

section \<open>State\<close>

text \<open>The first \<open>m_unBufFillSize\<close> bytes of the receive buffer are the list; the destination address of a
  publisher is known to its socket.\<close>

record ip_layer =
  m_nSocketID :: int
  m_nListeningID :: int
  m_eConnectionState :: EComConnectionState
  m_eInterruptResp :: EComResponse
  m_acRecvBuffer :: "u8 list"

datatype layer_state = L_fbdk asn1_layer | L_ip ip_layer | L_loc "TStringId option" | L_raw

text \<open>An entry of the interrupt queue points to a layer: by its position, and the number of the stack
  among all that the block has had. \<open>com_local\<close> distinguishes PUBL and SUBL from PUBLISH and SUBSCRIBE.\<close>

record comm_class =
  m_eCommServiceType :: EComServiceType
  com_local :: bool
  com_stack :: "layer_state list"
  com_gen :: nat
  m_apoInterruptQueue :: "(nat \<times> nat) list"

type_synonym com_rt = "comm_class world"

definition upd_class :: "nat \<Rightarrow> (comm_class \<Rightarrow> comm_class) \<Rightarrow> com_rt \<Rightarrow> com_rt" where
  "upd_class i f = upd_fb i (\<lambda>b. b\<lparr>fb_class := f (fb_class b)\<rparr>)"

definition upd_com :: "(com_env \<Rightarrow> com_env) \<Rightarrow> 'c world \<Rightarrow> 'c world" where
  "upd_com f w = w\<lparr>w_com := f (w_com w)\<rparr>"

definition stack_of :: "nat \<Rightarrow> com_rt \<Rightarrow> layer_state list" where
  "stack_of i w = (case w_fbs w i of None \<Rightarrow> [] | Some b \<Rightarrow> com_stack (fb_class b))"

definition service_of :: "nat \<Rightarrow> com_rt \<Rightarrow> EComServiceType" where
  "service_of i w = (case w_fbs w i of None \<Rightarrow> e_Client | Some b \<Rightarrow> m_eCommServiceType (fb_class b))"

definition set_layer :: "nat \<Rightarrow> nat \<Rightarrow> layer_state \<Rightarrow> com_rt \<Rightarrow> com_rt" where
  "set_layer i k l = upd_class i (\<lambda>c. c\<lparr>com_stack := (com_stack c)[k := l]\<rparr>)"

definition ask :: "sock_call \<Rightarrow> 'c world \<Rightarrow> (int \<times> u8 list) \<times> 'c world" where
  "ask c w = (let r = sock_ask c (w_net (w_com w)) in (fst r, upd_com (\<lambda>e. e\<lparr>w_net := snd r\<rparr>) w))"

text \<open>\<open>getSDs\<close> and \<open>getRDs\<close>: the inputs and outputs behind QI and ID, QO and STATUS.\<close>

definition getSDs :: "'c fb \<Rightarrow> iec_any list" where
  "getSDs b = map dp_val (drop 2 (m_aoDIs b))"

definition getRDs :: "'c fb \<Rightarrow> iec_any list" where
  "getRDs b = map dp_val (drop 2 (m_aoDOs b))"

definition putRDs :: "iec_any list \<Rightarrow> 'c fb \<Rightarrow> 'c fb" where
  "putRDs xs b =
     b\<lparr>m_aoDOs := take 2 (m_aoDOs b) @ map2 (\<lambda>d x. d\<lparr>dp_val := x\<rparr>) (drop 2 (m_aoDOs b)) xs\<rparr>"

text \<open>\<open>interruptCommFB\<close>: an interrupt for which the queue has no room is forgotten.\<close>

definition interruptCommFB :: "nat \<Rightarrow> comm_class \<Rightarrow> comm_class" where
  "interruptCommFB k c =
     (if length (m_apoInterruptQueue c) < cg_unCommunicationInterruptQueueSize
      then c\<lparr>m_apoInterruptQueue := m_apoInterruptQueue c @ [(com_gen c, k)]\<rparr> else c)"

definition external_event :: "nat \<Rightarrow> conn_point" where
  "external_event i = \<lparr>mFB = i, mPortId = cg_nExternalEventID\<rparr>"

section \<open>Closing\<close>

definition closeSocket :: "int \<Rightarrow> 'c world \<Rightarrow> 'c world" where
  "closeSocket h w =
     (if h \<noteq> scm_nInvalidSocketDescriptor then snd (ask (closeSocket_call h) (upd_com (removeComCallback h) w)) else w)"

definition ip_closeConnection :: "nat \<Rightarrow> nat \<Rightarrow> ip_layer \<Rightarrow> com_rt \<Rightarrow> com_rt" where
  "ip_closeConnection i k p w =
     set_layer i k
       (L_ip (p\<lparr>m_nSocketID := scm_nInvalidSocketDescriptor, m_nListeningID := scm_nInvalidSocketDescriptor,
                m_eConnectionState := e_Disconnected\<rparr>))
       (closeSocket (m_nListeningID p) (closeSocket (m_nSocketID p) w))"

definition loc_closeConnection :: "nat \<Rightarrow> nat \<Rightarrow> TStringId option \<Rightarrow> com_rt \<Rightarrow> com_rt" where
  "loc_closeConnection i k g w =
     (case g of
        None \<Rightarrow> w
      | Some n \<Rightarrow>
          set_layer i k (L_loc None)
            (upd_com (\<lambda>e. e\<lparr>w_groups := (if service_of i w = e_Publisher then unregisterPubl n (i, k) (w_groups e)
                                        else unregisterSubl n (i, k) (w_groups e))\<rparr>) w))"

definition close_layer :: "nat \<Rightarrow> nat \<Rightarrow> com_rt \<Rightarrow> com_rt" where
  "close_layer i k w =
     (case stack_of i w ! k of
        L_ip p \<Rightarrow> ip_closeConnection i k p w
      | L_loc g \<Rightarrow> loc_closeConnection i k g w
      | _ \<Rightarrow> w)"

text \<open>Deleting the top layer closes and deletes the layers below it, one after the other.\<close>

definition closeConnection :: "nat \<Rightarrow> com_rt \<Rightarrow> com_rt" where
  "closeConnection i w =
     (if stack_of i w = [] then w
      else upd_class i (\<lambda>c. c\<lparr>com_stack := [], com_gen := com_gen c + 1\<rparr>)
             (fold (close_layer i) [0..<length (stack_of i w)] w))"

section \<open>Opening\<close>

definition ip_openConnection :: "nat \<Rightarrow> nat \<Rightarrow> u8 list \<Rightarrow> ip_layer \<Rightarrow> com_rt \<Rightarrow> EComResponse \<times> com_rt" where
  "ip_openConnection i k param p w =
     (let host = takeWhile (\<lambda>c. c \<noteq> 58) param; rest = dropWhile (\<lambda>c. c \<noteq> 58) param in
      if rest = [] then (e_InitInvalidId, w)
      else
        let nPort = word_of_int (fst (strtoul 10 (tl rest)));
            svc = service_of i w;
            (a, w1) = ask (case svc of e_Server \<Rightarrow> openTCPServerConnection host nPort
                             | e_Client \<Rightarrow> openTCPClientConnection host nPort
                             | e_Publisher \<Rightarrow> openUDPSendPort host nPort
                             | e_Subscriber \<Rightarrow> openUDPReceivePort host nPort) w;
            h = fst a;
            p1 = (if svc = e_Server then p\<lparr>m_nListeningID := h, m_eConnectionState := e_Listening\<rparr>
                  else p\<lparr>m_nSocketID := h, m_eConnectionState := e_Connected\<rparr>)
        in if h \<noteq> scm_nInvalidSocketDescriptor then
             (e_InitOk, set_layer i k (L_ip p1)
                (if svc \<noteq> e_Publisher then upd_com (addComCallback h (i, k)) w1 else w1))
           else (e_InitInvalidId, set_layer i k (L_ip (p1\<lparr>m_eConnectionState := e_Disconnected\<rparr>)) w1))"

definition loc_openConnection :: "nat \<Rightarrow> nat \<Rightarrow> u8 list \<Rightarrow> com_rt \<Rightarrow> EComResponse \<times> com_rt" where
  "loc_openConnection i k param w =
     (let n = name_of param in
      case service_of i w of
        e_Publisher \<Rightarrow>
          (e_InitOk, set_layer i k (L_loc (Some n)) (upd_com (\<lambda>e. e\<lparr>w_groups := registerPubl n (i, k) (w_groups e)\<rparr>) w))
      | e_Subscriber \<Rightarrow>
          (e_InitOk, set_layer i k (L_loc (Some n)) (upd_com (\<lambda>e. e\<lparr>w_groups := registerSubl n (i, k) (w_groups e)\<rparr>) w))
      | _ \<Rightarrow> (e_InitInvalidId, w))"

text \<open>The raw layer carries one STRING.\<close>

definition one_string :: "iec_any list \<Rightarrow> bool" where
  "one_string xs \<longleftrightarrow> length xs = 1 \<and> getDataTypeID (hd xs) = e_STRING"

definition raw_openConnection :: "nat \<Rightarrow> com_rt \<Rightarrow> EComResponse" where
  "raw_openConnection i w =
     (case w_fbs w i of
        None \<Rightarrow> e_InitTerminated
      | Some b \<Rightarrow>
          if one_string (if m_eCommServiceType (fb_class b) \<in> {e_Client, e_Publisher} then getSDs b else getRDs b)
          then e_InitOk else e_InitTerminated)"

definition open_layer :: "nat \<Rightarrow> nat \<Rightarrow> u8 list \<Rightarrow> com_rt \<Rightarrow> EComResponse \<times> com_rt" where
  "open_layer i k param w =
     (case stack_of i w ! k of
        L_fbdk A \<Rightarrow> (e_InitOk, w)
      | L_ip p \<Rightarrow> ip_openConnection i k param p w
      | L_loc g \<Rightarrow> loc_openConnection i k param w
      | L_raw \<Rightarrow> (raw_openConnection i w, w))"

text \<open>\<open>createCommunicationLayer\<close> is generated from the configured layers; these are the four of the core.\<close>

definition createCommunicationLayer :: "u8 list \<Rightarrow> 'c fb \<Rightarrow> layer_state option" where
  "createCommunicationLayer nm b =
     (if nm = ascii ''fbdk'' then Some (L_fbdk (CFBDKASN1ComLayer (getSDs b) (getRDs b)))
      else if nm = ascii ''ip'' then
        Some (L_ip \<lparr>m_nSocketID = scm_nInvalidSocketDescriptor, m_nListeningID = scm_nInvalidSocketDescriptor,
                    m_eConnectionState = e_Disconnected, m_eInterruptResp = e_Nothing, m_acRecvBuffer = []\<rparr>)
      else if nm = ascii ''loc'' then Some (L_loc None)
      else if nm = ascii ''raw'' then Some L_raw
      else None)"

text \<open>The first layer of an ID: its name, its parameters, and what is left (\<open>None\<close> is the null
  pointer); the character behind the closing bracket is skipped, whatever it is.\<close>

definition extractLayerIdAndParams :: "u8 list \<Rightarrow> u8 list \<times> u8 list \<times> u8 list option" where
  "extractLayerIdAndParams s =
     (let nm = takeWhile (\<lambda>c. c \<noteq> 91) s; r = dropWhile (\<lambda>c. c \<noteq> 91) s in
      if r = [] then (nm, [], None)
      else
        let ps = takeWhile (\<lambda>c. c \<noteq> 93) (tl r); q = dropWhile (\<lambda>c. c \<noteq> 93) (tl r)
        in (nm, ps, if q = [] then None else Some (drop 2 q)))"

lemma extract_shorter:
  assumes "extractLayerIdAndParams s = (nm, ps, Some rest)"
  shows "length rest < length s"
proof -
  let ?r = "dropWhile (\<lambda>c. c \<noteq> 91) s"
  have "?r \<noteq> [] \<and> rest = drop 2 (dropWhile (\<lambda>c. c \<noteq> 93) (tl ?r))"
    using assms by (auto simp: extractLayerIdAndParams_def Let_def split: if_splits)
  moreover have "length ?r \<le> length s" "length (dropWhile (\<lambda>c. c \<noteq> 93) (tl ?r)) \<le> length (tl ?r)"
    by (rule length_dropWhile_le)+
  ultimately show ?thesis by (cases ?r) auto
qed

function createComstack :: "nat \<Rightarrow> u8 list \<Rightarrow> EComResponse \<Rightarrow> com_rt \<Rightarrow> EComResponse \<times> com_rt" where
  "createComstack i s ret w =
     (if s = [] then (ret, w)
      else
        case extractLayerIdAndParams s of
          (nm, ps, rest) \<Rightarrow>
            if rest = None \<and> nm \<noteq> [] then (e_InitInvalidId, w)
            else
              case Option.bind (w_fbs w i) (createCommunicationLayer nm) of
                None \<Rightarrow> (e_InitInvalidId, w)
              | Some l \<Rightarrow>
                  let r = open_layer i (length (stack_of i w)) ps
                            (upd_class i (\<lambda>c. c\<lparr>com_stack := com_stack c @ [l]\<rparr>) w)
                  in if fst r \<noteq> e_InitOk then r
                     else (case rest of None \<Rightarrow> r | Some t \<Rightarrow> createComstack i t (fst r) (snd r)))"
  by pat_completeness auto
termination
  by (relation "measure (\<lambda>(i, s, r, w). length s)") (auto dest: extract_shorter [OF sym])

declare createComstack.simps [simp del]

definition ID_value :: "'c fb \<Rightarrow> u8 list" where
  "ID_value b = takeWhile (\<lambda>c. c \<noteq> 0) (case dp_val (m_aoDIs b ! 1) of WStr s \<Rightarrow> s | Str s \<Rightarrow> s | _ \<Rightarrow> [])"

definition getDefaultIDString :: "comm_class \<Rightarrow> u8 list \<Rightarrow> u8 list" where
  "getDefaultIDString c s = ascii (if com_local c then ''loc['' else ''fbdk[].ip['') @ s @ ascii '']''"

definition openConnection :: "nat \<Rightarrow> com_rt \<Rightarrow> EComResponse \<times> com_rt" where
  "openConnection i w =
     (case w_fbs w i of
        None \<Rightarrow> (e_Nothing, w)
      | Some b \<Rightarrow>
          if com_stack (fb_class b) = [] then
            let s = ID_value b;
                commID = (if 93 \<in> set s then s else getDefaultIDString (fb_class b) s);
                r = createComstack i commID e_InitInvalidId w
            in if fst r \<noteq> e_InitOk then (fst r, closeConnection i (snd r)) else r
          else (e_InitOk, w))"

section \<open>Sending\<close>

text \<open>What a layer is given to send: the inputs of the block, or bytes.\<close>

datatype send_data = D_values "iec_any list" | D_bytes "u8 list"

definition ip_sendData :: "nat \<Rightarrow> nat \<Rightarrow> ip_layer \<Rightarrow> u8 list \<Rightarrow> com_rt \<Rightarrow> EComResponse \<times> com_rt" where
  "ip_sendData i k p bs w =
     (let h = m_nSocketID p in
      if h = scm_nInvalidSocketDescriptor then (e_ProcessDataOk, w)
      else
        case service_of i w of
          e_Server \<Rightarrow>
            (let (a, w1) = ask (sendDataOnTCP h bs) w in
             if fst a \<le> 0 then
               (e_InitTerminated,
                set_layer i k (L_ip (p\<lparr>m_nSocketID := scm_nInvalidSocketDescriptor, m_eConnectionState := e_Listening\<rparr>))
                  (closeSocket h w1))
             else (e_ProcessDataOk, w1))
        | e_Client \<Rightarrow>
            (let (a, w1) = ask (sendDataOnTCP h bs) w in (if fst a \<le> 0 then e_InitTerminated else e_ProcessDataOk, w1))
        | e_Publisher \<Rightarrow>
            (let (a, w1) = ask (sendDataOnUDP h bs) w in (if fst a \<le> 0 then e_InitTerminated else e_ProcessDataOk, w1))
        | e_Subscriber \<Rightarrow> (e_ProcessDataOk, w))"

text \<open>\<open>setRDs\<close> of the local layer: the values whose types agree go to the subscriber, and its event chain is
  started, whether or not its queue had room for the interrupt.\<close>

fun copy_values :: "platform \<Rightarrow> iec_any list \<Rightarrow> iec_any list \<Rightarrow> iec_any list" where
  "copy_values P (s # ss) (r # rs) =
     (if getDataTypeID r = getDataTypeID s then setValue P r s else r) # copy_values P ss rs"
| "copy_values P ss rs = rs"

definition setRDs :: "iec_any list \<Rightarrow> layer_ref \<Rightarrow> com_rt \<Rightarrow> com_rt" where
  "setRDs sds l w =
     startEventChain (external_event (fst l))
       (upd_fb (fst l)
          (\<lambda>b. (putRDs (copy_values (w_platform w) sds (getRDs b)) b)
                 \<lparr>fb_class := interruptCommFB (snd l) (fb_class b)\<rparr>) w)"

definition loc_sendData :: "nat \<Rightarrow> TStringId option \<Rightarrow> com_rt \<Rightarrow> (EComResponse \<times> com_rt) option" where
  "loc_sendData i g w =
     (case (g, w_fbs w i) of
        (Some n, Some b) \<Rightarrow>
          Some (e_ProcessDataOk, fold (setRDs (getSDs b)) (snd (members (w_groups (w_com w)) n)) w)
      | _ \<Rightarrow> None)"

text \<open>Sending through the layers from position \<open>k\<close> downwards.\<close>

fun layer_sendData :: "nat \<Rightarrow> layer_state list \<Rightarrow> nat \<Rightarrow> send_data \<Rightarrow> com_rt \<Rightarrow> (EComResponse \<times> com_rt) option" where
  "layer_sendData i [] k d w = None"
| "layer_sendData i (l # ls) k d w =
     (case l of
        L_fbdk A \<Rightarrow>
          (case d of
             D_bytes bs \<Rightarrow> None
           | D_values xs \<Rightarrow>
               (case asn1_sendData (if ls = [] then None else Some (\<lambda>_. e_ProcessDataOk)) xs of
                  (r, None) \<Rightarrow> Some (r, w)
                | (r, Some bs) \<Rightarrow> layer_sendData i ls (Suc k) (D_bytes bs) w))
      | L_raw \<Rightarrow>
          (case d of
             D_values (Str s # xs) \<Rightarrow>
               map_option (\<lambda>r. (e_ProcessDataOk, snd r)) (layer_sendData i ls (Suc k) (D_bytes s) w)
           | _ \<Rightarrow> None)
      | L_loc g \<Rightarrow> loc_sendData i g w
      | L_ip p \<Rightarrow> (case d of D_bytes bs \<Rightarrow> Some (ip_sendData i k p bs w) | D_values xs \<Rightarrow> None))"

definition comm_sendData :: "nat \<Rightarrow> com_rt \<Rightarrow> (EComResponse \<times> com_rt) option" where
  "comm_sendData i w =
     (case w_fbs w i of
        None \<Rightarrow> None
      | Some b \<Rightarrow>
          if op_bool (DI i 0 w) then
            (if m_eCommServiceType (fb_class b) \<noteq> e_Subscriber then
               (if com_stack (fb_class b) \<noteq> [] then
                  map_option (\<lambda>(r, w1).
                      (if r = e_ProcessDataOk \<and> m_eCommServiceType (fb_class b) \<noteq> e_Publisher then e_Nothing else r, w1))
                    (layer_sendData i (com_stack (fb_class b)) 0 (D_values (getSDs b)) w)
                else Some (e_ProcessDataNoSocket, w))
             else Some (e_Nothing, w))
          else Some (e_ProcessDataInhibited, w))"

section \<open>Receiving\<close>

text \<open>\<open>recvData\<close> of the layer at position \<open>k\<close>, called by the layer below it with the received bytes.\<close>

definition layer_recvData :: "nat \<Rightarrow> nat \<Rightarrow> u8 list \<Rightarrow> com_rt \<Rightarrow> (EComResponse \<times> com_rt) option" where
  "layer_recvData i k bs w =
     (case w_fbs w i of
        None \<Rightarrow> None
      | Some b \<Rightarrow>
          (case com_stack (fb_class b) ! k of
             L_fbdk A \<Rightarrow>
               (let r = asn1_recvData bs (A\<lparr>RDs := getRDs b\<rparr>)
                in Some (fst r, set_layer i k (L_fbdk (snd r)) (upd_fb i (putRDs (RDs (snd r))) w)))
           | L_raw \<Rightarrow>
               Some (e_ProcessDataOk,
                 (if k = 0 \<and> length (getRDs b) = 1 then
                    upd_fb i (putRDs [case hd (getRDs b) of Str s \<Rightarrow> Str bs | x \<Rightarrow> x]) w
                  else w))
           | L_loc g \<Rightarrow> Some (e_ProcessDataOk, w)
           | L_ip p \<Rightarrow> None))"

definition ip_processInterrupt :: "nat \<Rightarrow> nat \<Rightarrow> ip_layer \<Rightarrow> com_rt \<Rightarrow> (EComResponse \<times> com_rt) option" where
  "ip_processInterrupt i k p w =
     (if m_eInterruptResp p = e_ProcessDataOk \<and> m_eConnectionState p = e_Connected \<and> m_acRecvBuffer p \<noteq> [] \<and> 0 < k then
        map_option (\<lambda>(r, w1). (r, set_layer i k (L_ip (p\<lparr>m_eInterruptResp := r, m_acRecvBuffer := []\<rparr>)) w1))
          (layer_recvData i (k - 1) (m_acRecvBuffer p) w)
      else Some (m_eInterruptResp p, w))"

definition processInterrupt :: "nat \<Rightarrow> nat \<Rightarrow> com_rt \<Rightarrow> (EComResponse \<times> com_rt) option" where
  "processInterrupt i k w =
     (case stack_of i w ! k of
        L_ip p \<Rightarrow> ip_processInterrupt i k p w
      | L_loc g \<Rightarrow> Some (e_ProcessDataOk, w)
      | _ \<Rightarrow> Some (e_Nothing, w))"

text \<open>\<open>receiveData\<close>: the queued interrupts in order, and the greatest of their answers.\<close>

definition live_layer :: "nat \<Rightarrow> nat \<times> nat \<Rightarrow> com_rt \<Rightarrow> bool" where
  "live_layer i q w \<longleftrightarrow>
     (case w_fbs w i of
        None \<Rightarrow> False
      | Some b \<Rightarrow> fst q = com_gen (fb_class b) \<and> snd q < length (com_stack (fb_class b)))"

fun process_all :: "nat \<Rightarrow> (nat \<times> nat) list \<Rightarrow> EComResponse \<Rightarrow> com_rt \<Rightarrow> (EComResponse \<times> com_rt) option" where
  "process_all i [] r w = Some (r, w)"
| "process_all i (q # qs) r w =
     (if live_layer i q w then
        (case processInterrupt i (snd q) w of
           None \<Rightarrow> None
         | Some (r1, w1) \<Rightarrow> process_all i qs (max r r1) w1)
      else None)"

definition receiveData :: "nat \<Rightarrow> com_rt \<Rightarrow> (EComResponse \<times> com_rt) option" where
  "receiveData i w =
     (case w_fbs w i of
        None \<Rightarrow> None
      | Some b \<Rightarrow>
          let q = m_apoInterruptQueue (fb_class b)
          in map_option (\<lambda>(r, w1).
                 (r, upd_class i (\<lambda>c. c\<lparr>m_apoInterruptQueue := drop (length q) (m_apoInterruptQueue c)\<rparr>) w1))
               (process_all i q e_Nothing w))"

section \<open>Sockets with data\<close>

definition handledConnectedDataRecv :: "nat \<Rightarrow> nat \<Rightarrow> ip_layer \<Rightarrow> com_rt \<Rightarrow> (EComResponse \<times> com_rt) option" where
  "handledConnectedDataRecv i k p w =
     (let room = cg_unIPLayerRecvBufferSize - length (m_acRecvBuffer p); h = m_nSocketID p; svc = service_of i w in
      if room = 0 then None
      else if h = scm_nInvalidSocketDescriptor then Some (m_eInterruptResp p, set_layer i k (L_ip p) w)
      else
        let (a, w1) = (case svc of
                e_Publisher \<Rightarrow> ((0, []), w)
              | e_Subscriber \<Rightarrow> ask (receiveDataFromUDP h room) w
              | _ \<Rightarrow> ask (receiveDataFromTCP h room) w);
            (p1, w2) =
              (if fst a = 0 then
                 (p\<lparr>m_eInterruptResp := e_InitTerminated, m_nSocketID := scm_nInvalidSocketDescriptor,
                    m_eConnectionState := (if svc = e_Server then e_Listening else m_eConnectionState p)\<rparr>,
                  closeSocket h w1)
               else if fst a = - 1 then (p\<lparr>m_eInterruptResp := e_ProcessDataRecvFaild\<rparr>, w1)
               else (p\<lparr>m_eInterruptResp := e_ProcessDataOk,
                       m_acRecvBuffer := m_acRecvBuffer p @ take room (snd a)\<rparr>, w1))
        in Some (m_eInterruptResp p1, upd_class i (interruptCommFB k) (set_layer i k (L_ip p1) w2)))"

text \<open>\<open>CIPComLayer::recvData\<close>, called with the socket that has data. A server that is connected accepts a
  further client only to close the connection again.\<close>

definition ip_recvData :: "nat \<Rightarrow> nat \<Rightarrow> ip_layer \<Rightarrow> int \<Rightarrow> com_rt \<Rightarrow> (EComResponse \<times> com_rt) option" where
  "ip_recvData i k p h w =
     (let p0 = p\<lparr>m_eInterruptResp := e_Nothing\<rparr> in
      case m_eConnectionState p of
        e_Listening \<Rightarrow>
          (let (a, w1) = ask (acceptTCPConnection (m_nListeningID p)) w; p1 = p0\<lparr>m_nSocketID := fst a\<rparr>
           in Some (e_Nothing,
                if fst a \<noteq> scm_nInvalidSocketDescriptor then
                  set_layer i k (L_ip (p1\<lparr>m_eConnectionState := e_Connected\<rparr>)) (upd_com (addComCallback (fst a) (i, k)) w1)
                else set_layer i k (L_ip p1) w1))
      | e_Connected \<Rightarrow>
          if h = m_nSocketID p then handledConnectedDataRecv i k p0 w
          else if h = m_nListeningID p then
            (let (a, w1) = ask (acceptTCPConnection (m_nListeningID p)) w
             in Some (e_Nothing, set_layer i k (L_ip p0) (snd (ask (closeSocket_call (fst a)) w1))))
          else Some (e_Nothing, set_layer i k (L_ip p0) w)
      | _ \<Rightarrow> Some (e_Nothing, set_layer i k (L_ip p0) w))"

text \<open>One turn of \<open>CFDSelectHandler::run\<close>, for the first entry with the socket.\<close>

definition socket_ready :: "int \<Rightarrow> com_rt \<Rightarrow> com_rt option" where
  "socket_ready h w =
     (case List.find (\<lambda>x. fst x = h) (m_lstConnectionsList (w_com w)) of
        None \<Rightarrow> Some w
      | Some (g, i, k) \<Rightarrow>
          (case stack_of i w ! k of
             L_ip p \<Rightarrow>
               map_option (\<lambda>(r, w1). if r \<noteq> e_Nothing then startEventChain (external_event i) w1 else w1)
                 (ip_recvData i k p h w)
           | _ \<Rightarrow> None))"

section \<open>Execution\<close>

definition set_text :: "u8 list \<Rightarrow> iec_any \<Rightarrow> iec_any" where
  "set_text s x = (case x of WStr t \<Rightarrow> WStr s | Str t \<Rightarrow> Str s | _ \<Rightarrow> x)"

definition set_bool :: "bool \<Rightarrow> iec_any \<Rightarrow> iec_any" where
  "set_bool v x = (case x of Elem t b \<Rightarrow> Elem t (if v then 1 else 0) | _ \<Rightarrow> x)"

definition comm_respond :: "nat \<Rightarrow> EComResponse \<Rightarrow> com_rt \<Rightarrow> com_rt" where
  "comm_respond i resp w =
     (let silent = masks_terminated resp \<and> service_of i w = e_Server;
          w1 = (if masks_terminated resp \<and> \<not> silent then closeConnection i w else w);
          r = (if silent then e_Nothing else resp)
      in if r \<noteq> e_Nothing then
           sendOutputEvent i (if masks_INIT r then 0 else 1)
             (upd_DO i 0 (set_bool (\<not> masks_negative r))
               (upd_DO i 1 (set_text (ascii (scm_sResponseTexts ! (com_num r mod 16)))) w1))
         else w1)"

definition exec_CCommFB :: "nat \<Rightarrow> nat \<Rightarrow> com_rt \<Rightarrow> com_rt option" where
  "exec_CCommFB i e w =
     map_option (\<lambda>(r, w1). comm_respond i r w1)
       (if e = 0 then
          Some (if op_bool (DI i 0 w) then openConnection i w else (e_InitTerminated, closeConnection i w))
        else if e = 1 then comm_sendData i w
        else if e = cg_nExternalEventID then receiveData i w
        else Some (e_Nothing, w))"

text \<open>A block that is killed closes its connection.\<close>

definition comm_changeFBExecutionState :: "EMGMCommandType \<Rightarrow> nat \<Rightarrow> com_rt \<Rightarrow> EMGMResponse \<times> com_rt" where
  "comm_changeFBExecutionState cmd i w =
     (let r = changeFBExecutionState (\<lambda>b. b) 1 cmd i w
      in (fst r, if fst r = e_RDY \<and> cmd = cg_nMGM_CMD_Kill then closeConnection i (snd r) else snd r))"

end
