(* ===== verification/Comm_Frame.thy ===== *)
theory Comm_Frame
  imports Comm_FB ASN1_Laws
begin

text \<open>
  What the operations of communication function blocks leave alone: sending and receiving are built from a few
  steps, so that a relation that these steps keep is kept by all of them. Communication blocks are thereby
  well behaved blocks for the event chain, and the groups of the local layer stay those of the open layers.
\<close>

section \<open>What the operations leave alone\<close>

definition cls :: "nat \<Rightarrow> com_rt \<Rightarrow> comm_class option" where
  "cls i w = map_option fb_class (w_fbs w i)"

lemma stack_of_cls: "stack_of i w = (case cls i w of None \<Rightarrow> [] | Some c \<Rightarrow> com_stack c)"
  by (simp add: stack_of_def cls_def split: option.split)

lemma service_of_cls: "service_of i w = (case cls i w of None \<Rightarrow> e_Client | Some c \<Rightarrow> m_eCommServiceType c)"
  by (simp add: service_of_def cls_def split: option.split)

lemma live_layer_cls:
  "live_layer i q w \<longleftrightarrow> (case cls i w of None \<Rightarrow> False | Some c \<Rightarrow> fst q = com_gen c \<and> snd q < length (com_stack c))"
  by (simp add: live_layer_def cls_def split: option.split)

lemma cls_upd [simp]:
  "cls j (upd_class i f w) = (if j = i then map_option f (cls i w) else cls j w)"
  "cls j (upd_com g w) = cls j w"
  "cls j (startEventChain x w) = cls j w"
  by (simp_all add: cls_def upd_class_def upd_com_def startEventChain_def resumeSelfSuspend_def option.map_comp o_def)

lemma cls_upd_fb: "(\<And>b. fb_class (f b) = fb_class b) \<Longrightarrow> cls j (upd_fb i f w) = cls j w"
  by (simp add: cls_def option.map_comp o_def)

lemma publish_DO_fb_class [simp]: "fb_class (fold (publish_DO P) ps b) = fb_class b"
  by (induction ps arbitrary: b) (simp_all add: publish_DO_def Let_def)

lemma cls_frame [simp]:
  "cls j (upd_DO i p f w) = cls j w"
  "cls j (upd_fb i (putRDs xs) w) = cls j w"
  "cls j (sendOutputEvent i eo w) = cls j w"
  by (simp_all add: upd_DO_def cls_upd_fb putRDs_def) (auto simp: sendOutputEvent_def cls_def Let_def split: option.split)

lemma cls_ask [simp]: "cls j (snd (ask c w)) = cls j w"
  by (simp add: ask_def Let_def)

lemma cls_closeSocket [simp]: "cls j (closeSocket h w) = cls j w"
  by (simp add: closeSocket_def)

lemma cls_set_layer [simp]:
  "cls j (set_layer i k l w) = (if j = i then map_option (\<lambda>c. c\<lparr>com_stack := (com_stack c)[k := l]\<rparr>) (cls i w) else cls j w)"
  by (simp add: set_layer_def)

lemma close_layer_cls:
  "\<exists>f. \<forall>j. cls j (close_layer i k w) = (if j = i then map_option (\<lambda>c. c\<lparr>com_stack := f (com_stack c)\<rparr>) (cls i w) else cls j w)"
proof -
  have "(\<forall>j. cls j (close_layer i k w) = cls j w) \<or>
      (\<exists>l. \<forall>j. cls j (close_layer i k w)
        = (if j = i then map_option (\<lambda>c. c\<lparr>com_stack := (com_stack c)[k := l]\<rparr>) (cls i w) else cls j w))"
    by (cases "stack_of i w ! k")
      (auto simp: close_layer_def ip_closeConnection_def loc_closeConnection_def split: option.split)
  then show ?thesis
  proof (elim disjE exE)
    assume "\<forall>j. cls j (close_layer i k w) = cls j w"
    then show ?thesis by (intro exI [of _ "\<lambda>s. s"]) (simp add: option.map_ident)
  next
    fix l
    assume "\<forall>j. cls j (close_layer i k w)
        = (if j = i then map_option (\<lambda>c. c\<lparr>com_stack := (com_stack c)[k := l]\<rparr>) (cls i w) else cls j w)"
    then show ?thesis by (intro exI [of _ "\<lambda>s. s[k := l]"]) simp
  qed
qed

lemma close_layers_cls:
  "\<exists>f. \<forall>j. cls j (fold (close_layer i) ks w) = (if j = i then map_option (\<lambda>c. c\<lparr>com_stack := f (com_stack c)\<rparr>) (cls i w) else cls j w)"
proof (induction ks arbitrary: w)
  case Nil
  show ?case by (intro exI [of _ "\<lambda>s. s"]) (simp add: option.map_ident)
next
  case (Cons k ks)
  obtain f where f: "\<And>j. cls j (close_layer i k w) = (if j = i then map_option (\<lambda>c. c\<lparr>com_stack := f (com_stack c)\<rparr>) (cls i w) else cls j w)"
    using close_layer_cls by blast
  obtain g where "\<And>j. cls j (fold (close_layer i) ks (close_layer i k w))
      = (if j = i then map_option (\<lambda>c. c\<lparr>com_stack := g (com_stack c)\<rparr>) (cls i (close_layer i k w)) else cls j (close_layer i k w))"
    using Cons by blast
  then show ?case
    by (auto simp: f option.map_comp o_def intro: exI [of _ "\<lambda>s. g (f s)"])
qed

lemma closeConnection_cls:
  "cls j (closeConnection i w)
    = (if j = i \<and> stack_of i w \<noteq> [] then map_option (\<lambda>c. c\<lparr>com_stack := [], com_gen := com_gen c + 1\<rparr>) (cls i w) else cls j w)"
proof -
  obtain f where "\<And>j. cls j (fold (close_layer i) [0..<length (stack_of i w)] w)
      = (if j = i then map_option (\<lambda>c. c\<lparr>com_stack := f (com_stack c)\<rparr>) (cls i w) else cls j w)"
    using close_layers_cls by blast
  then show ?thesis
    by (simp add: closeConnection_def option.map_comp o_def)
qed

lemma closeConnection_closed: "stack_of i w = [] \<Longrightarrow> closeConnection i w = w"
  by (simp add: closeConnection_def)

section \<open>Communication blocks are well behaved\<close>

lemma benign_upd_class [benign_intros]: "benign w w1 \<Longrightarrow> benign w (upd_class i f w1)"
  by (erule benign_trans) (simp add: benign_def upd_class_def world_shape_upd_fb)

lemma benign_upd_com [benign_intros]: "benign w w1 \<Longrightarrow> benign w (upd_com f w1)"
  by (erule benign_trans) (auto simp: benign_def upd_com_def intro: only_posts_frame)

lemma benign_ask [benign_intros]: "benign w w1 \<Longrightarrow> benign w (snd (ask c w1))"
  by (simp add: ask_def Let_def benign_upd_com)

lemma benign_set_layer [benign_intros]: "benign w w1 \<Longrightarrow> benign w (set_layer i k l w1)"
  by (simp add: set_layer_def benign_upd_class)

lemma benign_closeSocket [benign_intros]: "benign w w1 \<Longrightarrow> benign w (closeSocket h w1)"
  by (simp add: closeSocket_def benign_ask benign_upd_com)

lemma benign_external [benign_intros]: "benign w w1 \<Longrightarrow> benign w (startEventChain x w1)"
  by (rule benign_startEventChain)

lemma benign_respond_steps [benign_intros]:
  "benign w w1 \<Longrightarrow> benign w (sendOutputEvent i eo w1)"
  "benign w w1 \<Longrightarrow> benign w (upd_DO i p (set_bool v) w1)"
  "benign w w1 \<Longrightarrow> benign w (upd_DO i p (set_text s) w1)"
  by (auto intro!: benign_sendOutputEvent benign_upd_DO simp: set_bool_def set_text_def split: iec_any.splits)

text \<open>Values of the same types may be put into the outputs.\<close>

lemma putRDs_shape:
  assumes "map getDataTypeID xs = map getDataTypeID (getRDs b)"
  shows "fb_shape (putRDs xs b) = fb_shape b"
proof -
  have len: "length xs = length (drop 2 (m_aoDOs b))"
    using arg_cong [OF assms, of length] by (simp add: getRDs_def)
  have "map (\<lambda>d. getDataTypeID (dp_val d)) (map2 (\<lambda>d x. d\<lparr>dp_val := x\<rparr>) (drop 2 (m_aoDOs b)) xs) = map getDataTypeID xs"
    using len by (intro nth_equalityI) auto
  then have "map (\<lambda>d. getDataTypeID (dp_val d)) (take 2 (m_aoDOs b) @ map2 (\<lambda>d x. d\<lparr>dp_val := x\<rparr>) (drop 2 (m_aoDOs b)) xs)
      = map (\<lambda>d. getDataTypeID (dp_val d)) (take 2 (m_aoDOs b) @ drop 2 (m_aoDOs b))"
    using assms by (simp only: map_append) (simp add: getRDs_def)
  then show ?thesis
    by (simp add: putRDs_def fb_shape_def)
qed

lemma benign_upd_at:
  assumes "benign w w1" and "\<And>b. w_fbs w1 i = Some b \<Longrightarrow> fb_shape (f b) = fb_shape b"
  shows "benign w (upd_fb i f w1)"
  using assms by (auto simp: upd_fb_def split: option.split intro: benign_state)

lemma copy_values_types: "map getDataTypeID (copy_values P ss rs) = map getDataTypeID rs"
  by (induction P ss rs rule: copy_values.induct) auto

lemma setRDs_benign [benign_intros]: "benign w w1 \<Longrightarrow> benign w (setRDs sds l w1)"
  by (simp add: setRDs_def) (intro benign_external benign_upd_at, simp_all add: putRDs_shape copy_values_types)

lemma benign_fold: "(\<And>x v. benign w v \<Longrightarrow> benign w (f x v)) \<Longrightarrow> benign w w1 \<Longrightarrow> benign w (fold f xs w1)"
  by (induction xs arbitrary: w1) auto

lemma close_layer_benign [benign_intros]: "benign w w1 \<Longrightarrow> benign w (close_layer i k w1)"
  by (auto simp: close_layer_def ip_closeConnection_def loc_closeConnection_def split: layer_state.split option.split
      intro!: benign_intros)

lemma closeConnection_benign [benign_intros]: "benign w w1 \<Longrightarrow> benign w (closeConnection i w1)"
  by (auto simp: closeConnection_def intro!: benign_intros benign_fold)

lemma open_layer_benign [benign_intros]: "benign w w1 \<Longrightarrow> benign w (snd (open_layer i k ps w1))"
  by (auto simp: open_layer_def ip_openConnection_def loc_openConnection_def Let_def
      split: layer_state.split EComServiceType.split prod.split intro!: benign_intros
      dest!: arg_cong [of _ _ snd] simp flip: prod.collapse)

text \<open>What each step of \<open>createComstack\<close> keeps, the whole of it keeps.\<close>

lemma createComstack_keeps:
  assumes "\<And>v nm l ps c. keeps v \<Longrightarrow> cls i v = Some c \<Longrightarrow> Option.bind (w_fbs v i) (createCommunicationLayer nm) = Some l \<Longrightarrow>
      keeps (snd (open_layer i (length (stack_of i v)) ps (upd_class i (\<lambda>c. c\<lparr>com_stack := com_stack c @ [l]\<rparr>) v)))"
    and "keeps w"
  shows "keeps (snd (createComstack i s r w))"
  using assms
proof (induction i s r w rule: createComstack.induct)
  case (1 i s ret w)
  show ?case
  proof (cases "s = []")
    case True
    then show ?thesis using "1.prems" by (simp add: createComstack.simps)
  next
    case False
    obtain nm ps rest where e: "extractLayerIdAndParams s = (nm, ps, rest)"
      by (metis prod_cases3)
    show ?thesis
    proof (cases "(rest = None \<and> nm \<noteq> []) \<or> Option.bind (w_fbs w i) (createCommunicationLayer nm) = None")
      case True
      then show ?thesis
        using False "1.prems"(2) by (subst createComstack.simps) (auto simp: e)
    next
      case known: False
      then obtain l c where l: "Option.bind (w_fbs w i) (createCommunicationLayer nm) = Some l" "cls i w = Some c"
        by (auto simp: bind_eq_Some_conv cls_def)
      define r where "r = open_layer i (length (stack_of i w)) ps
          (upd_class i (\<lambda>c. c\<lparr>com_stack := com_stack c @ [l]\<rparr>) w)"
      have r: "keeps (snd r)"
        unfolding r_def by (rule "1.prems"(1) [OF "1.prems"(2) l(2,1)])
      have "createComstack i s ret w
          = (if fst r \<noteq> e_InitOk then r else case rest of None \<Rightarrow> r | Some t \<Rightarrow> createComstack i t (fst r) (snd r))"
        using False known by (subst createComstack.simps) (auto simp: e l r_def Let_def split: option.split)
      then show ?thesis
        using r "1.IH" [OF False e [symmetric] refl _ l(1) r_def _ _ "1.prems"(1)] known by (auto split: option.split)
    qed
  qed
qed

lemma createComstack_benign [benign_intros]: "benign w w1 \<Longrightarrow> benign w (snd (createComstack i s r w1))"
  by (rule createComstack_keeps) (intro benign_intros)

lemma openConnection_benign [benign_intros]: "benign w w1 \<Longrightarrow> benign w (snd (openConnection i w1))"
  by (auto simp: openConnection_def Let_def split: option.split intro!: benign_intros)

section \<open>Relations that sending and receiving keep\<close>

text \<open>The group in which a layer is registered.\<close>

definition loc_of :: "layer_state \<Rightarrow> TStringId option" where
  "loc_of l = (case l of L_loc g \<Rightarrow> g | _ \<Rightarrow> None)"

lemma loc_of_simps [simp]:
  "loc_of (L_fbdk A) = None" "loc_of (L_ip p) = None" "loc_of (L_loc g) = g" "loc_of L_raw = None"
  by (simp_all add: loc_of_def)

lemma layout_types: "map layout xs = map layout ys \<Longrightarrow> map getDataTypeID xs = map getDataTypeID ys"
  by (induction xs ys rule: list_induct2') (auto intro: layout_type)

lemma recvData_types:
  "map getDataTypeID (RDs (snd (asn1_recvData bs (A\<lparr>RDs := xs\<rparr>)))) = map getDataTypeID xs"
  by (rule layout_types) (simp add: asn1_recvData_def recv_loop_layout Let_def resizeDeserBuffer_def)

lemma setRDs_steps:
  "setRDs sds l w =
    startEventChain (external_event (fst l))
      (upd_class (fst l) (interruptCommFB (snd l)) (upd_fb (fst l) (\<lambda>b. putRDs (copy_values (w_platform w) sds (getRDs b)) b) w))"
  by (simp add: setRDs_def upd_class_def upd_fb_def putRDs_def split: option.split)

lemma layer_recvData_stack:
  "layer_recvData i k bs w = Some (r, w1) \<Longrightarrow> j \<noteq> k \<Longrightarrow> stack_of i w1 ! j = stack_of i w ! j"
  by (auto simp: layer_recvData_def stack_of_cls Let_def split: option.splits layer_state.splits if_splits)

locale comm_frame =
  fixes R :: "com_rt \<Rightarrow> com_rt \<Rightarrow> bool"
  assumes R_refl: "R w w"
    and R_shared: "R w w1 \<Longrightarrow> (\<And>e. w_groups (f e) = w_groups e) \<Longrightarrow> R w (upd_com f w1)"
    and R_layer: "R w w1 \<Longrightarrow> loc_of (stack_of i w1 ! k) = None \<Longrightarrow> loc_of l = None \<Longrightarrow> R w (set_layer i k l w1)"
    and R_queue: "R w w1 \<Longrightarrow> (\<And>c. com_stack (g c) = com_stack c \<and> m_eCommServiceType (g c) = m_eCommServiceType c) \<Longrightarrow>
          R w (upd_class i g w1)"
    and R_outputs: "R w w1 \<Longrightarrow>
          (\<And>b. w_fbs w1 i = Some b \<Longrightarrow> \<exists>xs. h b = putRDs xs b \<and> map getDataTypeID xs = map getDataTypeID (getRDs b)) \<Longrightarrow>
          R w (upd_fb i h w1)"
    and R_chain: "R w w1 \<Longrightarrow> R w (startEventChain x w1)"
begin

lemma R_ask: "R w w1 \<Longrightarrow> R w (snd (ask c w1))"
  by (simp add: ask_def Let_def R_shared)

lemma R_closeSocket: "R w w1 \<Longrightarrow> R w (closeSocket h w1)"
  by (simp add: closeSocket_def R_ask R_shared removeComCallback_def)

lemma R_interrupt: "R w w1 \<Longrightarrow> R w (upd_class i (interruptCommFB k) w1)"
  by (rule R_queue) (simp_all add: interruptCommFB_def)

lemma R_setRDs: "R w w1 \<Longrightarrow> R w (setRDs sds l w1)"
  unfolding setRDs_steps
  by (rule R_chain, rule R_interrupt, rule R_outputs) (auto simp: copy_values_types)

lemma R_fold: "(\<And>x v. R w v \<Longrightarrow> R w (f x v)) \<Longrightarrow> R w w1 \<Longrightarrow> R w (fold f xs w1)"
  by (induction xs arbitrary: w1) auto

lemma R_ip_sendData:
  assumes "R w w1" and "stack_of i w1 ! k = L_ip p"
  shows "R w (snd (ip_sendData i k p bs w1))"
  using assms
  by (auto simp: ip_sendData_def Let_def stack_of_cls split: EComServiceType.split prod.split
      intro!: R_layer R_closeSocket R_ask dest!: arg_cong [of _ _ snd] simp flip: prod.collapse)

lemma R_layer_sendData:
  "layer_sendData i ls k d w1 = Some (r, w2) \<Longrightarrow> drop k (stack_of i w1) = ls \<Longrightarrow> R w w1 \<Longrightarrow> R w w2"
proof (induction i ls k d w1 arbitrary: r w2 rule: layer_sendData.induct)
  case (2 i l ls k d w1)
  have below: "drop (Suc k) (stack_of i w1) = ls" and here: "stack_of i w1 ! k = l"
    using 2(4) by (metis drop_Suc list.sel(3) tl_drop, metis hd_drop_conv_nth list.sel(1) list.distinct(1) drop_eq_Nil linorder_not_le)
  show ?case
  proof (cases l)
    case (L_fbdk A)
    then show ?thesis
      using 2 below by (auto split: send_data.splits prod.splits option.splits)
  next
    case (L_ip p)
    then show ?thesis
      using 2(3,5) R_ip_sendData [of w w1 i k p] here by (auto split: send_data.splits) (metis snd_conv)
  next
    case (L_loc g)
    then show ?thesis
      using 2(3,5) by (auto simp: loc_sendData_def split: option.splits intro!: R_fold R_setRDs)
  next
    case L_raw
    then show ?thesis
      using 2 below by (auto split: send_data.splits list.splits iec_any.splits)
  qed
qed simp

lemma R_comm_sendData: "comm_sendData i w1 = Some (r, w2) \<Longrightarrow> R w w1 \<Longrightarrow> R w w2"
  by (auto simp: comm_sendData_def stack_of_def split: option.splits if_splits dest: R_layer_sendData)

lemma R_layer_recvData:
  assumes "layer_recvData i k bs w1 = Some (r, w2)" and "R w w1"
  shows "R w w2"
proof (cases "w_fbs w1 i")
  case (Some b)
  have here: "stack_of i w1 ! k = com_stack (fb_class b) ! k"
    by (simp add: stack_of_def Some)
  show ?thesis
  proof (cases "com_stack (fb_class b) ! k")
    case (L_fbdk A)
    let ?r = "asn1_recvData bs (A\<lparr>RDs := getRDs b\<rparr>)"
    have "R w (upd_fb i (putRDs (RDs (snd ?r))) w1)"
      using Some by (intro R_outputs assms) (auto simp: recvData_types)
    moreover have "stack_of i (upd_fb i (putRDs (RDs (snd ?r))) w1) ! k = L_fbdk A"
      using here L_fbdk by (simp add: stack_of_cls)
    moreover have "w2 = set_layer i k (L_fbdk (snd ?r)) (upd_fb i (putRDs (RDs (snd ?r))) w1)"
      using assms(1) by (simp add: layer_recvData_def Some L_fbdk Let_def)
    ultimately show ?thesis by (simp add: R_layer)
  next
    case L_raw
    have "map getDataTypeID [case hd (getRDs b) of Str s \<Rightarrow> Str bs | x \<Rightarrow> x] = map getDataTypeID (getRDs b)"
      if "length (getRDs b) = Suc 0"
      using that by (auto simp: length_Suc_conv split: iec_any.split)
    then show ?thesis
      using assms by (auto simp: layer_recvData_def Some L_raw split: if_splits intro!: R_outputs)
  qed (use assms in \<open>auto simp: layer_recvData_def Some\<close>)
qed (use assms in \<open>simp add: layer_recvData_def\<close>)

lemma R_processInterrupt:
  assumes "processInterrupt i k w1 = Some (r, w2)" and "R w w1"
  shows "R w w2"
  using assms
  by (auto simp: processInterrupt_def ip_processInterrupt_def split: layer_state.splits if_splits
      intro!: R_layer dest: R_layer_recvData layer_recvData_stack [where k = "k - Suc 0" and j = k])

lemma R_process_all: "process_all i qs r w1 = Some (r', w2) \<Longrightarrow> R w w1 \<Longrightarrow> R w w2"
proof (induction qs arbitrary: r w1)
  case (Cons q qs)
  then show ?case
    by (auto split: if_splits option.splits dest: R_processInterrupt)
qed simp

lemma R_receiveData: "receiveData i w1 = Some (r, w2) \<Longrightarrow> R w w1 \<Longrightarrow> R w w2"
  by (auto simp: receiveData_def Let_def split: option.splits intro!: R_queue dest: R_process_all)

lemma R_handled:
  assumes "handledConnectedDataRecv i k p w1 = Some (r, w2)" and "R w w1" and "loc_of (stack_of i w1 ! k) = None"
  shows "R w w2"
proof -
  have locked: "loc_of (stack_of i (closeSocket h v) ! k) = loc_of (stack_of i v ! k)"
      "loc_of (stack_of i (snd (ask c v)) ! k) = loc_of (stack_of i v ! k)" for h c v
    by (simp_all add: stack_of_cls)
  show ?thesis
    using assms
    by (auto simp: handledConnectedDataRecv_def Let_def locked split: if_splits prod.splits EComServiceType.splits
        intro!: R_interrupt R_layer R_closeSocket R_ask dest!: arg_cong [of _ _ snd] simp flip: prod.collapse)
qed

lemma R_ip_recvData:
  assumes "ip_recvData i k p h w1 = Some (r, w2)" and "R w w1" and "loc_of (stack_of i w1 ! k) = None"
  shows "R w w2"
proof -
  have locked: "loc_of (stack_of i (snd (ask c v)) ! k) = loc_of (stack_of i v ! k)"
      "loc_of (stack_of i (upd_com f v) ! k) = loc_of (stack_of i v ! k)" for f c v
    by (simp_all add: stack_of_cls)
  show ?thesis
    using assms
    by (auto simp: ip_recvData_def Let_def locked addComCallback_def
        split: if_splits prod.splits EComConnectionState.splits
        intro!: R_layer R_ask R_shared dest!: arg_cong [of _ _ snd] dest: R_handled simp flip: prod.collapse)
qed

lemma R_ip_layer:
  "ip_recvData i k p h w1 = Some (r, w2) \<Longrightarrow> stack_of i w1 ! k = L_ip q \<Longrightarrow> R w w1 \<Longrightarrow> R w w2"
  by (erule R_ip_recvData) (assumption, simp)

lemma R_socket_ready: "socket_ready h w1 = Some w2 \<Longrightarrow> R w w1 \<Longrightarrow> R w w2"
  by (auto simp: socket_ready_def split: option.splits layer_state.splits if_splits intro!: R_chain dest: R_ip_layer)

end

section \<open>Communication blocks are well behaved\<close>

lemma benign_outputs:
  assumes "benign w w1"
    and "\<And>b. w_fbs w1 i = Some b \<Longrightarrow> \<exists>xs. h b = putRDs xs b \<and> map getDataTypeID xs = map getDataTypeID (getRDs b)"
  shows "benign w (upd_fb i h w1)"
  using assms(1)
proof (rule benign_upd_at)
  fix b
  assume "w_fbs w1 i = Some b"
  then obtain xs where "h b = putRDs xs b" "map getDataTypeID xs = map getDataTypeID (getRDs b)"
    using assms(2) by blast
  then show "fb_shape (h b) = fb_shape b"
    by (simp add: putRDs_shape)
qed

interpretation benign_frame: comm_frame benign
  by unfold_locales (auto intro: benign_intros benign_outputs)

lemma exec_CCommFB_benign:
  assumes "exec_CCommFB i e w = Some w'"
  shows "benign w w'"
proof -
  have respond: "benign w (comm_respond i r v)" if "benign w v" for r v
    using that by (auto simp: comm_respond_def Let_def intro!: benign_intros)
  show ?thesis
    using assms openConnection_benign [OF benign_refl [of w], of i] closeConnection_benign [OF benign_refl [of w], of i]
    by (auto simp: exec_CCommFB_def split: if_splits prod.splits
        dest: benign_frame.R_comm_sendData [OF _ benign_refl] benign_frame.R_receiveData [OF _ benign_refl] intro!: respond)
qed

interpretation comm_fbs: fb_behaviour exec_CCommFB
  by unfold_locales (auto dest!: exec_CCommFB_benign simp: benign_def)

section \<open>The groups are those of the open layers\<close>

text \<open>
  A layer is a member of a group exactly when it is in the stack of its block and refers to that group,
  as a publisher or a subscriber by the service of its block. No member is a layer that has been deleted.
\<close>

definition locs :: "nat \<Rightarrow> com_rt \<Rightarrow> TStringId option list" where
  "locs i w = map loc_of (stack_of i w)"

definition registers :: "com_rt \<Rightarrow> TStringId \<Rightarrow> bool \<Rightarrow> layer_ref \<Rightarrow> bool" where
  "registers w n publ l \<longleftrightarrow> snd l < length (locs (fst l) w) \<and> locs (fst l) w ! snd l = Some n \<and>
     (service_of (fst l) w = e_Publisher) = publ"

definition groups_match :: "com_rt \<Rightarrow> bool" where
  "groups_match w \<longleftrightarrow>
     groups_ok (w_groups (w_com w)) \<and>
     (\<forall>n. distinct (fst (members (w_groups (w_com w)) n)) \<and> distinct (snd (members (w_groups (w_com w)) n)) \<and>
        set (fst (members (w_groups (w_com w)) n)) = {l. registers w n True l} \<and>
        set (snd (members (w_groups (w_com w)) n)) = {l. registers w n False l})"

text \<open>What the invariant depends on.\<close>

definition loc_view :: "com_rt \<Rightarrow> _" where
  "loc_view w = (\<lambda>i. (locs i w, service_of i w), w_groups (w_com w))"

lemma loc_viewD:
  assumes "loc_view w' = loc_view w"
  shows "locs i w' = locs i w" "service_of i w' = service_of i w" "w_groups (w_com w') = w_groups (w_com w)"
  using assms by (auto simp: loc_view_def dest: fun_cong [where x = i])

lemma groups_match_view:
  assumes "loc_view w' = loc_view w"
  shows "groups_match w' = groups_match w"
  by (simp add: groups_match_def registers_def loc_viewD [OF assms])

lemma groups_frame [simp]:
  "w_groups (w_com (upd_class i f w)) = w_groups (w_com w)"
  "w_groups (w_com (set_layer i k l w)) = w_groups (w_com w)"
  "w_groups (w_com (startEventChain x w)) = w_groups (w_com w)"
  "w_groups (w_com (upd_DO i p g w)) = w_groups (w_com w)"
  "w_groups (w_com (sendOutputEvent i eo w)) = w_groups (w_com w)"
  by (simp_all add: upd_class_def set_layer_def startEventChain_def resumeSelfSuspend_def upd_DO_def)
     (simp add: sendOutputEvent_def Let_def split: option.split)

lemma loc_view_eqI:
  "w_groups (w_com w') = w_groups (w_com w) \<Longrightarrow>
   (\<And>i. map_option (\<lambda>c. (map loc_of (com_stack c), m_eCommServiceType c)) (cls i w')
     = map_option (\<lambda>c. (map loc_of (com_stack c), m_eCommServiceType c)) (cls i w)) \<Longrightarrow> loc_view w' = loc_view w"
proof -
  assume g: "w_groups (w_com w') = w_groups (w_com w)"
    and c: "\<And>i. map_option (\<lambda>c. (map loc_of (com_stack c), m_eCommServiceType c)) (cls i w')
     = map_option (\<lambda>c. (map loc_of (com_stack c), m_eCommServiceType c)) (cls i w)"
  have "locs i w' = locs i w \<and> service_of i w' = service_of i w" for i
    using c [of i] by (cases "cls i w'"; cases "cls i w") (simp_all add: locs_def stack_of_cls service_of_cls)
  then show ?thesis using g by (simp add: loc_view_def)
qed

lemma map_loc_update:
  "k < length s \<Longrightarrow> loc_of (s ! k) = g \<Longrightarrow> loc_of l = g \<Longrightarrow> map loc_of (s[k := l]) = map loc_of s"
  by (intro nth_equalityI) (auto simp: nth_list_update)

lemma map_loc_update_None:
  "loc_of (s ! k) = None \<Longrightarrow> loc_of l = None \<Longrightarrow> map loc_of (s[k := l]) = map loc_of s"
  by (cases "k < length s") (auto simp: map_loc_update list_update_beyond)

interpretation view_frame: comm_frame "\<lambda>w w1. loc_view w1 = loc_view w"
proof
  fix w w1 :: com_rt and f :: "com_env \<Rightarrow> com_env"
  assume "loc_view w1 = loc_view w" and "\<And>e. w_groups (f e) = w_groups e"
  moreover have "loc_view (upd_com f w1) = loc_view w1" if "\<And>e. w_groups (f e) = w_groups e"
    by (rule loc_view_eqI) (simp_all add: upd_com_def that, simp_all add: cls_def)
  ultimately show "loc_view (upd_com f w1) = loc_view w" by simp
next
  fix w w1 :: com_rt and i k :: nat and l :: layer_state
  assume "loc_view w1 = loc_view w" and "loc_of (stack_of i w1 ! k) = None" and "loc_of l = None"
  moreover have "loc_view (set_layer i k l w1) = loc_view w1" if "loc_of (stack_of i w1 ! k) = None" "loc_of l = None"
    by (rule loc_view_eqI) (use that in \<open>auto simp: stack_of_cls map_loc_update_None option.map_comp o_def split: option.splits\<close>)
  ultimately show "loc_view (set_layer i k l w1) = loc_view w" by simp
next
  fix w w1 :: com_rt and i :: nat and g :: "comm_class \<Rightarrow> comm_class"
  assume "loc_view w1 = loc_view w" and "\<And>c. com_stack (g c) = com_stack c \<and> m_eCommServiceType (g c) = m_eCommServiceType c"
  moreover have "loc_view (upd_class i g w1) = loc_view w1"
    if "\<And>c. com_stack (g c) = com_stack c \<and> m_eCommServiceType (g c) = m_eCommServiceType c"
    by (rule loc_view_eqI) (simp_all add: option.map_comp o_def that)
  ultimately show "loc_view (upd_class i g w1) = loc_view w" by simp
next
  fix w w1 :: com_rt and i :: nat and h :: "comm_class fb \<Rightarrow> comm_class fb"
  assume a: "loc_view w1 = loc_view w"
    and h: "\<And>b. w_fbs w1 i = Some b \<Longrightarrow> \<exists>xs. h b = putRDs xs b \<and> map getDataTypeID xs = map getDataTypeID (getRDs b)"
  have "map_option fb_class (map_option h (w_fbs w1 i)) = map_option fb_class (w_fbs w1 i)"
    using h by (cases "w_fbs w1 i") (auto simp: putRDs_def)
  then have "loc_view (upd_fb i h w1) = loc_view w1"
    by (intro loc_view_eqI) (auto simp: cls_def)
  then show "loc_view (upd_fb i h w1) = loc_view w" using a by simp
next
  fix w w1 :: com_rt and x :: conn_point
  assume "loc_view w1 = loc_view w"
  moreover have "loc_view (startEventChain x w1) = loc_view w1"
    by (rule loc_view_eqI) simp_all
  ultimately show "loc_view (startEventChain x w1) = loc_view w" by simp
qed simp

lemma locs_set_layer:
  "locs j (set_layer i k l w) = (if j = i then (locs i w)[k := loc_of l] else locs j w)"
  by (auto simp: locs_def stack_of_cls map_update split: option.split)

lemma service_set_layer [simp]: "service_of j (set_layer i k l w) = service_of j w"
  by (auto simp: service_of_cls split: option.split)

lemma upd_com_view [simp]: "locs j (upd_com f w) = locs j w" "service_of j (upd_com f w) = service_of j w"
    "w_com (upd_com f w) = f (w_com w)"
  by (simp_all add: locs_def stack_of_cls service_of_cls) (simp add: upd_com_def)

text \<open>The world in which layer \<open>k\<close> of block \<open>i\<close> has joined or left a group.\<close>

definition regroup :: "nat \<Rightarrow> nat \<Rightarrow> TStringId option \<Rightarrow> (SLocalCommGroup list \<Rightarrow> SLocalCommGroup list) \<Rightarrow> com_rt \<Rightarrow> com_rt" where
  "regroup i k g f w = set_layer i k (L_loc g) (upd_com (\<lambda>e. e\<lparr>w_groups := f (w_groups e)\<rparr>) w)"

lemma regroup_simps [simp]:
  "locs j (regroup i k g f w) = (if j = i then (locs i w)[k := g] else locs j w)"
  "service_of j (regroup i k g f w) = service_of j w"
  "w_groups (w_com (regroup i k g f w)) = f (w_groups (w_com w))"
  by (simp_all add: regroup_def locs_set_layer)

lemma registers_regroup:
  "registers (regroup i k g f w) n p (j, m) \<longleftrightarrow>
     (if j = i \<and> m = k then k < length (locs i w) \<and> g = Some n \<and> (service_of i w = e_Publisher) = p else registers w n p (j, m))"
  by (auto simp: registers_def nth_list_update)

lemma groups_match_join:
  assumes "groups_match w" and "k < length (locs i w)" and "locs i w ! k = None"
  shows "service_of i w = e_Publisher \<Longrightarrow> groups_match (regroup i k (Some n) (registerPubl n (i, k)) w)"
    and "service_of i w \<noteq> e_Publisher \<Longrightarrow> groups_match (regroup i k (Some n) (registerSubl n (i, k)) w)"
proof -
  let ?gs = "w_groups (w_com w)"
  have ok: "groups_ok ?gs"
    and m: "\<And>m. distinct (fst (members ?gs m))" "\<And>m. distinct (snd (members ?gs m))"
      "\<And>m. set (fst (members ?gs m)) = {l. registers w m True l}" "\<And>m. set (snd (members ?gs m)) = {l. registers w m False l}"
    using assms(1) by (simp_all add: groups_match_def)
  have new: "\<not> registers w m p (i, k)" for m p
    using assms(3) by (simp add: registers_def)
  show "service_of i w = e_Publisher \<Longrightarrow> groups_match (regroup i k (Some n) (registerPubl n (i, k)) w)"
    using assms(2) m new by (auto simp: groups_match_def publ_members [OF ok] registers_regroup split: if_splits)
  show "service_of i w \<noteq> e_Publisher \<Longrightarrow> groups_match (regroup i k (Some n) (registerSubl n (i, k)) w)"
    using assms(2) m new by (auto simp: groups_match_def subl_members [OF ok] registers_regroup split: if_splits)
qed

lemma groups_match_leave:
  assumes "groups_match w" and "k < length (locs i w)" and "locs i w ! k = Some n"
  shows "service_of i w = e_Publisher \<Longrightarrow> groups_match (regroup i k None (unregisterPubl n (i, k)) w)"
    and "service_of i w \<noteq> e_Publisher \<Longrightarrow> groups_match (regroup i k None (unregisterSubl n (i, k)) w)"
proof -
  let ?gs = "w_groups (w_com w)"
  have ok: "groups_ok ?gs"
    and m: "\<And>m. distinct (fst (members ?gs m))" "\<And>m. distinct (snd (members ?gs m))"
      "\<And>m. set (fst (members ?gs m)) = {l. registers w m True l}" "\<And>m. set (snd (members ?gs m)) = {l. registers w m False l}"
    using assms(1) by (simp_all add: groups_match_def)
  have new: "{l. registers (regroup i k None f w) m p l} = {l. registers w m p l} - {(i, k)}" for m p f
    by (auto simp: registers_regroup split: if_splits)
  have other: "{l. registers w m p l} - {(i, k)} = {l. registers w m p l}" if "m \<noteq> n \<or> p \<noteq> (service_of i w = e_Publisher)" for m p
    using assms(3) that by (auto simp: registers_def)
  show "service_of i w = e_Publisher \<Longrightarrow> groups_match (regroup i k None (unregisterPubl n (i, k)) w)"
    by (simp add: groups_match_def publ_members [OF ok] new other m)
  show "service_of i w \<noteq> e_Publisher \<Longrightarrow> groups_match (regroup i k None (unregisterSubl n (i, k)) w)"
    by (simp add: groups_match_def subl_members [OF ok] new other m)
qed

text \<open>Closing and opening.\<close>

lemma same_view_match: "loc_view w' = loc_view w \<Longrightarrow> groups_match w \<Longrightarrow> groups_match w'"
  using groups_match_view by blast

lemma close_layer_match:
  assumes "groups_match w" and "k < length (locs i w)"
  shows "groups_match (close_layer i k w) \<and> service_of i (close_layer i k w) = service_of i w \<and>
    (\<forall>j. locs j (close_layer i k w) = (if j = i then (locs i w)[k := None] else locs j w))"
proof -
  have at: "locs i w ! k = loc_of (stack_of i w ! k)"
    using assms(2) by (simp add: locs_def)
  have same: ?thesis if "loc_view (close_layer i k w) = loc_view w" "locs i w ! k = None"
    using loc_viewD [OF that(1)] same_view_match [OF that(1) assms(1)] list_update_id [of "locs i w" k] that(2) by auto
  show ?thesis
  proof (cases "stack_of i w ! k")
    case (L_fbdk A)
    then show ?thesis using same at by (simp add: close_layer_def)
  next
    case (L_ip p)
    have "loc_view (ip_closeConnection i k p w) = loc_view w"
      using L_ip unfolding ip_closeConnection_def
      by (intro view_frame.R_layer view_frame.R_closeSocket) (simp_all add: stack_of_cls)
    then show ?thesis using same at L_ip by (simp add: close_layer_def)
  next
    case (L_loc g)
    show ?thesis
    proof (cases g)
      case None
      then show ?thesis using same at L_loc by (simp add: close_layer_def loc_closeConnection_def)
    next
      case (Some n)
      have "close_layer i k w
          = regroup i k None (if service_of i w = e_Publisher then unregisterPubl n (i, k) else unregisterSubl n (i, k)) w"
        using L_loc Some by (simp add: close_layer_def loc_closeConnection_def regroup_def)
      then show ?thesis
        using groups_match_leave [OF assms] at L_loc Some by simp
    qed
  next
    case L_raw
    then show ?thesis using same at by (simp add: close_layer_def)
  qed
qed

lemma close_layers_match:
  assumes "groups_match w" and "m \<le> length (locs i w)"
  shows "groups_match (fold (close_layer i) [0..<m] w) \<and>
    (\<forall>j. locs j (fold (close_layer i) [0..<m] w)
      = (if j = i then replicate m None @ drop m (locs i w) else locs j w))"
  using assms(2)
proof (induction m)
  case (Suc m)
  let ?v = "fold (close_layer i) [0..<m] w"
  have ih: "groups_match ?v" "locs i ?v = replicate m None @ drop m (locs i w)" "\<And>j. j \<noteq> i \<Longrightarrow> locs j ?v = locs j w"
    using Suc by simp_all
  have "(replicate m None @ drop m (locs i w))[m := None] = replicate (Suc m) None @ drop (Suc m) (locs i w)"
    using Suc.prems by (simp add: list_update_append Cons_nth_drop_Suc [symmetric] replicate_append_same [symmetric])
  then show ?case
    using close_layer_match [OF ih(1), of m i] ih(2,3) Suc.prems by simp
qed (use assms(1) in simp)

lemma closeConnection_match:
  assumes "groups_match w"
  shows "groups_match (closeConnection i w)"
proof (cases "stack_of i w = []")
  case False
  let ?n = "length (stack_of i w)" and ?f = "\<lambda>c. c\<lparr>com_stack := [], com_gen := com_gen c + 1\<rparr>"
  let ?v = "fold (close_layer i) [0..<?n] w"
  have v: "groups_match ?v" "locs i ?v = replicate ?n None"
    using close_layers_match [OF assms, of ?n i] by (simp_all add: locs_def)
  have "locs j (upd_class i ?f ?v) = (if j = i then [] else locs j ?v)" "service_of j (upd_class i ?f ?v) = service_of j ?v" for j
    by (simp_all add: locs_def stack_of_cls service_of_cls split: option.split)
  then have "registers (upd_class i ?f ?v) n p l \<longleftrightarrow> registers ?v n p l" for n p l
    by (auto simp: registers_def v(2))
  then show ?thesis
    using False v(1) by (simp add: closeConnection_def groups_match_def)
qed (use assms in \<open>simp add: closeConnection_def\<close>)

lemma append_match:
  assumes "groups_match w" and "loc_of l = None"
  shows "groups_match (upd_class i (\<lambda>c. c\<lparr>com_stack := com_stack c @ [l]\<rparr>) w)"
proof -
  have "registers (upd_class i (\<lambda>c. c\<lparr>com_stack := com_stack c @ [l]\<rparr>) w) n p x \<longleftrightarrow> registers w n p x" for n p x
    using assms(2) by (cases x) (auto simp: registers_def locs_def stack_of_cls service_of_cls nth_append split: option.split)
  then show ?thesis using assms(1) by (simp add: groups_match_def)
qed

lemma open_layer_match:
  assumes "groups_match w" and "k < length (locs i w)" and "locs i w ! k = None"
  shows "groups_match (snd (open_layer i k ps w))"
proof -
  have at: "loc_of (stack_of i w ! k) = None"
    using assms(2,3) by (simp add: locs_def)
  show ?thesis
  proof (cases "stack_of i w ! k")
    case (L_ip p)
    have "loc_view (snd (ip_openConnection i k ps p w)) = loc_view w"
      using at
      by (auto simp: ip_openConnection_def Let_def stack_of_cls addComCallback_def split: prod.split
          intro!: view_frame.R_layer view_frame.R_ask view_frame.R_shared
          dest!: arg_cong [of _ _ snd] simp flip: prod.collapse)
    then show ?thesis
      using same_view_match [OF _ assms(1)] L_ip by (simp add: open_layer_def)
  next
    case (L_loc g)
    have "loc_openConnection i k ps w = (e_InitOk, regroup i k (Some (name_of ps)) (registerPubl (name_of ps) (i, k)) w)"
      if "service_of i w = e_Publisher"
      using that by (simp add: loc_openConnection_def regroup_def Let_def)
    moreover have "loc_openConnection i k ps w = (e_InitOk, regroup i k (Some (name_of ps)) (registerSubl (name_of ps) (i, k)) w)"
      if "service_of i w = e_Subscriber"
      using that by (simp add: loc_openConnection_def regroup_def Let_def)
    moreover have "loc_openConnection i k ps w = (e_InitInvalidId, w)" if "service_of i w \<in> {e_Server, e_Client}"
      using that by (auto simp: loc_openConnection_def Let_def)
    ultimately show ?thesis
      using L_loc assms(1) groups_match_join [OF assms] by (cases "service_of i w") (simp_all add: open_layer_def)
  qed (use assms(1) in \<open>simp_all add: open_layer_def\<close>)
qed

lemma createComstack_match: "groups_match w \<Longrightarrow> groups_match (snd (createComstack i s r w))"
proof (rule createComstack_keeps)
  fix v nm l ps c
  assume v: "groups_match v" and c: "cls i v = Some c"
    and l: "Option.bind (w_fbs v i) (createCommunicationLayer nm) = Some l"
  then have new: "loc_of l = None"
    by (auto simp: createCommunicationLayer_def bind_eq_Some_conv split: if_splits)
  let ?v = "upd_class i (\<lambda>c. c\<lparr>com_stack := com_stack c @ [l]\<rparr>) v"
  have "locs i ?v = locs i v @ [None]"
    using c new by (simp add: locs_def stack_of_cls)
  then have "length (stack_of i v) < length (locs i ?v)" "locs i ?v ! length (stack_of i v) = None"
    by (simp_all add: nth_append locs_def)
  then show "groups_match (snd (open_layer i (length (stack_of i v)) ps ?v))"
    by (intro open_layer_match append_match v new)
qed

lemma openConnection_match: "groups_match w \<Longrightarrow> groups_match (snd (openConnection i w))"
  using createComstack_match closeConnection_match
  by (auto simp: openConnection_def Let_def split: option.split)

lemma respond_match: "groups_match w \<Longrightarrow> groups_match (comm_respond i r w)"
proof -
  assume w: "groups_match w"
  have steps: "loc_view (upd_DO i p f v) = loc_view v" "loc_view (sendOutputEvent i eo v) = loc_view v" for p f eo v
    by (rule loc_view_eqI; simp)+
  have "groups_match (sendOutputEvent i eo (upd_DO i 0 f (upd_DO i 1 g v))) \<longleftrightarrow> groups_match v" for eo f g v
    by (rule groups_match_view) (simp add: steps)
  then show ?thesis
    using w closeConnection_match [OF w] by (simp add: comm_respond_def Let_def)
qed

lemma exec_match:
  assumes "groups_match w" and "exec_CCommFB i e w = Some w'"
  shows "groups_match w'"
proof -
  have "groups_match v" if "comm_sendData i w = Some (r, v) \<or> receiveData i w = Some (r, v)" for r v
    using that same_view_match [OF _ assms(1)] view_frame.R_comm_sendData [OF _ refl] view_frame.R_receiveData [OF _ refl] by blast
  then show ?thesis
    using assms openConnection_match [OF assms(1), of i] closeConnection_match [OF assms(1), of i]
    by (auto simp: exec_CCommFB_def split: if_splits prod.splits intro!: respond_match)
qed

lemma change_view: "loc_view (snd (changeFBExecutionState (\<lambda>b. b) n cmd i w)) = loc_view w"
proof (induction n arbitrary: i w)
  case 0
  show ?case
    by (rule loc_view_eqI) (auto simp: changeFBExecutionState.simps [where n = 0] Let_def cls_def split: option.split)
next
  case (Suc n)
  have f: "loc_view (fold (\<lambda>a v. case a of None \<Rightarrow> v
      | Some j \<Rightarrow> snd (changeFBExecutionState (\<lambda>b. b) n cmd j v)) as v) = loc_view v" for as v
    by (induction as arbitrary: v) (simp_all add: Suc split: option.split)
  have "loc_view (w\<lparr>w_fbs := (w_fbs w)(i \<mapsto> b\<lparr>m_enFBState := st\<rparr>)\<rparr>) = loc_view w" if "w_fbs w i = Some b" for b st
    by (rule loc_view_eqI) (auto simp: cls_def that)
  then show ?case
    by (simp add: changeFBExecutionState.simps [where n = "Suc n"] f Let_def split: option.split)
qed

text \<open>What happens to a resource with communication blocks: an event is executed by one of them, a command changes
  its state, a socket has data.\<close>

inductive com_step :: "com_rt \<Rightarrow> com_rt \<Rightarrow> bool" where
  event: "exec_CCommFB i e w = Some w' \<Longrightarrow> com_step w w'"
| command: "com_step w (snd (comm_changeFBExecutionState cmd i w))"
| socket: "socket_ready h w = Some w' \<Longrightarrow> com_step w w'"

inductive_cases com_step_cases: "com_step w w'"

text \<open>
  C24. Whatever communication blocks do, the members of each local group are exactly the layers of the open
  stacks that refer to it: no layer is registered twice, and none is left behind when a connection is closed.
\<close>

theorem groups_stay_matched:
  assumes "com_step\<^sup>*\<^sup>* w w'" and "groups_match w"
  shows "groups_match w'"
  using assms
proof (induction rule: rtranclp_induct)
  case (step v v')
  have "groups_match (snd (comm_changeFBExecutionState cmd i v))" for cmd i
    using same_view_match [OF change_view] closeConnection_match step
    by (auto simp: comm_changeFBExecutionState_def Let_def)
  moreover have "groups_match u" if "socket_ready h v = Some u" for h u
    using same_view_match [OF view_frame.R_socket_ready [OF that refl]] step by blast
  ultimately show ?case
    using step(2) exec_match step(3,4) by (blast elim: com_step_cases)
qed

end
