(* ===== verification/Comm_Laws.thy ===== *)
theory Comm_Laws
  imports Comm_Frame
begin

text \<open>
  Properties of communication function blocks: IDs, error paths, local publications, and servers.
\<close>

section \<open>The ID of a block\<close>

text \<open>An ID as it is written: the layers with their parameters in brackets, separated by dots.\<close>

definition layer_text :: "u8 list \<times> u8 list \<Rightarrow> u8 list" where
  "layer_text l = fst l @ 91 # snd l @ [93]"

fun id_text :: "(u8 list \<times> u8 list) list \<Rightarrow> u8 list" where
  "id_text [] = []"
| "id_text [l] = layer_text l"
| "id_text (l # ls) = layer_text l @ 46 # id_text ls"

text \<open>What is to happen: each layer is created on top of none or below its predecessor and opened, up to
  the first that cannot be.\<close>

fun open_layers :: "nat \<Rightarrow> (u8 list \<times> u8 list) list \<Rightarrow> EComResponse \<Rightarrow> com_rt \<Rightarrow> EComResponse \<times> com_rt" where
  "open_layers i [] ret w = (ret, w)"
| "open_layers i (l # ls) ret w =
     (case Option.bind (w_fbs w i) (createCommunicationLayer (fst l)) of
        None \<Rightarrow> (e_InitInvalidId, w)
      | Some y \<Rightarrow>
          let r = open_layer i (length (stack_of i w)) (snd l) (upd_class i (\<lambda>c. c\<lparr>com_stack := com_stack c @ [y]\<rparr>) w)
          in if fst r \<noteq> e_InitOk then r else open_layers i ls (fst r) (snd r))"

definition layer_names_ok :: "(u8 list \<times> u8 list) list \<Rightarrow> bool" where
  "layer_names_ok ls \<longleftrightarrow> (\<forall>l \<in> set ls. 91 \<notin> set (fst l) \<and> 93 \<notin> set (snd l))"

lemma extract_layer:
  assumes "91 \<notin> set (fst l)" and "93 \<notin> set (snd l)"
  shows "extractLayerIdAndParams (layer_text l @ s) = (fst l, snd l, Some (drop 1 s))"
proof -
  have "takeWhile (\<lambda>c. c \<noteq> 91) (fst l) = fst l" "takeWhile (\<lambda>c. c \<noteq> 93) (snd l) = snd l"
    "dropWhile (\<lambda>c. c \<noteq> 91) (fst l) = []" "dropWhile (\<lambda>c. c \<noteq> 93) (snd l) = []"
    using assms by (auto simp: takeWhile_eq_all_conv dropWhile_eq_Nil_conv)
  moreover have "\<forall>x \<in> set (fst l). x \<noteq> 91" "\<forall>x \<in> set (snd l). x \<noteq> 93"
    using assms by auto
  ultimately show ?thesis
    by (simp add: extractLayerIdAndParams_def layer_text_def takeWhile_append2 dropWhile_append2 Let_def)
qed

lemma id_text_Cons: "id_text (l # ls) = layer_text l @ (if ls = [] then [] else 46 # id_text ls)"
  by (cases ls) simp_all

text \<open>
  C27. An ID that is written as layers with parameters is taken apart into exactly these layers: they are
  created and opened in the order of the ID, the first one on top, up to the first that is not known or
  cannot be opened.
\<close>

theorem id_opens_layers:
  assumes "layer_names_ok ls"
  shows "createComstack i (id_text ls) ret w = open_layers i ls ret w"
  using assms
proof (induction ls arbitrary: ret w)
  case Nil
  then show ?case by (simp add: createComstack.simps)
next
  case (Cons l ls)
  have "extractLayerIdAndParams (id_text (l # ls)) = (fst l, snd l, Some (id_text ls))"
    using Cons.prems by (cases ls) (auto simp: id_text_Cons layer_names_ok_def extract_layer extract_layer [where s = "[]", simplified] simp del: id_text.simps(3))
  moreover have "id_text (l # ls) \<noteq> []"
    by (simp add: id_text_Cons layer_text_def)
  moreover have "createComstack i (id_text ls) r v = open_layers i ls r v" for r v
    using Cons by (simp add: layer_names_ok_def)
  ultimately show ?case
    by (subst createComstack.simps) (simp add: Let_def split: option.split)
qed

section \<open>Error paths\<close>

text \<open>
  C38. The interrupt queue is not cleared when a connection is closed: an interrupt that is still queued
  when INIT with QI = FALSE is executed makes the next external event work on a deleted layer.
\<close>

theorem closing_leaves_dangling_interrupt:
  assumes "cls i w = Some c" and "com_stack c \<noteq> []" and "m_apoInterruptQueue c = (com_gen c, k) # qs"
    and "\<not> op_bool (DI i 0 w)"
  shows "\<exists>w1. exec_CCommFB i 0 w = Some w1 \<and> exec_CCommFB i cg_nExternalEventID w1 = None"
proof -
  have masks: "masks_terminated e_InitTerminated"
    by (simp add: masks_terminated_def com_num_def bit_iff_odd)
  let ?w = "comm_respond i e_InitTerminated (closeConnection i w)"
  have stack: "stack_of i w \<noteq> []"
    using assms by (simp add: stack_of_cls)
  then have closed: "cls i (closeConnection i w) = Some (c\<lparr>com_stack := [], com_gen := com_gen c + 1\<rparr>)"
    using assms by (simp add: closeConnection_cls)
  then have "stack_of i (closeConnection i w) = []"
    by (simp add: stack_of_cls)
  then have cl: "cls i ?w = Some (c\<lparr>com_stack := [], com_gen := com_gen c + 1\<rparr>)"
    using closed by (simp add: comm_respond_def masks Let_def closeConnection_closed)
  then obtain b where b: "w_fbs ?w i = Some b" "fb_class b = c\<lparr>com_stack := [], com_gen := com_gen c + 1\<rparr>"
    by (auto simp: cls_def)
  have "receiveData i ?w = None"
    using assms(3) b cl by (simp add: receiveData_def live_layer_cls)
  then show ?thesis
    using assms(4) by (simp add: exec_CCommFB_def cg_nExternalEventID_def)
qed

text \<open>
  A server never answers what the mask of \<open>e_Terminated\<close> matches: neither an INIT with QI = FALSE, nor
  a response before it was initialised, although NO_SOCKET is another number.
\<close>

theorem server_is_silent:
  assumes "cls i w = Some c" and "m_eCommServiceType c = e_Server"
  shows "(\<not> op_bool (DI i 0 w) \<longrightarrow> exec_CCommFB i 0 w = Some (closeConnection i w)) \<and>
    (op_bool (DI i 0 w) \<and> com_stack c = [] \<longrightarrow> exec_CCommFB i 1 w = Some w)"
proof -
  have masks: "masks_terminated e_InitTerminated" "masks_terminated e_ProcessDataNoSocket"
    by (simp_all add: masks_terminated_def com_num_def bit_iff_odd)
  have svc: "service_of i w = e_Server" "service_of i (closeConnection i w) = e_Server"
    using assms by (simp_all add: service_of_cls closeConnection_cls)
  obtain b where "w_fbs w i = Some b" "fb_class b = c"
    using assms(1) by (auto simp: cls_def)
  then show ?thesis
    using assms(2) by (simp add: exec_CCommFB_def comm_sendData_def comm_respond_def masks svc Let_def)
qed

section \<open>Local publications\<close>

text \<open>What a publication makes of a subscriber.\<close>

definition received_local :: "platform \<Rightarrow> iec_any list \<Rightarrow> nat \<Rightarrow> comm_class fb \<Rightarrow> comm_class fb" where
  "received_local P sds k b =
     (putRDs (copy_values P sds (getRDs b)) b)\<lparr>fb_class := interruptCommFB k (fb_class b)\<rparr>"

lemma startEventChain_frame [simp]:
  "w_fbs (startEventChain x w) = w_fbs w" "w_platform (startEventChain x w) = w_platform w"
  "w_com (startEventChain x w) = w_com w" "w_timer (startEventChain x w) = w_timer w"
  "mEventList (startEventChain x w) = mEventList w"
  "mExternalEventList (startEventChain x w) = ring_push x (mExternalEventList w)"
  by (simp_all add: startEventChain_def resumeSelfSuspend_def)

lemma setRDs_simps [simp]:
  "w_fbs (setRDs sds l w) j
    = (if j = fst l then map_option (received_local (w_platform w) sds (snd l)) (w_fbs w j) else w_fbs w j)"
  "w_platform (setRDs sds l w) = w_platform w" "w_com (setRDs sds l w) = w_com w"
  "mEventList (setRDs sds l w) = mEventList w"
  "mExternalEventList (setRDs sds l w) = ring_push (external_event (fst l)) (mExternalEventList w)"
  by (simp_all add: setRDs_def received_local_def [abs_def])

lemma publish_all_frame [simp]:
  "w_platform (fold (setRDs sds) ls w) = w_platform w"
  "mEventList (fold (setRDs sds) ls w) = mEventList w"
  "mExternalEventList (fold (setRDs sds) ls w) = fold ring_push (map (external_event \<circ> fst) ls) (mExternalEventList w)"
  by (induction ls arbitrary: w) simp_all

lemma publish_all:
  "distinct (map fst ls) \<Longrightarrow>
   w_fbs (fold (setRDs sds) ls w) j
    = (case map_of ls j of None \<Rightarrow> w_fbs w j | Some k \<Rightarrow> map_option (received_local (w_platform w) sds k) (w_fbs w j))"
proof (induction ls arbitrary: w)
  case (Cons l ls)
  then have "map_of ls (fst l) = None" by (simp add: map_of_eq_None_iff)
  with Cons show ?case by (cases l) (auto split: option.split)
qed simp

lemma masks_ok [simp]:
  "\<not> masks_terminated e_ProcessDataOk" "\<not> masks_INIT e_ProcessDataOk" "\<not> masks_negative e_ProcessDataOk"
  "com_num e_ProcessDataOk = 32" "com_num e_Nothing = 0" "\<not> masks_terminated e_Nothing"
  "max e_Nothing r = r"
  by (simp_all add: masks_terminated_def masks_INIT_def masks_negative_def com_num_def bit_iff_odd max_def less_eq_EComResponse_def)

lemma respond_ok:
  "comm_respond i e_ProcessDataOk w
    = sendOutputEvent i 1 (upd_DO i 0 (set_bool True) (upd_DO i 1 (set_text (ascii ''OK'')) w))"
  by (simp add: comm_respond_def scm_sResponseTexts_def Let_def)

lemma respond_nothing [simp]: "comm_respond i e_Nothing w = w"
  by (simp add: comm_respond_def Let_def)


lemma length_copy_values [simp]: "length (copy_values P ss rs) = length rs"
  by (induction P ss rs rule: copy_values.induct) auto

lemma getRDs_putRDs: "length xs = length (getRDs b) \<Longrightarrow> getRDs (putRDs xs b) = xs"
proof -
  assume len: "length xs = length (getRDs b)"
  have "map dp_val (map2 (\<lambda>d x. d\<lparr>dp_val := x\<rparr>) (drop 2 (m_aoDOs b)) xs) = xs"
    using len by (intro nth_equalityI) (auto simp: getRDs_def)
  then show ?thesis
    using len by (simp add: getRDs_def putRDs_def min_def) (cases "length (m_aoDOs b) \<le> 2"; simp)
qed

lemma getRDs_class [simp]: "getRDs (b\<lparr>fb_class := c\<rparr>) = getRDs b"
  by (simp add: getRDs_def)

lemma received_local_simps:
  "getRDs (received_local P sds k b) = copy_values P sds (getRDs b)"
  "fb_class (received_local P sds k b) = interruptCommFB k (fb_class b)"
  by (simp_all add: received_local_def getRDs_putRDs)

lemma process_local:
  assumes "cls j w = Some c" and "com_stack c = [L_loc g]" and "\<forall>q \<in> set qs. q = (com_gen c, 0)"
  shows "process_all j qs r w = Some (if qs = [] then r else max r e_ProcessDataOk, w)"
  using assms(3)
proof (induction qs arbitrary: r)
  case (Cons q qs)
  have "processInterrupt j 0 w = Some (e_ProcessDataOk, w)" "live_layer j (com_gen c, 0) w"
    using assms by (simp_all add: processInterrupt_def stack_of_cls live_layer_cls)
  then show ?case
    using Cons by (auto simp: max.assoc)
qed simp

text \<open>Publications that arrive before the event chain of the subscriber runs.\<close>

lemma received_fold:
  "w_fbs (fold (\<lambda>sds. setRDs sds (j, k)) sdss w) j
    = map_option (fold (\<lambda>sds. received_local (w_platform w) sds k) sdss) (w_fbs w j)"
  by (induction sdss arbitrary: w) (simp_all add: option.map_comp o_def option.map_id)

lemma received_fold_RDs:
  "getRDs (fold (\<lambda>sds. received_local P sds k) sdss b) = fold (copy_values P) sdss (getRDs b)"
  by (induction sdss arbitrary: b) (simp_all add: received_local_simps)

lemma received_fold_class:
  "fb_class (fold (\<lambda>sds. received_local P sds k) sdss b) = (interruptCommFB k ^^ length sdss) (fb_class b)"
  by (induction sdss arbitrary: b) (simp_all add: received_local_simps funpow_swap1)

lemma interrupts:
  "(interruptCommFB k ^^ m) c
    = c\<lparr>m_apoInterruptQueue := m_apoInterruptQueue c @
        replicate (min m (cg_unCommunicationInterruptQueueSize - length (m_apoInterruptQueue c))) (com_gen c, k)\<rparr>"
proof (induction m)
  case (Suc m)
  show ?case
    unfolding funpow.simps o_apply Suc
    by (simp add: interruptCommFB_def min_def replicate_append_same)
qed simp

lemma upd_fb_same: "(\<And>b. w_fbs w i = Some b \<Longrightarrow> f b = b) \<Longrightarrow> upd_fb i f w = w"
  by (auto simp: upd_fb_def fun_upd_idem split: option.split)

lemma receive_idle:
  assumes "cls j w = Some c" and "m_apoInterruptQueue c = []"
  shows "exec_CCommFB j cg_nExternalEventID w = Some w"
proof -
  obtain b where b: "w_fbs w j = Some b" "fb_class b = c"
    using assms(1) by (auto simp: cls_def)
  have "upd_class j (\<lambda>c. c\<lparr>m_apoInterruptQueue := drop 0 (m_apoInterruptQueue c)\<rparr>) w = w"
    by (auto simp: upd_class_def intro: upd_fb_same)
  then have "receiveData j w = Some (e_Nothing, w)"
    using b assms(2) by (simp add: receiveData_def)
  then show ?thesis
    by (simp add: exec_CCommFB_def cg_nExternalEventID_def)
qed

text \<open>
  Publications that reach a subscriber before its event chain runs are indicated once, with the values
  of all of them copied in their order, so that the last one is seen; the external events of the others then change
  nothing. This holds for any number of publications, also when the queue has overflowed.
\<close>

theorem publications_coalesce:
  assumes "w_fbs w j = Some b" and "com_stack (fb_class b) = [L_loc (Some n)]"
    and "m_apoInterruptQueue (fb_class b) = []" and "sdss \<noteq> []"
  shows "\<exists>v b1. exec_CCommFB j cg_nExternalEventID (fold (\<lambda>sds. setRDs sds (j, 0)) sdss w) = Some (sendOutputEvent j 1 v) \<and>
      w_fbs v j = Some b1 \<and> getRDs b1 = fold (copy_values (w_platform w)) sdss (getRDs b) \<and>
      exec_CCommFB j cg_nExternalEventID (sendOutputEvent j 1 v) = Some (sendOutputEvent j 1 v)"
proof -
  let ?c = "fb_class b" and ?w = "fold (\<lambda>sds. setRDs sds (j, 0)) sdss w"
  define b0 where "b0 = fold (\<lambda>sds. received_local (w_platform w) sds 0) sdss b"
  define q where "q = replicate (min (length sdss) cg_unCommunicationInterruptQueueSize) (com_gen ?c, 0 :: nat)"
  have w: "w_fbs ?w j = Some b0"
    using assms(1) by (simp add: received_fold b0_def)
  have c: "fb_class b0 = ?c\<lparr>m_apoInterruptQueue := q\<rparr>"
    using assms(3) by (simp add: b0_def received_fold_class interrupts q_def)
  then have cl: "cls j ?w = Some (?c\<lparr>m_apoInterruptQueue := q\<rparr>)"
    using w by (simp add: cls_def)
  have "q \<noteq> []"
    using assms(4) by (simp add: q_def cg_unCommunicationInterruptQueueSize_def)
  then have "process_all j q e_Nothing ?w = Some (e_ProcessDataOk, ?w)"
    using process_local [OF cl, of "Some n" q] assms(2) by (simp add: q_def)
  let ?u = "upd_class j (\<lambda>c. c\<lparr>m_apoInterruptQueue := drop (length q) (m_apoInterruptQueue c)\<rparr>) ?w"
  have "receiveData j ?w = Some (e_ProcessDataOk, ?u)"
    using w c \<open>process_all j q e_Nothing ?w = _\<close> by (simp add: receiveData_def)
  then have exec: "exec_CCommFB j cg_nExternalEventID ?w
      = Some (sendOutputEvent j 1 (upd_DO j 0 (set_bool True) (upd_DO j 1 (set_text (ascii ''OK'')) ?u)))"
    by (simp add: exec_CCommFB_def respond_ok cg_nExternalEventID_def)
  let ?v = "upd_DO j 0 (set_bool True) (upd_DO j 1 (set_text (ascii ''OK'')) ?u)"
  have "cls j (sendOutputEvent j 1 ?v) = Some (?c\<lparr>m_apoInterruptQueue := []\<rparr>)"
    by (simp add: cl)
  then have again: "exec_CCommFB j cg_nExternalEventID (sendOutputEvent j 1 ?v) = Some (sendOutputEvent j 1 ?v)"
    by (rule receive_idle) simp
  have "\<exists>b1. w_fbs ?v j = Some b1 \<and> getRDs b1 = getRDs b0"
    using w by (simp add: upd_DO_def upd_class_def getRDs_def)
  then show ?thesis
    using exec again by (auto simp: b0_def received_fold_RDs)
qed

section \<open>A server that changes its client\<close>

lemma ask_simps:
  "net_answers (w_net (w_com w)) = a # as \<Longrightarrow> fst (ask c w) = a"
  "net_answers (w_net (w_com w)) = a # as \<Longrightarrow> net_answers (w_net (w_com (snd (ask c w)))) = as"
  by (simp_all add: ask_def sock_ask_def upd_com_def Let_def)

lemma answers_frame [simp]:
  "w_net (w_com (upd_class i f w)) = w_net (w_com w)"
  "w_net (w_com (set_layer i k l w)) = w_net (w_com w)"
  "w_net (addComCallback h x e) = w_net e" "w_net (removeComCallback h e) = w_net e"
  by (simp_all add: upd_class_def set_layer_def addComCallback_def removeComCallback_def)

definition server_stack :: "nat \<Rightarrow> asn1_layer \<Rightarrow> ip_layer \<Rightarrow> com_rt \<Rightarrow> bool" where
  "server_stack i A p w \<longleftrightarrow> service_of i w = e_Server \<and> stack_of i w = [L_fbdk A, L_ip p]"

lemma server_stack_upd [simp]:
  "server_stack i A p w \<Longrightarrow> server_stack i A p' (set_layer i 1 (L_ip p') w)"
  "server_stack i A p (upd_class i (interruptCommFB k) w) = server_stack i A p w"
  "server_stack i A p (upd_com f w) = server_stack i A p w"
  "server_stack i A p (snd (ask c w)) = server_stack i A p w"
  "server_stack i A p (closeSocket h w) = server_stack i A p w"
  by (auto simp: server_stack_def stack_of_cls service_of_cls interruptCommFB_def split: option.splits)

lemma server_receives:
  assumes "server_stack i A p w" and "m_eConnectionState p = e_Connected" and "h = m_nSocketID p" and "h \<noteq> - 1"
    and "net_answers (w_net (w_com w)) = (m, bs) # as" and "0 < m"
    and "length (m_acRecvBuffer p) + length bs < cg_unIPLayerRecvBufferSize"
  shows "\<exists>w1. ip_recvData i 1 p h w = Some (e_ProcessDataOk, w1) \<and>
    server_stack i A (p\<lparr>m_eInterruptResp := e_ProcessDataOk, m_acRecvBuffer := m_acRecvBuffer p @ bs\<rparr>) w1 \<and>
    net_answers (w_net (w_com w1)) = as"
proof -
  let ?p0 = "p\<lparr>m_eInterruptResp := e_Nothing\<rparr>"
    and ?p1 = "p\<lparr>m_eInterruptResp := e_ProcessDataOk, m_acRecvBuffer := m_acRecvBuffer p @ bs\<rparr>"
  define c where "c = receiveDataFromTCP h (cg_unIPLayerRecvBufferSize - length (m_acRecvBuffer p))"
  define w1 where "w1 = snd (ask c w)"
  have a: "ask c w = ((m, bs), w1)"
    using ask_simps(1) [OF assms(5), of c] by (metis prod.collapse w1_def)
  have svc: "service_of i w = e_Server"
    using assms(1) by (simp add: server_stack_def)
  have "handledConnectedDataRecv i 1 ?p0 w
      = Some (e_ProcessDataOk, upd_class i (interruptCommFB 1) (set_layer i 1 (L_ip ?p1) w1))"
    using assms(3,4,6,7) a svc
    by (simp add: handledConnectedDataRecv_def c_def scm_nInvalidSocketDescriptor_def)
  then have "ip_recvData i 1 p h w
      = Some (e_ProcessDataOk, upd_class i (interruptCommFB 1) (set_layer i 1 (L_ip ?p1) w1))"
    using assms(2,3) by (simp add: ip_recvData_def)
  moreover have "server_stack i A ?p1 (upd_class i (interruptCommFB 1) (set_layer i 1 (L_ip ?p1) w1))"
    using assms(1) server_stack_upd(1) [of i A p w1 ?p1] by (simp add: w1_def)
  ultimately show ?thesis
    using ask_simps(2) [OF assms(5), of c] by (simp add: w1_def)
qed

lemma server_loses_client:
  assumes "server_stack i A p w" and "m_eConnectionState p = e_Connected" and "h = m_nSocketID p" and "h \<noteq> - 1"
    and "net_answers (w_net (w_com w)) = (0, bs) # x # as"
    and "length (m_acRecvBuffer p) < cg_unIPLayerRecvBufferSize"
  shows "\<exists>w1. ip_recvData i 1 p h w = Some (e_InitTerminated, w1) \<and>
    server_stack i A (p\<lparr>m_eInterruptResp := e_InitTerminated, m_nSocketID := - 1, m_eConnectionState := e_Listening\<rparr>) w1 \<and>
    net_answers (w_net (w_com w1)) = as"
proof -
  let ?p0 = "p\<lparr>m_eInterruptResp := e_Nothing\<rparr>"
    and ?p1 = "p\<lparr>m_eInterruptResp := e_InitTerminated, m_nSocketID := - 1, m_eConnectionState := e_Listening\<rparr>"
  define c where "c = receiveDataFromTCP h (cg_unIPLayerRecvBufferSize - length (m_acRecvBuffer p))"
  define w1 where "w1 = snd (ask c w)"
  let ?w2 = "upd_class i (interruptCommFB 1) (set_layer i 1 (L_ip ?p1) (closeSocket h w1))"
  have a: "ask c w = ((0, bs), w1)"
    using ask_simps(1) [OF assms(5), of c] by (metis prod.collapse w1_def)
  have rest: "net_answers (w_net (w_com w1)) = x # as"
    using ask_simps(2) [OF assms(5), of c] by (simp add: w1_def)
  have svc: "service_of i w = e_Server"
    using assms(1) by (simp add: server_stack_def)
  have "handledConnectedDataRecv i 1 ?p0 w = Some (e_InitTerminated, ?w2)"
    using assms(3,4,6) a svc
    by (simp add: handledConnectedDataRecv_def c_def scm_nInvalidSocketDescriptor_def)
  then have "ip_recvData i 1 p h w = Some (e_InitTerminated, ?w2)"
    using assms(2,3) by (simp add: ip_recvData_def)
  moreover have "server_stack i A ?p1 ?w2"
    using assms(1) server_stack_upd(1) [of i A p "closeSocket h w1" ?p1] by (simp add: w1_def)
  moreover have "net_answers (w_net (w_com ?w2)) = as"
    using assms(4) rest by (simp add: closeSocket_def scm_nInvalidSocketDescriptor_def ask_simps)
  ultimately show ?thesis by blast
qed

lemma server_accepts:
  assumes "server_stack i A p w" and "m_eConnectionState p = e_Listening" and "h \<noteq> - 1"
    and "net_answers (w_net (w_com w)) = (h, bs) # as"
  shows "\<exists>w1. ip_recvData i 1 p l w = Some (e_Nothing, w1) \<and>
    server_stack i A (p\<lparr>m_eInterruptResp := e_Nothing, m_nSocketID := h, m_eConnectionState := e_Connected\<rparr>) w1 \<and>
    net_answers (w_net (w_com w1)) = as"
proof -
  let ?p1 = "p\<lparr>m_eInterruptResp := e_Nothing, m_nSocketID := h, m_eConnectionState := e_Connected\<rparr>"
  define c where "c = acceptTCPConnection (m_nListeningID p)"
  define w1 where "w1 = snd (ask c w)"
  let ?w2 = "set_layer i 1 (L_ip ?p1) (upd_com (addComCallback h (i, 1)) w1)"
  have a: "ask c w = ((h, bs), w1)"
    using ask_simps(1) [OF assms(4), of c] by (metis prod.collapse w1_def)
  have "ip_recvData i 1 p l w = Some (e_Nothing, ?w2)"
    using assms(2,3) a by (simp add: ip_recvData_def c_def scm_nInvalidSocketDescriptor_def)
  moreover have "server_stack i A ?p1 ?w2"
    using assms(1) server_stack_upd(1) [of i A p "upd_com (addComCallback h (i, 1)) w1" ?p1] by (simp add: w1_def)
  ultimately show ?thesis
    using ask_simps(2) [OF assms(4), of c] by (simp add: w1_def)
qed

text \<open>Turns of the socket thread for the layer below the top of a block, one for each socket with data.\<close>

fun ip_turns :: "nat \<Rightarrow> int list \<Rightarrow> com_rt \<Rightarrow> com_rt option" where
  "ip_turns i [] w = Some w"
| "ip_turns i (h # hs) w =
     (case stack_of i w ! 1 of
        L_ip p \<Rightarrow> Option.bind (ip_recvData i 1 p h w) (\<lambda>r. ip_turns i hs (snd r))
      | _ \<Rightarrow> None)"

lemma ip_turns_step:
  "server_stack i A p w \<Longrightarrow> ip_recvData i 1 p h w = Some (r, w1) \<Longrightarrow> ip_turns i (h # hs) w = ip_turns i hs w1"
  by (simp add: server_stack_def)

text \<open>
  When a client sends data and closes the connection before the event chain of the server runs, the data
  is not handed to the block, but stays in the buffer, in front of what the next client sends.
\<close>

theorem old_data_prefixes_next_client:
  assumes "server_stack i A p w" and "m_eConnectionState p = e_Connected" and "m_acRecvBuffer p = []"
    and "m_nSocketID p = h" and "h \<noteq> - 1" and "h2 \<noteq> - 1" and "0 < m" and "0 < m2"
    and "net_answers (w_net (w_com w)) = [(m, bs), (0, []), (0, []), (h2, []), (m2, bs2)]"
    and "length bs + length bs2 < cg_unIPLayerRecvBufferSize"
  shows "\<exists>w1 w2 p2. ip_turns i [h, h] w = Some w1 \<and> processInterrupt i 1 w1 = Some (e_InitTerminated, w1) \<and>
    ip_turns i [l, h2] w1 = Some w2 \<and> server_stack i A p2 w2 \<and>
    m_acRecvBuffer p2 = bs @ bs2 \<and> m_eInterruptResp p2 = e_ProcessDataOk"
proof -
  define pa where "pa = p\<lparr>m_eInterruptResp := e_ProcessDataOk, m_acRecvBuffer := bs\<rparr>"
  define pb where "pb = pa\<lparr>m_eInterruptResp := e_InitTerminated, m_nSocketID := - 1, m_eConnectionState := e_Listening\<rparr>"
  define pc where "pc = pb\<lparr>m_eInterruptResp := e_Nothing, m_nSocketID := h2, m_eConnectionState := e_Connected\<rparr>"
  obtain wa where a: "ip_recvData i 1 p h w = Some (e_ProcessDataOk, wa)" "server_stack i A pa wa"
      "net_answers (w_net (w_com wa)) = [(0, []), (0, []), (h2, []), (m2, bs2)]"
    using server_receives [OF assms(1,2) assms(4) [symmetric] assms(5) assms(9) assms(7)] assms(3,10)
    by (auto simp: pa_def)
  obtain wb where b: "ip_recvData i 1 pa h wa = Some (e_InitTerminated, wb)" "server_stack i A pb wb"
      "net_answers (w_net (w_com wb)) = [(h2, []), (m2, bs2)]"
    using server_loses_client [OF a(2) _ _ assms(5) a(3)] assms(2,4,10) by (auto simp: pa_def pb_def)
  obtain wc where c: "ip_recvData i 1 pb l wb = Some (e_Nothing, wc)" "server_stack i A pc wc"
      "net_answers (w_net (w_com wc)) = [(m2, bs2)]"
    using server_accepts [OF b(2) _ assms(6) b(3), of l] by (auto simp: pb_def pc_def)
  have pc: "m_eConnectionState pc = e_Connected" "m_nSocketID pc = h2" "m_acRecvBuffer pc = bs"
    by (simp_all add: pa_def pb_def pc_def)
  have room: "length (m_acRecvBuffer pc) + length bs2 < cg_unIPLayerRecvBufferSize"
    using assms(10) pc by simp
  obtain wd where d: "ip_recvData i 1 pc h2 wc = Some (e_ProcessDataOk, wd)"
      "server_stack i A (pc\<lparr>m_eInterruptResp := e_ProcessDataOk, m_acRecvBuffer := m_acRecvBuffer pc @ bs2\<rparr>) wd"
    using server_receives [OF c(2) pc(1) pc(2) [symmetric] assms(6) c(3) assms(8) room] by blast
  have "processInterrupt i 1 wb = Some (e_InitTerminated, wb)"
    using b(2) by (simp add: server_stack_def processInterrupt_def ip_processInterrupt_def pb_def)
  moreover have "ip_turns i [h, h] w = Some wb"
    using ip_turns_step [OF assms(1) a(1)] ip_turns_step [OF a(2) b(1)] by simp
  moreover have "ip_turns i [l, h2] wb = Some wd"
    using ip_turns_step [OF b(2) c(1)] ip_turns_step [OF c(2) d(1)] by simp
  ultimately show ?thesis
    using d(2) pc(3) by (intro exI [of _ wb] exI [of _ wd] exI conjI) auto
qed

section \<open>Examples\<close>

text \<open>A publisher with two subscribers of the group ''g'', and a server with a client on socket 5.\<close>

definition com_block :: "EComServiceType \<Rightarrow> layer_state list \<Rightarrow> (nat \<times> nat) list \<Rightarrow> u64 \<Rightarrow> comm_class fb" where
  "com_block svc st q qi =
     \<lparr>fb_spec = \<lparr>m_aunEINames = [''INIT'', ''REQ''], m_anEIWith = [0, 1, 255, 0, 1, 2, 255], m_anEIWithIndexes = Some [0, 3],
        m_aunEONames = [''INITO'', ''CNF''], m_anEOWith = [0, 1, 255, 0, 1, 2, 255], m_anEOWithIndexes = Some [0, 3],
        m_aunDINames = [''QI'', ''ID'', ''SD_1''], m_aunDIDataTypeNames = [DT ''BOOL'', DT ''WSTRING'', DT ''ANY''],
        m_aunDONames = [''QO'', ''STATUS'', ''RD_1''], m_aunDODataTypeNames = [DT ''BOOL'', DT ''WSTRING'', DT ''ANY''],
        m_pstAdapterInstanceDefinition = []\<rparr>,
      m_nFBInstanceName = ''COM'', m_enFBState = e_RUNNING, m_bDeletable = True,
      m_aoDIs = [\<lparr>dp_val = Elem e_BOOL qi, dp_forced = False\<rparr>, \<lparr>dp_val = WStr [], dp_forced = False\<rparr>,
        \<lparr>dp_val = Elem e_DINT 7, dp_forced = False\<rparr>],
      m_aoDOs = [\<lparr>dp_val = Elem e_BOOL 0, dp_forced = False\<rparr>, \<lparr>dp_val = WStr [], dp_forced = False\<rparr>,
        \<lparr>dp_val = Elem e_DINT 0, dp_forced = False\<rparr>],
      m_apoDIConns = [None, None, None], mEOConns = [[], []],
      mDOConns = [], m_apoAdapters = [], m_nEIMonitorCount = [monitor_init, monitor_init],
      m_nEOMonitorCount = [monitor_init, monitor_init], m_updated = False,
      fb_class = \<lparr>m_eCommServiceType = svc, com_local = False, com_stack = st, com_gen = 1, m_apoInterruptQueue = q\<rparr>\<rparr>"

definition com_ip :: ip_layer where
  "com_ip = \<lparr>m_nSocketID = 5, m_nListeningID = 4, m_eConnectionState = e_Connected, m_eInterruptResp = e_Nothing,
     m_acRecvBuffer = []\<rparr>"

definition com_world :: com_rt where
  "com_world =
     \<lparr>mEventList = ring_clear 4, mExternalEventList = ring_clear 4, mProcessingEvents = True,
      mSuspendSemaphore = 0, mAlive = True,
      w_fbs = [1 \<mapsto> com_block e_Publisher [L_loc (Some ''g'')] [] 1,
        2 \<mapsto> com_block e_Subscriber [L_loc (Some ''g'')] [] 1,
        3 \<mapsto> com_block e_Subscriber [L_loc (Some ''g'')] [(1, 0)] 0,
        4 \<mapsto> com_block e_Server [L_fbdk (CFBDKASN1ComLayer [] []), L_ip com_ip] [] 1,
        5 \<mapsto> com_block e_Server [] [] 1],
      w_timer = two_timers, w_platform = plain_platform,
      w_com = \<lparr>w_net = \<lparr>net_calls = [], net_answers = [(2, [1, 2]), (0, []), (0, []), (6, []), (1, [3])]\<rparr>,
        w_groups = [\<lparr>m_nGroupName = ''g'', m_lPublList = [(1, 0)], m_lSublList = [(2, 0), (3, 0)]\<rparr>],
        m_lstConnectionsList = [(4, 4, 1), (5, 4, 1)]\<rparr>\<rparr>"

lemma com_world_fbs:
  "w_fbs com_world 1 = Some (com_block e_Publisher [L_loc (Some ''g'')] [] 1)"
  "w_fbs com_world 2 = Some (com_block e_Subscriber [L_loc (Some ''g'')] [] 1)"
  "w_fbs com_world 3 = Some (com_block e_Subscriber [L_loc (Some ''g'')] [(1, 0)] 0)"
  "w_fbs com_world 4 = Some (com_block e_Server [L_fbdk (CFBDKASN1ComLayer [] []), L_ip com_ip] [] 1)"
  "w_fbs com_world 5 = Some (com_block e_Server [] [] 1)"
  by (simp_all add: com_world_def)

lemma com_world_groups:
  "members (w_groups (w_com com_world)) n = (if n = ''g'' then ([(1, 0)], [(2, 0), (3, 0)]) else ([], []))"
  "groups_ok (w_groups (w_com com_world))"
  by (auto simp: com_world_def members_def groups_ok_def)

lemma com_block_simps [simp]:
  "getSDs (com_block svc st q qi) = [Elem e_DINT 7]" "getRDs (com_block svc st q qi) = [Elem e_DINT 0]"
  "fb_class (com_block svc st q qi)
    = \<lparr>m_eCommServiceType = svc, com_local = False, com_stack = st, com_gen = 1, m_apoInterruptQueue = q\<rparr>"
  by (simp_all add: com_block_def getSDs_def getRDs_def)

lemma com_world_QI:
  "op_bool (DI 1 0 com_world)" "\<not> op_bool (DI 3 0 com_world)" "op_bool (DI 5 0 com_world)"
  by (simp_all add: DI_def com_world_def com_block_def op_bool_def)

lemma com_set_value: "setValueSimple P (Elem e_DINT a) (Elem e_DINT b) = Elem e_DINT b"
  by (simp add: setValueSimple_def setLargestUInt_def getLargestUInt_def)

theorem id_opens_layers_witness:
  "layer_names_ok [(ascii ''fbdk'', []), (ascii ''ip'', ascii ''localhost:61499'')] \<and>
   createComstack 5 (ascii ''fbdk[].ip[localhost:61499]'') e_InitInvalidId com_world
     = open_layers 5 [(ascii ''fbdk'', []), (ascii ''ip'', ascii ''localhost:61499'')] e_InitInvalidId com_world"
proof -
  have ok: "layer_names_ok [(ascii ''fbdk'', []), (ascii ''ip'', ascii ''localhost:61499'')]"
    by (simp add: layer_names_ok_def ascii_def)
  then show ?thesis
    using id_opens_layers [OF ok, of 5 e_InitInvalidId com_world] by (simp add: layer_text_def ascii_def)
qed

theorem closing_leaves_dangling_interrupt_witness:
  "\<exists>w1. exec_CCommFB 3 0 com_world = Some w1 \<and> exec_CCommFB 3 cg_nExternalEventID w1 = None"
  by (rule closing_leaves_dangling_interrupt [of _ _ "fb_class (com_block e_Subscriber [L_loc (Some ''g'')] [(1, 0)] 0)" 0 "[]"])
     (simp_all add: cls_def com_world_fbs com_world_QI)

theorem server_is_silent_witness:
  "exec_CCommFB 5 1 com_world = Some com_world"
  using server_is_silent [of 5 com_world "fb_class (com_block e_Server [] [] 1)"] com_world_QI(3)
  by (simp add: cls_def com_world_fbs)


theorem publications_coalesce_witness:
  "\<exists>v b1. exec_CCommFB 2 cg_nExternalEventID (fold (\<lambda>sds. setRDs sds (2, 0)) [[Elem e_DINT 3], [Elem e_DINT 9]] com_world)
      = Some (sendOutputEvent 2 1 v) \<and> w_fbs v 2 = Some b1 \<and> getRDs b1 = [Elem e_DINT 9]"
proof -
  obtain v b1 where "exec_CCommFB 2 cg_nExternalEventID (fold (\<lambda>sds. setRDs sds (2, 0)) [[Elem e_DINT 3], [Elem e_DINT 9]] com_world)
      = Some (sendOutputEvent 2 1 v)" "w_fbs v 2 = Some b1"
      "getRDs b1 = fold (copy_values (w_platform com_world)) [[Elem e_DINT 3], [Elem e_DINT 9]] [Elem e_DINT 0]"
    using publications_coalesce [OF com_world_fbs(2), of "''g''" "[[Elem e_DINT 3], [Elem e_DINT 9]]"] by auto
  then show ?thesis
    by (intro exI [of _ v] exI [of _ b1]) (simp add: com_set_value)
qed

theorem old_data_prefixes_next_client_witness:
  "\<exists>w1 w2 p2. ip_turns 4 [5, 5] com_world = Some w1 \<and> ip_turns 4 [4, 6] w1 = Some w2 \<and>
    server_stack 4 (CFBDKASN1ComLayer [] []) p2 w2 \<and> m_acRecvBuffer p2 = [1, 2, 3]"
proof -
  have st: "server_stack 4 (CFBDKASN1ComLayer [] []) com_ip com_world"
    by (simp add: server_stack_def service_of_def stack_of_def com_world_fbs)
  have net: "net_answers (w_net (w_com com_world)) = [(2, [1, 2]), (0, []), (0, []), (6, []), (1, [3])]"
    by (simp add: com_world_def)
  show ?thesis
    using old_data_prefixes_next_client [OF st, of 5 6 2 1 "[1, 2]" "[3]" 4] net
    by (auto simp: com_ip_def cg_unIPLayerRecvBufferSize_def)
qed

lemma com_world_match: "groups_match com_world"
proof -
  have locs: "locs i com_world = (if i = 1 \<or> i = 2 \<or> i = 3 then [Some ''g''] else if i = 4 then [None, None] else [])" for i
    by (auto simp: locs_def stack_of_def com_world_def)
  have svc: "service_of 1 com_world = e_Publisher" "service_of 2 com_world = e_Subscriber" "service_of 3 com_world = e_Subscriber"
    by (simp_all add: service_of_def com_world_def)
  have "registers com_world n p l \<longleftrightarrow> n = ''g'' \<and> (if p then l = (1, 0) else l = (2, 0) \<or> l = (3, 0))" for n p l
    using svc by (cases l) (auto simp: registers_def locs less_Suc_eq split: if_splits)
  then show ?thesis
    by (auto simp: groups_match_def com_world_groups)
qed

theorem groups_stay_matched_witness:
  "groups_match (snd (comm_changeFBExecutionState cg_nMGM_CMD_Kill 2 com_world))"
  by (rule groups_stay_matched [of com_world]) (auto intro: com_step.command com_world_match)

end
