(* ===== verification/Net_FB.thy ===== *)
theory Net_FB
  imports Event_FBs FB_Container
begin

unbundle bit_operations_syntax

text \<open>
  Adapters and composite function blocks: \<^verbatim>\<open>src/src/core/adapter.{h,cpp}\<close>, \<^verbatim>\<open>adapterconn.cpp\<close>,
  \<^verbatim>\<open>cfb.{h,cpp}\<close>, \<^verbatim>\<open>if2indco.cpp\<close>, and the time-out blocks of \<^verbatim>\<open>src/src/stdfblib/events\<close>.

  All blocks, also those in a composite and the adapters, have a number of their own in the resource. What
  other classes do is the parameter \<open>inner\<close>. \<open>None\<close> stands for the use of a null pointer or of a block
  that has been deleted, and for a call that does not return.

  The connections from the interface of a composite to its blocks follow those of its outputs in its lists
  \<open>mEOConns\<close> and \<open>mDOConns\<close>; without an internal connection there are none. Two things share memory in
  the code: the value of such a data connection is the data input of the composite, and the data inputs
  of a connected adapter are the data outputs of its peer. Here they are copies, which
  \<open>refresh\<close> renews before anything reads them. ANY adapters, and data outputs of type ANY of a
  composite, are not modelled.
\<close>

section \<open>State\<close>

text \<open>An adapter. \<open>m_aoLocalDIs\<close> is its own memory for inputs while it uses that of its peer. A plug owns
  the adapter connection, which is known by its number; \<open>mSocket\<close> and \<open>ad_dests\<close> are parts of it.\<close>

record adapter_data =
  ad_type :: TStringId
  ad_isPlug :: bool
  m_nParentAdapterListEventID :: nat
  m_poPeer :: "nat option"
  m_aoLocalDIs :: "dpoint list"
  m_poAdapterConn :: "nat option"
  m_astEventEntry :: "conn_point option list"
  mSocket :: "nat option"
  ad_dests :: "conn_point list"

text \<open>The number of a block in a network is -1 for the composite itself, and marked for an adapter.\<close>

record SCFB_FBConnectionData =
  m_nSrcId :: TStringId
  m_nSrcFBNum :: int
  m_nDstId :: TStringId
  m_nDstFBNum :: int

record SCFB_FBFannedOutConnectionData =
  m_nConnectionNum :: nat
  fo_DstId :: TStringId
  fo_DstFBNum :: int

record SCFB_FBParameter =
  m_nFBNum :: nat
  m_nDINameID :: TStringId
  m_acParamValue :: "u8 list"

text \<open>The network of a composite type: names and types of the blocks, connections and parameters.\<close>

record SCFB_FBNData =
  m_pstFBInstances :: "(TStringId \<times> TStringId) list"
  m_pstEventConnections :: "SCFB_FBConnectionData list"
  m_pstFannedOutEventConnections :: "SCFB_FBFannedOutConnectionData list"
  m_pstDataConnections :: "SCFB_FBConnectionData list"
  m_pstFannedOutDataConnections :: "SCFB_FBFannedOutConnectionData list"
  m_pstParams :: "SCFB_FBParameter list"

record cfb_data =
  cm_cpoFBNData :: SCFB_FBNData
  m_apoInternalFBs :: "nat option list"
  m_apoIn2IfDConns :: "(nat \<times> nat) option list"

datatype 'c net_class = N_inner 'c | N_adapter adapter_data | N_composite cfb_data | N_TimeOut (to_bActive: bool)

type_synonym 'c net_world = "'c net_class world"
type_synonym 'c net_inner = "nat \<Rightarrow> nat \<Rightarrow> 'c net_class world \<Rightarrow> 'c net_class world option"

definition adapter_of :: "nat \<Rightarrow> 'c net_world \<Rightarrow> adapter_data option" where
  "adapter_of a w =
     (case w_fbs w a of None \<Rightarrow> None | Some b \<Rightarrow> (case fb_class b of N_adapter d \<Rightarrow> Some d | _ \<Rightarrow> None))"

definition upd_adapter :: "nat \<Rightarrow> (adapter_data \<Rightarrow> adapter_data) \<Rightarrow> 'c net_world \<Rightarrow> 'c net_world" where
  "upd_adapter a f =
     upd_fb a (\<lambda>b. case fb_class b of N_adapter d \<Rightarrow> b\<lparr>fb_class := N_adapter (f d)\<rparr> | _ \<Rightarrow> b)"

definition composite_of :: "nat \<Rightarrow> 'c net_world \<Rightarrow> cfb_data option" where
  "composite_of i w =
     (case w_fbs w i of None \<Rightarrow> None | Some b \<Rightarrow> (case fb_class b of N_composite c \<Rightarrow> Some c | _ \<Rightarrow> None))"

definition upd_composite :: "nat \<Rightarrow> (cfb_data \<Rightarrow> cfb_data) \<Rightarrow> 'c net_world \<Rightarrow> 'c net_world" where
  "upd_composite i f =
     upd_fb i (\<lambda>b. case fb_class b of N_composite c \<Rightarrow> b\<lparr>fb_class := N_composite (f c)\<rparr> | _ \<Rightarrow> b)"

section \<open>Shared memory\<close>

definition refresh_fb :: "'c net_world \<Rightarrow> 'c net_class fb \<Rightarrow> 'c net_class fb" where
  "refresh_fb w b =
     (case fb_class b of
        N_adapter d \<Rightarrow>
          (case Option.bind (m_poPeer d) (w_fbs w) of
             None \<Rightarrow> b
           | Some pb \<Rightarrow> b\<lparr>m_aoDIs := m_aoDOs pb\<rparr>)
      | N_composite c \<Rightarrow>
          b\<lparr>mDOConns := take (m_nNumDOs (fb_spec b)) (mDOConns b)
              @ map2 (\<lambda>con d. con\<lparr>m_poValue := Some (dp_val d)\<rparr>) (drop (m_nNumDOs (fb_spec b)) (mDOConns b)) (m_aoDIs b)\<rparr>
      | _ \<Rightarrow> b)"

definition refresh :: "'c net_world \<Rightarrow> 'c net_world" where
  "refresh w = w\<lparr>w_fbs := (\<lambda>i. map_option (refresh_fb w) (w_fbs w i))\<rparr>"

text \<open>What an adapter has written to its inputs is in the outputs of its peer.\<close>

definition share :: "nat \<Rightarrow> 'c net_world \<Rightarrow> 'c net_world" where
  "share a w =
     (case Option.bind (adapter_of a w) m_poPeer of
        None \<Rightarrow> w
      | Some p \<Rightarrow> upd_fb p (\<lambda>b. b\<lparr>m_aoDOs := (case w_fbs w a of None \<Rightarrow> m_aoDOs b | Some ab \<Rightarrow> m_aoDIs ab)\<rparr>) w)"

section \<open>Adapters\<close>

text \<open>The constructor; a plug and a socket of one type have different interfaces.\<close>

definition new_adapter ::
  "(TStringId \<times> iec_any) list \<Rightarrow> SFBInterfaceSpec \<Rightarrow> SFBInterfaceSpec \<Rightarrow> TStringId \<Rightarrow> TStringId \<Rightarrow> bool \<Rightarrow> 'c net_class fb option" where
  "new_adapter lib sock plug t n isPlug =
     (let s = (if isPlug then plug else sock)
      in new_FB lib s n
           (N_adapter \<lparr>ad_type = t, ad_isPlug = isPlug, m_nParentAdapterListEventID = 0, m_poPeer = None,
              m_aoLocalDIs = [], m_poAdapterConn = None, m_astEventEntry = replicate (m_nNumEOs s) None,
              mSocket = None, ad_dests = []\<rparr>))"

text \<open>\<open>setParentFB\<close>: the events that leave the adapter enter its parent as inputs of their own range of
  numbers; without a parent they go to the connections of the adapter. A plug gets a new connection.\<close>

definition setParentFB :: "nat option \<Rightarrow> nat \<Rightarrow> nat \<Rightarrow> 'c net_world \<Rightarrow> 'c net_world" where
  "setParentFB parent k a =
     upd_adapter a (\<lambda>d.
       let base = push_bit 8 (k + 1) mod 65536;
           d1 = d\<lparr>m_nParentAdapterListEventID := base,
                  m_astEventEntry := map (\<lambda>e. map_option (\<lambda>f. \<lparr>mFB = f, mPortId = base + e\<rparr>) parent)
                                       [0..<length (m_astEventEntry d)]\<rparr>
       in if ad_isPlug d then d1\<lparr>m_poAdapterConn := Some a, mSocket := None, ad_dests := []\<rparr> else d1)"

text \<open>\<open>CAdapter::connect\<close>, with the peer and the connection (the number of its plug).\<close>

definition adapter_connect :: "nat \<Rightarrow> nat \<Rightarrow> nat \<Rightarrow> 'c net_world \<Rightarrow> bool \<times> 'c net_world" where
  "adapter_connect a p con w =
     (case adapter_of a w of
        None \<Rightarrow> (False, w)
      | Some d \<Rightarrow>
          if m_poPeer d = None then
            (True,
             upd_fb a (\<lambda>b. b\<lparr>m_aoDIs := (case w_fbs w p of None \<Rightarrow> m_aoDIs b | Some pb \<Rightarrow> m_aoDOs pb),
                 fb_class := N_adapter (d\<lparr>m_poPeer := Some p, m_aoLocalDIs := m_aoDIs b, m_poAdapterConn := Some con\<rparr>)\<rparr>) w)
          else (False, w))"

definition adapter_disconnect :: "nat \<Rightarrow> nat option \<Rightarrow> 'c net_world \<Rightarrow> bool \<times> 'c net_world" where
  "adapter_disconnect a con w =
     (case adapter_of a w of
        None \<Rightarrow> (False, w)
      | Some d \<Rightarrow>
          if con \<noteq> None \<and> con \<noteq> m_poAdapterConn d then (False, w)
          else
            (True,
             upd_fb a (\<lambda>b. b\<lparr>m_aoDIs := (if m_poPeer d = None then m_aoDIs b else m_aoLocalDIs d),
                 fb_class := N_adapter (d\<lparr>m_poPeer := None,
                    m_poAdapterConn := (if ad_isPlug d then m_poAdapterConn d else None)\<rparr>)\<rparr>) w))"

definition isCompatible :: "adapter_data \<Rightarrow> adapter_data \<Rightarrow> bool" where
  "isCompatible d e \<longleftrightarrow>
     ad_type d = ad_type e \<or> (ad_type d = ''ANY_ADAPTER'') \<noteq> (ad_type e = ''ANY_ADAPTER'')"

text \<open>\<open>getAdapterPortId\<close>: the first adapter of the block with the name.\<close>

fun find_adapter :: "'c net_world \<Rightarrow> TStringId \<Rightarrow> nat option list \<Rightarrow> nat \<Rightarrow> (nat \<times> nat) option" where
  "find_adapter w n [] k = None"
| "find_adapter w n (a # as) k =
     (case a of
        None \<Rightarrow> find_adapter w n as (Suc k)
      | Some i \<Rightarrow> if fb_name w i = Some n then Some (k, i) else find_adapter w n as (Suc k))"

definition getAdapter :: "nat \<Rightarrow> TStringId \<Rightarrow> 'c net_world \<Rightarrow> (nat \<times> nat) option" where
  "getAdapter i n w = (case w_fbs w i of None \<Rightarrow> None | Some b \<Rightarrow> find_adapter w n (m_apoAdapters b) 0)"

text \<open>The operations of the adapter connection of a plug.\<close>

definition adapterconn_connect :: "nat \<Rightarrow> nat \<Rightarrow> TStringId \<Rightarrow> 'c net_world \<Rightarrow> EMGMResponse \<times> 'c net_world" where
  "adapterconn_connect plug i n w =
     (case (adapter_of plug w, getAdapter i n w) of
        (Some d, Some (k, s)) \<Rightarrow>
          if ad_dests d = [] then
            (case adapter_of s w of
               None \<Rightarrow> (e_INVALID_OBJECT, w)
             | Some e \<Rightarrow>
                 if \<not> ad_isPlug e \<and> isCompatible e d then
                   (let (ok1, w1) = adapter_connect plug s plug w;
                        (ok2, w2) = (if ok1 then adapter_connect s plug plug w1 else (False, w1))
                    in if ok1 \<and> ok2 then
                         (e_RDY, upd_adapter plug (\<lambda>d. d\<lparr>mSocket := Some s,
                            ad_dests := snd (addDestination \<lparr>mFB = i, mPortId = k\<rparr> (ad_dests d))\<rparr>) w2)
                       else (e_INVALID_OBJECT, snd (adapter_disconnect s None (snd (adapter_disconnect plug None w2)))))
                 else (e_INVALID_OBJECT, w))
          else (e_INVALID_STATE, w)
      | _ \<Rightarrow> (e_NO_SUCH_OBJECT, w))"

definition performDisconnect :: "nat \<Rightarrow> 'c net_world \<Rightarrow> 'c net_world" where
  "performDisconnect plug w =
     (let w1 = snd (adapter_disconnect plug (Some plug) w)
      in case Option.bind (adapter_of plug w1) mSocket of
           None \<Rightarrow> w1
         | Some s \<Rightarrow> upd_adapter plug (\<lambda>d. d\<lparr>mSocket := None\<rparr>) (snd (adapter_disconnect s (Some plug) w1)))"

definition adapterconn_disconnect :: "nat \<Rightarrow> nat \<Rightarrow> TStringId \<Rightarrow> 'c net_world \<Rightarrow> EMGMResponse \<times> 'c net_world" where
  "adapterconn_disconnect plug i n w =
     (case (adapter_of plug w, getAdapter i n w) of
        (Some d, Some (k, s)) \<Rightarrow>
          (let r = removeDestination \<lparr>mFB = i, mPortId = k\<rparr> (ad_dests d);
               w1 = upd_adapter plug (\<lambda>d. d\<lparr>ad_dests := snd r\<rparr>) w
           in (fst r, if fst r = e_RDY then performDisconnect plug w1 else w1))
      | _ \<Rightarrow> (e_NO_SUCH_OBJECT, w))"

text \<open>The destructor of an adapter: a plug takes its connection with it; a socket only tells the
  connection, not the plug.\<close>

definition delete_adapter :: "nat \<Rightarrow> 'c net_world \<Rightarrow> 'c net_world" where
  "delete_adapter a w =
     (case adapter_of a w of
        None \<Rightarrow> w
      | Some d \<Rightarrow>
          let w1 = (if ad_isPlug d then (if m_poAdapterConn d = Some a then performDisconnect a w else w)
                    else (case m_poAdapterConn d of None \<Rightarrow> w
                            | Some plug \<Rightarrow> upd_adapter plug (\<lambda>d. d\<lparr>mSocket := None\<rparr>) w))
          in w1\<lparr>w_fbs := (w_fbs w1)(a := None)\<rparr>)"

text \<open>\<open>executeEvent\<close> of an adapter: the event leaves the peer, for its parent or for its connections.\<close>

definition exec_adapter :: "'c net_inner" where
  "exec_adapter a e w =
     (case Option.bind (adapter_of a w) m_poPeer of
        None \<Rightarrow> Some w
      | Some p \<Rightarrow>
          (case adapter_of p w of
             None \<Rightarrow> None
           | Some dp \<Rightarrow>
               let w1 = share a w
               in Some (case m_astEventEntry dp ! e of
                     Some ev \<Rightarrow> addEventEntry ev w1
                   | None \<Rightarrow> refresh (sendOutputEvent p e w1))))"

definition adapter_receive :: "conn_point \<Rightarrow> 'c net_world \<Rightarrow> 'c net_world option" where
  "adapter_receive ev w = map_option (share (mFB ev)) (receiveInputEvent exec_adapter ev (refresh w))"

text \<open>\<open>sendAdapterEvent\<close> of \<open>CFunctionBlock\<close>.\<close>

definition sendAdapterEvent :: "nat \<Rightarrow> 'c net_inner" where
  "sendAdapterEvent i k e w =
     (case w_fbs w i of
        None \<Rightarrow> Some w
      | Some b \<Rightarrow>
          (case m_apoAdapters b ! k of
             None \<Rightarrow> Some w
           | Some a \<Rightarrow> adapter_receive \<lparr>mFB = a, mPortId = e\<rparr> w))"

end
