(* ===== verification/Composite_FB.thy ===== *)
theory Composite_FB
  imports Net_FB
begin

text \<open>
  Composite function blocks, \<^verbatim>\<open>src/src/core/cfb.cpp\<close>: how the network of a composite is created, how events
  and data pass its interface, and its execution state. \<open>n\<close> bounds the depth of composites in composites.
\<close>

section \<open>Numbers of blocks and ports\<close>

definition scm_nAdapterMarker :: int where
  "scm_nAdapterMarker = 0x10000"

definition scm_nAdapterFBRange :: int where
  "scm_nAdapterFBRange = 0xFFFF"

text \<open>Bit 8 marks the ports that lead from the network to the interface.\<close>

definition cgInternal2InterfaceMarker :: nat where
  "cgInternal2InterfaceMarker = 0x100"

definition cgInternal2InterfaceRemovalMask :: nat where
  "cgInternal2InterfaceRemovalMask = 0xFF"

definition getFunctionBlock :: "nat \<Rightarrow> int \<Rightarrow> 'c net_world \<Rightarrow> nat option" where
  "getFunctionBlock i num w =
     (case (w_fbs w i, composite_of i w) of
        (Some b, Some c) \<Rightarrow>
          if num = - 1 then Some i
          else if 0 \<le> num then
            (if scm_nAdapterMarker AND num = scm_nAdapterMarker then
               let k = nat (num AND scm_nAdapterFBRange)
               in if k < length (m_apoAdapters b) then m_apoAdapters b ! k else None
             else if nat num < length (m_pstFBInstances (cm_cpoFBNData c)) then m_apoInternalFBs c ! nat num
             else None)
          else None
      | _ \<Rightarrow> None)"

section \<open>Connecting\<close>

definition on_fb :: "'c world \<Rightarrow> nat \<Rightarrow> ('c fb \<Rightarrow> 'a) \<Rightarrow> 'a \<Rightarrow> 'a" where
  "on_fb w i f x = (case w_fbs w i of None \<Rightarrow> x | Some b \<Rightarrow> f b)"

text \<open>\<open>connectToCFBInterface\<close> of an event connection.\<close>

definition event_connectToCFBInterface :: "nat \<times> nat \<Rightarrow> nat \<Rightarrow> TStringId \<Rightarrow> 'c net_world \<Rightarrow> EMGMResponse \<times> 'c net_world" where
  "event_connectToCFBInterface sp i n w =
     (let p = on_fb w i (\<lambda>b. getPortId n (m_aunEONames (fb_spec b))) cg_nInvalidEventID
      in if p \<noteq> cg_nInvalidEventID then
           let r = addDestination \<lparr>mFB = i, mPortId = p OR cgInternal2InterfaceMarker\<rparr>
                     (on_fb w (fst sp) (\<lambda>b. mEOConns b ! snd sp) [])
           in (fst r, upd_eo_conn sp (\<lambda>_. snd r) w)
         else (e_NO_SUCH_OBJECT, w))"

text \<open>The connection of an event input of the interface, and of the output of an inner block. An unknown
  name gives a null pointer or an index out of range.\<close>

definition event_source :: "nat \<Rightarrow> nat \<Rightarrow> TStringId \<Rightarrow> 'c net_world \<Rightarrow> (nat \<times> nat) option" where
  "event_source i j n w =
     (case w_fbs w j of
        None \<Rightarrow> None
      | Some b \<Rightarrow>
          let s = fb_spec b; p = getPortId n (if j = i then m_aunEINames s else m_aunEONames s)
          in if p < (if j = i then m_nNumEIs s else m_nNumEOs s) then Some (j, if j = i then m_nNumEOs s + p else p)
             else None)"

definition establish_event :: "nat \<Rightarrow> nat \<times> nat \<Rightarrow> nat \<Rightarrow> TStringId \<Rightarrow> 'c net_world \<Rightarrow> 'c net_world" where
  "establish_event i sp j n w =
     snd (if j = i then event_connectToCFBInterface sp i n w else event_connect sp j n w)"

text \<open>\<open>connectDI\<close> of a composite. An input of type ANY takes the type of its source, and the
  inputs in the network that are connected to it follow.\<close>

fun net_connectDI :: "nat \<Rightarrow> nat \<Rightarrow> nat \<Rightarrow> (nat \<times> nat) option \<Rightarrow> 'c net_world \<Rightarrow> bool \<times> 'c net_world" where
  "net_connectDI n i p con w =
     (case (w_fbs w i, composite_of i w) of
        (Some b, Some c) \<Rightarrow>
          if p AND cgInternal2InterfaceMarker \<noteq> 0 then
            (let q = p AND cgInternal2InterfaceRemovalMask
             in if q < m_nNumDOs (fb_spec b)
                then (True, upd_composite i (\<lambda>c. c\<lparr>m_apoIn2IfDConns := (m_apoIn2IfDConns c)[q := con]\<rparr>) w)
                else (False, w))
          else if p < m_nNumDIs (fb_spec b) then
            (let r = connectDI i p con w;
                 sp = (i, m_nNumDOs (fb_spec b) + p);
                 w1 = upd_do_conn sp (\<lambda>d. d\<lparr>m_poValue := Some (DI i p (snd r))\<rparr>) (snd r)
             in if fst r \<and> getDataTypeID (dp_val (m_aoDIs b ! p)) = e_ANY \<and> con \<noteq> None \<and> conn_value w con \<noteq> None then
                  (True, case n of 0 \<Rightarrow> w1
                     | Suc k \<Rightarrow> fold (\<lambda>d v. snd (net_connectDI k (mFB d) (mPortId d) (Some sp) v))
                         (case do_conn w1 sp of None \<Rightarrow> [] | Some c \<Rightarrow> dc_dests c) w1)
                else r)
          else (False, w)
      | _ \<Rightarrow> connectDI i p con w)"

declare net_connectDI.simps [simp del]

definition net_data_connect :: "nat \<Rightarrow> nat \<times> nat \<Rightarrow> nat \<Rightarrow> TStringId \<Rightarrow> 'c net_world \<Rightarrow> EMGMResponse \<times> 'c net_world" where
  "net_data_connect n sp j nm w =
     (let p = on_fb w j (\<lambda>b. getPortId nm (m_aunDINames (fb_spec b))) cg_unInvalidPortId
      in if p \<noteq> cg_unInvalidPortId then establishDataConnection (net_connectDI n) sp j p (DI j p w) w
         else (e_NO_SUCH_OBJECT, w))"

definition data_connectToCFBInterface :: "nat \<Rightarrow> nat \<times> nat \<Rightarrow> nat \<Rightarrow> TStringId \<Rightarrow> 'c net_world \<Rightarrow> EMGMResponse \<times> 'c net_world" where
  "data_connectToCFBInterface n sp i nm w =
     (let p = on_fb w i (\<lambda>b. getPortId nm (m_aunDONames (fb_spec b))) cg_nInvalidEventID
      in if p \<noteq> cg_nInvalidEventID
         then establishDataConnection (net_connectDI n) sp i (p OR cgInternal2InterfaceMarker) (DO i p w) w
         else (e_NO_SUCH_OBJECT, w))"

definition data_source :: "nat \<Rightarrow> nat \<Rightarrow> TStringId \<Rightarrow> 'c net_world \<Rightarrow> (nat \<times> nat) option" where
  "data_source i j n w =
     (case w_fbs w j of
        None \<Rightarrow> None
      | Some b \<Rightarrow>
          let s = fb_spec b; p = getPortId n (if j = i then m_aunDINames s else m_aunDONames s)
          in if p < (if j = i then m_nNumDIs s else m_nNumDOs s) then Some (j, if j = i then m_nNumDOs s + p else p)
             else None)"

definition establish_data :: "nat \<Rightarrow> nat \<Rightarrow> nat \<times> nat \<Rightarrow> nat \<Rightarrow> TStringId \<Rightarrow> 'c net_world \<Rightarrow> 'c net_world" where
  "establish_data n i sp j nm w =
     snd (if j = i then data_connectToCFBInterface n sp i nm w else net_data_connect n sp j nm w)"

text \<open>
  The two loops of \<open>createEventConnections\<close> and of \<open>createDataConnections\<close>, with the functions that
  find the source and connect. The first keeps the connections it has made, for the second; a
  connection with a missing end is left out there.
\<close>

fun create_connections ::
  "(nat \<Rightarrow> TStringId \<Rightarrow> 'c net_world \<Rightarrow> (nat \<times> nat) option) \<Rightarrow> (nat \<times> nat \<Rightarrow> nat \<Rightarrow> TStringId \<Rightarrow> 'c net_world \<Rightarrow> 'c net_world) \<Rightarrow>
     nat \<Rightarrow> SCFB_FBConnectionData list \<Rightarrow> 'c net_world \<Rightarrow> ((nat \<times> nat) option list \<times> 'c net_world) option" where
  "create_connections src est i [] w = Some ([], w)"
| "create_connections src est i (c # cs) w =
     (case (getFunctionBlock i (m_nSrcFBNum c) w, getFunctionBlock i (m_nDstFBNum c) w) of
        (Some s, Some d) \<Rightarrow>
          (case src s (m_nSrcId c) w of
             None \<Rightarrow> None
           | Some sp \<Rightarrow>
               map_option (\<lambda>r. (Some sp # fst r, snd r)) (create_connections src est i cs (est sp d (m_nDstId c) w)))
      | _ \<Rightarrow> map_option (\<lambda>r. (None # fst r, snd r)) (create_connections src est i cs w))"

fun create_fanned_out ::
  "(nat \<times> nat \<Rightarrow> nat \<Rightarrow> TStringId \<Rightarrow> 'c net_world \<Rightarrow> 'c net_world) \<Rightarrow> nat \<Rightarrow> (nat \<times> nat) option list \<Rightarrow>
     SCFB_FBFannedOutConnectionData list \<Rightarrow> 'c net_world \<Rightarrow> 'c net_world option" where
  "create_fanned_out est i cons [] w = Some w"
| "create_fanned_out est i cons (f # fs) w =
     (case (if m_nConnectionNum f < length cons then cons ! m_nConnectionNum f else None,
            getFunctionBlock i (fo_DstFBNum f) w) of
        (Some sp, Some d) \<Rightarrow> create_fanned_out est i cons fs (est sp d (fo_DstId f) w)
      | _ \<Rightarrow> None)"

definition createEventConnections :: "nat \<Rightarrow> SCFB_FBNData \<Rightarrow> 'c net_world \<Rightarrow> 'c net_world option" where
  "createEventConnections i net w =
     (if m_pstEventConnections net = [] then Some w
      else
        let w1 = upd_fb i (\<lambda>b. b\<lparr>mEOConns := mEOConns b @ replicate (m_nNumEIs (fb_spec b)) []\<rparr>) w
        in case create_connections (event_source i) (establish_event i) i (m_pstEventConnections net) w1 of
             None \<Rightarrow> None
           | Some (cons, w2) \<Rightarrow> create_fanned_out (establish_event i) i cons (m_pstFannedOutEventConnections net) w2)"

definition prepareIf2InDataCons :: "nat \<Rightarrow> 'c net_world \<Rightarrow> 'c net_world" where
  "prepareIf2InDataCons i =
     upd_fb i (\<lambda>b. b\<lparr>mDOConns := mDOConns b @ map (\<lambda>d. \<lparr>dc_dests = [], m_poValue = Some (dp_val d),
                        mSpecialCastConnection = False\<rparr>) (m_aoDIs b)\<rparr>)"

definition createDataConnections :: "nat \<Rightarrow> nat \<Rightarrow> SCFB_FBNData \<Rightarrow> 'c net_world \<Rightarrow> 'c net_world option" where
  "createDataConnections n i net w =
     (if m_pstDataConnections net = [] then Some w
      else
        let w1 = upd_composite i (\<lambda>c. c\<lparr>m_apoIn2IfDConns := replicate (on_fb w i (\<lambda>b. m_nNumDOs (fb_spec b)) 0) None\<rparr>)
                   (prepareIf2InDataCons i w)
        in case create_connections (data_source i) (establish_data n i) i (m_pstDataConnections net) w1 of
             None \<Rightarrow> None
           | Some (cons, w2) \<Rightarrow> create_fanned_out (establish_data n i) i cons (m_pstFannedOutDataConnections net) w2)"

text \<open>\<open>setParams\<close>; the virtual \<open>fromString\<close> is the parameter \<open>frs\<close>.\<close>

fun setParams :: "(u8 list \<Rightarrow> iec_any \<Rightarrow> iec_any) \<Rightarrow> nat \<Rightarrow> SCFB_FBParameter list \<Rightarrow> 'c net_world \<Rightarrow> 'c net_world option" where
  "setParams frs i [] w = Some w"
| "setParams frs i (q # qs) w =
     (case Option.bind (composite_of i w) (\<lambda>c. m_apoInternalFBs c ! m_nFBNum q) of
        None \<Rightarrow> None
      | Some j \<Rightarrow>
          let p = on_fb w j (\<lambda>b. getPortId (m_nDINameID q) (m_aunDINames (fb_spec b))) cg_unInvalidPortId
          in setParams frs i qs
               (if p \<noteq> cg_unInvalidPortId then
                  upd_fb j (\<lambda>b. b\<lparr>m_aoDIs := (m_aoDIs b)[p := (m_aoDIs b ! p)\<lparr>dp_val := frs (m_acParamValue q) (dp_val (m_aoDIs b ! p))\<rparr>]\<rparr>) w
                else w))"

section \<open>Execution\<close>

definition sendInternal2InterfaceOutputEvent :: "nat \<Rightarrow> nat \<Rightarrow> 'c net_world \<Rightarrow> 'c net_world option" where
  "sendInternal2InterfaceOutputEvent i eo w =
     (case (w_fbs w i, composite_of i w) of
        (Some b, Some c) \<Rightarrow>
          let ps = (if eo < m_nNumEOs (fb_spec b) then eo_with (fb_spec b) eo else [])
          in if ps \<noteq> [] \<and> m_apoIn2IfDConns c = [] then None
             else Some (sendOutputEvent i eo
               (fold (\<lambda>p v. case m_apoIn2IfDConns c ! p of
                    None \<Rightarrow> v
                  | Some sp \<Rightarrow> (case do_conn v sp of None \<Rightarrow> v | Some con \<Rightarrow> upd_DO i p (readData (w_platform v) con) v)) ps w))
      | _ \<Rightarrow> Some w)"

definition exec_composite :: "'c net_inner" where
  "exec_composite i e w =
     (if e AND cgInternal2InterfaceMarker \<noteq> 0
      then sendInternal2InterfaceOutputEvent i (e AND cgInternal2InterfaceRemovalMask) w
      else case w_fbs w i of
             None \<Rightarrow> Some w
           | Some b \<Rightarrow>
               if e < m_nNumEIs (fb_spec b) then
                 (if m_nNumEOs (fb_spec b) + e < length (mEOConns b)
                  then Some (triggerEvent (mEOConns b ! (m_nNumEOs (fb_spec b) + e)) w) else None)
               else Some w)"

section \<open>Execution state\<close>

text \<open>The blocks of the network in order, up to the first that refuses.\<close>

fun change_internals ::
  "(nat \<Rightarrow> 'c net_world \<Rightarrow> (EMGMResponse \<times> 'c net_world) option) \<Rightarrow> nat option list \<Rightarrow> EMGMResponse \<Rightarrow> 'c net_world \<Rightarrow>
     (EMGMResponse \<times> 'c net_world) option" where
  "change_internals chg [] r w = Some (r, w)"
| "change_internals chg (a # as) r w =
     (if r \<noteq> e_RDY then Some (r, w)
      else case a of
             None \<Rightarrow> change_internals chg as r w
           | Some j \<Rightarrow> (case chg j w of None \<Rightarrow> None | Some (r1, w1) \<Rightarrow> change_internals chg as r1 w1))"

text \<open>\<open>changeFBExecutionState\<close> of \<open>E_TimeOut\<close>, like that of the timed blocks.\<close>

definition timeout_changeFBExecutionState :: "EMGMCommandType \<Rightarrow> nat \<Rightarrow> 'c net_world \<Rightarrow> (EMGMResponse \<times> 'c net_world) option" where
  "timeout_changeFBExecutionState cmd i w =
     (let r = changeFBExecutionState (\<lambda>b. b) 1 cmd i w; w1 = snd r in
      if fst r = e_RDY \<and> (cmd = cg_nMGM_CMD_Stop \<or> cmd = cg_nMGM_CMD_Kill)
           \<and> on_fb w1 i (\<lambda>b. fb_class b = N_TimeOut True) False
      then map_option (\<lambda>w2. (fst r, upd_fb i (\<lambda>b. b\<lparr>fb_class := N_TimeOut False\<rparr>) w2)) (with_timer (unregisterTimedFB i) w1)
      else Some r)"

text \<open>The virtual \<open>changeFBExecutionState\<close>, with that of the other classes as \<open>ichg\<close>.\<close>

fun net_changeFBExecutionState ::
  "(EMGMCommandType \<Rightarrow> nat \<Rightarrow> 'c net_world \<Rightarrow> (EMGMResponse \<times> 'c net_world) option) \<Rightarrow> (u8 list \<Rightarrow> iec_any \<Rightarrow> iec_any) \<Rightarrow>
     nat \<Rightarrow> EMGMCommandType \<Rightarrow> nat \<Rightarrow> 'c net_world \<Rightarrow> (EMGMResponse \<times> 'c net_world) option" where
  "net_changeFBExecutionState ichg frs n cmd i w =
     (case w_fbs w i of
        None \<Rightarrow> Some (e_INVALID_STATE, w)
      | Some b \<Rightarrow>
          (case fb_class b of
             N_inner c \<Rightarrow> ichg cmd i w
           | N_adapter d \<Rightarrow> Some (changeFBExecutionState (\<lambda>b. b) 1 cmd i w)
           | N_TimeOut a \<Rightarrow> timeout_changeFBExecutionState cmd i w
           | N_composite c \<Rightarrow>
               (case n of
                  0 \<Rightarrow> None
                | Suc k \<Rightarrow>
                    let r = changeFBExecutionState (\<lambda>b. b) 1 cmd i w
                    in case change_internals (net_changeFBExecutionState ichg frs k cmd) (m_apoInternalFBs c) (fst r) (snd r) of
                         None \<Rightarrow> None
                       | Some (r1, w1) \<Rightarrow>
                           if cmd = cg_nMGM_CMD_Reset \<and> on_fb w1 i (\<lambda>b. m_enFBState b = e_IDLE) False
                           then map_option (Pair r1) (setParams frs i (m_pstParams (cm_cpoFBNData c)) w1)
                           else Some (r1, w1))))"

declare net_changeFBExecutionState.simps [simp del]

end
