(* ===== verification/Net_Types.thy ===== *)
theory Net_Types
  imports Composite_FB Event_Types
begin

text \<open>
  Creating and deleting blocks with adapters and composites, finding them, the classes \<open>E_TimeOut\<close> and \<open>E_RTimeOut\<close> with their adapter
  types (\<^verbatim>\<open>src/src/stdfblib/events\<close>), and the dispatch of \<open>executeEvent\<close>.
\<close>

section \<open>The type library\<close>

text \<open>Besides the entries of the other classes (\<open>nl_fbs\<close>) the library has adapter types, with the
  interfaces of socket and plug, and composite types, with their networks.\<close>

record 'c net_lib =
  nl_types :: "(TStringId \<times> iec_any) list"
  nl_fbs :: "'c net_class fb_library"
  nl_adapters :: "(TStringId \<times> SFBInterfaceSpec \<times> SFBInterfaceSpec) list"
  nl_cfbs :: "(TStringId \<times> SFBInterfaceSpec \<times> SCFB_FBNData) list"

type_synonym 'c net_runtime = "'c net_class runtime"

definition on_world :: "('c net_world \<Rightarrow> 'c net_world) \<Rightarrow> 'c net_runtime \<Rightarrow> 'c net_runtime" where
  "on_world f st = st\<lparr>rt_world := f (rt_world st)\<rparr>"

definition place_fb :: "'c net_class fb \<Rightarrow> 'c net_runtime \<Rightarrow> 'c net_runtime" where
  "place_fb b st =
     st\<lparr>rt_world := (rt_world st)\<lparr>w_fbs := (w_fbs (rt_world st))(rt_next st \<mapsto> b)\<rparr>, rt_next := Suc (rt_next st)\<rparr>"

text \<open>\<open>createAdapter\<close> and \<open>setupAdapters\<close>.\<close>

definition createAdapter :: "'c net_lib \<Rightarrow> SAdapterInstanceDef \<Rightarrow> 'c net_class fb option" where
  "createAdapter L d =
     (case findType (m_nAdapterTypeNameID d) (nl_adapters L) of
        None \<Rightarrow> None
      | Some (sock, plug) \<Rightarrow>
          new_adapter (nl_types L) sock plug (m_nAdapterTypeNameID d) (m_nAdapterNameID d) (m_bIsPlug d))"

fun setupAdapters :: "'c net_lib \<Rightarrow> nat \<Rightarrow> SAdapterInstanceDef list \<Rightarrow> nat \<Rightarrow> 'c net_runtime \<Rightarrow> 'c net_runtime" where
  "setupAdapters L i [] k st = st"
| "setupAdapters L i (d # ds) k st =
     (case createAdapter L d of
        None \<Rightarrow> setupAdapters L i ds (Suc k) st
      | Some b \<Rightarrow>
          let a = rt_next st
          in setupAdapters L i ds (Suc k)
               (on_world (\<lambda>w. setParentFB (Some i) k a (upd_fb i (\<lambda>p. p\<lparr>m_apoAdapters := (m_apoAdapters p)[k := Some a]\<rparr>) w))
                 (place_fb b st)))"

definition with_adapters :: "'c net_lib \<Rightarrow> 'c net_class fb \<Rightarrow> 'c net_runtime \<Rightarrow> 'c net_runtime" where
  "with_adapters L b st =
     setupAdapters L (rt_next st) (m_pstAdapterInstanceDefinition (fb_spec b)) 0 (place_fb b st)"

fun createInternalFBs ::
  "(TStringId \<Rightarrow> TStringId \<Rightarrow> 'c net_runtime \<Rightarrow> (nat option \<times> 'c net_runtime) option) \<Rightarrow> (TStringId \<times> TStringId) list \<Rightarrow>
     'c net_runtime \<Rightarrow> (nat option list \<times> 'c net_runtime) option" where
  "createInternalFBs mk [] st = Some ([], st)"
| "createInternalFBs mk ((n, t) # is) st =
     (case mk n t st of
        None \<Rightarrow> None
      | Some (fb, st1) \<Rightarrow> map_option (\<lambda>r. (fb # fst r, snd r)) (createInternalFBs mk is st1))"

definition new_composite :: "'c net_lib \<Rightarrow> SFBInterfaceSpec \<Rightarrow> SCFB_FBNData \<Rightarrow> TStringId \<Rightarrow> 'c net_class fb option" where
  "new_composite L s net n =
     new_FB (nl_types L) s n (N_composite \<lparr>cm_cpoFBNData = net, m_apoInternalFBs = [], m_apoIn2IfDConns = []\<rparr>)"

text \<open>The constructor of a composite, on the block \<open>b\<close> of the base class: its number, and the state.\<close>

definition construct_composite ::
  "(TStringId \<Rightarrow> TStringId \<Rightarrow> 'c net_runtime \<Rightarrow> (nat option \<times> 'c net_runtime) option) \<Rightarrow> (u8 list \<Rightarrow> iec_any \<Rightarrow> iec_any) \<Rightarrow>
     nat \<Rightarrow> 'c net_lib \<Rightarrow> SCFB_FBNData \<Rightarrow> 'c net_class fb \<Rightarrow> 'c net_runtime \<Rightarrow> 'c net_runtime option" where
  "construct_composite mk frs k L net b st =
     (let i = rt_next st; st1 = with_adapters L b st in
      case createInternalFBs mk (m_pstFBInstances net) st1 of
        None \<Rightarrow> None
      | Some (fbs, st2) \<Rightarrow>
          let w = upd_composite i (\<lambda>c. c\<lparr>m_apoInternalFBs := fbs\<rparr>) (rt_world st2)
          in map_option (\<lambda>w. st2\<lparr>rt_world :=
                  fold (\<lambda>a v. case a of None \<Rightarrow> v | Some j \<Rightarrow> setParentFB None 0 j v) (on_fb w i m_apoAdapters []) w\<rparr>)
               (Option.bind (createEventConnections i net w)
                 (\<lambda>w. Option.bind (createDataConnections k i net w) (setParams frs i (m_pstParams net)))))"

text \<open>\<open>CTypeLib::createFB\<close>.\<close>

fun net_createFB ::
  "(EMGMCommandType \<Rightarrow> nat \<Rightarrow> 'c net_world \<Rightarrow> (EMGMResponse \<times> 'c net_world) option) \<Rightarrow> (u8 list \<Rightarrow> iec_any \<Rightarrow> iec_any) \<Rightarrow>
     'c net_lib \<Rightarrow> nat \<Rightarrow> TStringId \<Rightarrow> TStringId \<Rightarrow> 'c net_runtime \<Rightarrow> (nat option \<times> 'c net_runtime) option" where
  "net_createFB chg frs L k n t st =
     (let i = rt_next st;
          reset = (\<lambda>st. map_option (\<lambda>r. (Some i, st\<lparr>rt_world := snd r\<rparr>)) (chg cg_nMGM_CMD_Reset i (rt_world st)))
      in case findType t (nl_cfbs L) of
           Some (s, net) \<Rightarrow>
             (case (k, new_composite L s net n) of
                (Suc k', Some b) \<Rightarrow>
                  Option.bind (construct_composite (net_createFB chg frs L k') frs k' L net b st) reset
              | (0, Some b) \<Rightarrow> None
              | (_, None) \<Rightarrow> Some (None, st\<lparr>m_eLastErrorMSG := e_OVERFLOW\<rparr>))
         | None \<Rightarrow>
             (case new_instance (nl_fbs L) n t of
                Inl e \<Rightarrow> Some (None, st\<lparr>m_eLastErrorMSG := e\<rparr>)
              | Inr b \<Rightarrow> reset (with_adapters L b st)))"

declare net_createFB.simps [simp del]

text \<open>The destructors: a composite deletes its blocks, then every block its adapters.\<close>

fun net_deleteFB :: "nat \<Rightarrow> nat \<Rightarrow> 'c net_world \<Rightarrow> 'c net_world" where
  "net_deleteFB k i w =
     (let w1 = (case (k, composite_of i w) of
                 (Suc k', Some c) \<Rightarrow> fold (\<lambda>a v. case a of None \<Rightarrow> v | Some j \<Rightarrow> net_deleteFB k' j v) (m_apoInternalFBs c) w
               | _ \<Rightarrow> w);
          w2 = fold (\<lambda>a v. case a of None \<Rightarrow> v | Some j \<Rightarrow> delete_adapter j v) (on_fb w1 i m_apoAdapters []) w1
      in w2\<lparr>w_fbs := (w_fbs w2)(i := None)\<rparr>)"

declare net_deleteFB.simps [simp del]

section \<open>Finding blocks\<close>

text \<open>\<open>getFB\<close> of a composite: the loop goes on with the iterator that has been moved to the next name.\<close>

definition adapter_getFB :: "nat \<Rightarrow> name_iterator \<Rightarrow> 'c net_world \<Rightarrow> nat option" where
  "adapter_getFB i it w = (if isLastEntry it then map_option snd (getAdapter i (it_deref it) w) else None)"

fun getFB_loop ::
  "(nat \<Rightarrow> name_iterator \<Rightarrow> nat option \<times> name_iterator) \<Rightarrow> 'c net_world \<Rightarrow> nat option list \<Rightarrow> nat option \<Rightarrow> name_iterator \<Rightarrow>
     (nat option \<times> name_iterator) option" where
  "getFB_loop sub w [] r it = Some (r, it)"
| "getFB_loop sub w (a # as) r it =
     (case a of
        None \<Rightarrow> None
      | Some j \<Rightarrow>
          if fb_name w j = Some (it_deref it) then
            (if isLastEntry it then getFB_loop sub w as (Some j) it
             else let q = sub j (it_next it) in getFB_loop sub w as (fst q) (snd q))
          else getFB_loop sub w as r it)"

fun net_getFB :: "nat \<Rightarrow> 'c net_world \<Rightarrow> nat \<Rightarrow> name_iterator \<Rightarrow> nat option \<times> name_iterator" where
  "net_getFB k w i it =
     (case (k, composite_of i w) of
        (Suc k', Some c) \<Rightarrow>
          (case getFB_loop (net_getFB k' w) w (m_apoInternalFBs c) None it of
             Some (Some j, it1) \<Rightarrow> (Some j, it1)
           | Some (None, it1) \<Rightarrow> (adapter_getFB i it1 w, it1)
           | None \<Rightarrow> (None, it))
      | _ \<Rightarrow> (adapter_getFB i it w, it))"

declare net_getFB.simps [simp del]

text \<open>\<open>getVar\<close> of a composite looks into the network only for an empty list of names, and then goes on with a
  list of $2^{32} - 1$ names, for which every class answers null.\<close>

definition net_getVar :: "TStringId list \<Rightarrow> 'c net_class fb \<Rightarrow> iec_any option" where
  "net_getVar ns b =
     (case fb_class b of
        N_composite c \<Rightarrow> if length ns < 1 then None else getVar ns b
      | _ \<Rightarrow> getVar ns b)"

section \<open>Time-out blocks\<close>

definition adapter_spec :: "TStringId list \<Rightarrow> TStringId list \<Rightarrow> TStringId list \<Rightarrow> TStringId list \<Rightarrow> SFBInterfaceSpec" where
  "adapter_spec eis eos dis dos =
     \<lparr>m_aunEINames = eis, m_anEIWith = (if dis = [] then [] else [0, 255]),
      m_anEIWithIndexes = Some (if dis = [] then [-1, -1] else [0, -1, -1]),
      m_aunEONames = eos, m_anEOWith = (if dos = [] then [] else [0, 255]),
      m_anEOWithIndexes = (if dos = [] then None else Some [0, -1, -1]),
      m_aunDINames = dis, m_aunDIDataTypeNames = map (\<lambda>_. DT ''TIME'') dis,
      m_aunDONames = dos, m_aunDODataTypeNames = map (\<lambda>_. DT ''TIME'') dos, m_pstAdapterInstanceDefinition = []\<rparr>"

text \<open>\<open>ATimeOut\<close> and \<open>ARTimeOut\<close> have the same interfaces.\<close>

definition ATimeOut_socket :: SFBInterfaceSpec where
  "ATimeOut_socket = adapter_spec [''TimeOut''] [''START'', ''STOP''] [] [''DT'']"

definition ATimeOut_plug :: SFBInterfaceSpec where
  "ATimeOut_plug = adapter_spec [''START'', ''STOP''] [''TimeOut''] [''DT''] []"

definition timeout_spec :: "TStringId \<Rightarrow> SFBInterfaceSpec" where
  "timeout_spec t = (no_data_spec [] [])\<lparr>m_pstAdapterInstanceDefinition :=
     [\<lparr>m_nAdapterTypeNameID = t, m_nAdapterNameID = ''TimeOutSocket'', m_bIsPlug = False\<rparr>]\<rparr>"

definition E_TimeOut_spec :: SFBInterfaceSpec where
  "E_TimeOut_spec = timeout_spec ''ATimeOut''"

definition E_RTimeOut_spec :: SFBInterfaceSpec where
  "E_RTimeOut_spec = timeout_spec ''ARTimeOut''"

definition E_RTimeOut_net :: SCFB_FBNData where
  "E_RTimeOut_net =
     \<lparr>m_pstFBInstances = [(''DLY'', ''E_RDELAY'')],
      m_pstEventConnections =
        [\<lparr>m_nSrcId = ''START'', m_nSrcFBNum = scm_nAdapterMarker OR 0, m_nDstId = ''START'', m_nDstFBNum = 0\<rparr>,
         \<lparr>m_nSrcId = ''STOP'', m_nSrcFBNum = scm_nAdapterMarker OR 0, m_nDstId = ''STOP'', m_nDstFBNum = 0\<rparr>,
         \<lparr>m_nSrcId = ''EO'', m_nSrcFBNum = 0, m_nDstId = ''TimeOut'', m_nDstFBNum = scm_nAdapterMarker OR 0\<rparr>],
      m_pstFannedOutEventConnections = [],
      m_pstDataConnections =
        [\<lparr>m_nSrcId = ''DT'', m_nSrcFBNum = scm_nAdapterMarker OR 0, m_nDstId = ''DT'', m_nDstFBNum = 0\<rparr>],
      m_pstFannedOutDataConnections = [], m_pstParams = []\<rparr>"

text \<open>\<open>executeEvent\<close> of \<open>E_TimeOut\<close>; its socket is the adapter 0.\<close>

definition exec_TimeOut :: "bool \<Rightarrow> 'c net_inner" where
  "exec_TimeOut active i e w =
     (let set = (\<lambda>a. upd_fb i (\<lambda>b. b\<lparr>fb_class := N_TimeOut a\<rparr>)) in
      if e = cg_nExternalEventID then sendAdapterEvent i 0 0 (set False w)
      else case on_fb w i (\<lambda>b. m_apoAdapters b ! 0) None of
             None \<Rightarrow> None
           | Some s \<Rightarrow>
               (case adapter_of s w of
                  None \<Rightarrow> None
                | Some d \<Rightarrow>
                    if e = m_nParentAdapterListEventID d + 0 then
                      (if \<not> active then map_option (set True) (with_timer (registerTimedFB i (op_int64 (DO s 0 w))) w) else Some w)
                    else if e = m_nParentAdapterListEventID d + 1 then
                      (if active then map_option (set False) (with_timer (unregisterTimedFB i) w) else Some w)
                    else Some w))"

section \<open>Dispatch\<close>

definition exec_net :: "'c net_inner \<Rightarrow> 'c net_inner" where
  "exec_net inner i e w =
     (case w_fbs w i of
        None \<Rightarrow> Some w
      | Some b \<Rightarrow>
          (case fb_class b of
             N_inner c \<Rightarrow> inner i e w
           | N_adapter d \<Rightarrow> exec_adapter i e w
           | N_composite c \<Rightarrow> exec_composite i e w
           | N_TimeOut a \<Rightarrow> exec_TimeOut a i e w))"

definition net_deliver :: "'c net_inner \<Rightarrow> conn_point \<Rightarrow> 'c net_world \<Rightarrow> 'c net_world option" where
  "net_deliver inner ev w = map_option (share (mFB ev)) (receiveInputEvent (exec_net inner) ev (refresh w))"

text \<open>A class whose blocks neither have adapters nor look at other blocks, like the standard event
  blocks, works on the blocks of its own class only.\<close>

definition with_class :: "'a fb \<Rightarrow> 'b \<Rightarrow> 'b fb" where
  "with_class b c =
     \<lparr>fb_spec = fb_spec b, m_nFBInstanceName = m_nFBInstanceName b, m_enFBState = m_enFBState b, m_bDeletable = m_bDeletable b,
      m_aoDIs = m_aoDIs b, m_aoDOs = m_aoDOs b, m_apoDIConns = m_apoDIConns b, mEOConns = mEOConns b, mDOConns = mDOConns b,
      m_apoAdapters = m_apoAdapters b, m_nEIMonitorCount = m_nEIMonitorCount b, m_nEOMonitorCount = m_nEOMonitorCount b,
      m_updated = m_updated b, fb_class = c\<rparr>"

definition inner_part :: "'c net_world \<Rightarrow> 'c world" where
  "inner_part w =
     \<lparr>mEventList = mEventList w, mExternalEventList = mExternalEventList w, mProcessingEvents = mProcessingEvents w,
      mSuspendSemaphore = mSuspendSemaphore w, mAlive = mAlive w,
      w_fbs = (\<lambda>i. case w_fbs w i of None \<Rightarrow> None | Some b \<Rightarrow> (case fb_class b of N_inner c \<Rightarrow> Some (with_class b c) | _ \<Rightarrow> None)),
      w_timer = w_timer w, w_platform = w_platform w, w_com = w_com w\<rparr>"

definition put_inner :: "'c world \<Rightarrow> 'c net_world \<Rightarrow> 'c net_world" where
  "put_inner v w =
     w\<lparr>mEventList := mEventList v, mExternalEventList := mExternalEventList v, mProcessingEvents := mProcessingEvents v,
       mSuspendSemaphore := mSuspendSemaphore v, mAlive := mAlive v,
       w_fbs := (\<lambda>i. case w_fbs w i of
                       Some b \<Rightarrow> (case fb_class b of
                           N_inner c \<Rightarrow> map_option (\<lambda>vb. with_class vb (N_inner (fb_class vb))) (w_fbs v i)
                         | _ \<Rightarrow> Some b)
                     | None \<Rightarrow> None),
       w_timer := w_timer v, w_com := w_com v\<rparr>"

definition lift_exec :: "(nat \<Rightarrow> nat \<Rightarrow> 'c world \<Rightarrow> 'c world option) \<Rightarrow> 'c net_inner" where
  "lift_exec exec i e w = map_option (\<lambda>v. put_inner v w) (exec i e (inner_part w))"

definition lift_change ::
  "(EMGMCommandType \<Rightarrow> nat \<Rightarrow> 'c world \<Rightarrow> (EMGMResponse \<times> 'c world) option) \<Rightarrow>
     EMGMCommandType \<Rightarrow> nat \<Rightarrow> 'c net_world \<Rightarrow> (EMGMResponse \<times> 'c net_world) option" where
  "lift_change chg cmd i w = map_option (\<lambda>r. (fst r, put_inner (snd r) w)) (chg cmd i (inner_part w))"

end
