(* ===== verification/Adapter_Laws.thy ===== *)
theory Adapter_Laws
  imports Net_Types Event_FB_Laws
begin

text \<open>
  What adapters promise: connected adapters come in pairs of a plug and a socket that know each other, events
  and data pass from one to the other; and where a refused connection or a deletion breaks a pair.
\<close>

section \<open>What leaves the adapters alone\<close>

lemma adapter_of_upd_fb:
  "adapter_of a (upd_fb i f w) =
     (if a = i then (case w_fbs w i of None \<Rightarrow> None | Some b \<Rightarrow> (case fb_class (f b) of N_adapter d \<Rightarrow> Some d | _ \<Rightarrow> None))
      else adapter_of a w)"
  by (simp add: adapter_of_def split: option.split)

lemma adapter_of_Some: "adapter_of a w = Some d \<longleftrightarrow> (\<exists>b. w_fbs w a = Some b \<and> fb_class b = N_adapter d)"
  by (auto simp: adapter_of_def split: option.splits net_class.splits)

lemma adapter_of_upd_adapter [simp]:
  "adapter_of a (upd_adapter i f w) = (if a = i then map_option f (adapter_of i w) else adapter_of a w)"
  by (auto simp: upd_adapter_def adapter_of_upd_fb) (auto simp: adapter_of_def split: option.split net_class.split)

lemma adapter_of_cong: "w_fbs w' a = w_fbs w a \<Longrightarrow> adapter_of a w' = adapter_of a w"
  by (simp add: adapter_of_def)

definition adapters :: "'c net_world \<Rightarrow> nat \<Rightarrow> adapter_data option" where
  "adapters w = (\<lambda>a. adapter_of a w)"

lemma adapters_apply [simp]: "adapters w a = adapter_of a w"
  by (simp add: adapters_def)

lemma adapters_fbs: "w_fbs w' = w_fbs w \<Longrightarrow> adapters w' = adapters w"
  by (simp add: adapters_def adapter_of_def)

lemma adapters_ecet [simp]: "adapters (addEventEntry x w) = adapters w" "adapters (triggerEvent ds w) = adapters w"
  by (rule adapters_fbs, simp)+

lemma adapters_timer [simp]: "adapters (w\<lparr>w_timer := t\<rparr>) = adapters w"
  by (rule adapters_fbs) simp

lemma adapters_upd:
  "w_fbs w i = Some b \<Longrightarrow> fb_class b' = fb_class b \<Longrightarrow> adapters (w\<lparr>w_fbs := (w_fbs w)(i \<mapsto> b')\<rparr>) = adapters w"
  by (rule ext) (simp add: adapter_of_def)

lemma adapters_upd_fb: "(\<And>b. fb_class (f b) = fb_class b) \<Longrightarrow> adapters (upd_fb i f w) = adapters w"
  by (rule ext) (simp add: adapter_of_upd_fb, simp add: adapter_of_def split: option.split)

lemma adapters_composite [simp]: "adapters (upd_composite i f w) = adapters w"
  by (auto simp: fun_eq_iff upd_composite_def adapter_of_upd_fb adapter_of_def split: option.split net_class.split)

lemma adapters_send [simp]: "adapters (sendOutputEvent i eo w) = adapters w"
  by (auto simp: fun_eq_iff adapter_of_def sendOutputEvent_def Let_def split: option.split)

lemma adapters_refresh [simp]: "adapters (refresh w) = adapters w"
  by (auto simp: fun_eq_iff adapter_of_def refresh_def refresh_fb_def split: option.split net_class.split)

lemma adapter_of_refresh [simp]: "adapter_of a (refresh w) = adapter_of a w"
  using fun_cong [OF adapters_refresh [of w], of a] by (simp del: adapters_refresh)

lemma adapters_share [simp]: "adapters (share a w) = adapters w"
  by (auto simp: share_def adapters_upd_fb split: option.split)

lemma fold_sample_net_class [simp]: "fb_class (fold (sample_DI w) ps b) = fb_class b"
proof (induction ps arbitrary: b)
  case (Cons p ps)
  have "fb_class (sample_DI w p b) = fb_class b"
    by (simp add: sample_DI_def Let_def split: option.split)
  with Cons show ?case by simp
qed simp

lemma adapters_receive:
  assumes "\<And>v v'. adapters v = adapters w \<Longrightarrow> exec (mFB ev) (mPortId ev) v = Some v' \<Longrightarrow> adapters v' = adapters v"
    and "receiveInputEvent exec ev w = Some w'"
  shows "adapters w' = adapters w"
  using assms(2)
  by (auto simp: receiveInputEvent_def Let_def adapters_upd split: option.splits if_splits dest!: assms(1) [rotated])

lemma exec_adapter_adapters: "exec_adapter a e w = Some w' \<Longrightarrow> adapters w' = adapters w"
  by (auto simp: exec_adapter_def Let_def split: option.splits)

lemma adapter_receive_adapters: "adapter_receive ev w = Some w' \<Longrightarrow> adapters w' = adapters w"
  by (auto simp: adapter_receive_def dest!: adapters_receive [rotated] exec_adapter_adapters)

section \<open>Pairs\<close>

text \<open>
  Connected adapters are a plug and a socket of compatible types that are the peers of each other; the
  connection of the plug knows the socket and has one destination, and the socket knows the connection.
\<close>

definition ends_ok :: "nat \<Rightarrow> adapter_data \<Rightarrow> bool" where
  "ends_ok a d \<longleftrightarrow>
     (if ad_isPlug d then m_poAdapterConn d = Some a \<and> mSocket d = m_poPeer d
        \<and> length (ad_dests d) = (if m_poPeer d = None then 0 else 1)
      else m_poAdapterConn d = m_poPeer d)"

definition pairs_ok :: "(nat \<Rightarrow> adapter_data option) \<Rightarrow> bool" where
  "pairs_ok A \<longleftrightarrow>
     (\<forall>a d. A a = Some d \<longrightarrow> ends_ok a d \<and>
        (\<forall>p. m_poPeer d = Some p \<longrightarrow>
           (\<exists>e. A p = Some e \<and> m_poPeer e = Some a \<and> ad_isPlug e \<noteq> ad_isPlug d \<and> isCompatible d e)))"

lemma isCompatible_sym: "isCompatible d e \<longleftrightarrow> isCompatible e d"
  by (auto simp: isCompatible_def)

lemma pairs_okD:
  assumes "pairs_ok A" "A a = Some d"
  shows "ends_ok a d"
    and "m_poPeer d = Some p \<Longrightarrow> \<exists>e. A p = Some e \<and> m_poPeer e = Some a \<and> ad_isPlug e \<noteq> ad_isPlug d \<and> isCompatible d e"
  using assms by (auto simp: pairs_ok_def)

text \<open>Making and cutting a pair.\<close>

lemma pair_made:
  assumes "pairs_ok A" "A a = Some d" "A b = Some e" "m_poPeer d = None" "m_poPeer e = None" "a \<noteq> b"
    and "m_poPeer d' = Some b" "m_poPeer e' = Some a" "ad_isPlug d' \<noteq> ad_isPlug e'" "isCompatible d' e'" "ends_ok a d'" "ends_ok b e'"
  shows "pairs_ok (A(a \<mapsto> d', b \<mapsto> e'))"
proof -
  have other: "p \<noteq> a \<and> p \<noteq> b" if "A c = Some f" "m_poPeer f = Some p" for c f p
    using pairs_okD(2) [OF assms(1) that] assms(2-5) by auto
  show ?thesis
    unfolding pairs_ok_def
  proof (intro allI impI conjI)
    fix c f assume f: "(A(a \<mapsto> d', b \<mapsto> e')) c = Some f"
    show "ends_ok c f"
      using f assms(11,12) pairs_okD(1) [OF assms(1)] by (auto split: if_splits)
    fix p assume p: "m_poPeer f = Some p"
    show "\<exists>g. (A(a \<mapsto> d', b \<mapsto> e')) p = Some g \<and> m_poPeer g = Some c \<and> ad_isPlug g \<noteq> ad_isPlug f \<and> isCompatible f g"
    proof (cases "c = a \<or> c = b")
      case True
      then show ?thesis
        using f p assms(6-10) isCompatible_sym [of d' e'] by (auto split: if_splits)
    next
      case False
      then have "A c = Some f" using f by (auto split: if_splits)
      then show ?thesis
        using other [OF _ p] pairs_okD(2) [OF assms(1) _ p] by auto
    qed
  qed
qed

lemma pair_cut:
  assumes "pairs_ok A" "A a = Some d" "m_poPeer d = Some b"
    and "D \<in> {None} \<union> Some ` {d'. m_poPeer d' = None \<and> ends_ok a d'}" "E \<in> {None} \<union> Some ` {e'. m_poPeer e' = None \<and> ends_ok b e'}"
  shows "pairs_ok (A(a := D, b := E))"
proof -
  obtain e where e: "A b = Some e" "m_poPeer e = Some a" "ad_isPlug e \<noteq> ad_isPlug d"
    using pairs_okD(2) [OF assms(1-3)] by blast
  then have "a \<noteq> b" using assms(2) by auto
  have other: "p \<noteq> a \<and> p \<noteq> b" if "A c = Some f" "c \<noteq> a" "c \<noteq> b" "m_poPeer f = Some p" for c f p
    using pairs_okD(2) [OF assms(1) that(1,4)] that(2,3) e(1,2) assms(2,3) by auto
  show ?thesis
    unfolding pairs_ok_def
  proof (intro allI impI conjI)
    fix c f assume f: "(A(a := D, b := E)) c = Some f"
    show "ends_ok c f"
      using f assms(4,5) pairs_okD(1) [OF assms(1)] by (auto split: if_splits)
    fix p assume p: "m_poPeer f = Some p"
    then have "c \<noteq> a" "c \<noteq> b" "A c = Some f"
      using f assms(4,5) by (auto split: if_splits)
    then show "\<exists>e. (A(a := D, b := E)) p = Some e \<and> m_poPeer e = Some c \<and> ad_isPlug e \<noteq> ad_isPlug f \<and> isCompatible f e"
      using other [OF _ _ _ p] pairs_okD(2) [OF assms(1) _ p] by auto
  qed
qed

lemma free_removed:
  assumes "pairs_ok A" "A a = Some d" "m_poPeer d = None" "D \<in> {None} \<union> Some ` {d'. m_poPeer d' = None \<and> ends_ok a d'}"
  shows "pairs_ok (A(a := D))"
proof -
  have other: "p \<noteq> a" if "A c = Some f" "m_poPeer f = Some p" for c f p
    using pairs_okD(2) [OF assms(1) that] assms(2,3) by auto
  show ?thesis
    unfolding pairs_ok_def
  proof (intro allI impI conjI)
    fix c f assume f: "(A(a := D)) c = Some f"
    show "ends_ok c f"
      using f assms(4) pairs_okD(1) [OF assms(1)] by (auto split: if_splits)
    fix p assume p: "m_poPeer f = Some p"
    then have "A c = Some f"
      using f assms(4) by (auto split: if_splits)
    then show "\<exists>g. (A(a := D)) p = Some g \<and> m_poPeer g = Some c \<and> ad_isPlug g \<noteq> ad_isPlug f \<and> isCompatible f g"
      using other [OF _ p] pairs_okD(2) [OF assms(1) _ p] by auto
  qed
qed

lemma new_free:
  assumes "pairs_ok A" "A a = None" "m_poPeer e = None" "ends_ok a e"
  shows "pairs_ok (A(a \<mapsto> e))"
  unfolding pairs_ok_def
proof (intro allI impI conjI)
  fix c f assume f: "(A(a \<mapsto> e)) c = Some f"
  show "ends_ok c f"
    using f assms(4) pairs_okD(1) [OF assms(1)] by (auto split: if_splits)
  fix p assume p: "m_poPeer f = Some p"
  then have "A c = Some f"
    using f assms(3) by (auto split: if_splits)
  then obtain g where "A p = Some g" "m_poPeer g = Some c" "ad_isPlug g \<noteq> ad_isPlug f" "isCompatible f g"
    using pairs_okD(2) [OF assms(1) _ p] by blast
  then show "\<exists>g. (A(a \<mapsto> e)) p = Some g \<and> m_poPeer g = Some c \<and> ad_isPlug g \<noteq> ad_isPlug f \<and> isCompatible f g"
    using assms(2) by auto
qed

section \<open>Connecting and disconnecting\<close>

text \<open>Peer and connection of an adapter that is connected, and of one that is cut off; the inputs it kept meanwhile.\<close>

definition linked :: "nat \<Rightarrow> nat \<Rightarrow> dpoint list \<Rightarrow> adapter_data \<Rightarrow> adapter_data" where
  "linked p con l d = d\<lparr>m_poPeer := Some p, m_aoLocalDIs := l, m_poAdapterConn := Some con\<rparr>"

definition cut_off :: "adapter_data \<Rightarrow> adapter_data" where
  "cut_off d = d\<lparr>m_poPeer := None, m_poAdapterConn := (if ad_isPlug d then m_poAdapterConn d else None)\<rparr>"

lemma linked_simps [simp]:
  "m_poPeer (linked p con l d) = Some p" "m_poAdapterConn (linked p con l d) = Some con" "ad_isPlug (linked p con l d) = ad_isPlug d"
  "ad_type (linked p con l d) = ad_type d" "mSocket (linked p con l d) = mSocket d" "ad_dests (linked p con l d) = ad_dests d"
  by (simp_all add: linked_def)

lemma cut_off_simps [simp]:
  "m_poPeer (cut_off d) = None" "ad_isPlug (cut_off d) = ad_isPlug d" "mSocket (cut_off d) = mSocket d" "ad_dests (cut_off d) = ad_dests d"
  "m_poAdapterConn (cut_off d) = (if ad_isPlug d then m_poAdapterConn d else None)" "m_astEventEntry (cut_off d) = m_astEventEntry d"
  by (simp_all add: cut_off_def)

lemma cut_off_dests: "cut_off (d\<lparr>ad_dests := ds\<rparr>) = (cut_off d)\<lparr>ad_dests := ds\<rparr>"
  by (simp add: cut_off_def)

lemma adapter_connect_free:
  assumes "adapter_of a w = Some d" "m_poPeer d = None"
  shows "fst (adapter_connect a p con w)"
    and "\<exists>l. adapters (snd (adapter_connect a p con w)) = (adapters w)(a \<mapsto> linked p con l d)"
proof -
  obtain b where b: "w_fbs w a = Some b"
    using assms(1) by (auto simp: adapter_of_Some)
  show "fst (adapter_connect a p con w)"
    using assms by (simp add: adapter_connect_def)
  show "\<exists>l. adapters (snd (adapter_connect a p con w)) = (adapters w)(a \<mapsto> linked p con l d)"
    by (rule exI [of _ "m_aoDIs b"]) (simp add: adapter_connect_def linked_def assms b adapter_of_upd_fb fun_eq_iff)
qed

lemma adapter_connect_busy:
  "adapter_of a w = Some d \<Longrightarrow> m_poPeer d = Some q \<Longrightarrow> adapter_connect a p con w = (False, w)"
  by (simp add: adapter_connect_def)

lemma adapter_disconnect_adapters:
  assumes "adapter_of a w = Some d" "con = None \<or> con = m_poAdapterConn d"
  shows "adapters (snd (adapter_disconnect a con w)) = (adapters w)(a \<mapsto> cut_off d)"
proof -
  obtain b where "w_fbs w a = Some b"
    using assms(1) by (auto simp: adapter_of_Some)
  with assms show ?thesis
    by (auto simp: adapter_disconnect_def cut_off_def adapter_of_upd_fb fun_eq_iff)
qed

lemma adapters_upd_adapter:
  "adapters (upd_adapter a f w) = (adapters w)(a := map_option f (adapter_of a w))"
  by (simp add: fun_eq_iff)

lemma connect_makes_pair:
  assumes "adapter_of plug w = Some d" "ad_isPlug d" "ad_dests d = []" "m_poPeer d = None"
    and "getAdapter i n w = Some (k, s)" "adapter_of s w = Some e" "\<not> ad_isPlug e" "isCompatible e d" "m_poPeer e = None"
  shows "fst (adapterconn_connect plug i n w) = e_RDY"
    and "\<exists>l l'. adapters (snd (adapterconn_connect plug i n w)) =
           (adapters w)(plug \<mapsto> (linked s plug l d)\<lparr>mSocket := Some s, ad_dests := [\<lparr>mFB = i, mPortId = k\<rparr>]\<rparr>,
                        s \<mapsto> linked plug plug l' e)"
proof -
  have ne: "s \<noteq> plug" using assms(1,2,6,7) by auto
  define w1 where "w1 = snd (adapter_connect plug s plug w)"
  define w2 where "w2 = snd (adapter_connect s plug plug w1)"
  obtain l where l: "adapters w1 = (adapters w)(plug \<mapsto> linked s plug l d)"
    using adapter_connect_free(2) [OF assms(1,4)] by (auto simp: w1_def)
  have s1: "adapter_of s w1 = Some e"
    using fun_cong [OF l, of s] ne assms(6) by simp
  obtain l' where l': "adapters w2 = (adapters w1)(s \<mapsto> linked plug plug l' e)"
    using adapter_connect_free(2) [OF s1 assms(9)] by (auto simp: w2_def)
  have r: "adapterconn_connect plug i n w = (e_RDY, upd_adapter plug (\<lambda>d. d\<lparr>mSocket := Some s,
             ad_dests := snd (addDestination \<lparr>mFB = i, mPortId = k\<rparr> (ad_dests d))\<rparr>) w2)"
    using assms adapter_connect_free(1) [OF assms(1,4), of s plug] adapter_connect_free(1) [OF s1 assms(9), of plug plug]
    by (simp add: adapterconn_connect_def Let_def case_prod_beta w1_def [symmetric] w2_def [symmetric])
  then show "fst (adapterconn_connect plug i n w) = e_RDY" by simp
  have p2: "adapter_of plug w2 = Some (linked s plug l d)"
    using fun_cong [OF l', of plug] fun_cong [OF l, of plug] ne by simp
  show "\<exists>l l'. adapters (snd (adapterconn_connect plug i n w)) =
           (adapters w)(plug \<mapsto> (linked s plug l d)\<lparr>mSocket := Some s, ad_dests := [\<lparr>mFB = i, mPortId = k\<rparr>]\<rparr>,
                        s \<mapsto> linked plug plug l' e)"
    by (intro exI [of _ l] exI [of _ l'], rule ext)
       (use ne in \<open>simp add: r adapters_upd_adapter p2 l' l addDestination_def assms(3) del: adapters_apply\<close>)
qed

lemma connect_pairs:
  assumes P: "pairs_ok (adapters w)" and "adapter_of plug w = Some d" "ad_isPlug d"
    and free: "\<And>k s e. getAdapter i n w = Some (k, s) \<Longrightarrow> adapter_of s w = Some e \<Longrightarrow> m_poPeer e = None"
  shows "pairs_ok (adapters (snd (adapterconn_connect plug i n w)))"
proof (cases "\<exists>k s e. getAdapter i n w = Some (k, s) \<and> ad_dests d = [] \<and> adapter_of s w = Some e \<and> \<not> ad_isPlug e \<and> isCompatible e d")
  case True
  then obtain k s e where c: "getAdapter i n w = Some (k, s)" "ad_dests d = []" "adapter_of s w = Some e" "\<not> ad_isPlug e" "isCompatible e d"
    by blast
  have ends: "ends_ok plug d" "ends_ok s e"
    using pairs_okD(1) [OF P] assms(2) c(3) by simp_all
  have un: "m_poPeer d = None" "m_poPeer e = None"
    using ends(1) assms(3) c(2) free [OF c(1,3)] by (auto simp: ends_ok_def split: if_splits)
  have "s \<noteq> plug" using assms(2,3) c(3,4) by auto
  obtain l l' where A: "adapters (snd (adapterconn_connect plug i n w)) =
      (adapters w)(plug \<mapsto> (linked s plug l d)\<lparr>mSocket := Some s, ad_dests := [\<lparr>mFB = i, mPortId = k\<rparr>]\<rparr>, s \<mapsto> linked plug plug l' e)"
    using connect_makes_pair(2) [OF assms(2,3) c(2) un(1) c(1,3,4,5) un(2)] by blast
  show ?thesis
    unfolding A
  proof (rule pair_made [OF P, of plug d s e])
    show "isCompatible ((linked s plug l d)\<lparr>mSocket := Some s, ad_dests := [\<lparr>mFB = i, mPortId = k\<rparr>]\<rparr>) (linked plug plug l' e)"
      using c(5) by (auto simp: isCompatible_def)
  qed (use ends un c \<open>s \<noteq> plug\<close> assms(2,3) in \<open>simp_all add: ends_ok_def\<close>)
next
  case False
  then have "snd (adapterconn_connect plug i n w) = w"
    using assms(2) by (auto simp: adapterconn_connect_def split: option.split)
  with P show ?thesis by simp
qed

lemma performDisconnect_none:
  assumes "adapter_of plug w = Some d" "m_poAdapterConn d = Some plug" "mSocket d = None"
  shows "adapters (performDisconnect plug w) = (adapters w)(plug \<mapsto> cut_off d)"
proof -
  define w1 where "w1 = snd (adapter_disconnect plug (Some plug) w)"
  have 1: "adapters w1 = (adapters w)(plug \<mapsto> cut_off d)"
    using adapter_disconnect_adapters [OF assms(1)] assms(2) by (simp add: w1_def)
  have "adapter_of plug w1 = Some (cut_off d)"
    using fun_cong [OF 1, of plug] by simp
  then have "performDisconnect plug w = w1"
    using assms(3) by (simp add: performDisconnect_def Let_def w1_def [symmetric])
  with 1 show ?thesis by simp
qed

lemma performDisconnect_some:
  assumes "adapter_of plug w = Some d" "m_poAdapterConn d = Some plug" "mSocket d = Some s" "s \<noteq> plug"
    and "adapter_of s w = Some e" "m_poAdapterConn e = Some plug"
  shows "adapters (performDisconnect plug w) = (adapters w)(plug \<mapsto> (cut_off d)\<lparr>mSocket := None\<rparr>, s \<mapsto> cut_off e)"
proof -
  define w1 where "w1 = snd (adapter_disconnect plug (Some plug) w)"
  have 1: "adapters w1 = (adapters w)(plug \<mapsto> cut_off d)"
    using adapter_disconnect_adapters [OF assms(1)] assms(2) by (simp add: w1_def)
  have at: "adapter_of plug w1 = Some (cut_off d)" "adapter_of s w1 = Some e"
    using fun_cong [OF 1, of plug] fun_cong [OF 1, of s] assms by auto
  define w2 where "w2 = snd (adapter_disconnect s (Some plug) w1)"
  have 2: "adapters w2 = (adapters w1)(s \<mapsto> cut_off e)"
    using adapter_disconnect_adapters [OF at(2)] assms(6) by (simp add: w2_def)
  have "adapter_of plug w2 = Some (cut_off d)"
    using fun_cong [OF 2, of plug] at assms(4) by auto
  moreover have "performDisconnect plug w = upd_adapter plug (\<lambda>d. d\<lparr>mSocket := None\<rparr>) w2"
    using at(1) assms(3) by (simp add: performDisconnect_def Let_def w1_def [symmetric] w2_def)
  ultimately show ?thesis
    using assms(4) by (simp add: adapters_upd_adapter 2 1 fun_upd_twist del: adapters_apply)
qed

lemma socket_of_plug:
  assumes "pairs_ok (adapters w)" "adapter_of plug w = Some d" "ad_isPlug d" "m_poPeer d = Some s"
  obtains e where "adapter_of s w = Some e" "m_poAdapterConn e = Some plug" "s \<noteq> plug" "m_poPeer e = Some plug" "\<not> ad_isPlug e"
proof -
  obtain e where e: "adapter_of s w = Some e" "m_poPeer e = Some plug" "ad_isPlug e \<noteq> ad_isPlug d"
    using pairs_okD(2) [OF assms(1) _ assms(4)] assms(2) by fastforce
  moreover have "m_poAdapterConn e = Some plug"
    using pairs_okD(1) [OF assms(1), of s e] e assms(3) by (simp add: ends_ok_def)
  moreover have "s \<noteq> plug" using e(1,3) assms(2) by auto
  ultimately show thesis using that assms(3) by blast
qed

lemma disconnect_pairs:
  assumes P: "pairs_ok (adapters w)" and "adapter_of plug w = Some d" "ad_isPlug d"
  shows "pairs_ok (adapters (snd (adapterconn_disconnect plug i n w)))"
proof (cases "\<exists>k s. getAdapter i n w = Some (k, s) \<and> fst (removeDestination \<lparr>mFB = i, mPortId = k\<rparr> (ad_dests d)) = e_RDY")
  case True
  then obtain k s where c: "getAdapter i n w = Some (k, s)" "fst (removeDestination \<lparr>mFB = i, mPortId = k\<rparr> (ad_dests d)) = e_RDY"
    by blast
  have ends: "m_poAdapterConn d = Some plug" "mSocket d = m_poPeer d" "length (ad_dests d) = (if m_poPeer d = None then 0 else 1)"
    using pairs_okD(1) [OF P, of plug d] assms(2,3) by (simp_all add: ends_ok_def)
  then obtain x s' where x: "ad_dests d = [x]" "m_poPeer d = Some s'"
    using c(2) by (cases "ad_dests d") (auto simp: removeDestination_def split: if_splits)
  then have gone: "snd (removeDestination \<lparr>mFB = i, mPortId = k\<rparr> (ad_dests d)) = []"
    using c(2) by (auto simp: removeDestination_def split: if_splits)
  define w1 where "w1 = upd_adapter plug (\<lambda>d. d\<lparr>ad_dests := []\<rparr>) w"
  obtain e where e: "adapter_of s' w = Some e" "m_poAdapterConn e = Some plug" "s' \<noteq> plug" "m_poPeer e = Some plug" "\<not> ad_isPlug e"
    using socket_of_plug [OF P assms(2,3) x(2)] by blast
  have r: "snd (adapterconn_disconnect plug i n w) = performDisconnect plug w1"
    using c gone assms(2) by (simp add: adapterconn_disconnect_def Let_def w1_def)
  have A: "adapters (performDisconnect plug w1) =
      (adapters w)(plug \<mapsto> (cut_off d)\<lparr>ad_dests := [], mSocket := None\<rparr>, s' \<mapsto> cut_off e)"
    using performDisconnect_some [of plug w1 "d\<lparr>ad_dests := []\<rparr>" s' e] assms(2,3) ends e x
    by (simp add: w1_def adapters_upd_adapter cut_off_dests del: adapters_apply)
  show ?thesis
    unfolding r A using assms(2,3) x(2) e ends by (intro pair_cut [OF P]) (auto simp: ends_ok_def)
next
  case False
  then have "adapters (snd (adapterconn_disconnect plug i n w)) = adapters w"
    using assms(2) by (auto simp: adapterconn_disconnect_def Let_def adapters_upd_adapter removeDestination_def fun_eq_iff split: option.split if_splits)
  with P show ?thesis by simp
qed

text \<open>A second plug on a socket: the connection is refused, and the cleanup cuts off the end of the socket.\<close>

lemma connect_refused:
  assumes "adapter_of plug w = Some d" "ad_isPlug d" "ad_dests d = []" "m_poPeer d = None"
    and "getAdapter i n w = Some (k, s)" "adapter_of s w = Some e" "\<not> ad_isPlug e" "isCompatible e d" "m_poPeer e = Some q"
  shows "fst (adapterconn_connect plug i n w) = e_INVALID_OBJECT"
    and "\<exists>l. adapters (snd (adapterconn_connect plug i n w)) = (adapters w)(plug \<mapsto> cut_off (linked s plug l d), s \<mapsto> cut_off e)"
proof -
  have ne: "s \<noteq> plug" using assms(1,2,6,7) by auto
  define w1 where "w1 = snd (adapter_connect plug s plug w)"
  define w2 where "w2 = snd (adapter_disconnect plug None w1)"
  define w3 where "w3 = snd (adapter_disconnect s None w2)"
  obtain l where l: "adapters w1 = (adapters w)(plug \<mapsto> linked s plug l d)"
    using adapter_connect_free(2) [OF assms(1,4)] by (auto simp: w1_def)
  have at: "adapter_of plug w1 = Some (linked s plug l d)" "adapter_of s w1 = Some e"
    using fun_cong [OF l, of s] fun_cong [OF l, of plug] ne assms(6) by simp_all
  have 2: "adapters w2 = (adapters w1)(plug \<mapsto> cut_off (linked s plug l d))"
    using adapter_disconnect_adapters [OF at(1)] by (simp add: w2_def)
  have "adapter_of s w2 = Some e"
    using fun_cong [OF 2, of s] at(2) ne by simp
  then have 3: "adapters w3 = (adapters w2)(s \<mapsto> cut_off e)"
    using adapter_disconnect_adapters by (auto simp: w3_def)
  have r: "adapterconn_connect plug i n w = (e_INVALID_OBJECT, w3)"
    using assms adapter_connect_free(1) [OF assms(1,4), of s plug] adapter_connect_busy [OF at(2) assms(9), of plug plug]
    by (simp add: adapterconn_connect_def Let_def case_prod_beta w1_def [symmetric] w2_def [symmetric] w3_def [symmetric])
  then show "fst (adapterconn_connect plug i n w) = e_INVALID_OBJECT" by simp
  show "\<exists>l. adapters (snd (adapterconn_connect plug i n w)) = (adapters w)(plug \<mapsto> cut_off (linked s plug l d), s \<mapsto> cut_off e)"
    by (intro exI [of _ l]) (simp add: r 3 2 l del: adapters_apply)
qed

lemma adapters_removed: "adapters (w\<lparr>w_fbs := (w_fbs w)(a := None)\<rparr>) = (adapters w)(a := None)"
  by (simp add: fun_eq_iff adapter_of_def)

lemma deleted_plug:
  assumes P: "pairs_ok (adapters w)" and "adapter_of plug w = Some d" "ad_isPlug d"
  shows "pairs_ok (adapters (delete_adapter plug w))"
proof -
  have ends: "m_poAdapterConn d = Some plug" "mSocket d = m_poPeer d"
    using pairs_okD(1) [OF P, of plug d] assms(2,3) by (simp_all add: ends_ok_def)
  have del: "adapters (delete_adapter plug w) = (adapters (performDisconnect plug w))(plug := None)"
    using assms(2,3) ends(1) by (simp add: delete_adapter_def Let_def adapters_removed del: adapters_apply)
  show ?thesis
  proof (cases "m_poPeer d")
    case None
    then show ?thesis
      using free_removed [OF P, of plug d None] assms(2) performDisconnect_none [OF assms(2) ends(1)] ends(2)
      by (simp add: del del: adapters_apply) simp
  next
    case (Some s)
    then obtain e where e: "adapter_of s w = Some e" "m_poAdapterConn e = Some plug" "s \<noteq> plug" "m_poPeer e = Some plug" "\<not> ad_isPlug e"
      using socket_of_plug [OF P assms(2,3)] by blast
    have A: "adapters (delete_adapter plug w) = (adapters w)(plug := None, s \<mapsto> cut_off e)"
      using performDisconnect_some [OF assms(2) ends(1) _ e(3,1,2)] ends(2) Some e(3)
      by (simp add: del fun_upd_twist del: adapters_apply)
    show ?thesis
      unfolding A using assms(2) Some e by (intro pair_cut [OF P]) (auto simp: ends_ok_def)
  qed
qed

lemma deleted_socket:
  assumes "adapter_of s w = Some e" "\<not> ad_isPlug e"
  shows "adapters (delete_adapter s w) =
    (case m_poAdapterConn e of
       None \<Rightarrow> (adapters w)(s := None)
     | Some p \<Rightarrow> (adapters w)(p := map_option (\<lambda>d. d\<lparr>mSocket := None\<rparr>) (adapter_of p w), s := None))"
  using assms by (simp add: delete_adapter_def Let_def adapters_removed adapters_upd_adapter del: adapters_apply split: option.split)

lemma deleted_free_socket:
  assumes P: "pairs_ok (adapters w)" and "adapter_of s w = Some e" "\<not> ad_isPlug e" "m_poPeer e = None"
  shows "pairs_ok (adapters (delete_adapter s w))"
proof -
  have "m_poAdapterConn e = None"
    using pairs_okD(1) [OF P, of s e] assms(2-4) by (simp add: ends_ok_def)
  then show ?thesis
    using free_removed [OF P, of s e None] assms(2,4) deleted_socket [OF assms(2,3)] by simp
qed

section \<open>Events\<close>

lemma adapters_upd_DO [simp]: "adapters (upd_DO i p x w) = adapters w"
  by (simp add: upd_DO_def adapters_upd_fb)

lemma adapters_with_timer: "with_timer f w = Some w' \<Longrightarrow> adapters w' = adapters w"
  by (auto simp: with_timer_def intro: adapters_fbs)

lemma adapters_fold: "(\<And>p v. adapters (g p v) = adapters v) \<Longrightarrow> adapters (fold g ps w) = adapters w"
  by (induction ps arbitrary: w) simp_all

lemma exec_composite_adapters: "exec_composite i e w = Some w' \<Longrightarrow> adapters w' = adapters w"
  by (auto simp: exec_composite_def sendInternal2InterfaceOutputEvent_def Let_def adapters_fold split: option.splits if_splits)

lemma adapters_set_TimeOut:
  assumes "adapter_of i w = None"
  shows "adapters (upd_fb i (\<lambda>b. b\<lparr>fb_class := N_TimeOut a\<rparr>) w) = adapters w"
  using assms by (auto simp: fun_eq_iff adapter_of_upd_fb split: option.split)

lemma sendAdapterEvent_adapters: "sendAdapterEvent i k e w = Some w' \<Longrightarrow> adapters w' = adapters w"
  by (auto simp: sendAdapterEvent_def dest: adapter_receive_adapters split: option.splits)

lemma exec_TimeOut_adapters:
  assumes "adapter_of i w = None" "exec_TimeOut b i e w = Some w'"
  shows "adapters w' = adapters w"
proof -
  have set_class: "adapters (upd_fb i (\<lambda>b. b\<lparr>fb_class := N_TimeOut a\<rparr>) v) = adapters w" if "adapters v = adapters w" for a v
  proof -
    have "adapter_of i v = None"
      using fun_cong [OF that, of i] assms(1) by simp
    then show ?thesis
      by (simp add: adapters_set_TimeOut that del: adapters_apply)
  qed
  show ?thesis
    using assms(2)
    by (auto simp: exec_TimeOut_def Let_def set_class [OF refl] dest!: sendAdapterEvent_adapters adapters_with_timer
             intro: set_class split: if_splits option.splits)
qed

lemma adapters_put_inner [simp]: "adapters (put_inner v w) = adapters w"
  by (auto simp: fun_eq_iff adapter_of_def put_inner_def with_class_def split: option.split net_class.split)

lemma exec_net_adapters:
  assumes "exec_net (lift_exec exec) i e w = Some w'"
  shows "adapters w' = adapters w"
proof (cases "adapter_of i w")
  case None
  then show ?thesis
    using assms exec_TimeOut_adapters [OF None]
    by (auto simp: exec_net_def lift_exec_def dest: exec_adapter_adapters exec_composite_adapters
             split: option.splits net_class.splits simp del: adapters_apply)
next
  case (Some d)
  then show ?thesis
    using assms by (auto simp: exec_net_def adapter_of_Some dest: exec_adapter_adapters)
qed

lemma net_deliver_adapters: "net_deliver (lift_exec exec) ev w = Some w' \<Longrightarrow> adapters w' = adapters w"
  by (auto simp: net_deliver_def dest!: adapters_receive [rotated] exec_net_adapters)

lemma transfer_fbs: "transferExternalEvents w = Some w' \<Longrightarrow> w_fbs w' = w_fbs w"
proof (induction w rule: transferExternalEvents.induct)
  case (1 s)
  show ?case
    using "1.prems" "1.IH"
    by (subst (asm) transferExternalEvents.simps) (auto split: if_splits option.splits)
qed

lemma run_iteration_adapters:
  assumes "run_iteration (net_deliver (lift_exec exec)) w = Some w'"
  shows "adapters w' = adapters w"
proof -
  have t: "transferExternalEvents v = Some v' \<Longrightarrow> adapters v' = adapters v" for v v' :: "'a net_world"
    by (rule adapters_fbs) (rule transfer_fbs)
  have r: "selfSuspend v = Some v' \<Longrightarrow> adapters v' = adapters v" for v v' :: "'a net_world"
    by (rule adapters_fbs) (auto simp: selfSuspend_def split: nat.splits)
  have d: "adapters (v\<lparr>mEventList := l\<rparr>) = adapters v" "adapters (v\<lparr>mProcessingEvents := b\<rparr>) = adapters v"
    for v :: "'a net_world" and l b
    by (rule adapters_fbs, simp)+
  show ?thesis
    using assms unfolding run_iteration_def
    by (auto simp: d simp del: adapters_apply split: option.splits if_splits dest!: t r net_deliver_adapters)
qed

text \<open>What can happen to the adapters of a resource: a new adapter, connecting a socket that is free,
  disconnecting, deleting a plug or a free socket, and the rounds of the event chain.\<close>

inductive adapter_step :: "(nat \<Rightarrow> nat \<Rightarrow> 'c world \<Rightarrow> 'c world option) \<Rightarrow> 'c net_world \<Rightarrow> 'c net_world \<Rightarrow> bool" for exec where
  create: "w_fbs w a = None \<Longrightarrow> createAdapter L d = Some b \<Longrightarrow>
    adapter_step exec w (setParentFB (Some i) k a
      (upd_fb i (\<lambda>p. p\<lparr>m_apoAdapters := (m_apoAdapters p)[k := Some a]\<rparr>) (w\<lparr>w_fbs := (w_fbs w)(a \<mapsto> b)\<rparr>)))"
| connect: "adapter_of plug w = Some d \<Longrightarrow> ad_isPlug d \<Longrightarrow>
    (\<And>k s e. getAdapter i n w = Some (k, s) \<Longrightarrow> adapter_of s w = Some e \<Longrightarrow> m_poPeer e = None) \<Longrightarrow>
    adapter_step exec w (snd (adapterconn_connect plug i n w))"
| disconnect: "adapter_of plug w = Some d \<Longrightarrow> ad_isPlug d \<Longrightarrow> adapter_step exec w (snd (adapterconn_disconnect plug i n w))"
| delete: "adapter_of a w = Some d \<Longrightarrow> ad_isPlug d \<or> m_poPeer d = None \<Longrightarrow> adapter_step exec w (delete_adapter a w)"
| round: "run_iteration (net_deliver (lift_exec exec)) w = Some w' \<Longrightarrow> adapter_step exec w w'"

inductive_cases adapter_stepE: "adapter_step exec w w'"

lemma created_adapter:
  assumes "createAdapter L d = Some b" "w_fbs w a = None"
  obtains e where "adapters (setParentFB (Some i) k a
      (upd_fb i (\<lambda>p. p\<lparr>m_apoAdapters := (m_apoAdapters p)[k := Some a]\<rparr>) (w\<lparr>w_fbs := (w_fbs w)(a \<mapsto> b)\<rparr>))) = (adapters w)(a \<mapsto> e)"
    "m_poPeer e = None" "ends_ok a e"
proof -
  obtain d0 where d0: "fb_class b = N_adapter d0" "m_poPeer d0 = None" "m_poAdapterConn d0 = None" "mSocket d0 = None" "ad_dests d0 = []"
    using assms(1) by (auto simp: createAdapter_def new_adapter_def new_FB_def Let_def split: option.splits if_splits prod.splits)
  define w1 where "w1 = upd_fb i (\<lambda>p. p\<lparr>m_apoAdapters := (m_apoAdapters p)[k := Some a]\<rparr>) (w\<lparr>w_fbs := (w_fbs w)(a \<mapsto> b)\<rparr>)"
  have w1: "adapters w1 = (adapters w)(a \<mapsto> d0)"
    unfolding w1_def by (subst adapters_upd_fb) (simp_all add: fun_eq_iff adapter_of_def d0)
  have a1: "adapter_of a w1 = Some d0"
    using fun_cong [OF w1, of a] by simp
  define e where "e = the (adapter_of a (setParentFB (Some i) k a w1))"
  have "adapters (setParentFB (Some i) k a w1) = (adapters w)(a \<mapsto> e)"
    by (simp add: e_def setParentFB_def adapters_upd_adapter w1 a1 del: adapters_apply)
  moreover have "m_poPeer e = None" "ends_ok a e"
    by (simp_all add: e_def setParentFB_def a1 Let_def d0 ends_ok_def)
  ultimately show thesis
    by (rule that [unfolded w1_def [symmetric]])
qed

lemma adapter_step_pairs: "adapter_step exec w w' \<Longrightarrow> pairs_ok (adapters w) \<Longrightarrow> pairs_ok (adapters w')"
proof (induction rule: adapter_step.induct)
  case (create w a L d b i k)
  obtain e where e: "adapters (setParentFB (Some i) k a
      (upd_fb i (\<lambda>p. p\<lparr>m_apoAdapters := (m_apoAdapters p)[k := Some a]\<rparr>) (w\<lparr>w_fbs := (w_fbs w)(a \<mapsto> b)\<rparr>))) = (adapters w)(a \<mapsto> e)"
    "m_poPeer e = None" "ends_ok a e"
    using created_adapter [OF create(2,1)] by blast
  have "adapters w a = None" using create(1) by (simp add: adapter_of_def)
  then show ?case
    unfolding e(1) using new_free [OF create(3) _ e(2,3)] by blast
next
  case (delete a w d)
  then show ?case using deleted_plug deleted_free_socket by blast
qed (auto intro: connect_pairs disconnect_pairs dest: run_iteration_adapters)

section \<open>An event passes a pair\<close>

text \<open>No breakpoint is set on the event input.\<close>

definition lets_in :: "'c fb \<Rightarrow> nat \<Rightarrow> bool" where
  "lets_in b e \<longleftrightarrow> m_enFBState b = e_RUNNING \<and> e < m_nNumEIs (fb_spec b) \<and>
     mBreakpointSet (m_nEIMonitorCount b ! e) \<noteq> eActive \<and> \<not> mBreakpointEnable (m_nEIMonitorCount b ! e)"

definition fb_received :: "'c world \<Rightarrow> 'c fb \<Rightarrow> nat \<Rightarrow> 'c fb" where
  "fb_received w b e =
     (fold (sample_DI w) (ei_with (fb_spec b) e) b)\<lparr>m_nEIMonitorCount :=
        (m_nEIMonitorCount b)[e := snd (breakpoint_step (m_stForteTime (w_timer w)) (m_nEIMonitorCount b ! e))], m_updated := True\<rparr>"

lemma fb_received_class [simp]: "fb_class (fb_received w b e) = fb_class b" for w :: "'c net_world"
  by (simp add: fb_received_def)

lemma receive_lets_in:
  assumes "w_fbs w i = Some b" "lets_in b e"
  shows "receiveInputEvent exec \<lparr>mFB = i, mPortId = e\<rparr> w = exec i e (w\<lparr>w_fbs := (w_fbs w)(i \<mapsto> fb_received w b e)\<rparr>)"
  using assms by (simp add: receiveInputEvent_def Let_def lets_in_def fb_received_def breakpoint_step_def)

lemma refresh_at: "w_fbs (refresh w) i = map_option (refresh_fb w) (w_fbs w i)"
  by (simp add: refresh_def)

lemma lets_in_refresh [simp]: "lets_in (refresh_fb w b) e = lets_in b e"
  by (simp add: refresh_fb_def lets_in_def split: net_class.split option.split)

lemma refresh_class [simp]: "fb_class (refresh_fb w b) = fb_class b"
  by (simp add: refresh_fb_def split: net_class.split option.split)

lemma share_ecet [simp]: "mEventList (share a w) = mEventList w" "mExternalEventList (share a w) = mExternalEventList w"
  by (simp_all add: share_def upd_fb_def split: option.split)

lemma refresh_ecet [simp]: "mEventList (refresh w) = mEventList w" "mExternalEventList (refresh w) = mExternalEventList w"
  "w_timer (refresh w) = w_timer w"
  by (simp_all add: refresh_def)

lemma share_at:
  "adapter_of a w = Some d \<Longrightarrow> m_poPeer d = Some p \<Longrightarrow> w_fbs w a = Some b \<Longrightarrow>
    w_fbs (share a w) = (\<lambda>j. if j = p then map_option (\<lambda>pb. pb\<lparr>m_aoDOs := m_aoDIs b\<rparr>) (w_fbs w p) else w_fbs w j)"
  by (auto simp: share_def upd_fb_def fun_eq_iff split: option.split)

lemma adapter_receive_passes:
  assumes "w_fbs w a = Some b" "fb_class b = N_adapter d" "m_poPeer d = Some p" "lets_in b e"
    and "w_fbs w p = Some pb" "fb_class pb = N_adapter dp" "m_astEventEntry dp ! e = Some ev" "p \<noteq> a"
  obtains w' where "adapter_receive \<lparr>mFB = a, mPortId = e\<rparr> w = Some w'" "mEventList w' = ring_push ev (mEventList w)"
    "map_option m_aoDOs (w_fbs w' p) = map_option m_aoDIs (w_fbs w' a)"
    "map_option m_aoDIs (w_fbs w' a) = Some (m_aoDIs (fb_received (refresh w) (refresh_fb w b) e))"
proof -
  define c where "c = fb_received (refresh w) (refresh_fb w b) e"
  define w1 where "w1 = (refresh w)\<lparr>w_fbs := (w_fbs (refresh w))(a \<mapsto> c)\<rparr>"
  have c: "fb_class c = N_adapter d" by (simp add: c_def assms(2))
  have A: "adapter_of a w1 = Some d" "adapter_of p w1 = Some dp"
    using c assms(5,6,8) by (simp_all add: adapter_of_def w1_def refresh_at)
  have r: "receiveInputEvent exec_adapter \<lparr>mFB = a, mPortId = e\<rparr> (refresh w) = Some (addEventEntry ev (share a w1))"
    using receive_lets_in [of "refresh w" a "refresh_fb w b" e exec_adapter] assms(1,3,4,7) A
    by (simp add: refresh_at w1_def c_def exec_adapter_def)
  have at: "w_fbs w1 a = Some c" "w_fbs w1 p = Some (refresh_fb w pb)"
    using assms(5,8) by (simp_all add: w1_def refresh_at)
  define w2 where "w2 = addEventEntry ev (share a w1)"
  have A2: "adapter_of a w2 = Some d" "w_fbs w2 a = Some c"
    using share_at [OF A(1) assms(3) at(1)] assms(8) c at by (simp_all add: w2_def adapter_of_def)
  have "adapter_receive \<lparr>mFB = a, mPortId = e\<rparr> w = Some (share a w2)"
    by (simp add: adapter_receive_def r w2_def)
  moreover have "w_fbs (share a w2) a = Some c" "map_option m_aoDOs (w_fbs (share a w2) p) = Some (m_aoDIs c)"
    using share_at [OF A2(1) assms(3) A2(2)] share_at [OF A(1) assms(3) at(1)] A2(2) at assms(8) by (auto simp: w2_def)
  ultimately show thesis
    by (intro that [of "share a w2"]) (simp_all add: w2_def w1_def addEventEntry_def c_def)
qed

lemma sendAdapterEvent_eq:
  "w_fbs w i = Some ib \<Longrightarrow> m_apoAdapters ib ! k = Some a \<Longrightarrow>
    sendAdapterEvent i k e w = adapter_receive \<lparr>mFB = a, mPortId = e\<rparr> w"
  by (simp add: sendAdapterEvent_def)

lemma exec_TimeOut_start:
  assumes "w_fbs w i = Some b" "m_apoAdapters b ! 0 = Some s" "adapter_of s w = Some d"
    and "e = m_nParentAdapterListEventID d" "e \<noteq> cg_nExternalEventID"
    and "registerTimedFB i (op_int64 (DO s 0 w)) (w_timer w) = Some t"
  shows "exec_TimeOut False i e w = Some (upd_fb i (\<lambda>b. b\<lparr>fb_class := N_TimeOut True\<rparr>) (w\<lparr>w_timer := t\<rparr>))"
  using assms by (simp add: exec_TimeOut_def Let_def on_fb_def with_timer_def)

lemma adapter_receive_keeps:
  assumes "w_fbs w a = Some b" "fb_class b = N_adapter d" "m_poPeer d = Some p" "lets_in b e" "adapter_of p w = Some dp"
    "m_astEventEntry dp ! e = Some ev" "p \<noteq> a" "adapter_receive \<lparr>mFB = a, mPortId = e\<rparr> w = Some w'"
  shows "w_timer w' = w_timer w" "j \<noteq> a \<Longrightarrow> j \<noteq> p \<Longrightarrow> w_fbs w' j = w_fbs (refresh w) j"
proof -
  obtain pb where pb: "w_fbs w p = Some pb" "fb_class pb = N_adapter dp"
    using assms(5) by (auto simp: adapter_of_Some)
  define w1 where "w1 = (refresh w)\<lparr>w_fbs := (w_fbs (refresh w))(a \<mapsto> fb_received (refresh w) (refresh_fb w b) e)\<rparr>"
  have A: "adapter_of a w1 = Some d" "adapter_of p w1 = Some dp"
    using assms(2,7) pb by (simp_all add: adapter_of_def w1_def refresh_at)
  have s: "w_timer (share a v) = w_timer v" "w_fbs v a = Some x \<Longrightarrow> fb_class x = N_adapter d \<Longrightarrow> j \<noteq> p \<Longrightarrow> w_fbs (share a v) j = w_fbs v j"
    for v :: "'a net_world" and x j
    using assms(3) by (simp_all add: share_def upd_fb_def adapter_of_def split: option.split)
  have w1a: "w_fbs w1 a = Some (fb_received (refresh w) (refresh_fb w b) e)" by (simp add: w1_def)
  have r: "adapter_receive \<lparr>mFB = a, mPortId = e\<rparr> w = Some (share a (addEventEntry ev (share a w1)))"
    using receive_lets_in [of "refresh w" a "refresh_fb w b" e exec_adapter] assms(1,3,4,6) A
    by (simp add: refresh_at w1_def exec_adapter_def adapter_receive_def)
  have s1: "w_fbs (addEventEntry ev (share a w1)) a = Some (fb_received (refresh w) (refresh_fb w b) e)"
    using s(2) [OF w1a _ assms(7) [symmetric]] assms(2) w1a by simp
  show "w_timer w' = w_timer w"
    using assms(8) by (auto simp: r s(1) w1_def addEventEntry_def)
  show "w_fbs w' j = w_fbs (refresh w) j" if "j \<noteq> a" "j \<noteq> p"
    using assms(8) s(2) [OF s1 _ that(2)] s(2) [OF w1a _ that(2)] assms(2) that(1) by (auto simp: r w1_def)
qed


section \<open>Properties\<close>


text \<open>
  C36. A plug that asks for a socket which is taken is refused with INVALID_OBJECT, but the cleanup cuts the
  socket off its own peer all the same: the peer still refers to the socket, so the pair is broken.
\<close>

theorem refused_adapter_connect_cuts_peer:
  assumes "pairs_ok (adapters w)" "adapter_of plug w = Some d" "ad_isPlug d" "m_poPeer d = None"
    and "getAdapter i n w = Some (k, s)" "adapter_of s w = Some e" "\<not> ad_isPlug e" "isCompatible e d" "m_poPeer e = Some q"
  shows "fst (adapterconn_connect plug i n w) = e_INVALID_OBJECT \<and>
    map_option m_poPeer (adapter_of s (snd (adapterconn_connect plug i n w))) = Some None \<and>
    map_option m_poPeer (adapter_of q (snd (adapterconn_connect plug i n w))) = Some (Some s) \<and>
    \<not> pairs_ok (adapters (snd (adapterconn_connect plug i n w)))"
proof -
  define v where "v = snd (adapterconn_connect plug i n w)"
  have "ad_dests d = []"
    using pairs_okD(1) [OF assms(1), of plug d] assms(2-4) by (simp add: ends_ok_def)
  note ref = connect_refused [OF assms(2,3) this assms(4-9)]
  obtain l where A: "adapters v = (adapters w)(plug \<mapsto> cut_off (linked s plug l d), s \<mapsto> cut_off e)"
    using ref(2) by (auto simp: v_def)
  obtain f where f: "adapter_of q w = Some f" "m_poPeer f = Some s" "ad_isPlug f"
    using pairs_okD(2) [OF assms(1) _ assms(9)] assms(6,7) by fastforce
  have "q \<noteq> plug" "q \<noteq> s"
    using f assms(2,4,6,7) by auto
  then have at: "adapter_of s v = Some (cut_off e)" "adapter_of q v = Some f"
    using fun_cong [OF A, of s] fun_cong [OF A, of q] f by simp_all
  then have "\<not> pairs_ok (adapters v)"
    using pairs_okD(2) [of "adapters v" q f s] f(2) by auto
  with ref(1) at f(2) show ?thesis
    by (simp add: v_def [symmetric])
qed

text \<open>
  When the socket of a pair is deleted, its plug is not told: it keeps the deleted socket as its peer, and
  the next event that arrives at the plug uses it.
\<close>

theorem deleted_socket_leaves_dangling_plug:
  assumes "pairs_ok (adapters w)" "adapter_of s w = Some e" "\<not> ad_isPlug e" "m_poPeer e = Some plug"
  shows "map_option m_poPeer (adapter_of plug (delete_adapter s w)) = Some (Some s) \<and>
    adapter_of s (delete_adapter s w) = None \<and> exec_adapter plug ei (delete_adapter s w) = None"
proof -
  obtain d where d: "adapter_of plug w = Some d" "m_poPeer d = Some s" "ad_isPlug d"
    using pairs_okD(2) [OF assms(1) _ assms(4)] assms(2,3) by fastforce
  have "plug \<noteq> s" using d assms(2,3) by auto
  moreover have "m_poAdapterConn e = Some plug"
    using pairs_okD(1) [OF assms(1), of s e] assms(2-4) by (simp add: ends_ok_def)
  ultimately have "adapters (delete_adapter s w) = (adapters w)(plug \<mapsto> d\<lparr>mSocket := None\<rparr>, s := None)"
    using deleted_socket [OF assms(2,3)] d(1) by simp
  from fun_cong [OF this, of plug] fun_cong [OF this, of s] \<open>plug \<noteq> s\<close> d(2)
  show ?thesis by (simp add: exec_adapter_def)
qed

text \<open>
  C16. A block that sends \<open>START\<close> through its plug to a connected \<open>E_TimeOut\<close> puts the event into the chain for
  that block, and when the chain delivers it, the timer of the block is armed with the time that the
  block at the plug has given.
\<close>

theorem start_passes_the_adapter:
  assumes "w_fbs w j = Some jb" "m_apoAdapters jb ! k = Some a"
    and "w_fbs w a = Some b" "fb_class b = N_adapter d" "m_poPeer d = Some s" "lets_in b 0"
    and "adapter_of s w = Some ds" "m_astEventEntry ds ! 0 = Some \<lparr>mFB = i, mPortId = 256\<rparr>" "m_nParentAdapterListEventID ds = 256"
    and "w_fbs w i = Some ib" "fb_class ib = N_TimeOut False" "m_enFBState ib = e_RUNNING" "m_nNumEIs (fb_spec ib) = 0"
    and "m_apoAdapters ib ! 0 = Some s"
    and "distinct [i, a, s]" "m_aoDIs (fb_received (refresh w) (refresh_fb w b) 0) = [x]"
    and "registerTimedFB i (op_int64 (dp_val x)) (w_timer w) = Some t"
  shows "\<exists>w1 w2. sendAdapterEvent j k 0 w = Some w1 \<and> mEventList w1 = ring_push \<lparr>mFB = i, mPortId = 256\<rparr> (mEventList w) \<and>
    net_deliver inner \<lparr>mFB = i, mPortId = 256\<rparr> w1 = Some w2 \<and> w_timer w2 = t \<and>
    map_option fb_class (w_fbs w2 i) = Some (N_TimeOut True)"
proof -
  obtain sb where sb: "w_fbs w s = Some sb" "fb_class sb = N_adapter ds"
    using assms(7) by (auto simp: adapter_of_Some)
  have ne: "s \<noteq> a" "i \<noteq> a" "i \<noteq> s" using assms(15) by auto
  obtain w1 where w1: "adapter_receive \<lparr>mFB = a, mPortId = 0\<rparr> w = Some w1"
    "mEventList w1 = ring_push \<lparr>mFB = i, mPortId = 256\<rparr> (mEventList w)"
    "map_option m_aoDOs (w_fbs w1 s) = map_option m_aoDIs (w_fbs w1 a)"
    "map_option m_aoDIs (w_fbs w1 a) = Some [x]"
    using adapter_receive_passes [OF assms(3-6) sb assms(8) ne(1)] assms(16) by metis
  note keep = adapter_receive_keeps [OF assms(3-6) assms(7,8) ne(1) w1(1)]
  have i1: "w_fbs w1 i = Some ib"
    using keep(2) [OF ne(2,3)] assms(10,11) by (simp add: refresh_at refresh_fb_def)
  have s1: "adapter_of s w1 = Some ds"
    using fun_cong [OF adapter_receive_adapters [OF w1(1)], of s] assms(7) by simp
  define v where "v = refresh w1"
  have v: "w_fbs v i = Some ib" "w_timer v = w_timer w"
    using i1 assms(11) keep(1) by (simp_all add: v_def refresh_at refresh_fb_def)
  have sv: "adapter_of s v = Some ds"
    using s1 by (simp add: v_def)
  have DO: "DO s 0 v = dp_val x"
    using w1(3,4) s1 by (auto simp: v_def DO_def refresh_at refresh_fb_def adapter_of_Some split: option.split)
  define w2 where "w2 = upd_fb i (\<lambda>b. b\<lparr>fb_class := N_TimeOut True\<rparr>) (v\<lparr>w_timer := t\<rparr>)"
  have "exec_TimeOut False i 256 v = Some w2"
    unfolding w2_def using exec_TimeOut_start [OF v(1) assms(14) sv, of 256] assms(9,17) DO v(2)
    by (simp add: cg_nExternalEventID_def)
  then have "net_deliver inner \<lparr>mFB = i, mPortId = 256\<rparr> w1 = Some (share i w2)"
    using v(1) assms(11-13) by (simp add: net_deliver_def receiveInputEvent_def exec_net_def v_def [symmetric])
  moreover have "share i w2 = w2"
    using v(1) by (simp add: share_def w2_def adapter_of_upd_fb)
  moreover have "w_timer w2 = t" "map_option fb_class (w_fbs w2 i) = Some (N_TimeOut True)"
    using v(1) by (simp_all add: w2_def upd_fb_def)
  ultimately show ?thesis
    using w1(1,2) sendAdapterEvent_eq [OF assms(1,2)] by auto
qed


section \<open>The properties at a concrete resource\<close>

text \<open>Block 0 is an \<open>E_TimeOut\<close> with the socket 1; blocks 2 and 4 have the plugs 3 and 5, and 3 is connected.\<close>

definition end_block :: "nat \<Rightarrow> bool \<Rightarrow> nat \<Rightarrow> nat option \<Rightarrow> fb_class_data net_class fb" where
  "end_block a plug parent q =
     (the (new_adapter [(''TIME'', Elem e_TIME 4000000)] ATimeOut_socket ATimeOut_plug ''ATimeOut'' ''TimeOutSocket'' plug))
       \<lparr>m_enFBState := e_RUNNING,
        fb_class := N_adapter \<lparr>ad_type = ''ATimeOut'', ad_isPlug = plug, m_nParentAdapterListEventID = 256, m_poPeer = q,
          m_aoLocalDIs = [], m_poAdapterConn = (if plug then Some a else q),
          m_astEventEntry = map (\<lambda>e. Some \<lparr>mFB = parent, mPortId = 256 + e\<rparr>) (if plug then [0] else [0, 1]),
          mSocket = (if plug then q else None), ad_dests = (if plug \<and> q \<noteq> None then [\<lparr>mFB = 0, mPortId = 0\<rparr>] else [])\<rparr>\<rparr>"

definition owner_block :: "fb_class_data net_class \<Rightarrow> nat \<Rightarrow> fb_class_data net_class fb" where
  "owner_block c a = (the (new_FB [] E_TimeOut_spec ''T'' c))\<lparr>m_enFBState := e_RUNNING, m_apoAdapters := [Some a]\<rparr>"

definition timeout_net :: "fb_class_data net_world" where
  "timeout_net =
     \<lparr>mEventList = ring_clear 4, mExternalEventList = ring_clear 4, mProcessingEvents = True, mSuspendSemaphore = 0,
      mAlive = True,
      w_fbs = [0 \<mapsto> owner_block (N_TimeOut False) 1, 1 \<mapsto> end_block 1 False 0 (Some 3),
        2 \<mapsto> owner_block (N_inner C_E_SPLIT) 3, 3 \<mapsto> end_block 3 True 2 (Some 1),
        4 \<mapsto> owner_block (N_inner C_E_SPLIT) 5, 5 \<mapsto> end_block 5 True 4 None],
      w_timer = ev_timer, w_platform = plain_platform, w_com = com_start\<rparr>"

lemma owner_block_simps [simp]:
  "fb_class (owner_block c a) = c" "m_apoAdapters (owner_block c a) = [Some a]" "m_enFBState (owner_block c a) = e_RUNNING"
  "fb_spec (owner_block c a) = E_TimeOut_spec"
  by (simp_all add: owner_block_def new_FB_def E_TimeOut_spec_def timeout_spec_def no_data_spec_def)

lemma end_block_simps [simp]:
  "m_enFBState (end_block a plug i q) = e_RUNNING" "m_nFBInstanceName (end_block a plug i q) = ''TimeOutSocket''"
  "fb_spec (end_block a plug i q) = (if plug then ATimeOut_plug else ATimeOut_socket)"
  "m_apoDIConns (end_block a True i q) = [None]" "m_nEIMonitorCount (end_block a True i q) = [monitor_init, monitor_init]"
  "m_aoDOs (end_block a False i q) = [\<lparr>dp_val = Elem e_TIME 4000000, dp_forced = False\<rparr>]"
  by (simp_all add: end_block_def new_adapter_def new_FB_def ATimeOut_plug_def ATimeOut_socket_def adapter_spec_def createDataPoint_def
      eval_nat_numeral)

lemma end_block_class [simp]: "fb_class (end_block a plug parent q) =
    N_adapter \<lparr>ad_type = ''ATimeOut'', ad_isPlug = plug, m_nParentAdapterListEventID = 256, m_poPeer = q,
      m_aoLocalDIs = [], m_poAdapterConn = (if plug then Some a else q),
      m_astEventEntry = map (\<lambda>e. Some \<lparr>mFB = parent, mPortId = 256 + e\<rparr>) (if plug then [0] else [0, 1]),
      mSocket = (if plug then q else None), ad_dests = (if plug \<and> q \<noteq> None then [\<lparr>mFB = 0, mPortId = 0\<rparr>] else [])\<rparr>"
  by (simp add: end_block_def)

lemma plug_EI_with: "ei_with ATimeOut_plug 0 = [0]"
  by code_simp

lemma timeout_net_fbs [simp]:
  "w_fbs timeout_net = [0 \<mapsto> owner_block (N_TimeOut False) 1, 1 \<mapsto> end_block 1 False 0 (Some 3),
     2 \<mapsto> owner_block (N_inner C_E_SPLIT) 3, 3 \<mapsto> end_block 3 True 2 (Some 1),
     4 \<mapsto> owner_block (N_inner C_E_SPLIT) 5, 5 \<mapsto> end_block 5 True 4 None]"
  by (simp add: timeout_net_def)

lemma timeout_net_at: "adapters timeout_net =
    [1 \<mapsto> the (adapter_of 1 timeout_net), 3 \<mapsto> the (adapter_of 3 timeout_net), 5 \<mapsto> the (adapter_of 5 timeout_net)]"
  by (auto simp: fun_eq_iff adapter_of_def)

lemma timeout_net_ends:
  "\<exists>d. adapter_of 1 timeout_net = Some d \<and> \<not> ad_isPlug d \<and> m_poPeer d = Some 3 \<and> ad_type d = ''ATimeOut'' \<and>
     m_poAdapterConn d = Some 3 \<and> m_astEventEntry d = [Some \<lparr>mFB = 0, mPortId = 256\<rparr>, Some \<lparr>mFB = 0, mPortId = 257\<rparr>] \<and>
     m_nParentAdapterListEventID d = 256"
  "\<exists>d. adapter_of 3 timeout_net = Some d \<and> ad_isPlug d \<and> m_poPeer d = Some 1 \<and> ad_type d = ''ATimeOut'' \<and>
     m_poAdapterConn d = Some 3 \<and> mSocket d = Some 1 \<and> length (ad_dests d) = 1"
  "\<exists>d. adapter_of 5 timeout_net = Some d \<and> ad_isPlug d \<and> m_poPeer d = None \<and> ad_type d = ''ATimeOut'' \<and>
     m_poAdapterConn d = Some 5 \<and> mSocket d = None \<and> ad_dests d = []"
  by (simp_all add: adapter_of_def)

lemma timeout_net_pairs: "pairs_ok (adapters timeout_net)"
proof -
  obtain d1 d3 d5 where d: "adapter_of 1 timeout_net = Some d1" "adapter_of 3 timeout_net = Some d3" "adapter_of 5 timeout_net = Some d5"
    and d1: "\<not> ad_isPlug d1" "m_poPeer d1 = Some 3" "ad_type d1 = ''ATimeOut''" "m_poAdapterConn d1 = Some 3"
    and d3: "ad_isPlug d3" "m_poPeer d3 = Some 1" "ad_type d3 = ''ATimeOut''" "m_poAdapterConn d3 = Some 3" "mSocket d3 = Some 1"
      "length (ad_dests d3) = 1"
    and d5: "ad_isPlug d5" "m_poPeer d5 = None" "m_poAdapterConn d5 = Some 5" "mSocket d5 = None" "ad_dests d5 = []"
    using timeout_net_ends by blast
  have "adapters timeout_net = [1 \<mapsto> d1, 3 \<mapsto> d3, 5 \<mapsto> d5]"
    by (subst timeout_net_at) (simp only: d option.sel)
  then show ?thesis
    using d1 d3 d5 by (simp add: pairs_ok_def ends_ok_def isCompatible_def)
qed

lemma timeout_net_socket: "getAdapter 0 ''TimeOutSocket'' timeout_net = Some (0, 1)"
  by (simp add: getAdapter_def fb_name_def)


theorem refused_adapter_connect_cuts_peer_witness:
  "fst (adapterconn_connect 5 0 ''TimeOutSocket'' timeout_net) = e_INVALID_OBJECT \<and>
   map_option m_poPeer (adapter_of 3 (snd (adapterconn_connect 5 0 ''TimeOutSocket'' timeout_net))) = Some (Some 1)"
proof -
  obtain d where "adapter_of 5 timeout_net = Some d" "ad_isPlug d" "m_poPeer d = None" "ad_type d = ''ATimeOut''"
    using timeout_net_ends(3) by blast
  moreover obtain e where "adapter_of 1 timeout_net = Some e" "\<not> ad_isPlug e" "m_poPeer e = Some 3" "ad_type e = ''ATimeOut''"
    using timeout_net_ends(1) by blast
  ultimately show ?thesis
    using refused_adapter_connect_cuts_peer [OF timeout_net_pairs _ _ _ timeout_net_socket, of 5 d e 3]
    by (simp add: isCompatible_def)
qed

theorem deleted_socket_leaves_dangling_plug_witness:
  "map_option m_poPeer (adapter_of 3 (delete_adapter 1 timeout_net)) = Some (Some 1) \<and>
   exec_adapter 3 0 (delete_adapter 1 timeout_net) = None"
proof -
  obtain e where "adapter_of 1 timeout_net = Some e" "\<not> ad_isPlug e" "m_poPeer e = Some 3"
    using timeout_net_ends(1) by blast
  then show ?thesis
    using deleted_socket_leaves_dangling_plug [OF timeout_net_pairs, of 1 e 3 0] by simp
qed

theorem start_passes_the_adapter_witness:
  "\<exists>w1 w2. sendAdapterEvent 2 0 0 timeout_net = Some w1 \<and> net_deliver (lift_exec exec_event) \<lparr>mFB = 0, mPortId = 256\<rparr> w1 = Some w2 \<and>
    m_pstTimedFBList (w_timer w2) = Some 0 \<and> map_option fb_class (w_fbs w2 0) = Some (N_TimeOut True)"
proof -
  obtain d where d: "adapter_of 3 timeout_net = Some d" "m_poPeer d = Some 1"
    using timeout_net_ends(2) by blast
  have b: "w_fbs timeout_net 3 = Some (end_block 3 True 2 (Some 1))" by simp
  have c: "fb_class (end_block 3 True 2 (Some 1)) = N_adapter d"
    using d(1) b by (auto simp: adapter_of_Some)
  obtain e where e: "adapter_of 1 timeout_net = Some e" "m_astEventEntry e ! 0 = Some \<lparr>mFB = 0, mPortId = 256\<rparr>"
    "m_nParentAdapterListEventID e = 256"
    using timeout_net_ends(1) by fastforce
  have in0: "lets_in (end_block 3 True 2 (Some 1)) 0"
    by (simp add: lets_in_def ATimeOut_plug_def adapter_spec_def monitor_init_def)
  have "w_fbs timeout_net 1 = Some (end_block 1 False 0 (Some 3))" by simp
  then have "refresh_fb timeout_net (end_block 3 True 2 (Some 1)) =
      (end_block 3 True 2 (Some 1))\<lparr>m_aoDIs := [\<lparr>dp_val = Elem e_TIME 4000000, dp_forced = False\<rparr>]\<rparr>"
    unfolding refresh_fb_def c by (simp add: d(2))
  then have DI: "m_aoDIs (fb_received (refresh timeout_net) (refresh_fb timeout_net (end_block 3 True 2 (Some 1))) 0) =
      [\<lparr>dp_val = Elem e_TIME 4000000, dp_forced = False\<rparr>]"
    by (simp add: fb_received_def plug_EI_with sample_DI_def)
  obtain t where t: "registerTimedFB 0 (op_int64 (Elem e_TIME 4000000)) (w_timer timeout_net) = Some t" "m_pstTimedFBList t = Some 0"
    by (simp add: registerTimedFB_def addTimedFBEntry_def Let_def timeout_net_def ev_timer_def)
  have "w_fbs timeout_net 2 = Some (owner_block (N_inner C_E_SPLIT) 3)" "w_fbs timeout_net 0 = Some (owner_block (N_TimeOut False) 1)"
    by simp_all
  from start_passes_the_adapter [OF this(1) _ b c d(2) in0 e this(2) _ _ _ _ _ DI, of 0 t "lift_exec exec_event"] t
  show ?thesis
    by (fastforce simp: E_TimeOut_spec_def timeout_spec_def no_data_spec_def)
qed

end
