(* ===== verification/Composite_Laws.thy ===== *)
theory Composite_Laws
  imports Adapter_Laws Comm_Frame
begin

text \<open>
  What composite function blocks promise: their network is wired as their type declares it, events and data
  pass their interface, the blocks inside share their execution state, and the event chain of a resource with
  adapters and composites has the properties of the plain one; and where the search for blocks goes wrong.
\<close>

section \<open>The event chain of a network\<close>

lemma only_posts_lists:
  "only_posts w v \<Longrightarrow> mEventList v' = mEventList v \<Longrightarrow> mExternalEventList v' = mExternalEventList v \<Longrightarrow> only_posts w v'"
  by (simp add: only_posts_def)

lemma posts_upd_fb: "only_posts w v \<Longrightarrow> only_posts w (upd_fb i f v)"
  by (erule only_posts_lists) (simp_all add: upd_fb_def split: option.split)

lemma only_posts_refresh: "only_posts w v \<Longrightarrow> only_posts w (refresh v)"
  by (erule only_posts_lists) simp_all

lemma only_posts_share: "only_posts w v \<Longrightarrow> only_posts w (share a v)"
  by (erule only_posts_lists) simp_all

lemma only_posts_timer: "only_posts w v \<Longrightarrow> only_posts w (v\<lparr>w_timer := t\<rparr>)"
  by (erule only_posts_lists) simp_all

lemma exec_adapter_only_posts: "exec_adapter a e w = Some w' \<Longrightarrow> only_posts w w'"
  by (auto simp: exec_adapter_def Let_def split: option.splits
      intro!: only_posts_share only_posts_refresh only_posts_refl
      intro: only_posts_trans [OF only_posts_share [OF only_posts_refl] only_posts_add]
        only_posts_trans [OF only_posts_share [OF only_posts_refl] sendOutputEvent_only_posts])

lemma adapter_receive_only_posts: "adapter_receive ev w = Some w' \<Longrightarrow> only_posts w w'"
  by (auto simp: adapter_receive_def intro!: only_posts_share
      intro: only_posts_trans [OF only_posts_refresh [OF only_posts_refl]
        receiveInputEvent_only_posts [OF exec_adapter_only_posts]])

lemma upd_DO_only_posts: "only_posts w v \<Longrightarrow> only_posts w (upd_DO i p f v)"
  by (simp add: upd_DO_def posts_upd_fb)

lemma fold_only_posts:
  assumes "\<And>x v. only_posts w v \<Longrightarrow> only_posts w (f x v)" "only_posts w v"
  shows "only_posts w (fold f xs v)"
  using assms(2) by (induction xs arbitrary: v) (auto intro: assms(1))

lemma only_posts_send: "only_posts w v \<Longrightarrow> only_posts w (sendOutputEvent i e v)"
  by (rule only_posts_trans [OF _ sendOutputEvent_only_posts])

lemma only_posts_trigger: "only_posts w v \<Longrightarrow> only_posts w (triggerEvent ds v)"
  unfolding triggerEvent_def by (rule fold_only_posts) (auto intro: only_posts_trans [OF _ only_posts_add])

lemma exec_composite_only_posts: "exec_composite i e w = Some w' \<Longrightarrow> only_posts w w'"
  by (auto simp: exec_composite_def sendInternal2InterfaceOutputEvent_def Let_def split: option.splits if_splits
      intro!: only_posts_send only_posts_trigger fold_only_posts upd_DO_only_posts only_posts_refl)

lemma sendAdapterEvent_only_posts: "only_posts w v \<Longrightarrow> sendAdapterEvent i k e v = Some w' \<Longrightarrow> only_posts w w'"
  by (auto simp: sendAdapterEvent_def split: option.splits intro: only_posts_trans [OF _ adapter_receive_only_posts])

lemma exec_TimeOut_only_posts: "exec_TimeOut b i e w = Some w' \<Longrightarrow> only_posts w w'"
  by (auto simp: exec_TimeOut_def with_timer_def Let_def split: if_splits option.splits
      intro!: posts_upd_fb only_posts_timer only_posts_refl
      intro: sendAdapterEvent_only_posts [OF posts_upd_fb [OF only_posts_refl]])

lemma lift_exec_only_posts:
  assumes "\<And>i e v v'. exec i e v = Some v' \<Longrightarrow> only_posts v v'" "lift_exec exec i e w = Some w'"
  shows "only_posts w w'"
  using assms(2) by (auto simp: lift_exec_def only_posts_def put_inner_def inner_part_def dest!: assms(1))

lemma exec_net_only_posts:
  assumes "\<And>i e v v'. exec i e v = Some v' \<Longrightarrow> only_posts v v'" "exec_net (lift_exec exec) i e w = Some w'"
  shows "only_posts w w'"
proof -
  have "only_posts w w'" if "lift_exec exec i e w = Some w'"
    using that by (rule lift_exec_only_posts [rotated]) (rule assms(1))
  with assms(2) show ?thesis
    by (auto simp: exec_net_def split: option.splits net_class.splits
        dest: exec_adapter_only_posts exec_composite_only_posts exec_TimeOut_only_posts intro: only_posts_refl)
qed

lemma net_deliver_only_posts:
  assumes "\<And>i e v v'. exec i e v = Some v' \<Longrightarrow> only_posts v v'" "net_deliver (lift_exec exec) ev w = Some w'"
  shows "only_posts w w'"
  using assms(2)
  by (auto simp: net_deliver_def intro!: only_posts_share
      intro: only_posts_trans [OF only_posts_refresh [OF only_posts_refl]
        receiveInputEvent_only_posts [OF exec_net_only_posts [OF assms(1)]]])

interpretation net_events: event_receiver "net_deliver (lift_exec exec_event)"
  by unfold_locales (rule net_deliver_only_posts [OF event_fbs.exec_only_posts])

interpretation net_comm: event_receiver "net_deliver (lift_exec exec_CCommFB)"
  by unfold_locales (rule net_deliver_only_posts [OF comm_fbs.exec_only_posts])

section \<open>Event connections of a network\<close>

text \<open>What a connection of the network leads from and to, and the connections that a type declares.\<close>

definition conn_source :: "nat \<Rightarrow> 'c net_world \<Rightarrow> SCFB_FBConnectionData \<Rightarrow> (nat \<times> nat) option" where
  "conn_source i w c =
     (case (getFunctionBlock i (m_nSrcFBNum c) w, getFunctionBlock i (m_nDstFBNum c) w) of
        (Some s, Some d) \<Rightarrow> event_source i s (m_nSrcId c) w
      | _ \<Rightarrow> None)"

definition event_target :: "nat \<Rightarrow> 'c net_world \<Rightarrow> nat \<Rightarrow> TStringId \<Rightarrow> conn_point option" where
  "event_target i w d n =
     (case w_fbs w d of
        None \<Rightarrow> None
      | Some b \<Rightarrow>
          let p = getPortId n (if d = i then m_aunEONames (fb_spec b) else m_aunEINames (fb_spec b))
          in if p = cg_nInvalidEventID then None
             else Some \<lparr>mFB = d, mPortId = if d = i then p OR cgInternal2InterfaceMarker else p\<rparr>)"

definition conn_target :: "nat \<Rightarrow> 'c net_world \<Rightarrow> int \<Rightarrow> TStringId \<Rightarrow> conn_point option" where
  "conn_target i w num n = Option.bind (getFunctionBlock i num w) (\<lambda>d. event_target i w d n)"

definition declared :: "nat \<Rightarrow> SCFB_FBNData \<Rightarrow> 'c net_world \<Rightarrow> nat \<times> nat \<Rightarrow> conn_point set" where
  "declared i net w sp =
     {x. (\<exists>c \<in> set (m_pstEventConnections net). conn_source i w c = Some sp \<and> conn_target i w (m_nDstFBNum c) (m_nDstId c) = Some x) \<or>
         (\<exists>f \<in> set (m_pstFannedOutEventConnections net). m_nConnectionNum f < length (m_pstEventConnections net) \<and>
            conn_source i w (m_pstEventConnections net ! m_nConnectionNum f) = Some sp \<and>
            conn_target i w (fo_DstFBNum f) (fo_DstId f) = Some x)}"

text \<open>The receivers of an event output.\<close>

definition receivers :: "'c net_world \<Rightarrow> nat \<times> nat \<Rightarrow> conn_point set" where
  "receivers w sp =
     (case w_fbs w (fst sp) of
        None \<Rightarrow> {}
      | Some b \<Rightarrow> if snd sp < length (mEOConns b) then set (mEOConns b ! snd sp) else {})"

text \<open>What connecting leaves alone, and room for the connections.\<close>

definition net_layout :: "'c net_world \<Rightarrow> nat \<Rightarrow> (SFBInterfaceSpec \<times> nat option list \<times> 'c net_class) option" where
  "net_layout w = (\<lambda>j. map_option (\<lambda>b. (fb_spec b, m_apoAdapters b, fb_class b)) (w_fbs w j))"

definition roomy :: "nat \<Rightarrow> 'c net_world \<Rightarrow> bool" where
  "roomy i w \<longleftrightarrow> (\<forall>j b. w_fbs w j = Some b \<longrightarrow>
     m_nNumEOs (fb_spec b) + (if j = i then m_nNumEIs (fb_spec b) else 0) \<le> length (mEOConns b))"

lemma layout_same:
  assumes "net_layout w' = net_layout w"
  shows "getFunctionBlock i num w' = getFunctionBlock i num w" "event_source i j n w' = event_source i j n w"
    "event_target i w' d n = event_target i w d n" "conn_source i w' c = conn_source i w c"
    "conn_target i w' num n = conn_target i w num n"
proof -
  have at: "map_option (\<lambda>b. (fb_spec b, m_apoAdapters b, fb_class b)) (w_fbs w' j) =
      map_option (\<lambda>b. (fb_spec b, m_apoAdapters b, fb_class b)) (w_fbs w j)" for j
    using fun_cong [OF assms, of j] by (simp add: net_layout_def)
  have "composite_of i w' = composite_of i w"
    using at [of i] by (cases "w_fbs w i"; cases "w_fbs w' i") (auto simp: composite_of_def split: option.splits)
  then show f: "getFunctionBlock i num w' = getFunctionBlock i num w" for num
    using at [of i] by (cases "w_fbs w i"; cases "w_fbs w' i") (auto simp: getFunctionBlock_def Let_def split: option.splits)
  show s: "event_source i j n w' = event_source i j n w" for j n
    using at [of j] by (cases "w_fbs w j"; cases "w_fbs w' j") (auto simp: event_source_def Let_def split: option.splits)
  show t: "event_target i w' d n = event_target i w d n" for d n
    using at [of d] by (cases "w_fbs w d"; cases "w_fbs w' d") (auto simp: event_target_def Let_def split: option.splits)
  show "conn_source i w' c = conn_source i w c" "conn_target i w' num n = conn_target i w num n"
    by (simp_all add: conn_source_def conn_target_def f s t split: option.split)
qed

lemma event_source_room:
  assumes "roomy i w" "event_source i j n w = Some sp"
  obtains b where "w_fbs w (fst sp) = Some b" "snd sp < length (mEOConns b)"
  using assms by (fastforce simp: event_source_def roomy_def Let_def split: option.splits if_splits)

lemma set_addDestination: "set (snd (addDestination d ds)) = insert d (set ds)"
  by (auto simp: addDestination_def)

lemma upd_eo_effect:
  assumes "w_fbs w (fst sp) = Some b" "snd sp < length (mEOConns b)"
  shows "net_layout (upd_eo_conn sp (\<lambda>_. ds) w) = net_layout w"
    and "receivers (upd_eo_conn sp (\<lambda>_. ds) w) = (receivers w)(sp := set ds)"
    and "roomy i (upd_eo_conn sp (\<lambda>_. ds) w) = roomy i w"
proof -
  obtain j p where sp: "sp = (j, p)" by fastforce
  have u: "upd_eo_conn sp (\<lambda>_. ds) w = w\<lparr>w_fbs := (w_fbs w)(j \<mapsto> b\<lparr>mEOConns := (mEOConns b)[p := ds]\<rparr>)\<rparr>"
    using assms(1) by (simp add: upd_eo_conn_def upd_fb_def sp)
  show "net_layout (upd_eo_conn sp (\<lambda>_. ds) w) = net_layout w"
    using assms by (simp add: u [unfolded sp] sp net_layout_def fun_eq_iff)
  show "receivers (upd_eo_conn sp (\<lambda>_. ds) w) = (receivers w)(sp := set ds)"
    using assms by (auto simp: u [unfolded sp] sp receivers_def fun_eq_iff nth_list_update)
  show "roomy i (upd_eo_conn sp (\<lambda>_. ds) w) = roomy i w"
    using assms by (auto simp: u [unfolded sp] sp roomy_def split: if_splits)
qed

lemma establish_event_effect:
  assumes "roomy i w" "w_fbs w (fst sp) = Some b" "snd sp < length (mEOConns b)" "w_fbs w d \<noteq> None"
  shows "net_layout (establish_event i sp d n w) = net_layout w"
    and "roomy i (establish_event i sp d n w)"
    and "receivers (establish_event i sp d n w) =
           (receivers w)(sp := receivers w sp \<union> (case event_target i w d n of None \<Rightarrow> {} | Some x \<Rightarrow> {x}))"
proof -
  obtain db where db: "w_fbs w d = Some db" using assms(4) by blast
  have rec: "receivers w sp = set (mEOConns b ! snd sp)"
    using assms(2,3) by (simp add: receivers_def)
  have eff: "net_layout (establish_event i sp d n w) = net_layout w \<and> roomy i (establish_event i sp d n w) \<and>
      receivers (establish_event i sp d n w) =
        (receivers w)(sp := receivers w sp \<union> (case event_target i w d n of None \<Rightarrow> {} | Some x \<Rightarrow> {x}))"
    using assms(1) upd_eo_effect [OF assms(2,3)] db
    by (cases "d = i") (auto simp: establish_event_def event_connectToCFBInterface_def event_connect_def event_conn_op_def event_target_def
        on_fb_def assms(2) Let_def set_addDestination rec fun_eq_iff)
  then show "net_layout (establish_event i sp d n w) = net_layout w" "roomy i (establish_event i sp d n w)"
    "receivers (establish_event i sp d n w) =
       (receivers w)(sp := receivers w sp \<union> (case event_target i w d n of None \<Rightarrow> {} | Some x \<Rightarrow> {x}))"
    by blast+
qed

lemma conn_source_room:
  assumes "roomy i w" "conn_source i w c = Some sp"
  obtains b where "w_fbs w (fst sp) = Some b" "snd sp < length (mEOConns b)"
proof -
  obtain s where "event_source i s (m_nSrcId c) w = Some sp"
    using assms(2) by (auto simp: conn_source_def split: option.splits)
  then show thesis using event_source_room [OF assms(1)] that by blast
qed

lemma establish_known:
  assumes "roomy i w" "conn_source i w c = Some sp" "getFunctionBlock i num w = Some d" "w_fbs w d \<noteq> None"
  shows "net_layout (establish_event i sp d n w) = net_layout w \<and> roomy i (establish_event i sp d n w) \<and>
    (\<forall>sp'. receivers (establish_event i sp d n w) sp' =
       receivers w sp' \<union> {x. sp' = sp \<and> conn_target i w num n = Some x})"
proof -
  obtain b where "w_fbs w (fst sp) = Some b" "snd sp < length (mEOConns b)"
    using conn_source_room [OF assms(1,2)] .
  note e = establish_event_effect [OF assms(1) this assms(4), of n]
  show ?thesis
    using e by (auto simp: conn_target_def assms(3) split: option.split)
qed

text \<open>All blocks of the network exist.\<close>

definition populated :: "nat \<Rightarrow> 'c net_world \<Rightarrow> bool" where
  "populated i w \<longleftrightarrow> (\<forall>num d. getFunctionBlock i num w = Some d \<longrightarrow> w_fbs w d \<noteq> None)"

lemma populated_same: "net_layout w' = net_layout w \<Longrightarrow> populated i w' = populated i w"
proof -
  assume l: "net_layout w' = net_layout w"
  have "w_fbs w' d = None \<longleftrightarrow> w_fbs w d = None" for d
    using fun_cong [OF l, of d] by (cases "w_fbs w d"; cases "w_fbs w' d") (simp_all add: net_layout_def)
  then show "populated i w' = populated i w"
    by (simp add: populated_def layout_same [OF l])
qed

lemma create_connections_wires:
  assumes "create_connections (event_source i) (establish_event i) i cs w = Some (cons, w')" "roomy i w" "populated i w"
  shows "net_layout w' = net_layout w \<and> roomy i w' \<and> cons = map (conn_source i w) cs \<and>
    (\<forall>sp. receivers w' sp = receivers w sp \<union>
       {x. \<exists>c \<in> set cs. conn_source i w c = Some sp \<and> conn_target i w (m_nDstFBNum c) (m_nDstId c) = Some x})"
  using assms
proof (induction cs arbitrary: cons w)
  case (Cons c cs)
  show ?case
  proof (cases "getFunctionBlock i (m_nSrcFBNum c) w = None \<or> getFunctionBlock i (m_nDstFBNum c) w = None")
    case True
    then have none: "conn_source i w c = None" by (auto simp: conn_source_def split: option.split)
    from True Cons.prems(1) obtain cons1 where "create_connections (event_source i) (establish_event i) i cs w = Some (cons1, w')"
      "cons = None # cons1"
      by (auto split: option.splits)
    with Cons.IH [OF this(1) Cons.prems(2,3)] none show ?thesis by auto
  next
    case False
    then obtain s d where sd: "getFunctionBlock i (m_nSrcFBNum c) w = Some s" "getFunctionBlock i (m_nDstFBNum c) w = Some d"
      by auto
    from Cons.prems(1) sd obtain sp cons1 where sp: "event_source i s (m_nSrcId c) w = Some sp" "cons = Some sp # cons1"
      and rest: "create_connections (event_source i) (establish_event i) i cs (establish_event i sp d (m_nDstId c) w) = Some (cons1, w')"
      by (auto split: option.splits)
    have src: "conn_source i w c = Some sp" using sd sp(1) by (simp add: conn_source_def)
    have "w_fbs w d \<noteq> None" using Cons.prems(3) sd(2) by (auto simp: populated_def)
    note e = establish_known [OF Cons.prems(2) src sd(2) this, of "m_nDstId c"]
    note l = layout_same [OF conjunct1 [OF e]] and p = populated_same [OF conjunct1 [OF e], of i]
    have "net_layout w' = net_layout w \<and> roomy i w' \<and> cons1 = map (conn_source i w) cs \<and>
      (\<forall>sp'. receivers w' sp' = receivers (establish_event i sp d (m_nDstId c) w) sp' \<union>
         {x. \<exists>c \<in> set cs. conn_source i w c = Some sp' \<and> conn_target i w (m_nDstFBNum c) (m_nDstId c) = Some x})"
      using Cons.IH [OF rest] e p Cons.prems(3) by (simp add: l)
    then show ?thesis
      using e src sp(2) by auto
  qed
qed simp

lemma create_fanned_out_wires:
  assumes "create_fanned_out (establish_event i) i (map (conn_source i w) cs) fs w = Some w'" "roomy i w" "populated i w"
  shows "net_layout w' = net_layout w \<and>
    (\<forall>sp. receivers w' sp = receivers w sp \<union>
       {x. \<exists>f \<in> set fs. m_nConnectionNum f < length cs \<and> conn_source i w (cs ! m_nConnectionNum f) = Some sp \<and>
          conn_target i w (fo_DstFBNum f) (fo_DstId f) = Some x})"
  using assms
proof (induction fs arbitrary: w)
  case (Cons f fs)
  from Cons.prems(1) obtain sp d where f: "m_nConnectionNum f < length cs" "conn_source i w (cs ! m_nConnectionNum f) = Some sp"
      "getFunctionBlock i (fo_DstFBNum f) w = Some d"
    and rest: "create_fanned_out (establish_event i) i (map (conn_source i w) cs) fs (establish_event i sp d (fo_DstId f) w) = Some w'"
    by (auto split: option.splits if_splits)
  have "w_fbs w d \<noteq> None" using Cons.prems(3) f(3) by (auto simp: populated_def)
  note e = establish_known [OF Cons.prems(2) f(2,3) this, of "fo_DstId f"]
  note l = layout_same [OF conjunct1 [OF e]] and p = populated_same [OF conjunct1 [OF e], of i]
  have "net_layout w' = net_layout w \<and>
    (\<forall>sp'. receivers w' sp' = receivers (establish_event i sp d (fo_DstId f) w) sp' \<union>
       {x. \<exists>f \<in> set fs. m_nConnectionNum f < length cs \<and> conn_source i w (cs ! m_nConnectionNum f) = Some sp' \<and>
          conn_target i w (fo_DstFBNum f) (fo_DstId f) = Some x})"
    using Cons.IH [of "establish_event i sp d (fo_DstId f) w"] rest e p Cons.prems(3) by (simp add: l)
  then show ?case
    using e f(1,2) by auto
qed simp

lemma create_connections_returns:
  assumes "roomy i w" "populated i w" "\<forall>c \<in> set cs. conn_source i w c \<noteq> None"
  shows "create_connections (event_source i) (establish_event i) i cs w \<noteq> None"
  using assms
proof (induction cs arbitrary: w)
  case (Cons c cs)
  from Cons.prems(3) obtain s d sp where sd: "getFunctionBlock i (m_nSrcFBNum c) w = Some s" "getFunctionBlock i (m_nDstFBNum c) w = Some d"
    "event_source i s (m_nSrcId c) w = Some sp" "conn_source i w c = Some sp"
    by (auto simp: conn_source_def split: option.splits)
  have "w_fbs w d \<noteq> None" using Cons.prems(2) sd(2) by (auto simp: populated_def)
  note e = establish_known [OF Cons.prems(1) sd(4,2) this, of "m_nDstId c"]
  note l = layout_same [OF conjunct1 [OF e]] and p = populated_same [OF conjunct1 [OF e], of i]
  show ?case
    using Cons.IH [of "establish_event i sp d (m_nDstId c) w"] e p Cons.prems by (simp add: sd l)
qed simp

lemma create_fanned_out_returns:
  assumes "roomy i w" "populated i w"
    and "\<forall>f \<in> set fs. m_nConnectionNum f < length cs \<and> conn_source i w (cs ! m_nConnectionNum f) \<noteq> None \<and>
           getFunctionBlock i (fo_DstFBNum f) w \<noteq> None"
  shows "create_fanned_out (establish_event i) i (map (conn_source i w) cs) fs w \<noteq> None"
  using assms
proof (induction fs arbitrary: w)
  case (Cons f fs)
  from Cons.prems(3) obtain sp d where f: "m_nConnectionNum f < length cs" "conn_source i w (cs ! m_nConnectionNum f) = Some sp"
      "getFunctionBlock i (fo_DstFBNum f) w = Some d"
    by auto
  have "w_fbs w d \<noteq> None" using Cons.prems(2) f(3) by (auto simp: populated_def)
  note e = establish_known [OF Cons.prems(1) f(2,3) this, of "fo_DstId f"]
  note l = layout_same [OF conjunct1 [OF e]] and p = populated_same [OF conjunct1 [OF e], of i]
  show ?case
    using Cons.IH [of "establish_event i sp d (fo_DstId f) w"] e p Cons.prems by (simp add: f l)
qed simp

text \<open>A network whose connections all have both ends, and outputs known by name.\<close>

definition well_declared :: "nat \<Rightarrow> SCFB_FBNData \<Rightarrow> 'c net_world \<Rightarrow> bool" where
  "well_declared i net w \<longleftrightarrow>
     (\<forall>c \<in> set (m_pstEventConnections net). conn_source i w c \<noteq> None) \<and>
     (\<forall>f \<in> set (m_pstFannedOutEventConnections net).
        m_nConnectionNum f < length (m_pstEventConnections net) \<and> getFunctionBlock i (fo_DstFBNum f) w \<noteq> None)"

text \<open>
  C17. The event connections of a composite are created as its type declares them: afterwards every event output
  of the network, and every event input of the interface, has the receivers it had before and those that the
  connections and fanned out connections of the type name, and no others.
\<close>

theorem network_is_wired_as_declared:
  assumes "well_declared i net w" "populated i w"
    and "\<forall>j b. w_fbs w j = Some b \<longrightarrow> m_nNumEOs (fb_spec b) \<le> length (mEOConns b) \<and>
           (j = i \<longrightarrow> length (mEOConns b) = m_nNumEOs (fb_spec b))"
  shows "\<exists>w'. createEventConnections i net w = Some w' \<and>
    (\<forall>sp. receivers w' sp = receivers w sp \<union> declared i net w sp)"
proof (cases "m_pstEventConnections net = []")
  case True
  then show ?thesis by (simp add: createEventConnections_def declared_def)
next
  case False
  define cs fs where "cs = m_pstEventConnections net" and "fs = m_pstFannedOutEventConnections net"
  define w1 where "w1 = upd_fb i (\<lambda>b. b\<lparr>mEOConns := mEOConns b @ replicate (m_nNumEIs (fb_spec b)) []\<rparr>) w"
  have w1: "net_layout w1 = net_layout w" "roomy i w1"
    using assms(3) by (auto simp: w1_def upd_fb_def net_layout_def roomy_def fun_eq_iff split: option.split)
  have rec: "receivers w1 sp = receivers w sp" for sp
    by (auto simp: w1_def upd_fb_def receivers_def nth_append split: option.split)
  have pop: "populated i w1"
    using assms(2) populated_same [OF w1(1)] by blast
  note l = layout_same [OF w1(1)]
  have wd: "\<forall>c \<in> set cs. conn_source i w1 c \<noteq> None"
    "\<forall>f \<in> set fs. m_nConnectionNum f < length cs \<and> getFunctionBlock i (fo_DstFBNum f) w1 \<noteq> None"
    using assms(1) by (simp_all add: well_declared_def l cs_def fs_def)
  obtain cons w2 where c: "create_connections (event_source i) (establish_event i) i cs w1 = Some (cons, w2)"
    using create_connections_returns [OF w1(2) pop wd(1)] by auto
  note c2 = create_connections_wires [OF c w1(2) pop]
  note l2 = layout_same [OF conjunct1 [OF c2]]
  have cons: "cons = map (conn_source i w2) cs" and room2: "roomy i w2" and pop2: "populated i w2"
    using c2 pop populated_same [OF conjunct1 [OF c2], of i] by (simp_all add: l2)
  have "\<forall>f \<in> set fs. m_nConnectionNum f < length cs \<and> conn_source i w2 (cs ! m_nConnectionNum f) \<noteq> None \<and>
      getFunctionBlock i (fo_DstFBNum f) w2 \<noteq> None"
    using wd nth_mem by (fastforce simp: l2)
  then obtain w' where f: "create_fanned_out (establish_event i) i (map (conn_source i w2) cs) fs w2 = Some w'"
    using create_fanned_out_returns [OF room2 pop2] by blast
  have "createEventConnections i net w = Some w'"
    using False c f cons by (simp add: createEventConnections_def Let_def w1_def [symmetric] cs_def [symmetric] fs_def [symmetric])
  moreover have "receivers w' sp = receivers w sp \<union> declared i net w sp" for sp
    using create_fanned_out_wires [OF f room2 pop2] c2
    by (cases sp) (auto simp: rec l l2 declared_def cs_def fs_def)
  ultimately show ?thesis by blast
qed

text \<open>An \<open>E_RTimeOut\<close>: block 0, its socket 1 and its delay 2.\<close>

definition rtimeout_world :: "fb_class_data net_world" where
  "rtimeout_world = timeout_net\<lparr>w_fbs :=
     [0 \<mapsto> (the (new_FB [] E_RTimeOut_spec ''R''
              (N_composite \<lparr>cm_cpoFBNData = E_RTimeOut_net, m_apoInternalFBs = [Some 2], m_apoIn2IfDConns = []\<rparr>)))
           \<lparr>m_enFBState := e_RUNNING, m_apoAdapters := [Some 1]\<rparr>,
      1 \<mapsto> end_block 1 False 0 None,
      2 \<mapsto> the (new_FB [(''TIME'', Elem e_TIME 0)] CTimedFB_spec ''DLY'' (N_inner (C_Timed T_E_RDELAY False)))]\<rparr>"

definition rtimeout_cfb :: "fb_class_data net_class fb" where
  "rtimeout_cfb = the (w_fbs rtimeout_world 0)"

definition rtimeout_dly :: "fb_class_data net_class fb" where
  "rtimeout_dly = the (w_fbs rtimeout_world 2)"

lemma rtimeout_fbs [simp]:
  "w_fbs rtimeout_world = [0 \<mapsto> rtimeout_cfb, 1 \<mapsto> end_block 1 False 0 None, 2 \<mapsto> rtimeout_dly]"
  by (simp add: rtimeout_cfb_def rtimeout_dly_def) (simp add: rtimeout_world_def)

lemma rtimeout_cfb [simp]:
  "fb_spec rtimeout_cfb = E_RTimeOut_spec" "m_apoAdapters rtimeout_cfb = [Some 1]" "mEOConns rtimeout_cfb = []"
  "fb_class rtimeout_cfb = N_composite \<lparr>cm_cpoFBNData = E_RTimeOut_net, m_apoInternalFBs = [Some 2], m_apoIn2IfDConns = []\<rparr>"
  by (simp_all add: rtimeout_cfb_def rtimeout_world_def new_FB_def E_RTimeOut_spec_def timeout_spec_def no_data_spec_def)

lemma rtimeout_dly [simp]: "fb_spec rtimeout_dly = CTimedFB_spec" "mEOConns rtimeout_dly = [[]]"
  by (simp_all add: rtimeout_dly_def rtimeout_world_def new_FB_def CTimedFB_spec_def one_di_spec_def createDataPoint_def)

lemma rtimeout_composite: "composite_of 0 rtimeout_world =
    Some \<lparr>cm_cpoFBNData = E_RTimeOut_net, m_apoInternalFBs = [Some 2], m_apoIn2IfDConns = []\<rparr>"
  by (simp add: composite_of_def)

lemma rtimeout_numbers: "getFunctionBlock 0 0 rtimeout_world = Some 2" "getFunctionBlock 0 scm_nAdapterMarker rtimeout_world = Some 1"
  by (simp_all add: getFunctionBlock_def rtimeout_composite scm_nAdapterMarker_def scm_nAdapterFBRange_def E_RTimeOut_net_def)

lemma rtimeout_populated: "populated 0 rtimeout_world"
  by (auto simp: populated_def getFunctionBlock_def rtimeout_composite E_RTimeOut_net_def Let_def split: if_splits)

lemma rtimeout_ports:
  "event_source 0 1 ''START'' rtimeout_world = Some (1, 0)" "event_source 0 1 ''STOP'' rtimeout_world = Some (1, 1)"
  "event_source 0 2 ''EO'' rtimeout_world = Some (2, 0)"
  "event_target 0 rtimeout_world 2 ''START'' = Some \<lparr>mFB = 2, mPortId = 0\<rparr>"
  "event_target 0 rtimeout_world 1 ''TimeOut'' = Some \<lparr>mFB = 1, mPortId = 0\<rparr>"
  by (simp_all add: event_source_def event_target_def getPortId_def ATimeOut_socket_def adapter_spec_def CTimedFB_spec_def one_di_spec_def
      Let_def cg_nInvalidEventID_def)

theorem network_is_wired_as_declared_witness:
  "\<exists>w'. createEventConnections 0 E_RTimeOut_net rtimeout_world = Some w' \<and>
    \<lparr>mFB = 2, mPortId = 0\<rparr> \<in> receivers w' (1, 0) \<and> \<lparr>mFB = 1, mPortId = 0\<rparr> \<in> receivers w' (2, 0)"
proof -
  have wd: "well_declared 0 E_RTimeOut_net rtimeout_world"
    by (simp add: well_declared_def E_RTimeOut_net_def conn_source_def rtimeout_numbers rtimeout_ports rtimeout_ports [unfolded One_nat_def])
  have room: "\<forall>j b. w_fbs rtimeout_world j = Some b \<longrightarrow> m_nNumEOs (fb_spec b) \<le> length (mEOConns b) \<and>
      (j = 0 \<longrightarrow> length (mEOConns b) = m_nNumEOs (fb_spec b))"
    by (auto simp: CTimedFB_spec_def one_di_spec_def E_RTimeOut_spec_def timeout_spec_def no_data_spec_def ATimeOut_socket_def adapter_spec_def
        end_block_def new_adapter_def new_FB_def createDataPoint_def split: if_splits)
  have "\<lparr>mFB = 2, mPortId = 0\<rparr> \<in> declared 0 E_RTimeOut_net rtimeout_world (1, 0)"
    "\<lparr>mFB = 1, mPortId = 0\<rparr> \<in> declared 0 E_RTimeOut_net rtimeout_world (2, 0)"
    by (simp_all add: declared_def E_RTimeOut_net_def conn_source_def conn_target_def rtimeout_numbers rtimeout_ports rtimeout_ports [unfolded One_nat_def])
  with network_is_wired_as_declared [OF wd rtimeout_populated room] show ?thesis by auto
qed

section \<open>Events and data at the interface of a composite\<close>

lemma sample_fields [simp]:
  "mDOConns (sample_DI w p b) = mDOConns b" "fb_spec (sample_DI w p b) = fb_spec b" "mEOConns (sample_DI w p b) = mEOConns b"
  "m_apoDIConns (sample_DI w p b) = m_apoDIConns b" "length (m_aoDIs (sample_DI w p b)) = length (m_aoDIs b)"
  by (simp_all add: sample_DI_def Let_def split: option.split)

lemma fold_sample_fields [simp]:
  "mDOConns (fold (sample_DI w) ps b) = mDOConns b" "fb_spec (fold (sample_DI w) ps b) = fb_spec b"
  "mEOConns (fold (sample_DI w) ps b) = mEOConns b" "m_apoDIConns (fold (sample_DI w) ps b) = m_apoDIConns b"
  "length (m_aoDIs (fold (sample_DI w) ps b)) = length (m_aoDIs b)"
  by (induction ps arbitrary: b) simp_all

lemma fb_received_fields [simp]:
  "mDOConns (fb_received w b e) = mDOConns b" "fb_spec (fb_received w b e) = fb_spec b" "mEOConns (fb_received w b e) = mEOConns b"
  "m_apoDIConns (fb_received w b e) = m_apoDIConns b" "length (m_aoDIs (fb_received w b e)) = length (m_aoDIs b)"
  by (simp_all add: fb_received_def)

lemma below_marker: "e < 256 \<Longrightarrow> e AND cgInternal2InterfaceMarker = 0"
proof -
  assume "e < 256"
  then have "\<not> bit e 8" by (simp add: bit_nat_def)
  then show ?thesis
    using and_exp_eq_0_iff_not_bit [of e 8] by (simp add: cgInternal2InterfaceMarker_def)
qed

lemma share_other: "adapter_of i w = None \<Longrightarrow> share i w = w"
  by (simp add: share_def)

lemma triggerEvent_lists [simp]:
  "mEventList (triggerEvent ds w) = fold ring_push ds (mEventList w)" "w_fbs (triggerEvent ds w) = w_fbs w"
  "w_platform (triggerEvent ds w) = w_platform w"
  by (induction ds arbitrary: w) (simp_all add: triggerEvent_def addEventEntry_def)

lemma composite_input_event:
  assumes "w_fbs w i = Some b" "fb_class b = N_composite c" "lets_in b e" "e < 256" "m_nNumEOs (fb_spec b) + e < length (mEOConns b)"
  shows "net_deliver inner \<lparr>mFB = i, mPortId = e\<rparr> w =
    Some (triggerEvent (mEOConns b ! (m_nNumEOs (fb_spec b) + e))
      ((refresh w)\<lparr>w_fbs := (w_fbs (refresh w))(i \<mapsto> fb_received (refresh w) (refresh_fb w b) e)\<rparr>))"
proof -
  define c' where "c' = fb_received (refresh w) (refresh_fb w b) e"
  define w1 where "w1 = (refresh w)\<lparr>w_fbs := (w_fbs (refresh w))(i \<mapsto> c')\<rparr>"
  have f: "fb_class c' = N_composite c" "fb_spec c' = fb_spec b" "mEOConns c' = mEOConns b"
    using assms(2) by (simp_all add: c'_def refresh_fb_def)
  have "e < m_nNumEIs (fb_spec b)" using assms(3) by (simp add: lets_in_def)
  then have "exec_net inner i e w1 = Some (triggerEvent (mEOConns b ! (m_nNumEOs (fb_spec b) + e)) w1)"
    using assms(5) f by (simp add: exec_net_def exec_composite_def below_marker [OF assms(4)] w1_def)
  moreover have "adapter_of i (triggerEvent ds w1) = None" for ds
    using f(1) by (simp add: adapter_of_def w1_def)
  ultimately show ?thesis
    using receive_lets_in [of "refresh w" i "refresh_fb w b" e "exec_net inner"] assms(1,3)
    by (simp add: net_deliver_def refresh_at w1_def c'_def share_other)
qed

lemma interface_connection:
  assumes "w_fbs w i = Some b" "fb_class b = N_composite c" "m_nNumDOs (fb_spec b) \<le> length (mDOConns b)"
    and "p < length (m_aoDIs b)" "m_nNumDOs (fb_spec b) + p < length (mDOConns b)"
  shows "do_conn (refresh w) (i, m_nNumDOs (fb_spec b) + p) =
    Some ((mDOConns b ! (m_nNumDOs (fb_spec b) + p))\<lparr>m_poValue := Some (dp_val (m_aoDIs b ! p))\<rparr>)"
  using assms by (simp add: do_conn_def refresh_at refresh_fb_def nth_append)

text \<open>
  C18. An event at an input of a composite goes to the blocks in its network that are connected to the input,
  in order; and when it reaches such a block, an input of the block that is connected to an input of the
  composite takes the value that the composite has sampled with the event.
\<close>

theorem composite_passes_events_and_data:
  assumes "w_fbs w i = Some b" "fb_class b = N_composite c" "lets_in b e" "e < 256" "m_nNumEOs (fb_spec b) + e < length (mEOConns b)"
    and "length (mDOConns b) = m_nNumDOs (fb_spec b) + length (m_aoDIs b)" "p < length (m_aoDIs b)"
    and "w_fbs w j = Some jb" "j \<noteq> i" "fb_class jb = N_inner k" "lets_in jb ej" "ei_with (fb_spec jb) ej = [q]"
    and "m_apoDIConns jb ! q = Some (i, m_nNumDOs (fb_spec b) + p)" "q < length (m_aoDIs jb)" "\<not> dp_forced (m_aoDIs jb ! q)"
    and "\<not> mSpecialCastConnection (mDOConns b ! (m_nNumDOs (fb_spec b) + p))"
  shows "\<exists>w1 v. net_deliver inner \<lparr>mFB = i, mPortId = e\<rparr> w = Some w1 \<and>
    mEventList w1 = fold ring_push (mEOConns b ! (m_nNumEOs (fb_spec b) + e)) (mEventList w) \<and>
    net_deliver inner \<lparr>mFB = j, mPortId = ej\<rparr> w1 = map_option (share j) (inner j ej v) \<and>
    map_option (\<lambda>b. dp_val (m_aoDIs b ! q)) (w_fbs v j) =
      Some (setValue (w_platform w) (dp_val (m_aoDIs jb ! q)) (dp_val (m_aoDIs (fb_received (refresh w) (refresh_fb w b) e) ! p)))"
proof -
  define c' where "c' = fb_received (refresh w) (refresh_fb w b) e"
  define w1 where "w1 = triggerEvent (mEOConns b ! (m_nNumEOs (fb_spec b) + e))
      ((refresh w)\<lparr>w_fbs := (w_fbs (refresh w))(i \<mapsto> c')\<rparr>)"
  have d1: "net_deliver inner \<lparr>mFB = i, mPortId = e\<rparr> w = Some w1"
    using composite_input_event [OF assms(1-5)] by (simp add: w1_def c'_def)
  have at1: "w_fbs w1 i = Some c'" "w_fbs w1 j = Some jb" "w_platform w1 = w_platform w"
    using assms(8-10) by (simp_all add: w1_def refresh_at refresh_fb_def) (simp add: refresh_def)
  have c': "fb_class c' = N_composite c" "fb_spec c' = fb_spec b" "length (mDOConns c') = length (mDOConns b)"
    "length (m_aoDIs c') = length (m_aoDIs b)"
    "\<not> mSpecialCastConnection (mDOConns c' ! (m_nNumDOs (fb_spec b) + p))"
    using assms(2,6,7,16) by (simp_all add: c'_def refresh_fb_def nth_append)
  have con: "do_conn (refresh w1) (i, m_nNumDOs (fb_spec b) + p) =
      Some ((mDOConns c' ! (m_nNumDOs (fb_spec b) + p))\<lparr>m_poValue := Some (dp_val (m_aoDIs c' ! p))\<rparr>)"
    using interface_connection [OF at1(1) c'(1), of p] c'(2-4) assms(6,7) by simp
  define jb' where "jb' = fb_received (refresh w1) jb ej"
  define v where "v = (refresh w1)\<lparr>w_fbs := (w_fbs (refresh w1))(j \<mapsto> jb')\<rparr>"
  have "dp_val (m_aoDIs jb' ! q) = setValue (w_platform w) (dp_val (m_aoDIs jb ! q)) (dp_val (m_aoDIs c' ! p))"
    using assms(12-15) con c'(5) at1(3)
    by (simp add: jb'_def fb_received_def sample_DI_def readData_def Let_def) (simp add: refresh_def)
  moreover have "net_deliver inner \<lparr>mFB = j, mPortId = ej\<rparr> w1 = map_option (share j) (inner j ej v)"
    using receive_lets_in [of "refresh w1" j jb ej "exec_net inner"] assms(10,11) at1(2)
    by (simp add: net_deliver_def refresh_at refresh_fb_def exec_net_def v_def jb'_def)
  moreover have "mEventList w1 = fold ring_push (mEOConns b ! (m_nNumEOs (fb_spec b) + e)) (mEventList w)"
    by (simp add: w1_def)
  ultimately show ?thesis
    using d1 at1(1) by (intro exI [of _ w1] exI [of _ v]) (simp add: v_def c'_def)
qed

text \<open>A composite with the interface of a counter, and the counter 1 in it.\<close>

definition counter_net :: "fb_class_data net_world" where
  "counter_net = timeout_net\<lparr>w_fbs :=
     [0 \<mapsto> (with_class (ev_block E_CTU_spec C_E_CTU [Elem e_UINT 3] [Elem e_BOOL 0, Elem e_UINT 0]
                [[], [], [\<lparr>mFB = 1, mPortId = 0\<rparr>], []])
              (N_composite \<lparr>cm_cpoFBNData = E_RTimeOut_net, m_apoInternalFBs = [Some 1], m_apoIn2IfDConns = []\<rparr>))
           \<lparr>mDOConns := replicate 3 \<lparr>dc_dests = [\<lparr>mFB = 1, mPortId = 0\<rparr>], m_poValue = None, mSpecialCastConnection = False\<rparr>\<rparr>,
      1 \<mapsto> (with_class (ev_block E_CTU_spec C_E_CTU [Elem e_UINT 9] [Elem e_BOOL 0, Elem e_UINT 0] [[], []]) (N_inner C_E_CTU))
           \<lparr>m_apoDIConns := [Some (0, 2)]\<rparr>]\<rparr>"

lemma ev_block_more [simp]:
  "m_enFBState (ev_block s c dis dos eos) = e_RUNNING" "m_apoDIConns (ev_block s c dis dos eos) = replicate (length dis) None"
  "m_nEIMonitorCount (ev_block s c dis dos eos) = replicate (m_nNumEIs s) monitor_init"
  by (simp_all add: ev_block_def)

lemma with_class_fields [simp]:
  "fb_spec (with_class b c) = fb_spec b" "fb_class (with_class b c) = c" "mEOConns (with_class b c) = mEOConns b"
  "m_aoDIs (with_class b c) = m_aoDIs b" "m_apoDIConns (with_class b c) = m_apoDIConns b" "m_enFBState (with_class b c) = m_enFBState b"
  "m_nEIMonitorCount (with_class b c) = m_nEIMonitorCount b"
  by (simp_all add: with_class_def)

lemma counter_spec: "ei_with E_CTU_spec 0 = [0]" "m_nNumEIs E_CTU_spec = 2" "m_nNumEOs E_CTU_spec = 2" "m_nNumDOs E_CTU_spec = 2"
  by code_simp+

theorem composite_passes_events_and_data_witness:
  "\<exists>w1 v. net_deliver (lift_exec exec_event) \<lparr>mFB = 0, mPortId = 0\<rparr> counter_net = Some w1 \<and>
    net_deliver (lift_exec exec_event) \<lparr>mFB = 1, mPortId = 0\<rparr> w1 = map_option (share 1) (lift_exec exec_event 1 0 v) \<and>
    map_option (\<lambda>b. dp_val (m_aoDIs b ! 0)) (w_fbs v 1) = Some (Elem e_UINT 3)"
proof -
  obtain b where b: "w_fbs counter_net 0 = Some b" "fb_class b = N_composite \<lparr>cm_cpoFBNData = E_RTimeOut_net, m_apoInternalFBs = [Some 1], m_apoIn2IfDConns = []\<rparr>"
    "fb_spec b = E_CTU_spec" "mEOConns b = [[], [], [\<lparr>mFB = 1, mPortId = 0\<rparr>], []]"
    "mDOConns b = replicate 3 \<lparr>dc_dests = [\<lparr>mFB = 1, mPortId = 0\<rparr>], m_poValue = None, mSpecialCastConnection = False\<rparr>"
    "m_aoDIs b = [\<lparr>dp_val = Elem e_UINT 3, dp_forced = False\<rparr>]" "m_apoDIConns b = [None]" "lets_in b 0"
    by (simp add: counter_net_def lets_in_def counter_spec monitor_init_def)
  obtain jb where jb: "w_fbs counter_net 1 = Some jb" "fb_class jb = N_inner C_E_CTU" "fb_spec jb = E_CTU_spec"
    "m_aoDIs jb = [\<lparr>dp_val = Elem e_UINT 9, dp_forced = False\<rparr>]" "m_apoDIConns jb = [Some (0, 2)]" "lets_in jb 0"
    by (simp add: counter_net_def lets_in_def counter_spec monitor_init_def)
  have di: "m_aoDIs (fb_received (refresh counter_net) (refresh_fb counter_net b) 0) = [\<lparr>dp_val = Elem e_UINT 3, dp_forced = False\<rparr>]"
    using b(2,3,6,7) by (simp add: fb_received_def refresh_fb_def counter_spec sample_DI_def)
  have val: "setValue (w_platform counter_net) (Elem e_UINT 9) (Elem e_UINT 3) = Elem e_UINT 3"
    by (simp add: counter_net_def timeout_net_def) code_simp
  from composite_passes_events_and_data [OF b(1,2,8) _ _ _ _ jb(1) _ jb(2,6), of 0 0 "lift_exec exec_event"] b jb di val
  show ?thesis by (fastforce simp: counter_spec)
qed

section \<open>Finding blocks in a composite\<close>

lemma getFB_loop_skip:
  "\<forall>a \<in> set as. fb_name w a \<noteq> Some (it_deref it) \<Longrightarrow>
    getFB_loop sub w (map Some as @ rest) r it = getFB_loop sub w rest r it"
  by (induction as) auto

lemma getFB_loop_found:
  assumes "\<forall>a \<in> set as. fb_name w a \<noteq> Some m" "fb_name w b = Some m" "\<forall>a \<in> set cs. fb_name w a \<noteq> Some m"
  shows "getFB_loop sub w (map Some (as @ b # cs)) r (name_begin [m] x) = Some (Some b, name_begin [m] x)"
  using getFB_loop_skip [of as w "name_begin [m] x" sub "Some b # map Some cs" r]
    getFB_loop_skip [of cs w "name_begin [m] x" sub "[]" "Some b"] assms by simp

text \<open>
  C37. A path that goes on below a block without children is answered with a block beside it: when the block
  \<open>n\<close> of a composite has no child \<open>m\<close> but a block \<open>m\<close> follows it in the composite, the path \<open>n.m\<close> yields that
  block instead of none.
\<close>

theorem child_name_finds_sibling:
  assumes "composite_of i w = Some c" "m_apoInternalFBs c = map Some (as @ a # bs @ b # cs)"
    and "fb_name w a = Some n" "fb_name w b = Some m" "composite_of a w = None" "getAdapter a m w = None"
    and "\<forall>x \<in> set as. fb_name w x \<noteq> Some n" "\<forall>x \<in> set (bs @ cs). fb_name w x \<noteq> Some m"
  shows "fst (net_getFB k w a (name_begin [m] x)) = None \<and>
    fst (net_getFB (Suc k) w i (name_begin [n, m] x)) = Some b"
proof -
  have sub: "net_getFB k w a (name_begin [m] x) = (None, name_begin [m] x)"
    using assms(5,6) by (simp add: net_getFB.simps adapter_getFB_def split: nat.split)
  have "getFB_loop (net_getFB k w) w (map Some (as @ a # bs @ b # cs)) None (name_begin [n, m] x) =
      getFB_loop (net_getFB k w) w (Some a # map Some (bs @ b # cs)) None (name_begin [n, m] x)"
    using getFB_loop_skip [of as w "name_begin [n, m] x"] assms(7) by simp
  also have "\<dots> = getFB_loop (net_getFB k w) w (map Some (bs @ b # cs)) None (name_begin [m] x)"
    using assms(3) sub by simp
  also have "\<dots> = Some (Some b, name_begin [m] x)"
    using assms(4,8) by (intro getFB_loop_found) auto
  finally show ?thesis
    using assms(1,2) sub by (simp add: net_getFB.simps [of "Suc k"])
qed

text \<open>Two counters A and B in a composite.\<close>

definition siblings :: "fb_class_data net_world" where
  "siblings = counter_net\<lparr>w_fbs :=
     [0 \<mapsto> with_class (split_block ''C'' [[], []] e_IDLE)
              (N_composite \<lparr>cm_cpoFBNData = E_RTimeOut_net, m_apoInternalFBs = [Some 1, Some 2], m_apoIn2IfDConns = []\<rparr>),
      1 \<mapsto> with_class (split_block ''A'' [[], []] e_IDLE) (N_inner C_E_SPLIT),
      2 \<mapsto> with_class (split_block ''B'' [[], []] e_IDLE) (N_inner C_E_SPLIT)]\<rparr>"

theorem child_name_finds_sibling_witness:
  "fst (net_getFB 1 siblings 0 (name_begin [''A'', ''B''] [])) = Some 2"
proof -
  have names: "fb_name siblings 1 = Some ''A''" "fb_name siblings 2 = Some ''B''" "getAdapter 1 ''B'' siblings = None"
    by (simp_all add: siblings_def fb_name_def getAdapter_def with_class_def)
  have "composite_of 1 siblings = None"
    "composite_of 0 siblings = Some \<lparr>cm_cpoFBNData = E_RTimeOut_net, m_apoInternalFBs = [Some 1, Some 2], m_apoIn2IfDConns = []\<rparr>"
    by (simp_all add: siblings_def composite_of_def)
  from child_name_finds_sibling [OF this(2) _ names(1,2) this(1) names(3), of "[]" "[]" "[]" 0 "[]"] show ?thesis
    by simp
qed

section \<open>Creating blocks\<close>

lemma runtime_swap: "st\<lparr>rt_next := a, rt_world := b\<rparr> = st\<lparr>rt_world := b, rt_next := a\<rparr>"
  by (cases st) simp

text \<open>
  A type that is no composite and has no adapters is created as by the type library without adapters and networks, with
  which the containers of a resource are modelled: what holds there of creating blocks holds here.
\<close>

theorem plain_types_are_created_alike:
  assumes "findType t (nl_cfbs L) = None"
    and "\<forall>b. new_instance (nl_fbs L) n t = Inr b \<longrightarrow> m_pstAdapterInstanceDefinition (fb_spec b) = []"
  shows "net_createFB chg frs L k n t st = typelib_createFB chg (nl_fbs L) n t st"
proof (cases "new_instance (nl_fbs L) n t")
  case (Inl e)
  then show ?thesis by (simp add: net_createFB.simps assms(1) typelib_createFB_def)
next
  case (Inr b)
  then show ?thesis
    using assms(2)
    by (simp add: net_createFB.simps assms(1) typelib_createFB_def with_adapters_def place_fb_def Let_def option.map_comp comp_def)
       (simp only: runtime_swap)
qed

theorem plain_types_are_created_alike_witness:
  "net_createFB chg frs \<lparr>nl_types = [], nl_fbs = [(''E_SPLIT'', fb_entry [] E_SPLIT_spec (N_inner C_E_SPLIT))], nl_adapters = [], nl_cfbs = []\<rparr>
     0 ''S'' ''E_SPLIT'' st =
   typelib_createFB chg [(''E_SPLIT'', fb_entry [] E_SPLIT_spec (N_inner C_E_SPLIT))] ''S'' ''E_SPLIT'' st"
proof -
  have "m_pstAdapterInstanceDefinition (fb_spec b) = []"
    if "new_instance [(''E_SPLIT'', fb_entry [] E_SPLIT_spec (N_inner C_E_SPLIT))] ''S'' ''E_SPLIT'' = Inr b"
    for b :: "fb_class_data net_class fb"
    using that by (auto simp: new_instance_def fb_entry_def new_FB_def E_SPLIT_spec_def no_data_spec_def)
  then show ?thesis
    using plain_types_are_created_alike [of "''E_SPLIT''" "\<lparr>nl_types = [], nl_fbs = [(''E_SPLIT'', fb_entry [] E_SPLIT_spec (N_inner C_E_SPLIT))],
      nl_adapters = [], nl_cfbs = []\<rparr>" "''S''" chg frs 0 st] by simp
qed

end
