(* ===== verification/Composite_State.thy ===== *)
theory Composite_State
  imports Composite_Laws Resource_Laws
begin

text \<open>
  The execution state of composite function blocks: starting and resetting a composite starts and resets all
  blocks in it, also in the composites it contains.
\<close>

section \<open>What a change of the state leaves alone\<close>

definition skeleton :: "'c net_world \<Rightarrow> nat \<Rightarrow> ((unit + cfb_data option) \<times> nat option list) option" where
  "skeleton w = (\<lambda>j. map_option (\<lambda>b.
     (case fb_class b of N_inner c \<Rightarrow> Inl () | N_composite c \<Rightarrow> Inr (Some c) | _ \<Rightarrow> Inr None, m_apoAdapters b)) (w_fbs w j))"

definition adapters_at :: "'c net_world \<Rightarrow> nat \<Rightarrow> nat set" where
  "adapters_at w j = (case w_fbs w j of None \<Rightarrow> {} | Some b \<Rightarrow> {a. Some a \<in> set (m_apoAdapters b)})"

text \<open>The blocks of the other classes have no adapters.\<close>

definition plain_inner :: "'c net_world \<Rightarrow> bool" where
  "plain_inner w \<longleftrightarrow> (\<forall>j b c. w_fbs w j = Some b \<longrightarrow> fb_class b = N_inner c \<longrightarrow> set (m_apoAdapters b) \<subseteq> {None})"

lemma skeleton_fbs: "(\<And>j. map_option (\<lambda>b. (fb_class b, m_apoAdapters b)) (w_fbs w' j) =
    map_option (\<lambda>b. (fb_class b, m_apoAdapters b)) (w_fbs w j)) \<Longrightarrow> skeleton w' = skeleton w"
proof (rule ext)
  fix j
  assume "\<And>j. map_option (\<lambda>b. (fb_class b, m_apoAdapters b)) (w_fbs w' j) =
    map_option (\<lambda>b. (fb_class b, m_apoAdapters b)) (w_fbs w j)"
  from this [of j] show "skeleton w' j = skeleton w j"
    by (cases "w_fbs w j"; cases "w_fbs w' j") (simp_all add: skeleton_def)
qed

lemma skeleton_same:
  fixes w w' :: "'c net_world"
  assumes "skeleton w' = skeleton w"
  shows "composite_of j w' = composite_of j w" "adapters_at w' j = adapters_at w j" "plain_inner w' = plain_inner w"
proof -
  have at: "skeleton w' j = skeleton w j" for j using assms by simp
  show "composite_of j w' = composite_of j w"
    using at [of j] by (cases "w_fbs w j"; cases "w_fbs w' j")
      (auto simp: skeleton_def composite_of_def split: net_class.splits)
  show "adapters_at w' j = adapters_at w j"
    using at [of j] by (cases "w_fbs w j"; cases "w_fbs w' j") (auto simp: skeleton_def adapters_at_def)
  have "skeleton v j = Some (Inl (), as) \<longleftrightarrow> (\<exists>b c. w_fbs v j = Some b \<and> fb_class b = N_inner c \<and> m_apoAdapters b = as)"
    for v :: "'c net_world" and j as
    by (cases "w_fbs v j") (auto simp: skeleton_def split: net_class.split)
  then have "plain_inner v \<longleftrightarrow> (\<forall>j as. skeleton v j = Some (Inl (), as) \<longrightarrow> set as \<subseteq> {None})" for v :: "'c net_world"
    by (simp add: plain_inner_def) blast
  then show "plain_inner w' = plain_inner w" using assms by simp
qed

lemma fb_state_at: "fb_state w j = Some s \<longleftrightarrow> (\<exists>b. w_fbs w j = Some b \<and> m_enFBState b = s)"
  by (auto simp: fb_state_def)

lemma base_change_skeleton: "skeleton (snd (changeFBExecutionState (\<lambda>b. b) n cmd i w)) = skeleton w"
proof (rule skeleton_fbs)
  fix j
  let ?w = "snd (changeFBExecutionState (\<lambda>b. b) n cmd i w)"
  have "map_option fb_class (w_fbs ?w j) = map_option fb_class (w_fbs w j)" by simp
  moreover have "map_option fb_shape (w_fbs ?w j) = map_option fb_shape (w_fbs w j)"
    using fun_cong [OF base_change_shape [of n cmd i w], of j] by (simp add: world_shape_def)
  ultimately show "map_option (\<lambda>b. (fb_class b, m_apoAdapters b)) (w_fbs ?w j) =
      map_option (\<lambda>b. (fb_class b, m_apoAdapters b)) (w_fbs w j)"
    by (cases "w_fbs w j"; cases "w_fbs ?w j") (auto simp: fb_shape_def)
qed

lemma base_change_0: "j \<noteq> i \<Longrightarrow> fb_state (snd (changeFBExecutionState (\<lambda>b. b) 0 cmd i w)) j = fb_state w j"
  by (simp add: changeFBExecutionState.simps [where n = 0] Let_def fb_state_def split: option.split)

lemma fold_change_0:
  "Some j \<notin> set as \<Longrightarrow> fb_state (fold (\<lambda>a v. case a of None \<Rightarrow> v
     | Some i \<Rightarrow> snd (changeFBExecutionState (\<lambda>b. b) 0 cmd i v)) as w) j = fb_state w j"
proof (induction as arbitrary: w)
  case (Cons a as)
  then show ?case by (cases a) (simp_all add: base_change_0)
qed simp

lemma base_change_parts:
  assumes "fb_state w i = Some s" "i \<notin> adapters_at w i"
  shows "fst (changeFBExecutionState (\<lambda>b. b) 1 cmd i w) = fst (fb_state_switch cmd s)"
    and "fb_state (snd (changeFBExecutionState (\<lambda>b. b) 1 cmd i w)) i = Some (snd (fb_state_switch cmd s))"
    and "j \<noteq> i \<Longrightarrow> j \<notin> adapters_at w i \<Longrightarrow> fb_state (snd (changeFBExecutionState (\<lambda>b. b) 1 cmd i w)) j = fb_state w j"
proof -
  obtain b where b: "w_fbs w i = Some b" "m_enFBState b = s"
    using assms(1) by (auto simp: fb_state_at)
  let ?w1 = "w\<lparr>w_fbs := (w_fbs w)(i \<mapsto> b\<lparr>m_enFBState := snd (fb_state_switch cmd s)\<rparr>)\<rparr>"
  have ch: "changeFBExecutionState (\<lambda>b. b) 1 cmd i w = (fst (fb_state_switch cmd s),
      if fst (fb_state_switch cmd s) = e_RDY
      then fold (\<lambda>a v. case a of None \<Rightarrow> v | Some i \<Rightarrow> snd (changeFBExecutionState (\<lambda>b. b) 0 cmd i v)) (m_apoAdapters b) ?w1
      else ?w1)"
    by (simp add: changeFBExecutionState.simps [where n = "Suc 0"] Let_def b)
  have s1: "fb_state ?w1 j = (if j = i then Some (snd (fb_state_switch cmd s)) else fb_state w j)" for j
    by (simp add: fb_state_def)
  have ad: "adapters_at w i = {a. Some a \<in> set (m_apoAdapters b)}"
    by (simp add: adapters_at_def b)
  show "fst (changeFBExecutionState (\<lambda>b. b) 1 cmd i w) = fst (fb_state_switch cmd s)"
    by (simp only: ch fst_conv)
  show "fb_state (snd (changeFBExecutionState (\<lambda>b. b) 1 cmd i w)) i = Some (snd (fb_state_switch cmd s))"
    using assms(2) by (simp only: ch snd_conv) (simp add: fold_change_0 s1 ad)
  show "fb_state (snd (changeFBExecutionState (\<lambda>b. b) 1 cmd i w)) j = fb_state w j" if "j \<noteq> i" "j \<notin> adapters_at w i"
    using that by (simp only: ch snd_conv) (simp add: fold_change_0 s1 ad)
qed

section \<open>Blocks that are not composite\<close>

lemma inner_part_at:
  "w_fbs (inner_part w) j = (case w_fbs w j of None \<Rightarrow> None
     | Some b \<Rightarrow> (case fb_class b of N_inner c \<Rightarrow> Some (with_class b c) | _ \<Rightarrow> None))"
  by (simp add: inner_part_def)

lemma with_class_state [simp]: "m_apoAdapters (with_class b c) = m_apoAdapters b"
  by (simp add: with_class_def)

lemma put_inner_effect:
  assumes "world_shape v = world_shape (inner_part w)"
  shows "skeleton (put_inner v w) = skeleton w"
    and "fb_state (put_inner v w) j = (if w_fbs (inner_part w) j = None then fb_state w j else fb_state v j)"
proof -
  have at: "map_option fb_shape (w_fbs v j) = map_option fb_shape (w_fbs (inner_part w) j)" for j
    using fun_cong [OF assms, of j] by (simp add: world_shape_def)
  show "skeleton (put_inner v w) = skeleton w"
  proof
    fix j show "skeleton (put_inner v w) j = skeleton w j"
      using at [of j] by (cases "w_fbs v j") (auto simp: skeleton_def put_inner_def inner_part_at fb_shape_def split: option.split net_class.splits)
  qed
  show "fb_state (put_inner v w) j = (if w_fbs (inner_part w) j = None then fb_state w j else fb_state v j)"
    using at [of j] by (cases "w_fbs v j") (auto simp: fb_state_def put_inner_def inner_part_at split: option.split net_class.split)
qed

text \<open>Blocks \<open>P\<close> have taken the state after the command, everything but them and their adapters is as before.\<close>

definition moved :: "EMGMCommandType \<Rightarrow> E_FBStates \<Rightarrow> nat set \<Rightarrow> 'c net_world \<Rightarrow> 'c net_world \<Rightarrow> bool" where
  "moved cmd s P w w' \<longleftrightarrow>
     skeleton w' = skeleton w \<and> (\<forall>j \<in> P. fb_state w' j = Some (snd (fb_state_switch cmd s))) \<and>
     (\<forall>j. j \<notin> P \<longrightarrow> (\<forall>p \<in> P. j \<notin> adapters_at w p) \<longrightarrow> fb_state w' j = fb_state w j)"

lemma lift_change_moves:
  assumes "w_fbs w i = Some b" "fb_class b = N_inner c" "m_enFBState b = s" "plain_inner w"
    and "cmd = cg_nMGM_CMD_Start \<or> cmd = cg_nMGM_CMD_Reset"
  shows "\<exists>r w'. lift_change event_changeFBExecutionState cmd i w = Some (r, w') \<and>
    (r = e_RDY \<longleftrightarrow> fst (fb_state_switch cmd s) = e_RDY) \<and> moved cmd s {i} w w'"
proof -
  have "no_adapters_in (inner_part w)"
    using assms(4) by (auto simp: no_adapters_in_def plain_inner_def inner_part_at split: option.splits net_class.splits)
  from event_change_state [OF this assms(5), of i] obtain r v where
    v: "event_changeFBExecutionState cmd i (inner_part w) = Some (r, v)"
    and r: "r = e_RDY \<longleftrightarrow> accepts cmd (fb_state (inner_part w) i)"
    and st: "fb_state v = (fb_state (inner_part w))(i := (if accepts cmd (fb_state (inner_part w) i)
      then map_option (\<lambda>st. snd (fb_state_switch cmd st)) (fb_state (inner_part w) i) else fb_state (inner_part w) i))"
    by blast
  have inner: "fb_state (inner_part w) j = (if w_fbs (inner_part w) j = None then None else fb_state w j)" for j
    by (auto simp: fb_state_def inner_part_at with_class_def split: option.split net_class.split)
  have i: "w_fbs (inner_part w) i \<noteq> None" "fb_state w i = Some s" "fb_state (inner_part w) i = Some s"
    using assms(1-3) by (simp_all add: inner_part_at fb_state_def with_class_def)
  note put = put_inner_effect [OF event_states.chg_shape [OF v]]
  have "moved cmd s {i} w (put_inner v w)"
    using switch_refused [of cmd s] i by (auto simp: moved_def put st inner accepts_def)
  then show ?thesis
    using r i(3) v by (simp add: lift_change_def accepts_def)
qed

lemma leaf_moves:
  assumes "fb_state w i = Some s" "composite_of i w = None" "i \<notin> adapters_at w i" "plain_inner w"
    and "cmd = cg_nMGM_CMD_Start \<or> cmd = cg_nMGM_CMD_Reset"
  shows "\<exists>r w'. net_changeFBExecutionState (lift_change event_changeFBExecutionState) frs n cmd i w = Some (r, w') \<and>
    (r = e_RDY \<longleftrightarrow> fst (fb_state_switch cmd s) = e_RDY) \<and> moved cmd s {i} w w'"
proof -
  obtain b where b: "w_fbs w i = Some b" "m_enFBState b = s"
    using assms(1) by (auto simp: fb_state_at)
  let ?r = "changeFBExecutionState (\<lambda>b. b) 1 cmd i w"
  have base: "fst ?r = fst (fb_state_switch cmd s)" "moved cmd s {i} w (snd ?r)"
    using base_change_parts [OF assms(1,3), where cmd = cmd] base_change_skeleton [of 1 cmd i w] by (simp_all add: moved_def)
  obtain w1 where r: "?r = (fst (fb_state_switch cmd s), w1)"
    using base(1) by (metis prod.collapse)
  then have m: "moved cmd s {i} w w1" using base(2) by simp
  have tm: "timeout_changeFBExecutionState cmd i w = Some ?r"
    using assms(5) by (auto simp: timeout_changeFBExecutionState_def Let_def)
  show ?thesis
  proof (cases "fb_class b")
    case (N_inner c)
    with lift_change_moves [OF b(1) N_inner b(2) assms(4,5)] b show ?thesis
      by (simp add: net_changeFBExecutionState.simps)
  next
    case (N_adapter d)
    with b m show ?thesis
      by (intro exI [of _ "fst (fb_state_switch cmd s)"] exI [of _ w1])
         (simp add: net_changeFBExecutionState.simps r [unfolded One_nat_def])
  next
    case (N_composite c)
    with assms(2) b show ?thesis by (simp add: composite_of_def)
  next
    case (N_TimeOut a)
    with b m tm r show ?thesis
      by (intro exI [of _ "fst (fb_state_switch cmd s)"] exI [of _ w1])
         (simp add: net_changeFBExecutionState.simps)
  qed
qed

section \<open>Composites\<close>

text \<open>A composite and all blocks in it, up to a depth; and a composite that is fully built.\<close>

fun parts :: "nat \<Rightarrow> 'c net_world \<Rightarrow> nat \<Rightarrow> nat list" where
  "parts 0 w i = [i]"
| "parts (Suc k) w i =
     i # (case composite_of i w of None \<Rightarrow> [] | Some c \<Rightarrow> concat (map (parts k w) (map the (m_apoInternalFBs c))))"

fun built :: "nat \<Rightarrow> 'c net_world \<Rightarrow> nat \<Rightarrow> bool" where
  "built 0 w i \<longleftrightarrow> composite_of i w = None"
| "built (Suc k) w i \<longleftrightarrow>
     (case composite_of i w of
        None \<Rightarrow> True
      | Some c \<Rightarrow> None \<notin> set (m_apoInternalFBs c) \<and>
          (\<forall>q \<in> set (m_pstParams (cm_cpoFBNData c)). m_nFBNum q < length (m_apoInternalFBs c)) \<and>
          (\<forall>j \<in> set (map the (m_apoInternalFBs c)). built k w j))"

lemma parts_same:
  fixes w w' :: "'c net_world"
  shows "skeleton w' = skeleton w \<Longrightarrow> parts k w' i = parts k w i"
proof (induction k arbitrary: i)
  case (Suc k)
  then show ?case using skeleton_same(1) [OF Suc.prems, of i] by (simp add: comp_def split: option.split)
qed simp

lemma built_same:
  fixes w w' :: "'c net_world"
  shows "skeleton w' = skeleton w \<Longrightarrow> built k w' i = built k w i"
proof (induction k arbitrary: i)
  case 0
  then show ?case using skeleton_same(1) [OF 0, of i] by simp
next
  case (Suc k)
  then show ?case using skeleton_same(1) [OF Suc.prems, of i] by (simp split: option.split)
qed

lemma moved_trans:
  assumes "moved cmd s P w w1" "moved cmd s Q w1 w2" "P \<inter> Q = {}" "\<forall>p \<in> P. adapters_at w p \<inter> Q = {}" "\<forall>q \<in> Q. adapters_at w q \<inter> P = {}"
  shows "moved cmd s (P \<union> Q) w w2"
proof -
  have sk: "skeleton w1 = skeleton w" "skeleton w2 = skeleton w1" using assms(1,2) by (simp_all add: moved_def)
  have P: "j \<in> P \<Longrightarrow> fb_state w1 j = Some (snd (fb_state_switch cmd s))"
    "j \<notin> P \<Longrightarrow> \<forall>p \<in> P. j \<notin> adapters_at w p \<Longrightarrow> fb_state w1 j = fb_state w j" for j
    using assms(1) by (simp_all add: moved_def)
  have Q: "j \<in> Q \<Longrightarrow> fb_state w2 j = Some (snd (fb_state_switch cmd s))"
    "j \<notin> Q \<Longrightarrow> \<forall>q \<in> Q. j \<notin> adapters_at w q \<Longrightarrow> fb_state w2 j = fb_state w1 j" for j
    using assms(2) by (simp_all add: moved_def skeleton_same(2) [OF sk(1)])
  have PQ: "fb_state w2 j = Some (snd (fb_state_switch cmd s))" if "j \<in> P" for j
  proof -
    have "j \<notin> Q" "\<forall>q \<in> Q. j \<notin> adapters_at w q" using assms(3,5) that by auto
    then show ?thesis using Q(2) P(1) [OF that] by simp
  qed
  show ?thesis
    unfolding moved_def
  proof (intro conjI ballI allI impI)
    show "skeleton w2 = skeleton w" using sk by simp
    show "fb_state w2 j = Some (snd (fb_state_switch cmd s))" if "j \<in> P \<union> Q" for j
      using that PQ Q(1) by blast
    show "fb_state w2 j = fb_state w j" if "j \<notin> P \<union> Q" "\<forall>p \<in> P \<union> Q. j \<notin> adapters_at w p" for j
      using that P(2) [of j] Q(2) [of j] by simp
  qed
qed

lemma internals_move:
  fixes w v :: "'c net_world"
  assumes step: "\<And>j v. j \<in> set js \<Longrightarrow> skeleton v = skeleton w \<Longrightarrow> \<forall>x \<in> set (pl j). fb_state v x = Some s \<Longrightarrow>
      \<exists>v'. chg j v = Some (e_RDY, v') \<and> moved cmd s (set (pl j)) v v'"
    and "distinct (concat (map pl js))" "\<forall>x \<in> set (concat (map pl js)). adapters_at w x \<inter> set (concat (map pl js)) = {}"
    and "skeleton v = skeleton w" "\<forall>x \<in> set (concat (map pl js)). fb_state v x = Some s"
  shows "\<exists>v'. change_internals chg (map Some js) e_RDY v = Some (e_RDY, v') \<and> moved cmd s (set (concat (map pl js))) v v'"
  using assms
proof (induction js arbitrary: v)
  case Nil
  then show ?case by (simp add: moved_def)
next
  case (Cons j js)
  let ?Q = "set (concat (map pl js))"
  obtain v1 where v1: "chg j v = Some (e_RDY, v1)" "moved cmd s (set (pl j)) v v1"
    using Cons.prems(1) [of j v] Cons.prems(4,5) by auto
  have sk: "skeleton v1 = skeleton w" "skeleton v1 = skeleton v" using v1(2) Cons.prems(4) by (simp_all add: moved_def)
  note ad = skeleton_same(2) [OF Cons.prems(4)]
  have clean: "adapters_at v x \<inter> (set (pl j) \<union> ?Q) = {}" if "x \<in> set (pl j) \<union> ?Q" for x
    using Cons.prems(3) that by (simp add: ad)
  have dis: "set (pl j) \<inter> ?Q = {}" "\<forall>p \<in> set (pl j). adapters_at v p \<inter> ?Q = {}" "\<forall>q \<in> ?Q. adapters_at v q \<inter> set (pl j) = {}"
    using Cons.prems(2) clean by (simp, blast, blast)
  have "fb_state v1 x = Some s" if "x \<in> ?Q" for x
  proof -
    have "x \<notin> set (pl j)" "\<forall>p \<in> set (pl j). x \<notin> adapters_at v p" using dis that by blast+
    then have "fb_state v1 x = fb_state v x" using v1(2) by (simp add: moved_def)
    then show ?thesis using Cons.prems(5) that by simp
  qed
  moreover have "distinct (concat (map pl js))" "\<forall>x \<in> ?Q. adapters_at w x \<inter> ?Q = {}"
    using Cons.prems(2) clean by (simp, unfold ad, blast)
  ultimately obtain v2 where v2: "change_internals chg (map Some js) e_RDY v1 = Some (e_RDY, v2)" "moved cmd s ?Q v1 v2"
    using Cons.IH [of v1] Cons.prems(1) sk(1) by auto
  have "moved cmd s (set (pl j) \<union> ?Q) v v2"
    by (rule moved_trans [OF v1(2) v2(2) dis])
  with v1(1) v2(1) show ?case by simp
qed

lemma setParams_effect:
  assumes "composite_of i w = Some c" "None \<notin> set (m_apoInternalFBs c)" "\<forall>q \<in> set qs. m_nFBNum q < length (m_apoInternalFBs c)"
  shows "\<exists>w'. setParams frs i qs w = Some w' \<and> skeleton w' = skeleton w \<and> fb_state w' = fb_state w"
  using assms
proof (induction qs arbitrary: w)
  case (Cons q qs)
  have "m_apoInternalFBs c ! m_nFBNum q \<noteq> None"
    using Cons.prems(2,3) by (metis list.set_intros(1) nth_mem)
  then obtain j where j: "m_apoInternalFBs c ! m_nFBNum q = Some j" by blast
  have up: "skeleton (upd_fb j (\<lambda>b. b\<lparr>m_aoDIs := f b\<rparr>) w) = skeleton w \<and> fb_state (upd_fb j (\<lambda>b. b\<lparr>m_aoDIs := f b\<rparr>) w) = fb_state w"
    for f
    by (simp add: upd_fb_def skeleton_def fb_state_def fun_eq_iff split: option.split)
  have step: "\<exists>w1. setParams frs i (q # qs) w = setParams frs i qs w1 \<and> skeleton w1 = skeleton w \<and> fb_state w1 = fb_state w"
    using Cons.prems(1) j up by (auto simp: Let_def)
  then obtain w1 where w1: "setParams frs i (q # qs) w = setParams frs i qs w1" "skeleton w1 = skeleton w" "fb_state w1 = fb_state w"
    by blast
  have "composite_of i w1 = Some c" using skeleton_same(1) [OF w1(2), of i] Cons.prems(1) by simp
  with Cons.IH [of w1] Cons.prems(2,3) w1 show ?case by auto
qed simp

lemma map_Some_the: "None \<notin> set as \<Longrightarrow> map Some (map the as) = as"
  by (induction as) auto

lemma change_internals_refused: "r \<noteq> e_RDY \<Longrightarrow> change_internals chg as r w = Some (r, w)"
  by (cases as) simp_all

lemma composite_moves:
  assumes "built k w i" "distinct (parts k w i)" "\<forall>x \<in> set (parts k w i). adapters_at w x \<inter> set (parts k w i) = {}"
    and "plain_inner w" "\<forall>x \<in> set (parts k w i). fb_state w x = Some s" "cmd = cg_nMGM_CMD_Start \<or> cmd = cg_nMGM_CMD_Reset"
  shows "\<exists>r w'. net_changeFBExecutionState (lift_change event_changeFBExecutionState) frs k cmd i w = Some (r, w') \<and>
    (r = e_RDY \<longleftrightarrow> fst (fb_state_switch cmd s) = e_RDY) \<and> moved cmd s (set (parts k w i)) w w'"
  using assms
proof (induction k arbitrary: i w)
  case 0
  then show ?case using leaf_moves [of w i s cmd frs 0] by simp
next
  case (Suc k)
  show ?case
  proof (cases "composite_of i w")
    case None
    then show ?thesis using Suc.prems leaf_moves [of w i s cmd frs "Suc k"] by simp
  next
    case (Some c)
    let ?chg = "net_changeFBExecutionState (lift_change event_changeFBExecutionState) frs k cmd"
    define js where "js = map the (m_apoInternalFBs c)"
    define Q where "Q = set (concat (map (parts k w) js))"
    have c: "None \<notin> set (m_apoInternalFBs c)" "\<forall>q \<in> set (m_pstParams (cm_cpoFBNData c)). m_nFBNum q < length (m_apoInternalFBs c)"
      "\<forall>j \<in> set js. built k w j"
      using Suc.prems(1) Some by (simp_all add: js_def)
    have fbs: "m_apoInternalFBs c = map Some js"
      using map_Some_the [OF c(1)] by (simp add: js_def)
    have parts: "parts (Suc k) w i = i # concat (map (parts k w) js)" by (simp add: Some js_def)
    then have P: "set (parts (Suc k) w i) = {i} \<union> Q" by (simp add: Q_def)
    have iQ: "i \<notin> Q" "distinct (concat (map (parts k w) js))" using Suc.prems(2) [unfolded parts] by (simp_all add: Q_def)
    have clean: "adapters_at w x \<inter> ({i} \<union> Q) = {}" if "x \<in> {i} \<union> Q" for x
      using Suc.prems(3) that unfolding P by blast
    have st: "fb_state w i = Some s" "\<forall>x \<in> Q. fb_state w x = Some s" using Suc.prems(5) [unfolded P] by simp_all
    obtain b where b: "w_fbs w i = Some b" "fb_class b = N_composite c"
      using Some by (auto simp: composite_of_def split: option.splits net_class.splits)
    define r w1 where "r = fst (changeFBExecutionState (\<lambda>b. b) 1 cmd i w)" and "w1 = snd (changeFBExecutionState (\<lambda>b. b) 1 cmd i w)"
    have "i \<notin> adapters_at w i" using clean by auto
    note bc = base_change_parts [OF st(1) this, where cmd = cmd]
    have m1: "moved cmd s {i} w w1" and r: "r = fst (fb_state_switch cmd s)"
      using bc base_change_skeleton [of 1 cmd i w] by (simp_all add: moved_def r_def w1_def)
    have sk1: "skeleton w1 = skeleton w" using m1 by (simp add: moved_def)
    have internals: "\<exists>w2. change_internals ?chg (map Some js) r w1 = Some (r, w2) \<and> moved cmd s ({i} \<union> Q) w w2"
    proof (cases "r = e_RDY")
      case False
      have "fb_state w1 x = Some s" if "x \<in> Q" for x
      proof -
        have "x \<noteq> i" "x \<notin> adapters_at w i" using that iQ clean by auto
        then show ?thesis using m1 st(2) that by (simp add: moved_def)
      qed
      then have "moved cmd s ({i} \<union> Q) w w1"
        using m1 switch_refused [of cmd s] False r by (auto simp: moved_def)
      then show ?thesis using change_internals_refused [OF False] by blast
    next
      case True
      have "\<exists>v'. ?chg j v = Some (e_RDY, v') \<and> moved cmd s (set (parts k w j)) v v'"
        if "j \<in> set js" "skeleton v = skeleton w" "\<forall>x \<in> set (parts k w j). fb_state v x = Some s" for j v
      proof -
        have sub: "set (parts k w j) \<subseteq> Q" using that(1) by (auto simp: Q_def)
        have "distinct (parts k w j)" using iQ(2) that(1) by (auto simp: distinct_concat_iff)
        moreover have "\<forall>x \<in> set (parts k w j). adapters_at v x \<inter> set (parts k w j) = {}"
          using clean sub skeleton_same(2) [OF that(2)] by blast
        ultimately show ?thesis
          using Suc.IH [of v j] c(3) that built_same [OF that(2), of k j] parts_same [OF that(2), of k j]
            skeleton_same(3) [OF that(2)] Suc.prems(4,6) True r by auto
      qed
      moreover have "\<forall>x \<in> Q. fb_state w1 x = Some s"
      proof
        fix x assume "x \<in> Q"
        then have "x \<noteq> i" "x \<notin> adapters_at w i" using iQ clean by auto
        then show "fb_state w1 x = Some s" using m1 st(2) \<open>x \<in> Q\<close> by (simp add: moved_def)
      qed
      moreover have "\<forall>x \<in> Q. adapters_at w x \<inter> Q = {}" using clean by blast
      ultimately obtain w2 where w2: "change_internals ?chg (map Some js) e_RDY w1 = Some (e_RDY, w2)" "moved cmd s Q w1 w2"
        using internals_move [of js w "parts k w" s ?chg cmd w1] iQ(2) sk1 by (auto simp: Q_def)
      have "moved cmd s ({i} \<union> Q) w w2"
        by (rule moved_trans [OF m1 w2(2)]) (use iQ clean in auto)
      with w2(1) True show ?thesis by blast
    qed
    then obtain w2 where w2: "change_internals ?chg (map Some js) r w1 = Some (r, w2)" "moved cmd s ({i} \<union> Q) w w2"
      by blast
    have "composite_of i w2 = Some c" using w2(2) Some skeleton_same(1) [of w2 w i] by (simp add: moved_def)
    then obtain w3 where w3: "setParams frs i (m_pstParams (cm_cpoFBNData c)) w2 = Some w3" "skeleton w3 = skeleton w2" "fb_state w3 = fb_state w2"
      using setParams_effect [OF _ c(1,2)] by blast
    then have m3: "moved cmd s ({i} \<union> Q) w w3" using w2(2) by (simp add: moved_def)
    have "net_changeFBExecutionState (lift_change event_changeFBExecutionState) frs (Suc k) cmd i w \<in> {Some (r, w2), Some (r, w3)}"
      using w2(1) w3(1) b by (simp add: net_changeFBExecutionState.simps [of _ _ "Suc k"] Let_def fbs r_def w1_def)
    then show ?thesis
      using w2(2) m3 r unfolding P by auto
  qed
qed

text \<open>
  C19. A composite and all blocks in it, at every depth, change their execution state together: when they are all in one
  state, Start and Reset return, and leave them all in the state that the command leads to, which is the old one when
  the command is refused.
\<close>

theorem composite_changes_as_one:
  assumes "built k w i" "distinct (parts k w i)" "\<forall>x \<in> set (parts k w i). adapters_at w x \<inter> set (parts k w i) = {}"
    and "plain_inner w" "\<forall>x \<in> set (parts k w i). fb_state w x = Some s" "cmd = cg_nMGM_CMD_Start \<or> cmd = cg_nMGM_CMD_Reset"
  shows "\<exists>r w'. net_changeFBExecutionState (lift_change event_changeFBExecutionState) frs k cmd i w = Some (r, w') \<and>
    (r = e_RDY \<longleftrightarrow> fst (fb_state_switch cmd s) = e_RDY) \<and>
    (\<forall>x \<in> set (parts k w i). fb_state w' x = Some (snd (fb_state_switch cmd s)))"
  using composite_moves [OF assms, of frs] by (auto simp: moved_def)

theorem composite_changes_as_one_witness:
  "\<exists>w'. net_changeFBExecutionState (lift_change event_changeFBExecutionState) (\<lambda>_ x. x) 1 cg_nMGM_CMD_Start 0 siblings = Some (e_RDY, w') \<and>
    fb_state w' 0 = Some e_RUNNING \<and> fb_state w' 1 = Some e_RUNNING \<and> fb_state w' 2 = Some e_RUNNING"
proof -
  have c: "composite_of 0 siblings = Some \<lparr>cm_cpoFBNData = E_RTimeOut_net, m_apoInternalFBs = [Some 1, Some 2], m_apoIn2IfDConns = []\<rparr>"
    "composite_of 1 siblings = None" "composite_of 2 siblings = None"
    by (simp_all add: siblings_def composite_of_def)
  have p: "parts 1 siblings 0 = [0, 1, 2]"
    using c by (simp add: parts.simps(2) [of 0, folded One_nat_def])
  have b: "built 1 siblings 0"
    using c by (simp add: built.simps(2) [of 0, folded One_nat_def] E_RTimeOut_net_def)
  have st: "fb_state siblings 0 = Some e_IDLE" "fb_state siblings 1 = Some e_IDLE" "fb_state siblings 2 = Some e_IDLE"
    by (simp_all add: siblings_def fb_state_def)
  have ad: "adapters_at siblings x = {}" for x by (simp add: siblings_def adapters_at_def split: option.split)
  have pl: "plain_inner siblings" by (auto simp: siblings_def plain_inner_def split: if_splits)
  show ?thesis
    using composite_changes_as_one [OF b _ _ pl, of e_IDLE cg_nMGM_CMD_Start "\<lambda>_ x. x", unfolded p]
    by (simp add: ad st st(2) [unfolded One_nat_def] fb_state_switch_def)
qed

end
