(* ===== verification/Monitoring.thy ===== *)
theory Monitoring
  imports Mgm_Handler
begin

text \<open>
  The monitoring commands of a resource, \<^verbatim>\<open>src/src/core/monitoring.cpp\<close>: the list of watched data points and
  events, its report, forced values and triggered events.

  As in \<open>Resource\<close>, blocks have no adapters and no networks, so that \<open>mContainer\<close> of a block is null and
  its name in a report is that of its instance. The text of a value, which \<open>toString\<close> or for strings \<open>toUTF8\<close> put into a
  buffer of \<open>getToStringBufferSize\<close> bytes, is the parameter \<open>vt\<close>; it is \<open>None\<close> when they fail, and then the code
  appends a buffer without an end. \<open>None\<close> also stands for the use of a block that has been deleted.

  The code posts \<open>mTriggerEvent\<close> by reference. The model posts it by value, and answers \<open>None\<close> when a different
  triggered event is still in a list, which the code would change.
\<close>

unbundle bit_operations_syntax

section \<open>The watch list\<close>

fun find_entry :: "(nat \<Rightarrow> TStringId option) \<Rightarrow> TStringId \<Rightarrow> SFBMonitoringEntry list \<Rightarrow> nat \<Rightarrow> nat option" where
  "find_entry names n [] k = Some k"
| "find_entry names n (e # es) k =
     (case names (m_poFB e) of
        None \<Rightarrow> None
      | Some m \<Rightarrow> if m = n then Some k else find_entry names n es (Suc k))"

text \<open>The entry is found by the name of its block.\<close>

definition findOrCreateFBMonitoringEntry ::
  "(nat \<Rightarrow> TStringId option) \<Rightarrow> nat \<Rightarrow> TStringId \<Rightarrow> SFBMonitoringEntry list \<Rightarrow> (nat \<times> SFBMonitoringEntry list) option" where
  "findOrCreateFBMonitoringEntry names i n L =
     map_option (\<lambda>k. (k, if k < length L then L
        else L @ [\<lparr>m_poFB = i, m_lstWatchedDataPoints = [], m_lstWatchedEventPoints = []\<rparr>])) (find_entry names n L 0)"

definition addDataWatch :: "TStringId \<Rightarrow> nat \<times> bool \<times> nat \<Rightarrow> SFBMonitoringEntry \<Rightarrow> SFBMonitoringEntry" where
  "addDataWatch p v e =
     (if p \<in> dw_PortId ` set (m_lstWatchedDataPoints e) then e
      else e\<lparr>m_lstWatchedDataPoints := m_lstWatchedDataPoints e @ [\<lparr>dw_PortId = p, mDataValue = v\<rparr>]\<rparr>)"

definition addEventWatch :: "TStringId \<Rightarrow> nat \<times> bool \<times> nat \<Rightarrow> SFBMonitoringEntry \<Rightarrow> SFBMonitoringEntry" where
  "addEventWatch p v e =
     (if p \<in> ew_PortId ` set (m_lstWatchedEventPoints e) then e
      else e\<lparr>m_lstWatchedEventPoints := m_lstWatchedEventPoints e @ [\<lparr>ew_PortId = p, m_roEventData = v\<rparr>]\<rparr>)"

fun remove_first :: "('a \<Rightarrow> bool) \<Rightarrow> 'a list \<Rightarrow> bool \<times> 'a list" where
  "remove_first P [] = (False, [])"
| "remove_first P (x # xs) = (if P x then (True, xs) else (fst (remove_first P xs), x # snd (remove_first P xs)))"

definition removeDataWatch :: "TStringId \<Rightarrow> SFBMonitoringEntry \<Rightarrow> bool \<times> SFBMonitoringEntry" where
  "removeDataWatch p e =
     (let r = remove_first (\<lambda>d. dw_PortId d = p) (m_lstWatchedDataPoints e) in (fst r, e\<lparr>m_lstWatchedDataPoints := snd r\<rparr>))"

definition removeEventWatch :: "TStringId \<Rightarrow> SFBMonitoringEntry \<Rightarrow> bool \<times> SFBMonitoringEntry" where
  "removeEventWatch p e =
     (let r = remove_first (\<lambda>d. ew_PortId d = p) (m_lstWatchedEventPoints e) in (fst r, e\<lparr>m_lstWatchedEventPoints := snd r\<rparr>))"

text \<open>The loop of \<open>removeWatch\<close>, which finds the entry by its block.\<close>

fun remove_from_entry :: "nat \<Rightarrow> TStringId \<Rightarrow> SFBMonitoringEntry list \<Rightarrow> EMGMResponse \<times> SFBMonitoringEntry list" where
  "remove_from_entry i p [] = (e_NO_SUCH_OBJECT, [])"
| "remove_from_entry i p (e # es) =
     (if m_poFB e = i then
        (let d = removeDataWatch p e; v = (if fst d then d else removeEventWatch p e) in
         if \<not> fst v then (e_NO_SUCH_OBJECT, e # es)
         else (e_RDY, if m_lstWatchedDataPoints (snd v) = [] \<and> m_lstWatchedEventPoints (snd v) = [] then es else snd v # es))
      else let r = remove_from_entry i p es in (fst r, e # snd r))"

section \<open>Commands\<close>

text \<open>The last name is that of the port, the others lead to the block. Of an empty list the code would take the last name
  all the same; the management parser gives at least one.\<close>

definition monitored_fb :: "TStringId list \<Rightarrow> 'c resource \<Rightarrow> (nat \<times> 'c fb) option" where
  "monitored_fb ns R =
     (if ns = [] then None
      else case contained_block (butlast ns) (last ns) R of
             None \<Rightarrow> None
           | Some i \<Rightarrow> map_option (Pair i) (w_fbs (res_world R) i))"

text \<open>The event with a name, an input or else an output.\<close>

definition find_event :: "TStringId \<Rightarrow> 'c fb \<Rightarrow> (bool \<times> nat) option" where
  "find_event n b =
     (let p = getPortId n (m_aunEINames (fb_spec b)); q = getPortId n (m_aunEONames (fb_spec b))
      in if p \<noteq> cg_nInvalidEventID then Some (True, p) else if q \<noteq> cg_nInvalidEventID then Some (False, q) else None)"

definition addWatch :: "TStringId list \<Rightarrow> 'c resource \<Rightarrow> (EMGMResponse \<times> 'c resource) option" where
  "addWatch ns R =
     (case monitored_fb ns R of
        None \<Rightarrow> Some (e_NO_SUCH_OBJECT, R)
      | Some (i, b) \<Rightarrow>
          (case findOrCreateFBMonitoringEntry (fb_name (res_world R)) i (m_nFBInstanceName b) (mFBMonitoringList R) of
             None \<Rightarrow> None
           | Some (k, L) \<Rightarrow>
               Some (case find_var (last ns) b of
                   Some v \<Rightarrow> (e_RDY, R\<lparr>mFBMonitoringList := L[k := addDataWatch (last ns) (i, v) (L ! k)]\<rparr>)
                 | None \<Rightarrow>
                     (case find_event (last ns) b of
                        Some v \<Rightarrow> (e_RDY, R\<lparr>mFBMonitoringList := L[k := addEventWatch (last ns) (i, v) (L ! k)]\<rparr>)
                      | None \<Rightarrow> (e_NO_SUCH_OBJECT, R\<lparr>mFBMonitoringList := L\<rparr>)))))"

definition removeWatch :: "TStringId list \<Rightarrow> 'c resource \<Rightarrow> EMGMResponse \<times> 'c resource" where
  "removeWatch ns R =
     (case monitored_fb ns R of
        None \<Rightarrow> (e_NO_SUCH_OBJECT, R)
      | Some (i, b) \<Rightarrow>
          (let r = remove_from_entry i (last ns) (mFBMonitoringList R) in (fst r, R\<lparr>mFBMonitoringList := snd r\<rparr>)))"

section \<open>Reports\<close>

text \<open>The texts for all elements of a list, one after the other.\<close>

fun append_all :: "('a \<Rightarrow> u8 list option) \<Rightarrow> 'a list \<Rightarrow> u8 list option" where
  "append_all f [] = Some []"
| "append_all f (x # xs) = Option.bind (f x) (\<lambda>t. map_option ((@) t) (append_all f xs))"

definition appendPortTag :: "TStringId \<Rightarrow> u8 list" where
  "appendPortTag p = ascii ''<Port name=\"'' @ ascii p @ ascii ''\">''"

definition data_point :: "bool \<times> nat \<Rightarrow> 'c fb \<Rightarrow> dpoint" where
  "data_point v b = (if fst v then m_aoDIs b else m_aoDOs b) ! snd v"

definition appendDataWatch :: "(iec_any \<Rightarrow> u8 list option) \<Rightarrow> 'c world \<Rightarrow> SDataWatchEntry \<Rightarrow> u8 list option" where
  "appendDataWatch vt w d =
     Option.bind (w_fbs w (fst (mDataValue d))) (\<lambda>b.
       let dp = data_point (snd (mDataValue d)) b in
       map_option (\<lambda>t. appendPortTag (dw_PortId d) @ ascii ''<Data value=\"'' @ t @ ascii ''\" forced=\"'' @
           (if dp_forced dp then ascii ''true'' else ascii ''false'') @ ascii ''\"></Data></Port>'')
         (vt (dp_val dp)))"

definition monitor_data :: "bool \<times> nat \<Rightarrow> 'c fb \<Rightarrow> SMonitorEvent" where
  "monitor_data v b = (if fst v then m_nEIMonitorCount b else m_nEOMonitorCount b) ! snd v"

definition timestamp_value :: "SForteTime \<Rightarrow> u64" where
  "timestamp_value t =
     (push_bit 32 (ucast (m_nUpperValue t)) AND 0xFFFFFFFF00000000) + (ucast (m_nLowerValue t) AND 0xFFFFFFFF)"

text \<open>The text that \<open>toString\<close> leaves in a buffer, if it fits.\<close>

definition printed :: "int \<times> u8 list \<Rightarrow> u8 list option" where
  "printed r = (if fst r = - 1 then None else Some (take (nat (fst r)) (snd r)))"

definition appendEventWatch :: "'c world \<Rightarrow> SEventWatchEntry \<Rightarrow> u8 list option" where
  "appendEventWatch w e =
     Option.bind (w_fbs w (fst (m_roEventData e))) (\<lambda>b.
       let m = monitor_data (snd (m_roEventData e)) b in
       Option.bind (printed (elem_toString e_UDINT (ucast (mEventCount m)) 10)) (\<lambda>c.
       map_option (\<lambda>t. appendPortTag (ew_PortId e) @ ascii ''<Data value=\"'' @ c @ ascii ''\" time=\"'' @ t @
           ascii ''\"></Data></Port>'')
         (printed (elem_toString e_ULINT (timestamp_value (mTimeStamp m)) 21))))"

text \<open>The list of blocks in a report, with what \<open>f\<close> writes for each.\<close>

definition append_blocks :: "(SFBMonitoringEntry \<Rightarrow> u8 list option) \<Rightarrow> 'c resource \<Rightarrow> u8 list option" where
  "append_blocks f R =
     (if mFBMonitoringList R = [] then Some []
      else
        Option.bind (fb_name (res_world R) (res_fb R)) (\<lambda>n.
          map_option (\<lambda>t. ascii ''<Resource name=\"'' @ ascii n @ ascii ''\">'' @ t @ ascii ''</Resource>'')
            (append_all (\<lambda>e. Option.bind (fb_name (res_world R) (m_poFB e)) (\<lambda>m.
                 map_option (\<lambda>t. ascii ''<FB name=\"'' @ ascii m @ ascii ''\">'' @ t @ ascii ''</FB>'') (f e)))
               (mFBMonitoringList R))))"

definition readResourceWatches :: "(iec_any \<Rightarrow> u8 list option) \<Rightarrow> 'c resource \<Rightarrow> u8 list option" where
  "readResourceWatches vt R =
     append_blocks (\<lambda>e.
       Option.bind (append_all (appendDataWatch vt (res_world R)) (m_lstWatchedDataPoints e)) (\<lambda>t.
         map_option ((@) t) (append_all (appendEventWatch (res_world R)) (m_lstWatchedEventPoints e)))) R"

definition getResourceWatches :: "'c resource \<Rightarrow> u8 list option" where
  "getResourceWatches R = append_blocks (\<lambda>e. Some []) R"

text \<open>
  \<open>readWatches\<close> and \<open>getWatches\<close>: those of the resource itself or, in the device, those of its resources. \<open>kids\<close> is
  \<open>None\<close> in a resource.
\<close>

definition readWatches ::
  "('c resource \<Rightarrow> u8 list option) \<Rightarrow> (nat \<Rightarrow> 'c resource option) option \<Rightarrow> 'c resource \<Rightarrow> u8 list option" where
  "readWatches f kids R =
     (case kids of
        None \<Rightarrow> f R
      | Some D \<Rightarrow> append_all (\<lambda>i. Option.bind (D i) f) (mFunctionBlocks (res_cont R)))"

section \<open>Forcing and triggering\<close>

definition set_point :: "bool \<times> nat \<Rightarrow> dpoint \<Rightarrow> 'c fb \<Rightarrow> 'c fb" where
  "set_point v d b =
     (if fst v then b\<lparr>m_aoDIs := (m_aoDIs b)[snd v := d]\<rparr> else b\<lparr>m_aoDOs := (m_aoDOs b)[snd v := d]\<rparr>)"

text \<open>\<open>CFunctionBlock::forceData\<close>, which looks for an output first, as \<open>getVar\<close> does not.\<close>

definition forceData ::
  "platform \<Rightarrow> (u8 list \<Rightarrow> iec_any \<Rightarrow> int \<times> iec_any) \<Rightarrow> TStringId \<Rightarrow> u8 list \<Rightarrow> 'c fb \<Rightarrow> bool \<times> 'c fb" where
  "forceData P frs n text b =
     (let q = getPortId n (m_aunDONames (fb_spec b)); p = getPortId n (m_aunDINames (fb_spec b));
          force = (\<lambda>d. \<lparr>dp_val = snd (frs text (dp_val d)), dp_forced = True\<rparr>)
      in if q \<noteq> cg_unInvalidPortId then
           (let d = force (m_aoDOs b ! q); b1 = set_point (False, q) d b
            in (True, if dc_dests (mDOConns b ! q) \<noteq> []
                      then b1\<lparr>mDOConns := (mDOConns b)[q := writeData P (dp_val d) (mDOConns b ! q)]\<rparr> else b1))
         else if p \<noteq> cg_unInvalidPortId then (True, set_point (True, p) (force (m_aoDIs b ! p)) b)
         else (False, b))"

definition forceValue ::
  "(u8 list \<Rightarrow> iec_any \<Rightarrow> int \<times> iec_any) \<Rightarrow> TStringId list \<Rightarrow> u8 list \<Rightarrow> 'c resource \<Rightarrow> EMGMResponse \<times> 'c resource" where
  "forceValue frs ns text R =
     (case monitored_fb ns R of
        None \<Rightarrow> (e_NO_SUCH_OBJECT, R)
      | Some (i, b) \<Rightarrow>
          (let r = forceData (w_platform (res_world R)) frs (last ns) text b
           in (if fst r then e_RDY else e_INVALID_DST, set_world ((res_world R)\<lparr>w_fbs := (w_fbs (res_world R))(i \<mapsto> snd r)\<rparr>) R)))"

definition clearForce :: "TStringId list \<Rightarrow> 'c resource \<Rightarrow> EMGMResponse \<times> 'c resource" where
  "clearForce ns R =
     (case monitored_fb ns R of
        None \<Rightarrow> (e_NO_SUCH_OBJECT, R)
      | Some (i, b) \<Rightarrow>
          (case find_var (last ns) b of
             None \<Rightarrow> (e_INVALID_DST, R)
           | Some v \<Rightarrow>
               (e_RDY, set_world ((res_world R)\<lparr>w_fbs := (w_fbs (res_world R))(i \<mapsto>
                  set_point v ((data_point v b)\<lparr>dp_forced := False\<rparr>) b)\<rparr>) R)))"

definition trigger_pending :: "'c resource \<Rightarrow> bool" where
  "trigger_pending R \<longleftrightarrow>
     (case mTriggerEvent R of
        None \<Rightarrow> False
      | Some t \<Rightarrow> Some t \<in> set (slots (mEventList (res_world R))) \<union> set (slots (mExternalEventList (res_world R))))"

definition monitor_triggerEvent :: "TStringId list \<Rightarrow> 'c resource \<Rightarrow> (EMGMResponse \<times> 'c resource) option" where
  "monitor_triggerEvent ns R =
     (case monitored_fb ns R of
        None \<Rightarrow> Some (e_NO_SUCH_OBJECT, R)
      | Some (i, b) \<Rightarrow>
          (case find_event (last ns) b of
             None \<Rightarrow> Some (e_NO_SUCH_OBJECT, R)
           | Some (True, p) \<Rightarrow>
               (let t = \<lparr>mFB = i, mPortId = p\<rparr>
                in if trigger_pending R \<and> mTriggerEvent R \<noteq> Some t then None
                   else Some (e_RDY, set_world (startEventChain t (res_world R)) (R\<lparr>mTriggerEvent := Some t\<rparr>)))
           | Some (False, p) \<Rightarrow> Some (e_RDY, set_world (resumeSelfSuspend (sendOutputEvent i p (res_world R))) R)))"

definition resetEventCount :: "TStringId list \<Rightarrow> 'c resource \<Rightarrow> EMGMResponse \<times> 'c resource" where
  "resetEventCount ns R =
     (case monitored_fb ns R of
        None \<Rightarrow> (e_NO_SUCH_OBJECT, R)
      | Some (i, b) \<Rightarrow>
          (case find_event (last ns) b of
             None \<Rightarrow> (e_NO_SUCH_OBJECT, R)
           | Some (inp, p) \<Rightarrow>
               (e_RDY, set_world ((if inp then upd_EI_monitor else upd_EO_monitor) i p (\<lambda>m. m\<lparr>mEventCount := 0\<rparr>) (res_world R)) R)))"

section \<open>The handler\<close>

text \<open>Commands other than these answer that they are not supported. Those on a port take its name off the list.\<close>

definition executeMonitoringCommand ::
  "(iec_any \<Rightarrow> u8 list option) \<Rightarrow> (u8 list \<Rightarrow> iec_any \<Rightarrow> int \<times> iec_any) \<Rightarrow> (nat \<Rightarrow> 'c resource option) option \<Rightarrow>
     SManagementCMD \<Rightarrow> 'c resource \<Rightarrow> (EMGMResponse \<times> SManagementCMD \<times> 'c resource) option" where
  "executeMonitoringCommand vt frs kids cmd R =
     (let ns = mFirstParam cmd; popped = cmd\<lparr>mFirstParam := butlast ns\<rparr>;
          port = (\<lambda>r. (fst r, popped, snd r)); report = (\<lambda>t. (e_RDY, cmd\<lparr>mMonitorResponse := t\<rparr>, R))
      in case mCMD cmd of
           cg_nMGM_CMD_Monitoring_Add_Watch \<Rightarrow> map_option port (addWatch ns R)
         | cg_nMGM_CMD_Monitoring_Remove_Watch \<Rightarrow> Some (port (removeWatch ns R))
         | cg_nMGM_CMD_Monitoring_Read_Watches \<Rightarrow> map_option report (readWatches (readResourceWatches vt) kids R)
         | cg_nMGM_CMD_Monitoring_Get_Watches \<Rightarrow> map_option report (readWatches getResourceWatches kids R)
         | cg_nMGM_CMD_Monitoring_Force \<Rightarrow> Some (port (forceValue frs ns (mAdditionalParams cmd) R))
         | cg_nMGM_CMD_Monitoring_ClearForce \<Rightarrow> Some (port (clearForce ns R))
         | cg_nMGM_CMD_Monitoring_Trigger_Event \<Rightarrow> map_option port (monitor_triggerEvent ns R)
         | cg_nMGM_CMD_Monitoring_Reset_Event_Count \<Rightarrow> Some (port (resetEventCount ns R))
         | _ \<Rightarrow> Some (e_UNSUPPORTED_CMD, cmd, R))"

text \<open>A handler with the monitoring commands, as a resource and a device call it.\<close>

definition with_monitoring :: "(iec_any \<Rightarrow> u8 list option) \<Rightarrow> 'c services \<Rightarrow> 'c services" where
  "with_monitoring vt S =
     S\<lparr>s_monitoring := executeMonitoringCommand vt (s_fromString S) None,
       s_device_monitoring := (\<lambda>D. executeMonitoringCommand vt (s_fromString S) (Some D))\<rparr>"

end
