(* ===== verification/Monitoring_Laws.thy ===== *)
theory Monitoring_Laws
  imports Monitoring Value_Laws
begin

text \<open>
  What monitoring promises: the watch list is a set of ports, its references stay good while the resource
  runs, a report is given as long as the event counts are small, and a forced input keeps its value.
  And where it does not: blocks of the same name in different containers.
\<close>

section \<open>The watch list as a set\<close>

lemma remove_first_found [simp]: "fst (remove_first P xs) \<longleftrightarrow> (\<exists>x \<in> set xs. P x)"
  by (induction xs) auto

lemma remove_first_port:
  "distinct (map f xs) \<Longrightarrow> snd (remove_first (\<lambda>d. f d = p) xs) = filter (\<lambda>d. f d \<noteq> p) xs"
proof (induction xs)
  case (Cons x xs)
  have "filter (\<lambda>d. f d \<noteq> p) xs = xs" if "f x = p"
    using Cons.prems that by (auto simp: filter_id_conv image_iff)
  then show ?case using Cons by auto
qed simp

definition entry_ports :: "SFBMonitoringEntry \<Rightarrow> TStringId set" where
  "entry_ports e = dw_PortId ` set (m_lstWatchedDataPoints e) \<union> ew_PortId ` set (m_lstWatchedEventPoints e)"

definition watched :: "SFBMonitoringEntry list \<Rightarrow> (nat \<times> TStringId) set" where
  "watched L = (\<Union>e \<in> set L. Pair (m_poFB e) ` entry_ports e)"

text \<open>An entry is good when its references lead to the ports that they are named after.\<close>

definition entry_ok :: "'c world \<Rightarrow> SFBMonitoringEntry \<Rightarrow> bool" where
  "entry_ok w e \<longleftrightarrow>
     (\<exists>b. w_fbs w (m_poFB e) = Some b \<and>
       distinct (map dw_PortId (m_lstWatchedDataPoints e)) \<and> distinct (map ew_PortId (m_lstWatchedEventPoints e)) \<and>
       (\<forall>d \<in> set (m_lstWatchedDataPoints e). \<exists>v. find_var (dw_PortId d) b = Some v \<and> mDataValue d = (m_poFB e, v)) \<and>
       (\<forall>x \<in> set (m_lstWatchedEventPoints e). find_var (ew_PortId x) b = None \<and>
          (\<exists>v. find_event (ew_PortId x) b = Some v \<and> m_roEventData x = (m_poFB e, v))))"

definition watches_ok :: "'c world \<Rightarrow> SFBMonitoringEntry list \<Rightarrow> bool" where
  "watches_ok w L \<longleftrightarrow> distinct (map (\<lambda>e. fb_name w (m_poFB e)) L) \<and> (\<forall>e \<in> set L. entry_ok w e)"

lemma watches_ok_simps [simp]:
  "watches_ok w []" "watched [] = {}"
  "watches_ok w (e # L) \<longleftrightarrow> entry_ok w e \<and> fb_name w (m_poFB e) \<notin> (\<lambda>e. fb_name w (m_poFB e)) ` set L \<and> watches_ok w L"
  "watched (e # L) = Pair (m_poFB e) ` entry_ports e \<union> watched L"
  by (auto simp: watches_ok_def watched_def)

lemma entry_ok_name: "entry_ok w e \<Longrightarrow> \<exists>n. fb_name w (m_poFB e) = Some n"
  by (auto simp: entry_ok_def fb_name_def)

lemma watched_block: "(i, p) \<in> watched L \<Longrightarrow> \<exists>e \<in> set L. m_poFB e = i"
  by (auto simp: watched_def)

text \<open>Which entry \<open>findOrCreateFBMonitoringEntry\<close> gives.\<close>

lemma find_entry_position:
  "\<forall>e \<in> set L. names (m_poFB e) \<noteq> None \<Longrightarrow>
    find_entry names n L k = Some (k + length (takeWhile (\<lambda>e. names (m_poFB e) \<noteq> Some n) L))"
  by (induction L arbitrary: k) auto

lemma findOrCreate_effect:
  assumes "watches_ok w L" and "w_fbs w i = Some b"
    and unique: "\<forall>e \<in> set L. fb_name w (m_poFB e) = fb_name w i \<longrightarrow> m_poFB e = i"
  shows "\<exists>k L1. findOrCreateFBMonitoringEntry (fb_name w) i (m_nFBInstanceName b) L = Some (k, L1) \<and>
    k < length L1 \<and> m_poFB (L1 ! k) = i \<and> watches_ok w L1 \<and> watched L1 = watched L"
proof -
  let ?n = "m_nFBInstanceName b" and ?new = "\<lparr>m_poFB = i, m_lstWatchedDataPoints = [], m_lstWatchedEventPoints = []\<rparr>"
  let ?k = "length (takeWhile (\<lambda>e. fb_name w (m_poFB e) \<noteq> Some ?n) L)"
  have n: "fb_name w i = Some ?n" using assms(2) by (simp add: fb_name_def)
  have "\<forall>e \<in> set L. fb_name w (m_poFB e) \<noteq> None"
    using assms(1) by (auto simp: watches_ok_def dest: entry_ok_name)
  note pos = find_entry_position [OF this, of ?n 0]
  show ?thesis
  proof (cases "?k < length L")
    case True
    then have "fb_name w (m_poFB (L ! ?k)) = Some ?n" using nth_length_takeWhile by fastforce
    then have "m_poFB (L ! ?k) = i" using unique n True by auto
    then show ?thesis using pos True assms(1) by (simp add: findOrCreateFBMonitoringEntry_def)
  next
    case False
    then have k: "?k = length L" by (meson le_neq_implies_less length_takeWhile_le)
    then have "takeWhile (\<lambda>e. fb_name w (m_poFB e) \<noteq> Some ?n) L = L"
      using takeWhile_eq_take [of "\<lambda>e. fb_name w (m_poFB e) \<noteq> Some ?n" L] by simp
    then have none: "\<forall>e \<in> set L. fb_name w (m_poFB e) \<noteq> Some ?n"
      by (simp add: takeWhile_eq_all_conv)
    have "watches_ok w (L @ [?new])"
      using assms(1,2) none n by (auto simp: watches_ok_def entry_ok_def)
    moreover have "watched (L @ [?new]) = watched L" by (simp add: watched_def entry_ports_def)
    ultimately show ?thesis using pos k by (simp add: findOrCreateFBMonitoringEntry_def)
  qed
qed

lemma update_entry:
  assumes "watches_ok w L" and "k < length L" and "m_poFB e = m_poFB (L ! k)" and "entry_ok w e"
    and "entry_ports e = insert p (entry_ports (L ! k))"
  shows "watches_ok w (L[k := e])" and "watched (L[k := e]) = insert (m_poFB e, p) (watched L)"
proof -
  have "map (\<lambda>e. fb_name w (m_poFB e)) (L[k := e]) = map (\<lambda>e. fb_name w (m_poFB e)) L"
    using assms(2,3) by (intro map_update_same) simp
  then show "watches_ok w (L[k := e])"
    using assms(1,4) set_update_subset_insert [of L k e] by (auto simp: watches_ok_def)
  have L: "set (L[k := e]) = insert e (set (take k L) \<union> set (drop (Suc k) L))"
    using assms(2) by (simp add: upd_conv_take_nth_drop)
  have L': "set L = insert (L ! k) (set (take k L) \<union> set (drop (Suc k) L))"
    using arg_cong [OF id_take_nth_drop [OF assms(2)], of set] by simp
  show "watched (L[k := e]) = insert (m_poFB e, p) (watched L)"
    unfolding watched_def L L' using assms(3,5) by auto
qed

lemma entry_ok_addDataWatch:
  assumes "entry_ok w e" and "m_poFB e = i" and "w_fbs w i = Some b" and "find_var p b = Some v"
  shows "entry_ok w (addDataWatch p (i, v) e)" and "entry_ports (addDataWatch p (i, v) e) = insert p (entry_ports e)"
    and "m_poFB (addDataWatch p (i, v) e) = i"
  using assms by (auto simp: entry_ok_def entry_ports_def addDataWatch_def)

lemma entry_ok_addEventWatch:
  assumes "entry_ok w e" and "m_poFB e = i" and "w_fbs w i = Some b" and "find_var p b = None" and "find_event p b = Some v"
  shows "entry_ok w (addEventWatch p (i, v) e)" and "entry_ports (addEventWatch p (i, v) e) = insert p (entry_ports e)"
    and "m_poFB (addEventWatch p (i, v) e) = i"
  using assms by (auto simp: entry_ok_def entry_ports_def addEventWatch_def)

text \<open>Removing a port from an entry; it cannot be among the data and the events.\<close>

lemma remove_watch_effect:
  fixes p :: TStringId
  assumes "entry_ok w e"
  defines "d \<equiv> removeDataWatch p e"
  defines "v \<equiv> if fst d then d else removeEventWatch p e"
  shows "fst v \<longleftrightarrow> p \<in> entry_ports e"
    and "entry_ok w (snd v)" and "entry_ports (snd v) = entry_ports e - {p}" and "m_poFB (snd v) = m_poFB e"
proof -
  from assms(1) obtain b where b: "w_fbs w (m_poFB e) = Some b"
    and D: "distinct (map dw_PortId (m_lstWatchedDataPoints e))" and E: "distinct (map ew_PortId (m_lstWatchedEventPoints e))"
    and vars: "\<forall>d \<in> set (m_lstWatchedDataPoints e). \<exists>v. find_var (dw_PortId d) b = Some v \<and> mDataValue d = (m_poFB e, v)"
    and evs: "\<forall>x \<in> set (m_lstWatchedEventPoints e). find_var (ew_PortId x) b = None \<and>
          (\<exists>v. find_event (ew_PortId x) b = Some v \<and> m_roEventData x = (m_poFB e, v))"
    by (auto simp: entry_ok_def)
  have d: "fst d \<longleftrightarrow> p \<in> dw_PortId ` set (m_lstWatchedDataPoints e)"
    "snd d = e\<lparr>m_lstWatchedDataPoints := filter (\<lambda>d. dw_PortId d \<noteq> p) (m_lstWatchedDataPoints e)\<rparr>"
    using remove_first_port [OF D] by (auto simp: d_def removeDataWatch_def Let_def)
  have x: "fst (removeEventWatch p e) \<longleftrightarrow> p \<in> ew_PortId ` set (m_lstWatchedEventPoints e)"
    "snd (removeEventWatch p e) = e\<lparr>m_lstWatchedEventPoints := filter (\<lambda>d. ew_PortId d \<noteq> p) (m_lstWatchedEventPoints e)\<rparr>"
    using remove_first_port [OF E] by (auto simp: removeEventWatch_def Let_def)
  show "fst v \<longleftrightarrow> p \<in> entry_ports e" using d x by (auto simp: v_def entry_ports_def)
  show "m_poFB (snd v) = m_poFB e" using d x by (simp add: v_def)
  show "entry_ok w (snd v)"
    using b D E vars evs d(2) x(2) by (auto simp: entry_ok_def v_def distinct_map_filter)
  have "ew_PortId y \<noteq> p" if "fst d" "y \<in> set (m_lstWatchedEventPoints e)" for y
    using that d(1) vars evs by force
  then show "entry_ports (snd v) = entry_ports e - {p}"
    using d x by (cases "fst d") (auto simp: v_def entry_ports_def)
qed

lemma remove_from_entry_effect:
  "watches_ok w L \<Longrightarrow>
    fst (remove_from_entry i p L) = (if (i, p) \<in> watched L then e_RDY else e_NO_SUCH_OBJECT) \<and>
    watched (snd (remove_from_entry i p L)) = watched L - {(i, p)} \<and> watches_ok w (snd (remove_from_entry i p L)) \<and>
    m_poFB ` set (snd (remove_from_entry i p L)) \<subseteq> m_poFB ` set L"
proof (induction L)
  case (Cons e L)
  then have e: "entry_ok w e" and new: "fb_name w (m_poFB e) \<notin> (\<lambda>e. fb_name w (m_poFB e)) ` set L" and L: "watches_ok w L"
    by simp_all
  have other: "(m_poFB e, q) \<notin> watched L" for q
    using new watched_block [of "m_poFB e" q L] by (metis (no_types, lifting) imageI)
  show ?case
  proof (cases "m_poFB e = i")
    case False
    have "(\<lambda>e. fb_name w (m_poFB e)) ` set (snd (remove_from_entry i p L)) \<subseteq> (\<lambda>e. fb_name w (m_poFB e)) ` set L"
      using Cons.IH [OF L] by force
    then show ?thesis using False Cons.IH [OF L] e new by (auto simp: Let_def)
  next
    case True
    define v where "v = (let d = removeDataWatch p e in if fst d then d else removeEventWatch p e)"
    note v = remove_watch_effect [OF e, of p, folded v_def [unfolded Let_def]]
    have r: "remove_from_entry i p (e # L) =
        (if fst v then (e_RDY, if entry_ports (snd v) = {} then L else snd v # L) else (e_NO_SUCH_OBJECT, e # L))"
      using True by (simp add: Let_def v_def entry_ports_def)
    show ?thesis
    proof (cases "fst v")
      case False
      then have "(i, p) \<notin> watched (e # L)" using v(1) other True by auto
      then show ?thesis using r False Cons.prems by auto
    next
      case found: True
      then have "(i, p) \<in> watched (e # L)" using v(1) True by simp
      moreover have "watched (snd v # L) = watched (e # L) - {(i, p)}" "entry_ports (snd v) = {} \<Longrightarrow> watched (snd v # L) = watched L"
        using v(3,4) other True by auto
      moreover have "watches_ok w (snd v # L)" using v(2,4) new L by simp
      ultimately show ?thesis using r found v(4) L by auto
    qed
  qed
qed simp


section \<open>Reports while the resource runs\<close>

lemma spec_of_shape:
  assumes "world_shape w' = world_shape w" and "w_fbs w i = Some b"
  shows "\<exists>b'. w_fbs w' i = Some b' \<and> fb_spec b' = fb_spec b \<and> m_nFBInstanceName b' = m_nFBInstanceName b"
proof -
  have "map_option fb_shape (w_fbs w' i) = Some (fb_shape b)"
    using fun_cong [OF assms(1), of i] assms(2) by (simp add: world_shape_def)
  then show ?thesis by (auto simp: fb_shape_def)
qed

lemma fb_name_shape: "world_shape w' = world_shape w \<Longrightarrow> fb_name w' = fb_name w"
proof
  fix i
  assume "world_shape w' = world_shape w"
  then have "map_option fb_shape (w_fbs w' i) = map_option fb_shape (w_fbs w i)" by (metis world_shape_def)
  then show "fb_name w' i = fb_name w i"
    by (cases "w_fbs w i"; cases "w_fbs w' i") (auto simp: fb_name_def fb_shape_def)
qed

lemma find_port_spec:
  "fb_spec b' = fb_spec b \<Longrightarrow> find_var n b' = find_var n b \<and> find_event n b' = find_event n b"
  by (simp add: find_var_def find_event_def)

lemma entry_ok_shape:
  assumes "world_shape w' = world_shape w" and "entry_ok w e"
  shows "entry_ok w' e"
proof -
  obtain b where b: "w_fbs w (m_poFB e) = Some b" using assms(2) by (auto simp: entry_ok_def)
  obtain b' where b': "w_fbs w' (m_poFB e) = Some b'" "fb_spec b' = fb_spec b" using spec_of_shape [OF assms(1) b] by blast
  then show ?thesis using assms(2) b by (simp add: entry_ok_def find_port_spec [OF b'(2)])
qed

lemma watches_ok_shape: "world_shape w' = world_shape w \<Longrightarrow> watches_ok w L \<Longrightarrow> watches_ok w' L"
  unfolding watches_ok_def using fb_name_shape [of w' w] entry_ok_shape [of w' w] by simp

lemma append_all_Some: "append_all f xs \<noteq> None \<longleftrightarrow> (\<forall>x \<in> set xs. f x \<noteq> None)"
  by (induction xs) (auto simp: bind_eq_None_conv)

text \<open>A count has room in its buffer only up to nine digits; a time always has.\<close>

lemma first_digit_le: "first_digit k n \<le> k"
  by (induction k) auto

lemma first_digit_last: "first_digit (Suc k) n = Suc k \<longleftrightarrow> 10 ^ Suc k \<le> n"
  using first_digit_le [of k n] by (auto simp: div_eq_0_iff simp del: power_Suc)

lemma count_printed:
  fixes c :: u32
  shows "printed (elem_toString e_UDINT (ucast c) 10) \<noteq> None \<longleftrightarrow> unat c < 10 ^ 9"
proof -
  have u: "(ucast (ucast c :: u64) :: u32) = c" by transfer simp
  have r: "int_range e_UDINT = Some (False, 0, 2 ^ 32 - 1)" by simp
  have l: "length (number_text e_UDINT (elem_int e_UDINT (ucast c))) = Suc (first_digit 9 (unat c))"
    by (simp add: number_text_def last_power_def u del: first_digit.simps)
  have "first_digit 9 (unat c) = 9 \<longleftrightarrow> 10 ^ 9 \<le> unat c" using first_digit_last [of 8 "unat c"] by simp
  moreover have "first_digit 9 (unat c) \<le> 9" by (rule first_digit_le)
  ultimately show ?thesis
    using elem_toString_cap(1,2) [OF r, where w = "ucast c" and cap = 10] l
    by (cases "first_digit 9 (unat c) = 9") (auto simp: printed_def)
qed

lemma time_printed: "printed (elem_toString e_ULINT t 21) \<noteq> None"
proof -
  have r: "int_range e_ULINT = Some (False, 0, 2 ^ 64 - 1)" by simp
  have "length (number_text e_ULINT (elem_int e_ULINT t)) < 21"
    using first_digit_le [of 19 "nat \<bar>uint t\<bar>"] by (simp add: number_text_def last_power_def del: first_digit.simps)
  then show ?thesis using elem_toString_cap(1) [OF r, where w = t and cap = 21] by (simp add: printed_def)
qed

definition watched_count :: "'c world \<Rightarrow> SEventWatchEntry \<Rightarrow> nat" where
  "watched_count w x =
     (case w_fbs w (fst (m_roEventData x)) of
        None \<Rightarrow> 0
      | Some b \<Rightarrow> unat (mEventCount (monitor_data (snd (m_roEventData x)) b)))"

lemma entry_ok_blocks:
  assumes "entry_ok w e"
  shows "x \<in> set (m_lstWatchedEventPoints e) \<Longrightarrow> \<exists>b. w_fbs w (fst (m_roEventData x)) = Some b"
    and "d \<in> set (m_lstWatchedDataPoints e) \<Longrightarrow> \<exists>b. w_fbs w (fst (mDataValue d)) = Some b"
  using assms by (force simp: entry_ok_def)+

lemma readResourceWatches_returns:
  assumes ok: "watches_ok (res_world R) (mFBMonitoringList R)" and res: "w_fbs (res_world R) (res_fb R) \<noteq> None"
    and vt: "\<forall>x. vt x \<noteq> None"
  shows "readResourceWatches vt R \<noteq> None \<longleftrightarrow>
    (\<forall>e \<in> set (mFBMonitoringList R). \<forall>x \<in> set (m_lstWatchedEventPoints e). watched_count (res_world R) x < 10 ^ 9)"
proof (cases "mFBMonitoringList R = []")
  case False
  let ?w = "res_world R"
  have data: "append_all (appendDataWatch vt ?w) (m_lstWatchedDataPoints e) \<noteq> None" if "entry_ok ?w e" for e
    unfolding append_all_Some using entry_ok_blocks(2) [OF that] vt by (fastforce simp: appendDataWatch_def Let_def)
  have events: "append_all (appendEventWatch ?w) (m_lstWatchedEventPoints e) \<noteq> None \<longleftrightarrow>
      (\<forall>x \<in> set (m_lstWatchedEventPoints e). watched_count ?w x < 10 ^ 9)" if e: "entry_ok ?w e" for e
    unfolding append_all_Some
  proof (rule ball_cong [OF refl])
    fix x assume "x \<in> set (m_lstWatchedEventPoints e)"
    then obtain b where b: "w_fbs ?w (fst (m_roEventData x)) = Some b" using entry_ok_blocks(1) [OF e] by blast
    then show "appendEventWatch ?w x \<noteq> None \<longleftrightarrow> watched_count ?w x < 10 ^ 9"
      unfolding appendEventWatch_def watched_count_def b option.case Let_def bind.bind_lunit
        count_printed [symmetric]
      using time_printed by (auto simp: bind_eq_None_conv)
  qed
  let ?f = "\<lambda>e. Option.bind (append_all (appendDataWatch vt ?w) (m_lstWatchedDataPoints e)) (\<lambda>t.
      map_option ((@) t) (append_all (appendEventWatch ?w) (m_lstWatchedEventPoints e)))"
  let ?g = "\<lambda>e. Option.bind (fb_name ?w (m_poFB e)) (\<lambda>m.
      map_option (\<lambda>t. ascii ''<FB name=\"'' @ ascii m @ ascii ''\">'' @ t @ ascii ''</FB>'') (?f e))"
  have g: "?g e \<noteq> None \<longleftrightarrow> (\<forall>x \<in> set (m_lstWatchedEventPoints e). watched_count ?w x < 10 ^ 9)"
    if "e \<in> set (mFBMonitoringList R)" for e
  proof -
    have e: "entry_ok ?w e" "fb_name ?w (m_poFB e) \<noteq> None"
      using ok that entry_ok_name [of ?w e] by (auto simp: watches_ok_def)
    then show ?thesis unfolding events [OF e(1), symmetric] using data [OF e(1)] by fastforce
  qed
  obtain n where "fb_name ?w (res_fb R) = Some n" using res by (auto simp: fb_name_def)
  then have "readResourceWatches vt R \<noteq> None \<longleftrightarrow> append_all ?g (mFBMonitoringList R) \<noteq> None"
    using False by (simp add: readResourceWatches_def append_blocks_def)
  also have "\<dots> \<longleftrightarrow> (\<forall>e \<in> set (mFBMonitoringList R). ?g e \<noteq> None)" by (rule append_all_Some)
  also have "\<dots> \<longleftrightarrow> (\<forall>e \<in> set (mFBMonitoringList R). \<forall>x \<in> set (m_lstWatchedEventPoints e). watched_count ?w x < 10 ^ 9)"
    by (rule ball_cong [OF refl g])
  finally show ?thesis .
qed (simp add: readResourceWatches_def append_blocks_def)


section \<open>Executing never writes an input\<close>

definition inputs :: "'c world \<Rightarrow> nat \<Rightarrow> dpoint list option" where
  "inputs w = (\<lambda>i. map_option m_aoDIs (w_fbs w i))"

lemma inputs_upd: "w_fbs w i = Some b \<Longrightarrow> m_aoDIs b' = m_aoDIs b \<Longrightarrow> inputs (w\<lparr>w_fbs := (w_fbs w)(i \<mapsto> b')\<rparr>) = inputs w"
  by (auto simp: inputs_def)

lemma inputs_upd_fb: "(\<And>b. m_aoDIs (f b) = m_aoDIs b) \<Longrightarrow> inputs (upd_fb i f w) = inputs w"
  by (auto simp: upd_fb_def inputs_def split: option.split)

lemma inputs_frame:
  "w_fbs w1 = w_fbs w \<Longrightarrow> inputs w1 = inputs w"
  by (simp add: inputs_def)

lemma publish_inputs: "m_aoDIs (fold (publish_DO P) ps b) = m_aoDIs b"
  by (induction ps arbitrary: b) (simp_all add: publish_DO_def Let_def)

lemma inputs_trigger [simp]: "inputs (Func_Block.triggerEvent ds w) = inputs w"
  by (rule inputs_frame) simp

lemma inputs_steps [simp]:
  "inputs (sendOutputEvent i eo w) = inputs w"
  "inputs (upd_DO i p f w) = inputs w"
  "inputs (set_class i c w') = inputs w'"
  "inputs (startEventChain x w) = inputs w"
proof -
  show "inputs (sendOutputEvent i eo w) = inputs w"
    by (auto simp: sendOutputEvent_def Let_def publish_inputs intro!: inputs_upd split: option.split)
  show "inputs (upd_DO i p f w) = inputs w" unfolding upd_DO_def by (rule inputs_upd_fb) simp
  show "inputs (set_class i c w') = inputs w'" unfolding set_class_def by (rule inputs_upd_fb) simp
  show "inputs (startEventChain x w) = inputs w" by (rule inputs_frame) (simp add: startEventChain_def resumeSelfSuspend_def)
qed

lemma with_timer_inputs: "with_timer f w = Some w1 \<Longrightarrow> inputs w1 = inputs w"
  by (auto simp: with_timer_def inputs_def)

lemma changeFBExecutionState_inputs [simp]:
  fixes w :: "'c world"
  shows "inputs (snd (changeFBExecutionState (\<lambda>b. b) n cmd i w)) = inputs w"
proof (induction n arbitrary: i w)
  case 0
  then show ?case
    by (auto simp: changeFBExecutionState.simps [where n = 0] Let_def intro!: inputs_upd split: option.split)
next
  case (Suc n)
  have f: "inputs (fold (\<lambda>a v. case a of None \<Rightarrow> v
      | Some j \<Rightarrow> snd (changeFBExecutionState (\<lambda>b. b) n cmd j v)) as v) = inputs v" for as and v :: "'c world"
    by (induction as arbitrary: v) (auto split: option.split simp: Suc.IH)
  show ?case
    by (auto simp: changeFBExecutionState.simps [where n = "Suc n"] Let_def f intro!: inputs_upd split: option.split)
qed

lemma ecc_loop_inputs:
  assumes "\<And>w e. inputs (snd (step e w)) = inputs w" and "ecc_loop step e w = Some w'"
  shows "inputs w' = inputs w"
  using ecc_loop_keeps [of "\<lambda>v. inputs v = inputs w" step, OF _ refl assms(2)] assms(1) by simp

lemma ctd_step_inputs: "inputs (snd (ctd_step i e w)) = inputs w"
  by (simp add: ctd_step_def Let_def ctd_enterCU_def ctd_enterLD_def ctd_alg_CD_def ctd_alg_LD_def split: option.split)

lemma ctud_step_inputs: "inputs (snd (ctud_step i e w)) = inputs w"
  by (simp add: ctud_step_def Let_def ctud_enterCU_def ctud_enterR_def ctud_enterCD_def ctud_enterLD_def ctud_enter_def
     ctud_alg_UpdateQUQD_def split: option.split)

lemma exec_timed_inputs:
  "exec_CTimedFB k i e a w = Some w' \<Longrightarrow> inputs w' = inputs w"
  "exec_E_DELAY i e a w = Some w' \<Longrightarrow> inputs w' = inputs w"
  "exec_E_RDELAY i e a w = Some w' \<Longrightarrow> inputs w' = inputs w"
proof -
  show a: "exec_CTimedFB k i e a w = Some w' \<Longrightarrow> inputs w' = inputs w" for k e a w w'
    by (auto simp: exec_CTimedFB_def dest: with_timer_inputs split: if_splits)
  show "exec_E_DELAY i e a w = Some w' \<Longrightarrow> inputs w' = inputs w"
    by (auto simp: exec_E_DELAY_def dest: a split: if_splits)
  show "exec_E_RDELAY i e a w = Some w' \<Longrightarrow> inputs w' = inputs w"
    by (auto simp: exec_E_RDELAY_def dest!: a with_timer_inputs split: if_splits option.splits)
qed

lemma exec_simple_inputs:
  "inputs (exec_E_CTU i e w) = inputs w" "inputs (exec_E_SPLIT i e w) = inputs w"
  "inputs (exec_E_MERGE i e w) = inputs w" "inputs (exec_E_SELECT i e w) = inputs w"
  "inputs (exec_E_SWITCH i e w) = inputs w" "inputs (exec_E_PERMIT i e w) = inputs w"
  "inputs (exec_E_DEMUX i e w) = inputs w" "inputs (exec_E_D_FF i e w) = inputs w"
  "inputs (exec_E_RS i e w) = inputs w" "inputs (exec_E_SR i e w) = inputs w"
  "inputs (exec_GEN_E_MUX i e w) = inputs w" "inputs (exec_GEN_E_DEMUX i e w) = inputs w"
  "inputs (exec_E_REND i e b1 b2 v) = inputs v" "inputs (exec_E_R_TRIG i e b1 v) = inputs v"
  "inputs (exec_E_F_TRIG i e b1 v) = inputs v" "inputs (exec_E_RESTART i e s m v) = inputs v"
  by (simp_all add: Let_def exec_E_CTU_def exec_E_SPLIT_def exec_E_MERGE_def exec_E_SELECT_def exec_E_SWITCH_def
     exec_E_PERMIT_def exec_E_DEMUX_def exec_E_D_FF_def exec_E_RS_def exec_E_SR_def exec_GEN_E_MUX_def
     exec_GEN_E_DEMUX_def exec_E_REND_def exec_E_R_TRIG_def exec_E_F_TRIG_def exec_E_RESTART_def split: option.split)

lemma exec_ecc_inputs:
  "exec_E_CTD i e w = Some w' \<Longrightarrow> inputs w' = inputs w" "exec_E_CTUD i e w = Some w' \<Longrightarrow> inputs w' = inputs w"
  unfolding exec_E_CTD_def exec_E_CTUD_def by (erule ecc_loop_inputs [rotated], rule ctd_step_inputs ctud_step_inputs)+

lemma exec_event_inputs:
  assumes "exec_event i e w = Some w'"
  shows "inputs w' = inputs w"
proof (cases "w_fbs w i")
  case None
  then show ?thesis using assms by (simp add: exec_event_def)
next
  case (Some b)
  note run = assms [unfolded exec_event_def Some option.case]
  show ?thesis
  proof (cases "fb_class b")
    case (C_Timed k a)
    then show ?thesis using run by (cases k) (auto dest: exec_timed_inputs)
  next
    case (C_E_CTD s)
    then show ?thesis using run by (simp add: exec_ecc_inputs(1))
  next
    case (C_E_CTUD s)
    then show ?thesis using run by (simp add: exec_ecc_inputs(2))
  qed (insert run, auto intro!: exec_simple_inputs)
qed

definition holds_forced :: "nat \<Rightarrow> nat \<Rightarrow> dpoint \<Rightarrow> 'c world \<Rightarrow> bool" where
  "holds_forced i p d w \<longleftrightarrow> dp_forced d \<and> (\<exists>ds. inputs w i = Some ds \<and> p < length ds \<and> ds ! p = d)"

lemma holds_forced_frame: "inputs w' = inputs w \<Longrightarrow> holds_forced i p d w' = holds_forced i p d w"
  by (simp add: holds_forced_def)

lemma sample_forced:
  "p < length (m_aoDIs b) \<Longrightarrow> dp_forced (m_aoDIs b ! p) \<Longrightarrow>
    p < length (m_aoDIs (fold (sample_DI w) ps b)) \<and> m_aoDIs (fold (sample_DI w) ps b) ! p = m_aoDIs b ! p"
proof (induction ps arbitrary: b)
  case (Cons q ps)
  have "length (m_aoDIs (sample_DI w q b)) = length (m_aoDIs b)" "m_aoDIs (sample_DI w q b) ! p = m_aoDIs b ! p"
    using Cons.prems by (cases "p = q"; simp add: sample_DI_def Let_def split: option.split)+
  then show ?case using Cons.IH [of "sample_DI w q b"] Cons.prems by simp
qed simp

text \<open>The contract of blocks that leave inputs to their connections.\<close>

locale input_reader = fb_behaviour exec for exec :: "nat \<Rightarrow> nat \<Rightarrow> 'c world \<Rightarrow> 'c world option" +
  assumes exec_inputs: "exec i e w = Some w' \<Longrightarrow> inputs w' = inputs w"
begin

lemma deliver_holds_forced:
  assumes "receiveInputEvent exec ev w = Some w'" and "holds_forced i p d w"
  shows "holds_forced i p d w'"
proof -
  have upd: "holds_forced i p d (w\<lparr>w_fbs := (w_fbs w)(mFB ev \<mapsto> b')\<rparr>)"
    if "w_fbs w (mFB ev) = Some b" "m_aoDIs b' = m_aoDIs (fold (sample_DI w) ps b)" for b b' ps
    using assms(2) that sample_forced [of p b w ps] by (auto simp: holds_forced_def inputs_def)
  have exec: "holds_forced i p d v'" if "exec j e v = Some v'" "holds_forced i p d v" for j e v v'
    using that holds_forced_frame [OF exec_inputs] by blast
  show ?thesis
  proof (cases "w_fbs w (mFB ev)")
    case None
    then show ?thesis using assms by (simp add: receiveInputEvent_def)
  next
    case (Some b)
    show ?thesis
      using assms upd [OF Some] unfolding receiveInputEvent_def Let_def Some option.case
      by (auto split: if_splits intro: exec)
  qed
qed

end

lemma transfer_inputs:
  "transferExternalEvents w = Some w' \<Longrightarrow> inputs w' = inputs w"
proof (induction w rule: transferExternalEvents.induct)
  case (1 s)
  have "inputs ((addEventEntry x s)\<lparr>mExternalEventList := l\<rparr>) = inputs s" for x l
    by (rule inputs_frame) simp
  then show ?case
    using "1.prems" "1.IH"
    by (subst (asm) transferExternalEvents.simps) (auto split: if_splits option.splits)
qed

context input_reader begin

lemma run_iteration_holds_forced:
  assumes "run_iteration (receiveInputEvent exec) w = Some w'" and "holds_forced i p d w"
  shows "holds_forced i p d w'"
proof -
  have frame: "holds_forced i p d v \<Longrightarrow> w_fbs v' = w_fbs v \<Longrightarrow> holds_forced i p d v'" for v v'
    by (simp add: holds_forced_def inputs_def)
  obtain w1 where w1: "(if externalEventOccured w then transferExternalEvents w else Some w) = Some w1"
    and run: "(if \<not> ring_nonempty (mEventList w1) then
            map_option (\<lambda>s2. s2\<lparr>mProcessingEvents := True\<rparr>) (selfSuspend (w1\<lparr>mProcessingEvents := False\<rparr>))
          else map_option (\<lambda>s2. s2\<lparr>mEventList := ring_drop (mEventList s2)\<rparr>)
              (case ring_first (mEventList w1) of None \<Rightarrow> Some w1 | Some x \<Rightarrow> receiveInputEvent exec x w1)) = Some w'"
    using assms(1) unfolding run_iteration_def by (auto split: option.splits)
  have h: "holds_forced i p d w1"
    using w1 assms(2) by (auto simp: holds_forced_frame [OF transfer_inputs] split: if_splits)
  show ?thesis
  proof (cases "ring_nonempty (mEventList w1)")
    case False
    then have "w_fbs w' = w_fbs w1" using run by (auto simp: selfSuspend_def split: nat.splits)
    then show ?thesis by (rule frame [OF h])
  next
    case True
    then obtain w2 where "(case ring_first (mEventList w1) of None \<Rightarrow> Some w1 | Some x \<Rightarrow> receiveInputEvent exec x w1) = Some w2"
      and w': "w' = w2\<lparr>mEventList := ring_drop (mEventList w2)\<rparr>" using run by auto
    then have "holds_forced i p d w2" using deliver_holds_forced h by (auto split: option.splits)
    then show ?thesis unfolding w' by (rule frame) simp
  qed
qed

lemma run_thread_holds_forced:
  "run_thread (receiveInputEvent exec) n w = Some w' \<Longrightarrow> holds_forced i p d w \<Longrightarrow> holds_forced i p d w'"
proof (induction n arbitrary: w)
  case (Suc n)
  then show ?case by (auto split: if_splits option.splits dest: run_iteration_holds_forced)
qed simp

end

interpretation event_inputs: input_reader exec_event
  by unfold_locales (rule exec_event_inputs)

text \<open>
  C14. An input of an event block that has been forced keeps the value that it was given, as long as it is forced,
  however many events are delivered, to whatever blocks, and whatever its connection brings.
\<close>

theorem forced_input_keeps_value:
  fixes R :: "fb_class_data resource"
  assumes "monitored_fb ns R = Some (i, b)" and "getPortId (last ns) (m_aunDONames (fb_spec b)) = cg_unInvalidPortId"
    and "getPortId (last ns) (m_aunDINames (fb_spec b)) = p" and "p < length (m_aoDIs b)" and "p \<noteq> cg_unInvalidPortId"
  shows "\<exists>R1. forceValue frs ns text R = (e_RDY, R1) \<and>
    (\<forall>n w'. run_thread (receiveInputEvent exec_event) n (res_world R1) = Some w' \<longrightarrow>
       (\<exists>b'. w_fbs w' i = Some b' \<and>
          m_aoDIs b' ! p = \<lparr>dp_val = snd (frs text (dp_val (m_aoDIs b ! p))), dp_forced = True\<rparr>))"
proof -
  let ?d = "\<lparr>dp_val = snd (frs text (dp_val (m_aoDIs b ! p))), dp_forced = True\<rparr>"
  let ?w = "(res_world R)\<lparr>w_fbs := (w_fbs (res_world R))(i \<mapsto> set_point (True, p) ?d b)\<rparr>"
  have "forceData (w_platform (res_world R)) frs (last ns) text b = (True, set_point (True, p) ?d b)"
    using assms(2,3,5) by (simp add: forceData_def Let_def)
  then have "forceValue frs ns text R = (e_RDY, set_world ?w R)"
    using assms(1) by (simp add: forceValue_def Let_def)
  moreover have "holds_forced i p ?d ?w" using assms(4) by (simp add: holds_forced_def inputs_def set_point_def)
  ultimately show ?thesis
    using event_inputs.run_thread_holds_forced [where w = ?w and i = i and p = p and d = ?d]
    by (fastforce simp: holds_forced_def inputs_def set_world_def)
qed

section \<open>Blocks of the same name\<close>

lemma remove_from_entry_none:
  "i \<notin> m_poFB ` set L \<Longrightarrow> remove_from_entry i p L = (e_NO_SUCH_OBJECT, L)"
  by (induction L) (auto simp: Let_def)

lemma monitored_fb_watches [simp]: "monitored_fb ns (R\<lparr>mFBMonitoringList := L\<rparr>) = monitored_fb ns R"
  by (simp add: monitored_fb_def contained_block_def cong: option.case_cong)

text \<open>
  C39. When a block of the same name, from another container, is already watched, Add Watch answers RDY but puts the
  port into the entry of that other block: the report then shows it under the other block, and Remove Watch, which
  compares the blocks and not their names, does not find it.
\<close>

theorem watch_of_namesake_goes_astray:
  assumes ok: "watches_ok (res_world R) (mFBMonitoringList R)" and at: "monitored_fb ns R = Some (i, b)"
    and e: "e \<in> set (mFBMonitoringList R)" "fb_name (res_world R) (m_poFB e) = Some (m_nFBInstanceName b)" "m_poFB e \<noteq> i"
    and port: "find_var (last ns) b \<noteq> None \<or> find_event (last ns) b \<noteq> None"
  shows "\<exists>R1. addWatch ns R = Some (e_RDY, R1) \<and> (m_poFB e, last ns) \<in> watched (mFBMonitoringList R1) \<and>
    removeWatch ns R1 = (e_NO_SUCH_OBJECT, R1)"
proof -
  let ?L = "mFBMonitoringList R" and ?w = "res_world R" and ?p = "last ns" and ?n = "Some (m_nFBInstanceName b)"
  let ?name = "\<lambda>e. fb_name ?w (m_poFB e)"
  let ?k = "length (takeWhile (\<lambda>e. ?name e \<noteq> ?n) ?L)"
  have b: "w_fbs ?w i = Some b" using at by (auto simp: monitored_fb_def split: if_splits option.splits)
  then have n: "fb_name ?w i = ?n" by (simp add: fb_name_def)
  have inj: "inj_on ?name (set ?L)" and names: "\<forall>e \<in> set ?L. ?name e \<noteq> None"
    using ok by (auto simp: watches_ok_def distinct_map dest: entry_ok_name)
  have "takeWhile (\<lambda>e. ?name e \<noteq> ?n) ?L \<noteq> ?L" using e(1,2) by (auto simp: takeWhile_eq_all_conv)
  then have k: "?k < length ?L"
    using takeWhile_eq_take [of "\<lambda>e. ?name e \<noteq> ?n" ?L] by (metis le_neq_implies_less length_takeWhile_le order_refl take_all)
  then have "?name (?L ! ?k) = ?n" using nth_length_takeWhile by fastforce
  then have ke: "?L ! ?k = e" using e(1,2) k by (intro inj_onD [OF inj]) simp_all
  have "i \<notin> m_poFB ` set ?L"
    using inj e n by (metis (no_types, lifting) imageE inj_onD)
  then have none: "i \<notin> m_poFB ` set (?L[?k := e'])" if "m_poFB e' = m_poFB e" for e'
    using that e(3) set_update_subset_insert [of ?L ?k e'] by auto
  have f: "findOrCreateFBMonitoringEntry (fb_name ?w) i (m_nFBInstanceName b) ?L = Some (?k, ?L)"
    using find_entry_position [OF names, of "m_nFBInstanceName b" 0] k by (simp add: findOrCreateFBMonitoringEntry_def)
  have done_: "(m_poFB e, ?p) \<in> watched (?L[?k := e'])" if e': "m_poFB e' = m_poFB e" "?p \<in> entry_ports e'" for e'
    unfolding watched_def
    by (rule UN_I [of e']) (simp_all only: set_update_memI [OF k] e' image_eqI [OF refl])
  obtain e' where e': "m_poFB e' = m_poFB e" "?p \<in> entry_ports e'"
    "addWatch ns R = Some (e_RDY, R\<lparr>mFBMonitoringList := ?L[?k := e']\<rparr>)"
  proof (cases "find_var ?p b")
    case (Some v)
    show ?thesis
      by (rule that [of "addDataWatch ?p (i, v) e"])
         (use Some f at ke in \<open>auto simp: addWatch_def addDataWatch_def entry_ports_def\<close>)
  next
    case None
    then obtain v where "find_event ?p b = Some v" using port by blast
    with None show ?thesis
      by (intro that [of "addEventWatch ?p (i, v) e"])
         (use f at ke in \<open>auto simp: addWatch_def addEventWatch_def entry_ports_def\<close>)
  qed
  then show ?thesis
    using done_ [OF e'(1,2)] remove_from_entry_none [OF none [OF e'(1)], of ?p] at
    by (auto simp: removeWatch_def Let_def)
qed

section \<open>A watched counter\<close>

lemma counter_ports:
  "find_var ''PV'' counter_fb = Some (True, 0)" "find_var ''CU'' counter_fb = None" "find_event ''CU'' counter_fb = Some (True, 0)"
  "getPortId ''PV'' (m_aunDONames (fb_spec counter_fb)) = cg_unInvalidPortId" "getPortId ''PV'' (m_aunDINames (fb_spec counter_fb)) = 0"
  unfolding find_var_def find_event_def counter_fb_simps by code_simp+

lemma counter_monitored: "monitored_fb [''Cnt'', p] counter_resource = Some (0, counter_fb)"
proof -
  have "getContainedFB (res_world counter_resource) (name_begin [''Cnt''] p) (res_cont counter_resource) =
      (Some 0, name_begin [''Cnt''] p)"
    by (subst getContainedFB.simps)
       (simp add: counter_resource_def getFB_def fb_name_def counter_fb_simps scm_nInvalidStringId_def)
  then show ?thesis using counter_variable(2) by (simp add: monitored_fb_def contained_block_def)
qed


theorem forced_input_keeps_value_witness:
  "\<exists>R1. forceValue (number_fromString undefined) [''Cnt'', ''PV''] (ascii ''305'') counter_resource = (e_RDY, R1) \<and>
    (\<forall>n w'. run_thread (receiveInputEvent exec_event) n (res_world R1) = Some w' \<longrightarrow>
       (\<exists>b'. w_fbs w' 0 = Some b' \<and> m_aoDIs b' ! 0 = \<lparr>dp_val = Elem e_UINT 305, dp_forced = True\<rparr>))"
proof -
  have r: "int_range e_UINT = Some (False, 0, 65535)" by simp
  have "number_text e_UINT 305 = [51, 48, 53]" by code_simp
  then have t: "elem_fromString e_UINT [51, 48, 53] 0 = (3, 305)"
    using elem_fromString_number [OF r, of 305 "[]" 0] by (simp add: ends_number_def)
  have len: "0 < length (m_aoDIs counter_fb)" and v: "dp_val (m_aoDIs counter_fb ! 0) = Elem e_UINT 0"
    using counter_fb_simps(3) counter_variable(3) by (auto simp: var_value_def)
  have "snd (number_fromString undefined (ascii ''305'') (dp_val (m_aoDIs counter_fb ! 0))) = Elem e_UINT 305"
    unfolding v by (simp add: number_fromString_def t)
  then show ?thesis
    using forced_input_keeps_value [OF counter_monitored, of "''PV''" 0 "number_fromString undefined" "ascii ''305''"]
      counter_ports(4,5) len by (simp add: cg_unInvalidPortId_def)
qed

text \<open>The counter after so many events that the report cannot be given.\<close>

definition busy_counter :: "fb_class_data fb" where
  "busy_counter = counter_fb\<lparr>m_nEIMonitorCount := [monitor_init\<lparr>mEventCount := 1000000000\<rparr>, monitor_init]\<rparr>"

definition busy_resource :: "fb_class_data resource" where
  "busy_resource = counter_resource
     \<lparr>res_rt := (res_rt counter_resource)\<lparr>rt_world := two_blocks\<lparr>w_fbs := [0 \<mapsto> busy_counter, 1 \<mapsto> counter_fb]\<rparr>\<rparr>,
      mFBMonitoringList := [\<lparr>m_poFB = 0, m_lstWatchedDataPoints = [],
        m_lstWatchedEventPoints = [\<lparr>ew_PortId = ''CU'', m_roEventData = (0, True, 0)\<rparr>]\<rparr>]\<rparr>"


text \<open>Two blocks \<open>F\<close>, one of them in the container \<open>A\<close>; the other one is watched.\<close>

definition twin_resource :: "fb_class_data resource" where
  "twin_resource = two_resource
     \<lparr>res_rt := (res_rt two_resource)\<lparr>rt_world := two_blocks\<lparr>w_fbs :=
        [0 \<mapsto> split_block ''F'' [] e_RUNNING, 1 \<mapsto> split_block ''F'' [] e_RUNNING]\<rparr>\<rparr>,
      mFBMonitoringList := [\<lparr>m_poFB = 0, m_lstWatchedDataPoints = [],
        m_lstWatchedEventPoints = [\<lparr>ew_PortId = ''EI'', m_roEventData = (0, True, 0)\<rparr>]\<rparr>]\<rparr>"

theorem watch_of_namesake_goes_astray_witness:
  "\<exists>R1. addWatch [''A'', ''F'', ''EO1''] twin_resource = Some (e_RDY, R1) \<and>
    (0, ''EO1'') \<in> watched (mFBMonitoringList R1) \<and> removeWatch [''A'', ''F'', ''EO1''] R1 = (e_NO_SUCH_OBJECT, R1)"
proof -
  let ?b = "split_block ''F'' [] e_RUNNING" and ?e = "\<lparr>m_poFB = 0, m_lstWatchedDataPoints = [],
        m_lstWatchedEventPoints = [\<lparr>ew_PortId = ''EI'', m_roEventData = (0, True, 0)\<rparr>]\<rparr>"
  have spec: "fb_spec ?b = E_SPLIT_spec" "m_nFBInstanceName ?b = ''F''"
    by (simp_all add: split_block_def new_FB_def E_SPLIT_spec_def no_data_spec_def)
  have ports: "find_var ''EI'' ?b = None" "find_event ''EI'' ?b = Some (True, 0)" "find_event ''EO1'' ?b = Some (False, 0)"
    unfolding find_var_def find_event_def spec by code_simp+
  have w: "w_fbs (res_world twin_resource) = [0 \<mapsto> ?b, 1 \<mapsto> ?b]" by (simp add: twin_resource_def)
  have list: "mFBMonitoringList twin_resource = [?e]" by (simp add: twin_resource_def)
  have names: "fb_name (res_world twin_resource) = [0 \<mapsto> ''F'', 1 \<mapsto> ''F'']"
    by (auto simp: fb_name_def w spec)
  have "contained_block [''A'', ''F''] ''EO1'' twin_resource = Some 1"
    using getContainedFB_lookup [of "[''A'', ''F'']" "res_world twin_resource" "''EO1''" "res_cont twin_resource"]
    by (simp add: contained_block_def names) (simp add: twin_resource_def two_resource_def two_tree_def)
  then have at: "monitored_fb [''A'', ''F'', ''EO1''] twin_resource = Some (1, ?b)"
    by (simp add: monitored_fb_def w)
  have "watches_ok (res_world twin_resource) (mFBMonitoringList twin_resource)"
    unfolding list by (auto simp: entry_ok_def w ports)
  then show ?thesis
    using watch_of_namesake_goes_astray [OF _ at, of ?e] ports spec names by (simp add: list)
qed

end
