(* ===== verification/Spec2Isabelle.thy ===== *)
theory Spec2Isabelle
  imports Event_Chain Data_Types Timer_Handler Event_FB_Laws ASN1_Laws String_Dict String_Text Value_Laws Boot_Laws Convert_Functions Comm_Laws Composite_State Monitoring_Laws
begin

text \<open>
  4diac FORTE, the runtime environment for IEC 61499 applications (C++, \<^verbatim>\<open>src/src\<close>), with its core, its
  standard event blocks, its communication and its management.

  \<^bold>\<open>How the program works.\<close> A device has resources, a resource has function blocks. A function block
  has event and data inputs and outputs; the connections belong to the outputs. The event chain thread
  of a resource takes the oldest event from its list and delivers it to its block: the block reads the
  data that comes with the event from its connections, executes, writes its outputs to their connections and
  posts its output events, which the thread will deliver later. Events also come from outside: from the
  timer handler, for blocks that have registered with it, and from the sockets, for communication blocks;
  they enter a second list that the thread empties into the first. Communication blocks pass their data through
  a stack of layers. Everything is created, connected, started, read and written by management
  commands, which the device manager parses from requests or from a boot file. Names are ids of one
  string dictionary.

  \<^bold>\<open>The state.\<close> The record \<open>world\<close> of \<open>Func_Block\<close> is the state of one resource; it extends the
  record of the thread (\<open>Event_Chain\<close>) by the blocks, the timer handler (\<open>Timer_Handler\<close>), the platform
  (the number formats and conversions of the C library and the compiler, a parameter of \<open>Data_Types\<close>) and what
  communication layers share (\<open>Com_Env\<close>). Blocks are known by numbers, which stand for the pointers of
  the code, and what a class of blocks adds to \<open>CFunctionBlock\<close> is a type parameter of the record. The record \<open>runtime\<close> of
  \<open>FB_Container\<close> adds the number of the next block and the last error of the type library; the
  containers are a tree beside it. Virtual functions are parameters of the operations that call them.

  \<^bold>\<open>The theories\<close>, in the order of their imports; \<open>core/\<close> stands for \<^verbatim>\<open>src/src/core/\<close>.

  \<^item> \<open>Forte_Prelude\<close>: machine types, management commands and answers, lemma collections.
  \<^item> \<open>Event_Chain\<close>: \<^verbatim>\<open>core/ecet.cpp\<close>. Two ring buffers with the pointers \<open>Start\<close> and \<open>End\<close>; \<open>addEventEntry\<close>,
    \<open>startEventChain\<close>, \<open>transferExternalEvents\<close>, \<open>run\<close>, \<open>changeExecutionState\<close>. A ring refines a queue
    with a latch (the slot that is lost when the list is full). The locale \<open>event_receiver\<close> holds what
    follows for any blocks that only post events: order, boundedness, the latch, delivery of every pending event.
  \<^item> \<open>Data_Types\<close>: \<^verbatim>\<open>core/datatypes\<close>. Values, \<open>setValue\<close>, the table of casts, \<open>specialCast\<close>.
  \<^item> \<open>Timer_Handler\<close>: \<^verbatim>\<open>arch/timerha.cpp\<close>. The time of two words, and the linked list of timed blocks in a
    store of entries; it refines a list sorted by due time.
  \<^item> \<open>Com_Env\<close>: the groups of the local communication layer, sockets and their callbacks. The locale
    \<open>registry\<close> is the contract of the groups, interpreted for publishers and for subscribers.
  \<^item> \<open>Func_Block\<close>: \<^verbatim>\<open>core/funcbloc.cpp\<close>, \<^verbatim>\<open>conn.cpp\<close>, \<^verbatim>\<open>eventconn.cpp\<close>, \<^verbatim>\<open>dataconn.cpp\<close>. \<open>receiveInputEvent\<close>,
    \<open>sendOutputEvent\<close>, connecting, execution state, breakpoints, construction. The locale \<open>fb_behaviour\<close> is the contract of
    \<open>executeEvent\<close> and a sublocale of \<open>event_receiver\<close>.
  \<^item> \<open>Event_Delivery\<close>, \<open>Connection_Laws\<close>: what delivery, breakpoints and connections promise, and where
    they break their promises.
  \<^item> \<open>Event_FBs\<close>, \<open>Event_FB_Laws\<close>: \<^verbatim>\<open>stdfblib/events\<close> and \<^verbatim>\<open>stdfblib/timedfb.cpp\<close>. \<open>exec_event\<close> dispatches
    \<open>executeEvent\<close>; it is interpreted as \<open>fb_behaviour\<close>, so that the thread theorems hold for it.
  \<^item> \<open>FB_Container\<close>, \<open>Container_Laws\<close>, \<open>Event_Types\<close>: \<^verbatim>\<open>core/fbcontainer.cpp\<close>, \<^verbatim>\<open>typelib.cpp\<close>. The tree of
    containers refines a finite map from paths of names to blocks. The locale \<open>state_changer\<close> is the
    contract of \<open>changeFBExecutionState\<close>, interpreted for the event blocks.
  \<^item> \<open>Resource\<close>, \<open>Resource_Laws\<close>: \<^verbatim>\<open>core/resource.cpp\<close>, \<^verbatim>\<open>device.cpp\<close>. Every management command.
  \<^item> \<open>Number_Text\<close>, \<open>Elementary_Text\<close>, \<open>Unicode_Utils\<close>, \<open>Unicode_Laws\<close>, \<open>String_Text\<close>: \<open>strtol\<close> and its
    relatives, \<open>fromString\<close> and \<open>toString\<close> of numbers and strings, UTF-8 and UTF-16.
  \<^item> \<open>Mgm_Parser\<close>, \<open>Mgm_Handler\<close>, \<open>Mgm_Laws\<close>, \<open>Value_Laws\<close>, \<open>Boot_Laws\<close>: \<^verbatim>\<open>stdfblib/ita/DEV_MGR.cpp\<close> and
    \<^verbatim>\<open>ForteBootFileLoader.cpp\<close>. Requests, responses and boot files.
  \<^item> \<open>String_Dict\<close>: \<^verbatim>\<open>core/stringdict.cpp\<close>. The locale \<open>interning\<close> states that ids stand for names; the other
    theories use names in the place of ids.
  \<^item> \<open>ASN1_Layer\<close>, \<open>ASN1_Laws\<close>: \<^verbatim>\<open>core/cominfra/fbdkasn1layer.cpp\<close>. Encoding, decoding, reassembly of packets.
  \<^item> \<open>Comm_FB\<close>, \<open>Comm_Frame\<close>, \<open>Comm_Laws\<close>: \<^verbatim>\<open>core/cominfra\<close> (\<^verbatim>\<open>basecommfb.cpp\<close>, \<^verbatim>\<open>commfb.cpp\<close>, the IP, local and
    raw layers) and \<^verbatim>\<open>arch/fdselecthand.cpp\<close>. The locale \<open>comm_frame\<close> derives from a few steps that a relation is kept by
    everything a communication block does; it is interpreted for the contract of blocks, which
    makes \<open>exec_CCommFB\<close> an \<open>fb_behaviour\<close>, and for the membership of layers in groups.
  \<^item> \<open>Convert_Functions\<close>: \<^verbatim>\<open>core/convert_functions.h\<close>.
  \<^item> \<open>Net_FB\<close>, \<open>Composite_FB\<close>, \<open>Net_Types\<close>: \<^verbatim>\<open>core/adapter.cpp\<close>, \<^verbatim>\<open>adapterconn.cpp\<close>, \<^verbatim>\<open>cfb.cpp\<close> and the time-out blocks of
    \<^verbatim>\<open>stdfblib/events\<close>. The class parameter of \<open>world\<close> is here \<open>net_class\<close>: an adapter, a composite, an \<open>E_TimeOut\<close>, or
    a block of another class, whose execution is that of the theories above, lifted by \<open>lift_exec\<close>. Memory that two blocks
    share in the code is copied by \<open>refresh\<close> and \<open>share\<close> before it is read and after it is written.
  \<^item> \<open>Adapter_Laws\<close>, \<open>Composite_Laws\<close>, \<open>Composite_State\<close>: adapters stay in pairs, which events and data cross; networks are
    wired as declared, and pass events and data; composites change their state as one. \<open>event_receiver\<close> is
    interpreted for networks of event and of communication blocks.

  \<^item> \<open>Monitoring\<close>, \<open>Monitoring_Laws\<close>: \<^verbatim>\<open>core/monitoring.cpp\<close> and \<open>forceData\<close> of \<^verbatim>\<open>core/funcbloc.cpp\<close>. The commands that watch, force,
    trigger and count; \<open>with_monitoring\<close> gives them to the commands of a resource and a device. The list of watches refines a set
    of ports. The locale \<open>input_reader\<close> extends \<open>fb_behaviour\<close> by the law that a block does not write its inputs, from which
    a forced input keeps its value; it is interpreted for the event blocks.

  \<^bold>\<open>Bounds, loops and termination.\<close> Buffer and list sizes are parameters, or the configured constants.
  Loops that may not end (the timer list when it has been corrupted, the search for a container with an
  empty name, an execution control chart) are partial functions whose value is then \<open>None\<close>; that they
  end is proved for the states where they do. The loop of the thread is bounded by the number of
  rounds; each theorem on it holds for every number. \<open>changeFBExecutionState\<close> is bounded by the depth of adapters,
  which is 1; what works through composites in composites is bounded by their depth, and \<open>None\<close> beyond it. The operating system answers the calls to a socket from a list; without an answer a call fails. \<open>None\<close> also stands
  for memory that the code must not touch.

  \<^bold>\<open>Not modelled.\<close> Threads, locks and clocks: an operation of the model is atomic, as the locks of the
  code intend. Memory layout and allocation (except in the dictionary). The base classes of
  generated blocks (\<^verbatim>\<open>core/basicfb.cpp\<close>), ANY adapters, composite outputs of type ANY, watches on blocks inside composites, the Lua engine, the framework for process I/O, the functions of IEC 61131-3 on values
  (\<^verbatim>\<open>core/iec61131_functions.h\<close>), text and conversion of REAL, LREAL, TIME and dates, user-defined types in the
  ASN.1 layer, the interface of generic communication blocks, asynchronous and serial layers, platform code,
  and the modules, which bind devices and third-party protocols.
\<close>

end
